(* ===== verification/Prelude.thy ===== *)
theory Prelude
  imports
    Main
    "HOL-Library.Sublist"
    "HOL-Library.Char_ord"
    "HOL-Library.List_Lexorder"
    "HOL-Library.Word"
    "HOL-Library.Multiset"
begin

text \<open>
  Shared vocabulary of the development: the model of Go values that every component uses.
  A Go \<^verbatim>\<open>string\<close> or \<^verbatim>\<open>[]byte\<close> is a \<open>string\<close> (a list of bytes); Go's
  byte order on strings is the lexicographic order of \<open>List_Lexorder\<close> over \<open>Char_ord\<close>.
  A Go \<^verbatim>\<open>int\<close> or \<^verbatim>\<open>int64\<close> is an \<open>int\<close>, with the 64-bit wrap-around
  written out where the code can overflow. A pair \<^verbatim>\<open>(value, error)\<close> is a sum whose
  left side is the error.
\<close>

section \<open>Automation collections\<close>

named_theorems go_text \<open>definitions of the string operations\<close>
named_theorems phase_defs \<open>the phase constants of the status file\<close>

section \<open>Results: value or error\<close>

definition bind_result :: "'e + 'a \<Rightarrow> ('a \<Rightarrow> 'e + 'b) \<Rightarrow> 'e + 'b" where
  "bind_result r f = (case r of Inl e \<Rightarrow> Inl e | Inr x \<Rightarrow> f x)"

definition require :: "bool \<Rightarrow> 'e \<Rightarrow> 'e + unit" where
  "require b e = (if b then Inr () else Inl e)"

lemma bind_result_simps [simp]:
  "bind_result (Inl e) f = Inl e"
  "bind_result (Inr x) f = f x"
  by (simp_all add: bind_result_def)

lemma bind_result_Inr_iff:
  "bind_result r f = Inr y \<longleftrightarrow> (\<exists>x. r = Inr x \<and> f x = Inr y)"
  by (cases r) simp_all

lemma bind_require_Inr [simp]:
  "bind_result (require b e) f = Inr y \<longleftrightarrow> b \<and> f () = Inr y"
  by (simp add: require_def)

lemma require_Inr [simp]: "require b e = Inr u \<longleftrightarrow> b"
  by (simp add: require_def)

definition is_ok :: "'e + 'a \<Rightarrow> bool" where
  "is_ok r = (case r of Inl _ \<Rightarrow> False | Inr _ \<Rightarrow> True)"

lemma is_ok_simps [simp]: "is_ok (Inl e) = False" "is_ok (Inr x) = True"
  by (simp_all add: is_ok_def)

lemma is_ok_iff: "is_ok r \<longleftrightarrow> (\<exists>x. r = Inr x)"
  by (cases r) simp_all

text \<open>A loop over a slice whose body may return an error stops at the first one.\<close>

fun each :: "('a \<Rightarrow> 'e + unit) \<Rightarrow> 'a list \<Rightarrow> 'e + unit" where
  "each f [] = Inr ()"
| "each f (x # xs) = bind_result (f x) (\<lambda>_. each f xs)"

lemma each_Inr: "each f xs = Inr () \<longleftrightarrow> (\<forall>x \<in> set xs. f x = Inr ())"
  by (induction xs) (auto simp: bind_result_Inr_iff)

section \<open>Reading a JSON file\<close>

text \<open>
  \<^verbatim>\<open>os.ReadFile\<close>, and a strict \<^verbatim>\<open>json.Decoder\<close>: the decoded value
  and whether anything but white space follows it.
\<close>

datatype 'a file_read = FileMissing | FileUnreadable | FileBytes 'a
datatype 'a strict_decode = DecodeFails | Decodes 'a bool

section \<open>Bytes and strings\<close>

definition byte_of :: "char \<Rightarrow> nat" where
  "byte_of c = of_char c"

definition is_digit :: "char \<Rightarrow> bool" where
  "is_digit c \<longleftrightarrow> 48 \<le> byte_of c \<and> byte_of c \<le> 57"

definition is_lower_hex :: "char \<Rightarrow> bool" where
  "is_lower_hex c \<longleftrightarrow> is_digit c \<or> (97 \<le> byte_of c \<and> byte_of c \<le> 102)"

definition is_space :: "char \<Rightarrow> bool" where
  "is_space c \<longleftrightarrow> byte_of c \<in> {9, 10, 11, 12, 13, 32}"

definition newline :: char where
  "newline = CHR 0x0A"

definition carriage_return :: char where
  "carriage_return = CHR 0x0D"

definition trim_left :: "string \<Rightarrow> string" where
  "trim_left s = dropWhile is_space s"

definition trim_right :: "string \<Rightarrow> string" where
  "trim_right s = rev (dropWhile is_space (rev s))"

text \<open>\<^verbatim>\<open>strings.TrimSpace\<close> on ASCII white space.\<close>

definition trim_space :: "string \<Rightarrow> string" where
  "trim_space s = trim_right (trim_left s)"

definition has_prefix :: "string \<Rightarrow> string \<Rightarrow> bool" where
  "has_prefix s p \<longleftrightarrow> take (length p) s = p"

definition has_suffix :: "string \<Rightarrow> string \<Rightarrow> bool" where
  "has_suffix s p \<longleftrightarrow> length p \<le> length s \<and> drop (length s - length p) s = p"

definition trim_suffix :: "string \<Rightarrow> string \<Rightarrow> string" where
  "trim_suffix s p = (if has_suffix s p then take (length s - length p) s else s)"

definition cut_prefix :: "string \<Rightarrow> string \<Rightarrow> string option" where
  "cut_prefix s p = (if has_prefix s p then Some (drop (length p) s) else None)"

text \<open>\<^verbatim>\<open>strings.Index\<close>: the first offset at which the substring occurs.\<close>

fun index_of :: "string \<Rightarrow> string \<Rightarrow> nat option" where
  "index_of [] p = (if p = [] then Some 0 else None)"
| "index_of (c # s) p =
     (if has_prefix (c # s) p then Some 0 else map_option Suc (index_of s p))"

definition contains :: "string \<Rightarrow> string \<Rightarrow> bool" where
  "contains s p \<longleftrightarrow> index_of s p \<noteq> None"

text \<open>\<^verbatim>\<open>strings.Split\<close> on a one-byte separator: always at least one part.\<close>

fun split_on :: "char \<Rightarrow> string \<Rightarrow> string list" where
  "split_on c [] = [[]]"
| "split_on c (x # xs) =
     (if x = c then [] # split_on c xs
      else (case split_on c xs of [] \<Rightarrow> [[x]] | p # ps \<Rightarrow> (x # p) # ps))"

fun join_with :: "string \<Rightarrow> string list \<Rightarrow> string" where
  "join_with sep [] = []"
| "join_with sep [x] = x"
| "join_with sep (x # y # ys) = x @ sep @ join_with sep (y # ys)"

text \<open>\<^verbatim>\<open>strings.Fields\<close>: the maximal runs of bytes that are not white space.\<close>

fun fields_acc :: "string \<Rightarrow> string \<Rightarrow> string list" where
  "fields_acc w [] = (if w = [] then [] else [rev w])"
| "fields_acc w (c # s) =
     (if is_space c then (if w = [] then fields_acc [] s else rev w # fields_acc [] s)
      else fields_acc (c # w) s)"

definition fields :: "string \<Rightarrow> string list" where
  "fields s = fields_acc [] s"

definition to_lower_byte :: "char \<Rightarrow> char" where
  "to_lower_byte c =
     (if 65 \<le> byte_of c \<and> byte_of c \<le> 90 then char_of (byte_of c + 32) else c)"

definition to_lower :: "string \<Rightarrow> string" where
  "to_lower s = map to_lower_byte s"

text \<open>The classes of bytes as sets of characters, which is how they are evaluated.\<close>

lemma byte_of_eq: "byte_of c = byte_of d \<longleftrightarrow> c = d"
  by (simp add: byte_of_def)

lemma mem_bytes: "c \<in> set s \<longleftrightarrow> byte_of c \<in> set (map byte_of s)"
  by (auto simp: byte_of_eq)

lemma is_digit_code [code]: "is_digit c \<longleftrightarrow> c \<in> set ''0123456789''"
  unfolding mem_bytes is_digit_def by (simp add: byte_of_def) presburger

lemma is_lower_hex_code [code]: "is_lower_hex c \<longleftrightarrow> c \<in> set ''0123456789abcdef''"
  unfolding mem_bytes is_lower_hex_def is_digit_def by (simp add: byte_of_def) presburger

definition upper_case :: string where
  "upper_case = ''ABCDEFGHIJKLMNOPQRSTUVWXYZ''"

definition lower_case :: string where
  "lower_case = ''abcdefghijklmnopqrstuvwxyz''"

lemma upper_case_bytes: "c \<in> set upper_case \<longleftrightarrow> 65 \<le> byte_of c \<and> byte_of c \<le> 90"
  unfolding mem_bytes upper_case_def by (simp add: byte_of_def) presburger

lemma to_lower_byte_code [code]:
  "to_lower_byte c = (case map_of (zip upper_case lower_case) c of None \<Rightarrow> c | Some d \<Rightarrow> d)"
proof (cases "c \<in> set upper_case")
  case True
  then have "c \<in> set ''ABCDEFGHIJKLMNOPQRSTUVWXYZ''" by (simp add: upper_case_def)
  then show ?thesis
    by (simp only: list.set insert_iff empty_iff, elim disjE)
      (simp_all add: to_lower_byte_def byte_of_def upper_case_def lower_case_def char_of_def bit_0)
next
  case False
  have "map_of (zip upper_case lower_case) c = None"
    using False by (simp add: map_of_eq_None_iff upper_case_def lower_case_def)
  moreover have "\<not> (65 \<le> byte_of c \<and> byte_of c \<le> 90)" using False upper_case_bytes by blast
  ultimately show ?thesis by (simp only: to_lower_byte_def if_False option.case)
qed

text \<open>\<^verbatim>\<open>strings.EqualFold\<close> on ASCII text.\<close>

definition equal_fold :: "string \<Rightarrow> string \<Rightarrow> bool" where
  "equal_fold a b \<longleftrightarrow> to_lower a = to_lower b"

text \<open>Quoted text and the UTF-8 dash of the program's messages.\<close>

definition quoted :: "string \<Rightarrow> string" where
  "quoted s = [CHR 0x27] @ s @ [CHR 0x27]"

definition em_dash :: string where
  "em_dash = [CHR 0xE2, CHR 0x80, CHR 0x94]"

declare byte_of_def [go_text] is_digit_def [go_text] is_lower_hex_def [go_text]
  is_space_def [go_text] newline_def [go_text] carriage_return_def [go_text]
  trim_left_def [go_text] trim_right_def [go_text] trim_space_def [go_text]
  has_prefix_def [go_text] has_suffix_def [go_text] trim_suffix_def [go_text]
  cut_prefix_def [go_text] contains_def [go_text] fields_def [go_text]
  to_lower_byte_def [go_text] to_lower_def [go_text] equal_fold_def [go_text]

lemma equal_fold_refl [simp]: "equal_fold a a"
  by (simp add: equal_fold_def)

lemma has_prefix_append [simp]: "has_prefix (p @ s) p"
  by (simp add: has_prefix_def)

lemma has_prefix_iff: "has_prefix s p \<longleftrightarrow> (\<exists>r. s = p @ r)"
  by (metis append_take_drop_id has_prefix_append has_prefix_def)

lemma has_suffix_append [simp]: "has_suffix (s @ p) p"
  by (simp add: has_suffix_def)

lemma index_of_iff: "index_of s p \<noteq> None \<longleftrightarrow> sublist p s"
proof (induction s)
  case (Cons c s)
  then show ?case by (auto simp: sublist_Cons_right prefix_def has_prefix_iff)
qed simp

lemma contains_iff: "contains s p \<longleftrightarrow> sublist p s"
  unfolding contains_def by (rule index_of_iff)

lemma trim_suffix_append [simp]: "trim_suffix (s @ p) p = s"
  by (simp add: trim_suffix_def)

lemma split_on_nonempty [simp]: "split_on c s \<noteq> []"
  by (cases s) (auto split: list.splits)

section \<open>Decimal digits\<close>

definition digit_char :: "nat \<Rightarrow> char" where
  "digit_char d = char_of (48 + d)"

definition digit_value :: "char \<Rightarrow> nat" where
  "digit_value c = byte_of c - 48"

text \<open>The decimal digits of a number, as \<^verbatim>\<open>%d\<close> prints them.\<close>

fun decimal :: "nat \<Rightarrow> string" where
  "decimal n = (if n < 10 then [digit_char n] else decimal (n div 10) @ [digit_char (n mod 10)])"

declare decimal.simps [simp del]

text \<open>The \<open>w\<close> low decimal digits of a number, most significant first.\<close>

fun zero_padded :: "nat \<Rightarrow> nat \<Rightarrow> string" where
  "zero_padded 0 n = []"
| "zero_padded (Suc w) n = zero_padded w (n div 10) @ [digit_char (n mod 10)]"

lemma length_zero_padded [simp]: "length (zero_padded w n) = w"
  by (induction w arbitrary: n) simp_all

lemma byte_of_digit_char [simp]: "d < 10 \<Longrightarrow> byte_of (digit_char d) = 48 + d"
  by (simp add: byte_of_def digit_char_def)

lemma is_digit_digit_char [simp]: "d < 10 \<Longrightarrow> is_digit (digit_char d)"
  by (simp add: is_digit_def)

lemma digit_value_digit_char [simp]: "d < 10 \<Longrightarrow> digit_value (digit_char d) = d"
  by (simp add: digit_value_def)

lemma digit_char_less [simp]:
  "a < 10 \<Longrightarrow> b < 10 \<Longrightarrow> digit_char a < digit_char b \<longleftrightarrow> a < b"
  by (simp add: less_char_def digit_char_def)

lemma digit_char_eq [simp]:
  "a < 10 \<Longrightarrow> b < 10 \<Longrightarrow> digit_char a = digit_char b \<longleftrightarrow> a = b"
  by (metis digit_value_digit_char)

lemma zero_padded_digits: "list_all is_digit (zero_padded w n)"
  by (induction w arbitrary: n) simp_all

definition max_int64 :: int where
  "max_int64 = 9223372036854775807"

definition min_int64 :: int where
  "min_int64 = -9223372036854775808"

text \<open>\<^verbatim>\<open>strconv.Atoi\<close> on a string of decimal digits, its error ignored: the value,
  or the largest \<^verbatim>\<open>int\<close> where the value does not fit.\<close>

definition decimal_value :: "string \<Rightarrow> nat" where
  "decimal_value s = foldl (\<lambda>n c. 10 * n + digit_value c) 0 s"

definition atoi_digits :: "string \<Rightarrow> int" where
  "atoi_digits s = min max_int64 (int (decimal_value s))"

text \<open>The 64-bit wrap-around of Go's integer arithmetic.\<close>

definition wrap64 :: "int \<Rightarrow> int" where
  "wrap64 x = sint (word_of_int x :: 64 word)"

lemma wrap64_id: "min_int64 \<le> x \<Longrightarrow> x \<le> max_int64 \<Longrightarrow> wrap64 x = x"
  by (simp add: wrap64_def min_int64_def max_int64_def signed_take_bit_int_eq_self
      signed_of_int take_bit_int_eq_self)

section \<open>Lists\<close>

text \<open>Byte order on concatenations whose first parts have the same length.\<close>

lemma append_less_append:
  fixes xs ys :: "('a::linorder) list"
  assumes "length xs = length xs'"
  shows "xs @ ys < xs' @ ys' \<longleftrightarrow> xs < xs' \<or> (xs = xs' \<and> ys < ys')"
  using assms by (induction xs xs' rule: list_induct2) auto

lemma div10_less: "n < 10 * k \<Longrightarrow> n div 10 < (k::nat)"
  by (simp add: less_mult_imp_div_less mult.commute)

lemma div_mod10_eq_iff: "a div 10 = b div 10 \<and> a mod 10 = b mod 10 \<longleftrightarrow> a = (b::nat)"
  by (metis div_mod_decomp)

lemma zero_padded_inject:
  "a < 10 ^ w \<Longrightarrow> b < 10 ^ w \<Longrightarrow> zero_padded w a = zero_padded w b \<longleftrightarrow> a = b"
proof (induction w arbitrary: a b)
  case 0
  then show ?case by simp
next
  case (Suc w)
  then have "zero_padded w (a div 10) = zero_padded w (b div 10) \<longleftrightarrow> a div 10 = b div 10"
    by (simp add: div10_less)
  then show ?case using div_mod10_eq_iff [of a b] by simp
qed

lemma div_mod10_less_iff:
  "a div 10 < b div 10 \<or> a div 10 = b div 10 \<and> a mod 10 < b mod 10 \<longleftrightarrow> a < (b::nat)"
proof -
  have "a = 10 * (a div 10) + a mod 10" "b = 10 * (b div 10) + b mod 10" by simp_all
  moreover have "a mod 10 < 10" "b mod 10 < 10" by simp_all
  ultimately show ?thesis by linarith
qed

lemma zero_padded_less:
  "a < 10 ^ w \<Longrightarrow> b < 10 ^ w \<Longrightarrow> zero_padded w a < zero_padded w b \<longleftrightarrow> a < b"
proof (induction w arbitrary: a b)
  case 0
  then show ?case by simp
next
  case (Suc w)
  then have "a div 10 < 10 ^ w" "b div 10 < 10 ^ w" by (simp_all add: div10_less)
  with Suc.IH [of "a div 10" "b div 10"] show ?case
    using div_mod10_less_iff [of a b]
    by (simp add: append_less_append zero_padded_inject)
qed

lemma sorted_take_le_drop:
  fixes xs :: "('a::linorder) list"
  assumes "sorted xs" "x \<in> set (take n xs)" "y \<in> set (drop n xs)"
  shows "x \<le> y"
proof -
  have "sorted (take n xs @ drop n xs)" using assms(1) by simp
  then show ?thesis using assms(2,3) by (meson sorted_append)
qed

end
