(* ===== verification/RunId.thy ===== *)
theory RunId
  imports Prelude "HOL-Library.Product_Lexorder"
begin

text \<open>
  Run identifiers, \<^verbatim>\<open>internal/runid/runid.go\<close>: the format check and the generator.
  The check is the regular expression of the source written as two lists of byte classes;
  the generator takes the calendar fields of the clock and the four random bytes.
\<close>

section \<open>The format\<close>

text \<open>A byte-class pattern matches a whole string, class by class.\<close>

definition match_classes :: "(char \<Rightarrow> bool) list \<Rightarrow> string \<Rightarrow> bool" where
  "match_classes ps s \<longleftrightarrow> list_all2 (\<lambda>p c. p c) ps s"

definition is_dash :: "char \<Rightarrow> bool" where
  "is_dash c \<longleftrightarrow> c = CHR ''-''"

definition legacy_pattern :: "(char \<Rightarrow> bool) list" where
  "legacy_pattern = replicate 8 is_digit @ [is_dash] @ replicate 6 is_digit"

definition suffix_pattern :: "(char \<Rightarrow> bool) list" where
  "suffix_pattern = [is_dash] @ replicate 8 is_lower_hex"

text \<open>\<^verbatim>\<open>^[0-9]{8}-[0-9]{6}(-[0-9a-f]{8})?$\<close>\<close>

definition IsValid :: "string \<Rightarrow> bool" where
  "IsValid s \<longleftrightarrow>
     match_classes legacy_pattern s \<or> match_classes (legacy_pattern @ suffix_pattern) s"

section \<open>The generator\<close>

record clock_time =
  year :: nat
  month :: nat
  day :: nat
  hour :: nat
  minute :: nat
  second :: nat

definition clock_ok :: "clock_time \<Rightarrow> bool" where
  "clock_ok t \<longleftrightarrow> year t \<le> 9999 \<and> month t \<le> 12 \<and> day t \<le> 31 \<and>
     hour t \<le> 23 \<and> minute t \<le> 59 \<and> second t \<le> 60"

definition hex_digit :: "nat \<Rightarrow> char" where
  "hex_digit d = (if d < 10 then char_of (48 + d) else char_of (87 + d))"

definition hex_byte :: "8 word \<Rightarrow> string" where
  "hex_byte b = [hex_digit (unat b div 16), hex_digit (unat b mod 16)]"

text \<open>
  \<^verbatim>\<open>t.Format("20060102-150405")\<close>: the year takes at least four digits, every
  other field two.
\<close>

definition format_year :: "nat \<Rightarrow> string" where
  "format_year y = (if y \<le> 9999 then zero_padded 4 y else decimal y)"

definition format_stamp :: "clock_time \<Rightarrow> string" where
  "format_stamp t = format_year (year t) @ zero_padded 2 (month t) @ zero_padded 2 (day t) @
     ''-'' @ zero_padded 2 (hour t) @ zero_padded 2 (minute t) @ zero_padded 2 (second t)"

definition Generate :: "clock_time \<Rightarrow> 8 word \<times> 8 word \<times> 8 word \<times> 8 word \<Rightarrow> string" where
  "Generate t b = (case b of (b0, b1, b2, b3) \<Rightarrow>
     format_stamp t @ ''-'' @ hex_byte b0 @ hex_byte b1 @ hex_byte b2 @ hex_byte b3)"

section \<open>Generated identifiers are valid and sort by time\<close>

text \<open>The order of the calendar: field by field, the year first.\<close>

definition clock_key :: "clock_time \<Rightarrow> nat \<times> nat \<times> nat \<times> nat \<times> nat \<times> nat" where
  "clock_key t = (year t, month t, day t, hour t, minute t, second t)"

lemma match_classes_append:
  "match_classes (ps @ qs) s \<longleftrightarrow> length ps \<le> length s \<and>
     match_classes ps (take (length ps) s) \<and> match_classes qs (drop (length ps) s)"
proof
  assume "match_classes (ps @ qs) s"
  then show "length ps \<le> length s \<and>
     match_classes ps (take (length ps) s) \<and> match_classes qs (drop (length ps) s)"
    by (fastforce simp: match_classes_def list_all2_append1)
next
  assume "length ps \<le> length s \<and>
     match_classes ps (take (length ps) s) \<and> match_classes qs (drop (length ps) s)"
  then have "match_classes (ps @ qs) (take (length ps) s @ drop (length ps) s)"
    unfolding match_classes_def by (blast intro: list_all2_appendI)
  then show "match_classes (ps @ qs) s" by simp
qed

lemma match_classes_replicate [simp]:
  "match_classes (replicate n p) s \<longleftrightarrow> length s = n \<and> list_all p s"
  by (auto simp: match_classes_def list_all2_conv_all_nth list_all_length)

lemma match_classes_Cons [simp]:
  "match_classes (p # ps) (c # s) \<longleftrightarrow> p c \<and> match_classes ps s"
  by (auto simp: match_classes_def)

lemma match_classes_Nil [simp]: "match_classes [] s \<longleftrightarrow> s = []"
  by (auto simp: match_classes_def)

lemma length_legacy_pattern: "length legacy_pattern = 15"
  by (simp add: legacy_pattern_def)

lemma is_lower_hex_hex_digit: "d < 16 \<Longrightarrow> is_lower_hex (hex_digit d)"
  by (auto simp: is_lower_hex_def is_digit_def byte_of_def hex_digit_def)

lemma hex_byte_length [simp]: "length (hex_byte b) = 2"
  by (simp add: hex_byte_def)

lemma hex_byte_hex: "list_all is_lower_hex (hex_byte b)"
proof -
  have "unat b < 256" using unsigned_less [of b] by simp
  then show ?thesis by (simp add: hex_byte_def is_lower_hex_hex_digit)
qed

lemma format_stamp_eq:
  "clock_ok t \<Longrightarrow> format_stamp t = (zero_padded 4 (year t) @ zero_padded 2 (month t) @
     zero_padded 2 (day t)) @ [CHR ''-''] @ (zero_padded 2 (hour t) @
     zero_padded 2 (minute t) @ zero_padded 2 (second t))"
  by (simp add: format_stamp_def format_year_def clock_ok_def)

lemma length_format_stamp: "clock_ok t \<Longrightarrow> length (format_stamp t) = 15"
  by (simp add: format_stamp_eq)

lemma format_stamp_legacy: "clock_ok t \<Longrightarrow> match_classes legacy_pattern (format_stamp t)"
  unfolding legacy_pattern_def
  by (simp add: format_stamp_eq match_classes_append zero_padded_digits is_dash_def)

lemma format_stamp_less:
  assumes "clock_ok t" "clock_ok t'"
  shows "format_stamp t < format_stamp t' \<longleftrightarrow> clock_key t < clock_key t'"
  using assms
  by (auto simp: format_stamp_eq clock_ok_def append_less_append zero_padded_less
      zero_padded_inject clock_key_def)

text \<open>
  C13. A generated run identifier always passes the format check, for every clock reading with
  a four-digit year and every four random bytes: what the generator writes, the stores accept.
\<close>

theorem Generate_IsValid: "clock_ok t \<Longrightarrow> IsValid (Generate t b)"
proof -
  assume ok: "clock_ok t"
  obtain b0 b1 b2 b3 where b: "b = (b0, b1, b2, b3)" by (cases b)
  show ?thesis unfolding IsValid_def b Generate_def suffix_pattern_def
    using format_stamp_legacy [OF ok] length_format_stamp [OF ok]
    by (simp add: match_classes_append [of legacy_pattern] hex_byte_hex is_dash_def
        length_legacy_pattern)
qed

theorem Generate_IsValid_witness:
  "IsValid (Generate \<lparr>year = 2026, month = 3, day = 1, hour = 10, minute = 22, second = 0\<rparr>
     (163, 248, 178, 193))"
  by (rule Generate_IsValid) (simp add: clock_ok_def)

text \<open>
  Byte order on generated identifiers is the order of the clock: an identifier generated at an
  earlier second sorts before every identifier generated at a later one, whatever the random
  suffixes. This is what \<open>List\<close> and \<open>Prune\<close> rely on for newest-first.
\<close>

theorem Generate_sorts_by_time:
  assumes "clock_ok t" "clock_ok t'" "clock_key t < clock_key t'"
  shows "Generate t b < Generate t' b'"
  using assms format_stamp_less [OF assms(1,2)]
  by (cases b; cases b') (simp add: Generate_def append_less_append length_format_stamp)

theorem Generate_sorts_by_time_witness:
  "Generate \<lparr>year = 2025, month = 12, day = 31, hour = 23, minute = 59, second = 59\<rparr>
     (255, 255, 255, 255)
   < Generate \<lparr>year = 2026, month = 1, day = 1, hour = 0, minute = 0, second = 0\<rparr> (0, 0, 0, 0)"
  by (rule Generate_sorts_by_time) (simp_all add: clock_ok_def clock_key_def)

end
