(* ===== verification/GoPath.thy ===== *)
theory GoPath
  imports Prelude
begin

text \<open>
  The part of Go's \<^verbatim>\<open>path/filepath\<close> the program uses, for the Unix build
  (separator \<^verbatim>\<open>/\<close>, no volume names): lexical cleaning, joining and relative paths.
  These are the library's documented lexical rules, on which the path handling of the
  configuration, the stores and the result post-processing rests.
\<close>

definition sep :: char where
  "sep = CHR ''/''"

definition IsAbs :: "string \<Rightarrow> bool" where
  "IsAbs p \<longleftrightarrow> has_prefix p [sep]"

text \<open>The non-empty elements between separators.\<close>

definition elements :: "string \<Rightarrow> string list" where
  "elements p = filter (\<lambda>e. e \<noteq> []) (split_on sep p)"

text \<open>
  One element of \<^verbatim>\<open>Clean\<close>: \<open>.\<close> is dropped; \<open>..\<close> removes the element before
  it, is dropped at the root, and is kept at the front of a relative path.
\<close>

definition clean_step :: "bool \<Rightarrow> string list \<Rightarrow> string \<Rightarrow> string list" where
  "clean_step rooted out e =
     (if e = ''.'' then out
      else if e = ''..'' then
        (if out \<noteq> [] \<and> last out \<noteq> ''..'' then butlast out
         else if rooted then out else out @ [e])
      else out @ [e])"

definition clean_elements :: "bool \<Rightarrow> string list \<Rightarrow> string list" where
  "clean_elements rooted es = foldl (clean_step rooted) [] es"

definition assemble :: "bool \<Rightarrow> string list \<Rightarrow> string" where
  "assemble rooted es =
     (if rooted then [sep] @ join_with [sep] es
      else if es = [] then ''.'' else join_with [sep] es)"

definition Clean :: "string \<Rightarrow> string" where
  "Clean p = assemble (IsAbs p) (clean_elements (IsAbs p) (elements p))"

text \<open>\<^verbatim>\<open>Join\<close> skips leading empty elements and cleans the rest.\<close>

definition Join :: "string list \<Rightarrow> string" where
  "Join es = (case dropWhile (\<lambda>e. e = []) es of [] \<Rightarrow> [] | r \<Rightarrow> Clean (join_with [sep] r))"

text \<open>\<^verbatim>\<open>Base\<close>: the last element, with trailing separators removed first.\<close>

definition Base :: "string \<Rightarrow> string" where
  "Base p = (if p = [] then ''.'' else
     (case elements p of [] \<Rightarrow> [sep] | es \<Rightarrow> last es))"

text \<open>\<^verbatim>\<open>Dir\<close>: everything up to the last separator, cleaned.\<close>

definition Dir :: "string \<Rightarrow> string" where
  "Dir p = Clean (rev (dropWhile (\<lambda>c. c \<noteq> sep) (rev p)))"

fun strip_common :: "string list \<Rightarrow> string list \<Rightarrow> string list \<times> string list" where
  "strip_common (a # as) (b # bs) = (if a = b then strip_common as bs else (a # as, b # bs))"
| "strip_common as bs = (as, bs)"

text \<open>
  \<^verbatim>\<open>Rel\<close>: \<open>None\<close> is the error, when one path is absolute and the other is not, or when
  the base still starts with \<open>..\<close> where the two part.
\<close>

definition Rel :: "string \<Rightarrow> string \<Rightarrow> string option" where
  "Rel base targ =
     (let b = Clean base; t = Clean targ in
      if t = b then Some ''.''
      else let b' = (if b = ''.'' then [] else b) in
        if IsAbs b' \<noteq> IsAbs t then None
        else (case strip_common (elements b') (elements t) of
            ([], rt) \<Rightarrow> Some (join_with [sep] rt)
          | (rb, rt) \<Rightarrow>
              (if hd rb = ''..'' then None
               else Some (join_with [sep] (replicate (length rb) ''..'' @ rt)))))"

section \<open>Splitting and joining are inverse on separator-free elements\<close>

definition plain :: "string \<Rightarrow> bool" where
  "plain e \<longleftrightarrow> e \<noteq> [] \<and> sep \<notin> set e"

lemma split_on_plain_append:
  "c \<notin> set e \<Longrightarrow> split_on c (e @ c # s) = e # split_on c s"
  by (induction e) (auto split: list.splits)

lemma split_on_plain: "c \<notin> set e \<Longrightarrow> split_on c e = [e]"
  by (induction e) auto

lemma split_on_parts: "p \<in> set (split_on c s) \<Longrightarrow> c \<notin> set p"
proof (induction s arbitrary: p)
  case Nil
  then show ?case by simp
next
  case (Cons x s)
  then show ?case by (auto split: if_splits list.splits)
qed

lemma elements_plain: "e \<in> set (elements p) \<Longrightarrow> plain e"
  by (auto simp: elements_def plain_def dest: split_on_parts)

lemma elements_join_with: "\<forall>e \<in> set es. plain e \<Longrightarrow> elements (join_with [sep] es) = es"
proof (induction es rule: induct_list012)
  case (3 x y ys)
  then show ?case
    by (simp add: elements_def plain_def split_on_plain_append)
qed (auto simp: elements_def plain_def split_on_plain)

lemma elements_sep_append: "elements (sep # s) = elements s"
  by (simp add: elements_def)

lemma clean_step_plain:
  "\<forall>e \<in> set out. plain e \<Longrightarrow> plain e \<Longrightarrow> \<forall>x \<in> set (clean_step r out e). plain x"
  by (auto simp: clean_step_def dest: in_set_butlastD)

lemma clean_elements_plain:
  "\<forall>e \<in> set es. plain e \<Longrightarrow> \<forall>x \<in> set (clean_elements r es). plain x"
proof -
  have "\<forall>e \<in> set es. plain e \<Longrightarrow> \<forall>e \<in> set out. plain e \<Longrightarrow>
      \<forall>x \<in> set (foldl (clean_step r) out es). plain x" for out
  proof (induction es arbitrary: out)
    case (Cons e es)
    have "\<forall>x \<in> set (clean_step r out e). plain x"
      by (rule clean_step_plain) (use Cons.prems in simp_all)
    then show ?case using Cons by simp
  qed simp
  from this [of "[]"] show "\<forall>e \<in> set es. plain e \<Longrightarrow> ?thesis" by (simp add: clean_elements_def)
qed

section \<open>Clean produces a normal form\<close>

text \<open>
  In a cleaned element list no element is \<open>.\<close>, and \<open>..\<close> occurs only at the front, and
  never in a rooted path.
\<close>

definition normal :: "bool \<Rightarrow> string list \<Rightarrow> bool" where
  "normal rooted es \<longleftrightarrow> ''.'' \<notin> set es \<and>
     (\<exists>n rest. es = replicate n ''..'' @ rest \<and> ''..'' \<notin> set rest \<and> (rooted \<longrightarrow> n = 0))"

lemma normal_Nil [simp]: "normal r []"
  by (auto simp: normal_def)

lemma normalI:
  "''..'' \<notin> set rest \<Longrightarrow> ''.'' \<notin> set rest \<Longrightarrow> (r \<longrightarrow> n = 0) \<Longrightarrow>
     normal r (replicate n ''..'' @ rest)"
  unfolding normal_def by (rule conjI) (simp, blast)

lemma normal_clean_step:
  assumes "normal r out"
  shows "normal r (clean_step r out e)"
proof -
  obtain n rest where out: "out = replicate n ''..'' @ rest" and dd: "''..'' \<notin> set rest"
    and r: "r \<longrightarrow> n = 0" and d: "''.'' \<notin> set out"
    using assms unfolding normal_def by blast
  consider "e = ''.''" | "e = ''..''" "rest = []" | "e = ''..''" "rest \<noteq> []"
    | "e \<noteq> ''.''" "e \<noteq> ''..''" by blast
  then show ?thesis
  proof cases
    case 1
    then show ?thesis using assms by (simp add: clean_step_def)
  next
    case 2
    have shape: "clean_step r out e = (if r then out else replicate (Suc n) ''..'')"
      using 2 out by (auto simp: clean_step_def replicate_append_same)
    have "normal False (replicate (Suc n) ''..'')"
      unfolding normal_def by (auto intro: exI [of _ "Suc n"])
    then show ?thesis using shape assms by (cases r) auto
  next
    case 3
    then have "last out \<in> set rest" using out by simp
    then have "last out \<noteq> ''..''" using dd by auto
    then have "clean_step r out e = replicate n ''..'' @ butlast rest"
      using 3 out by (simp add: clean_step_def butlast_append)
    moreover have "''..'' \<notin> set (butlast rest)" "''.'' \<notin> set (butlast rest)"
      using dd d out by (auto dest: in_set_butlastD)
    ultimately show ?thesis using r normalI by simp
  next
    case 4
    then have "clean_step r out e = replicate n ''..'' @ (rest @ [e])"
      using out by (simp add: clean_step_def)
    moreover have "''..'' \<notin> set (rest @ [e])" "''.'' \<notin> set (rest @ [e])" using dd d out 4 by auto
    ultimately show ?thesis using r normalI [of "rest @ [e]"] by simp
  qed
qed

lemma normal_clean_elements: "normal r (clean_elements r es)"
proof -
  have "normal r out \<Longrightarrow> normal r (foldl (clean_step r) out es)" for out
    by (induction es arbitrary: out) (simp_all add: normal_clean_step)
  then show ?thesis by (simp add: clean_elements_def)
qed

text \<open>A normal form is a fixed point of the cleaning fold.\<close>

lemma foldl_clean_plain:
  "''.'' \<notin> set es \<Longrightarrow> ''..'' \<notin> set es \<Longrightarrow> foldl (clean_step r) out es = out @ es"
  by (induction es arbitrary: out) (auto simp: clean_step_def)

lemma foldl_clean_dotdots:
  "foldl (clean_step False) (replicate m ''..'') (replicate n ''..'') = replicate (m + n) ''..''"
proof (induction n arbitrary: m)
  case (Suc n)
  have "clean_step False (replicate m ''..'') ''..'' = replicate (Suc m) ''..''"
    by (auto simp: clean_step_def replicate_append_same)
  then show ?case using Suc [of "Suc m"] by simp
qed simp

lemma clean_elements_normal:
  assumes "normal r es"
  shows "clean_elements r es = es"
proof -
  obtain n rest where es: "es = replicate n ''..'' @ rest" and dd: "''..'' \<notin> set rest"
    and r: "r \<longrightarrow> n = 0" and "''.'' \<notin> set es"
    using assms unfolding normal_def by blast
  then have d: "''.'' \<notin> set rest" by simp
  have "foldl (clean_step r) [] (replicate n ''..'') = replicate n ''..''"
    using foldl_clean_dotdots [of 0 n] r by (cases r) simp_all
  then show ?thesis using foldl_clean_plain [OF d dd] by (simp add: clean_elements_def es)
qed

lemma IsAbs_join_plain: "\<forall>e \<in> set es. plain e \<Longrightarrow> \<not> IsAbs (join_with [sep] es)"
proof (cases es)
  case (Cons e es')
  assume "\<forall>e \<in> set es. plain e"
  then obtain c e' where "e = c # e'" "c \<noteq> sep" using Cons by (cases e) (auto simp: plain_def)
  then show ?thesis using Cons by (cases es') (simp_all add: IsAbs_def has_prefix_def)
qed (simp add: IsAbs_def has_prefix_def)

lemma plain_dot [simp]: "plain ''.''" "plain ''..''"
  by (simp_all add: plain_def sep_def)

lemma elements_assemble:
  assumes "\<forall>e \<in> set es. plain e"
  shows "elements (assemble r es) = (if \<not> r \<and> es = [] then [''.''] else es)"
  using assms elements_join_with [of "[''.'']"]
  by (simp add: assemble_def elements_sep_append elements_join_with)

lemma IsAbs_assemble:
  assumes "\<forall>e \<in> set es. plain e"
  shows "IsAbs (assemble r es) = r"
  using assms IsAbs_join_plain [of es] IsAbs_join_plain [of "[''.'']"]
  by (auto simp: assemble_def IsAbs_def has_prefix_def)

lemma plain_Clean_elements: "\<forall>e \<in> set (clean_elements r (elements p)). plain e"
  by (rule clean_elements_plain) (simp add: elements_plain)

lemma IsAbs_Clean [simp]: "IsAbs (Clean p) = IsAbs p"
  by (simp add: Clean_def IsAbs_assemble plain_Clean_elements)

lemma clean_elements_dot [simp]: "clean_elements r [''.''] = []"
  by (simp add: clean_elements_def clean_step_def)

lemma Clean_idem: "Clean (Clean p) = Clean p"
  using normal_clean_elements [of "IsAbs p" "elements p"]
  by (subst Clean_def) (auto simp: Clean_def IsAbs_assemble elements_assemble
      plain_Clean_elements clean_elements_normal)

lemma elements_Clean_abs:
  "IsAbs p \<Longrightarrow> elements (Clean p) = clean_elements True (elements p)"
  by (simp add: Clean_def elements_assemble plain_Clean_elements)

lemma Clean_eq_abs:
  "IsAbs p \<Longrightarrow> Clean p = [sep] @ join_with [sep] (clean_elements True (elements p))"
  by (simp add: Clean_def assemble_def)

lemma clean_elements_append_plain:
  assumes "''.'' \<notin> set es" "''..'' \<notin> set es"
  shows "clean_elements r (xs @ es) = clean_elements r xs @ es"
  using foldl_clean_plain [OF assms] by (simp add: clean_elements_def)

lemma Join_nonempty: "p \<noteq> [] \<Longrightarrow> Join (p # es) = Clean (join_with [sep] (p # es))"
  by (simp add: Join_def)

lemma IsAbs_join_with: "IsAbs p \<Longrightarrow> IsAbs (join_with [sep] (p # es))"
  by (cases p; cases es) (simp_all add: IsAbs_def has_prefix_def)

lemma IsAbs_nonempty_path: "IsAbs p \<Longrightarrow> p \<noteq> []"
  by (auto simp: IsAbs_def has_prefix_def)

lemma IsAbs_Nil [simp]: "\<not> IsAbs []"
  by (simp add: IsAbs_def has_prefix_def)

lemma Join_abs: "IsAbs p \<Longrightarrow> IsAbs (Join (p # es))"
  by (cases "p = []") (simp_all add: Join_nonempty IsAbs_join_with)

section \<open>Rel against a directory that contains the target\<close>

lemma strip_common_append: "strip_common as (as @ bs) = ([], bs)"
  by (induction as) (cases bs; simp)+

lemma strip_common_self: "strip_common as as = ([], [])"
  by (induction as) auto

end
