(* ===== verification/Status.thy ===== *)
theory Status
  imports Prelude
begin

text \<open>
  The status file and the event log of a run: \<^verbatim>\<open>internal/status/status.go\<close>,
  \<^verbatim>\<open>events.go\<close> and \<^verbatim>\<open>manager.go\<close>, and the two wrappers of a status writer,
  the \<^verbatim>\<open>readyNotifier\<close> of \<^verbatim>\<open>internal/scenario/notify.go\<close> and the
  \<^verbatim>\<open>runIDWriter\<close> of \<^verbatim>\<open>internal/runsvc/service.go\<close>.
  A writer is a state and a step \<open>status \<Rightarrow> 'w \<Rightarrow> bool \<times> 'w\<close>; the boolean is
  \<open>True\<close> where the Go method returns a nil error. The outcome of each file operation and the
  clock are a parameter \<open>io\<close>, indexed by the number of the operation.
\<close>

section \<open>Phases and statuses\<close>

type_synonym phase = string

definition PhaseWaiting :: phase where "PhaseWaiting = ''waiting''"
definition PhaseCompiling :: phase where "PhaseCompiling = ''compiling''"
definition PhaseRunning :: phase where "PhaseRunning = ''running''"
definition PhaseDone :: phase where "PhaseDone = ''done''"
definition PhaseTimeoutCompile :: phase where "PhaseTimeoutCompile = ''timeout_compile''"
definition PhaseTimeoutTest :: phase where "PhaseTimeoutTest = ''timeout_test''"
definition PhaseTimeoutTotal :: phase where "PhaseTimeoutTotal = ''timeout_total''"
definition PhaseInterrupted :: phase where "PhaseInterrupted = ''interrupted''"

declare PhaseWaiting_def [phase_defs] PhaseCompiling_def [phase_defs]
  PhaseRunning_def [phase_defs] PhaseDone_def [phase_defs] PhaseTimeoutCompile_def [phase_defs]
  PhaseTimeoutTest_def [phase_defs] PhaseTimeoutTotal_def [phase_defs]
  PhaseInterrupted_def [phase_defs]

record status =
  st_schema_version :: string
  st_seq :: int
  st_phase :: phase
  st_run_id :: string
  st_total :: int
  st_passed :: int
  st_failed :: int
  st_current_test :: string
  st_exit_code :: "int option"
  st_updated_at :: string
  st_started_at :: string
  st_last_heartbeat_at :: string
  st_pid :: int
  st_artifact_root :: string

text \<open>The Go zero value, and \<^verbatim>\<open>status.Status{Phase: p}\<close>.\<close>

definition zero_status :: status where
  "zero_status = \<lparr>st_schema_version = [], st_seq = 0, st_phase = [], st_run_id = [], st_total = 0,
     st_passed = 0, st_failed = 0, st_current_test = [], st_exit_code = None, st_updated_at = [],
     st_started_at = [], st_last_heartbeat_at = [], st_pid = 0, st_artifact_root = []\<rparr>"

definition phase_status :: "phase \<Rightarrow> status" where
  "phase_status p = zero_status\<lparr>st_phase := p\<rparr>"

lemma st_phase_phase_status [simp]: "st_phase (phase_status p) = p"
  by (simp add: phase_status_def)

section \<open>The status file writer\<close>

record file_writer =
  fw_seq :: int
  fw_file :: "status option"

definition NewWriter :: file_writer where
  "NewWriter = \<lparr>fw_seq = 0, fw_file = None\<rparr>"

text \<open>
  \<open>io n\<close> is whether the atomic replacement number \<open>n\<close> succeeds, and the time it happens. The
  sequence number advances on every call, whether or not the file could be replaced.
\<close>

definition Writer_Write ::
    "(int \<Rightarrow> bool \<times> string) \<Rightarrow> status \<Rightarrow> file_writer \<Rightarrow> bool \<times> file_writer" where
  "Writer_Write io s w =
     (let seq = fw_seq w + 1;
          s' = s\<lparr>st_schema_version := ''1'', st_seq := seq, st_updated_at := snd (io seq)\<rparr>
      in if fst (io seq) then (True, w\<lparr>fw_seq := seq, fw_file := Some s'\<rparr>)
         else (False, w\<lparr>fw_seq := seq\<rparr>))"

section \<open>The event log\<close>

record event =
  ev_event :: string
  ev_run_id :: string
  ev_phase :: string
  ev_timestamp :: string
  ev_reason :: string
  ev_exit_code :: "int option"
  ev_ipc_seq :: "int option"
  ev_ipc_kind :: string
  ev_ipc_peer :: string

record event_log =
  el_calls :: nat
  el_lines :: "event list"

definition NewEventLog :: event_log where
  "NewEventLog = \<lparr>el_calls = 0, el_lines = []\<rparr>"

definition EventLog_Append ::
    "(nat \<Rightarrow> bool \<times> string) \<Rightarrow> event \<Rightarrow> event_log \<Rightarrow> bool \<times> event_log" where
  "EventLog_Append io e l =
     (let e' = (if ev_timestamp e = [] then e\<lparr>ev_timestamp := snd (io (el_calls l))\<rparr> else e)
      in if fst (io (el_calls l))
         then (True, l\<lparr>el_calls := Suc (el_calls l), el_lines := el_lines l @ [e']\<rparr>)
         else (False, l\<lparr>el_calls := Suc (el_calls l)\<rparr>))"

definition phaseToEvent :: "phase \<Rightarrow> string \<times> string" where
  "phaseToEvent p =
     (if p = PhaseCompiling then (''run_started'', [])
      else if p = PhaseRunning then (''phase_changed'', [])
      else if p = PhaseDone then (''run_finished'', [])
      else if p = PhaseTimeoutCompile then (''timeout'', ''compile'')
      else if p = PhaseTimeoutTest then (''timeout'', ''test'')
      else if p = PhaseTimeoutTotal then (''timeout'', ''total'')
      else if p = PhaseInterrupted then (''interrupted'', [])
      else (''phase_changed'', to_lower p))"

definition event_of_status :: "status \<Rightarrow> event" where
  "event_of_status s = (let (n, r) = phaseToEvent (st_phase s) in
     \<lparr>ev_event = n, ev_run_id = st_run_id s, ev_phase = st_phase s, ev_timestamp = [],
      ev_reason = r, ev_exit_code = st_exit_code s, ev_ipc_seq = None, ev_ipc_kind = [],
      ev_ipc_peer = []\<rparr>)"

section \<open>The manager: snapshot and event log together\<close>

record 'w manager =
  mg_snapshot :: 'w
  mg_events :: event_log
  mg_last :: status

definition NewManager :: "'w \<Rightarrow> event_log \<Rightarrow> 'w manager" where
  "NewManager w l = \<lparr>mg_snapshot = w, mg_events = l, mg_last = zero_status\<rparr>"

text \<open>Run-scoped fields that the caller left at their zero value come from the last write.\<close>

definition inherit :: "status \<Rightarrow> status \<Rightarrow> status" where
  "inherit old s =
     s\<lparr>st_started_at := (if st_started_at s = [] then st_started_at old else st_started_at s),
       st_pid := (if st_pid s = 0 then st_pid old else st_pid s),
       st_artifact_root :=
         (if st_artifact_root s = [] then st_artifact_root old else st_artifact_root s),
       st_run_id := (if st_run_id s = [] then st_run_id old else st_run_id s)\<rparr>"

definition Manager_Write ::
    "(status \<Rightarrow> 'w \<Rightarrow> bool \<times> 'w) \<Rightarrow> (nat \<Rightarrow> bool \<times> string) \<Rightarrow> status \<Rightarrow> 'w manager
       \<Rightarrow> bool \<times> 'w manager" where
  "Manager_Write wr io s0 m =
     (let s = inherit (mg_last m) s0; m1 = m\<lparr>mg_last := s\<rparr>
      in case wr s (mg_snapshot m1) of
           (False, w) \<Rightarrow> (False, m1\<lparr>mg_snapshot := w\<rparr>)
         | (True, w) \<Rightarrow>
             (case EventLog_Append io (event_of_status s) (mg_events m1) of
                (ok, l) \<Rightarrow> (ok, m1\<lparr>mg_snapshot := w, mg_events := l\<rparr>)))"

definition Manager_Heartbeat ::
    "(status \<Rightarrow> 'w \<Rightarrow> bool \<times> 'w) \<Rightarrow> string \<Rightarrow> 'w manager \<Rightarrow> bool \<times> 'w manager" where
  "Manager_Heartbeat wr now m =
     (if st_phase (mg_last m) = [] then (True, m)
      else let s = (mg_last m)\<lparr>st_last_heartbeat_at := now\<rparr> in
        (case wr s (mg_snapshot m) of
           (ok, w) \<Rightarrow> (ok, m\<lparr>mg_last := s, mg_snapshot := w\<rparr>)))"

section \<open>Wrappers\<close>

text \<open>\<open>rn_closed\<close> is whether the ready channel has been closed; it is closed at most once.\<close>

record 'w ready_notifier =
  rn_inner :: 'w
  rn_target :: phase
  rn_closed :: bool

definition NewReadyNotifier :: "'w \<Rightarrow> phase \<Rightarrow> 'w ready_notifier" where
  "NewReadyNotifier w p = \<lparr>rn_inner = w, rn_target = p, rn_closed = False\<rparr>"

definition readyNotifier_Write ::
    "(status \<Rightarrow> 'w \<Rightarrow> bool \<times> 'w) \<Rightarrow> status \<Rightarrow> 'w ready_notifier \<Rightarrow> bool \<times> 'w ready_notifier" where
  "readyNotifier_Write wr s n =
     (let n1 = (if st_phase s = rn_target n then n\<lparr>rn_closed := True\<rparr> else n)
      in case wr s (rn_inner n1) of (ok, w) \<Rightarrow> (ok, n1\<lparr>rn_inner := w\<rparr>))"

record 'w run_id_writer =
  rw_inner :: 'w
  rw_run_id :: string

definition runIDWriter_Write ::
    "(status \<Rightarrow> 'w \<Rightarrow> bool \<times> 'w) \<Rightarrow> status \<Rightarrow> 'w run_id_writer \<Rightarrow> bool \<times> 'w run_id_writer" where
  "runIDWriter_Write wr s r =
     (case wr (s\<lparr>st_run_id := rw_run_id r\<rparr>) (rw_inner r) of (ok, w) \<Rightarrow> (ok, r\<lparr>rw_inner := w\<rparr>))"

text \<open>The writer that discards everything.\<close>

definition noop_Write :: "status \<Rightarrow> unit \<Rightarrow> bool \<times> unit" where
  "noop_Write s u = (True, u)"

text \<open>A sequence of writes, their errors ignored as every caller in the program does.\<close>

definition write_all :: "(status \<Rightarrow> 'w \<Rightarrow> bool \<times> 'w) \<Rightarrow> status list \<Rightarrow> 'w \<Rightarrow> 'w" where
  "write_all wr ss w = foldl (\<lambda>w s. snd (wr s w)) w ss"

lemma write_all_simps [simp]:
  "write_all wr [] w = w"
  "write_all wr (s # ss) w = write_all wr ss (snd (wr s w))"
  "write_all wr (ss @ ss') w = write_all wr ss' (write_all wr ss w)"
  by (simp_all add: write_all_def)

section \<open>The interface: a writer that forwards every status to the writer it wraps\<close>

text \<open>
  \<open>sent s w\<close> is the status the wrapper passes on for \<open>s\<close>; it may stamp metadata but never
  changes the phase. Under this law the wrapped writer sees exactly the phases that were written,
  in order, whatever the outcome of the file operations.
\<close>

locale forwarding_writer =
  fixes wr :: "status \<Rightarrow> 'w \<Rightarrow> bool \<times> 'w"
    and wr_in :: "status \<Rightarrow> 'i \<Rightarrow> bool \<times> 'i"
    and inner :: "'w \<Rightarrow> 'i"
    and sent :: "status \<Rightarrow> 'w \<Rightarrow> status"
  assumes forwards: "inner (snd (wr s w)) = snd (wr_in (sent s w) (inner w))"
    and same_phase: "st_phase (sent s w) = st_phase s"
begin

fun sent_all :: "status list \<Rightarrow> 'w \<Rightarrow> status list" where
  "sent_all [] w = []"
| "sent_all (s # ss) w = sent s w # sent_all ss (snd (wr s w))"

lemma phases_sent_all: "map st_phase (sent_all ss w) = map st_phase ss"
  by (induction ss arbitrary: w) (simp_all add: same_phase)

lemma inner_write_all: "inner (write_all wr ss w) = write_all wr_in (sent_all ss w) (inner w)"
  by (induction ss arbitrary: w) (simp_all add: forwards)

lemma inner_sees_phases:
  "\<exists>ss'. map st_phase ss' = map st_phase ss \<and>
     inner (write_all wr ss w) = write_all wr_in ss' (inner w)"
  using phases_sent_all inner_write_all by blast

end

text \<open>The phases a wrapper passes on, and the field it keeps its inner writer in.\<close>

lemma st_phase_inherit [simp]: "st_phase (inherit old s) = st_phase s"
  by (simp add: inherit_def)

lemma inner_readyNotifier_Write [simp]:
  "rn_inner (snd (readyNotifier_Write wr s n)) = snd (wr s (rn_inner n))"
  by (simp add: readyNotifier_Write_def Let_def split: prod.split)

lemma inner_runIDWriter_Write [simp]:
  "rw_inner (snd (runIDWriter_Write wr s r)) =
     snd (wr (s\<lparr>st_run_id := rw_run_id r\<rparr>) (rw_inner r))"
  by (simp add: runIDWriter_Write_def split: prod.split)

lemma inner_Manager_Write [simp]:
  "mg_snapshot (snd (Manager_Write wr io s m)) = snd (wr (inherit (mg_last m) s) (mg_snapshot m))"
  by (simp add: Manager_Write_def Let_def split: prod.split bool.split)

interpretation notifier: forwarding_writer "readyNotifier_Write wr" wr rn_inner "\<lambda>s n. s"
  for wr :: "status \<Rightarrow> 'w \<Rightarrow> bool \<times> 'w"
  by unfold_locales simp_all

interpretation stamper: forwarding_writer "runIDWriter_Write wr" wr rw_inner
    "\<lambda>s r. s\<lparr>st_run_id := rw_run_id r\<rparr>"
  for wr :: "status \<Rightarrow> 'w \<Rightarrow> bool \<times> 'w"
  by unfold_locales simp_all

interpretation keeper: forwarding_writer "Manager_Write wr io" wr mg_snapshot
    "\<lambda>s m. inherit (mg_last m) s"
  for wr :: "status \<Rightarrow> 'w \<Rightarrow> bool \<times> 'w" and io
  by unfold_locales simp_all

section \<open>Properties of the status channel\<close>

lemma rn_target_Write [simp]: "rn_target (snd (readyNotifier_Write wr s n)) = rn_target n"
  by (simp add: readyNotifier_Write_def Let_def split: prod.split)

lemma rn_closed_Write:
  "rn_closed (snd (readyNotifier_Write wr s n)) \<longleftrightarrow> rn_closed n \<or> st_phase s = rn_target n"
  by (simp add: readyNotifier_Write_def Let_def split: prod.split)

lemma rn_closed_write_all:
  "rn_closed (write_all (readyNotifier_Write wr) ss n) \<longleftrightarrow>
     rn_closed n \<or> rn_target n \<in> st_phase ` set ss"
  by (induction ss arbitrary: n) (auto simp: rn_closed_Write)

text \<open>The writer chain of one scenario instance, from the service down to the status file.\<close>

definition run_writer ::
    "(int \<Rightarrow> bool \<times> string) \<Rightarrow> (nat \<Rightarrow> bool \<times> string) \<Rightarrow> status
       \<Rightarrow> file_writer ready_notifier manager run_id_writer
       \<Rightarrow> bool \<times> file_writer ready_notifier manager run_id_writer" where
  "run_writer io io_ev =
     runIDWriter_Write (Manager_Write (readyNotifier_Write (Writer_Write io)) io_ev)"

definition new_run_writer ::
    "phase \<Rightarrow> string \<Rightarrow> file_writer ready_notifier manager run_id_writer" where
  "new_run_writer target run_id =
     \<lparr>rw_inner = NewManager (NewReadyNotifier NewWriter target) NewEventLog, rw_run_id = run_id\<rparr>"

text \<open>
  C7. The ready signal of a scenario instance is exact. Through the whole chain of writers the
  service builds (run-id stamper, manager, ready notifier, status file), the ready channel is closed
  after a sequence of status writes if and only if one of them carried the target phase, whatever
  file operations failed on the way.
\<close>

theorem ready_signal_exact:
  "rn_closed (mg_snapshot (rw_inner
      (write_all (run_writer io io_ev) ss (new_run_writer target run_id)))) \<longleftrightarrow>
   target \<in> st_phase ` set ss"
proof -
  let ?c = "new_run_writer target run_id"
  obtain s1 where p1: "map st_phase s1 = map st_phase ss"
    and i1: "rw_inner (write_all (run_writer io io_ev) ss ?c) =
      write_all (Manager_Write (readyNotifier_Write (Writer_Write io)) io_ev) s1 (rw_inner ?c)"
    unfolding run_writer_def using stamper.inner_sees_phases by blast
  obtain s2 where p2: "map st_phase s2 = map st_phase s1"
    and i2: "mg_snapshot (write_all (Manager_Write (readyNotifier_Write (Writer_Write io)) io_ev)
        s1 (rw_inner ?c)) =
      write_all (readyNotifier_Write (Writer_Write io)) s2 (mg_snapshot (rw_inner ?c))"
    using keeper.inner_sees_phases by blast
  have "st_phase ` set s2 = st_phase ` set ss" using p1 p2 by (metis set_map)
  then show ?thesis
    unfolding i1 i2 rn_closed_write_all
    by (simp add: new_run_writer_def NewManager_def NewReadyNotifier_def)
qed

lemma fw_seq_write_all: "fw_seq (write_all (Writer_Write io) ss w) = fw_seq w + int (length ss)"
  by (induction ss arbitrary: w) (simp_all add: Writer_Write_def Let_def)

text \<open>The status file holds the last write that reached the disk, numbered by its position.\<close>

lemma fw_file_write_all:
  assumes "\<forall>f. fw_file w = Some f \<longrightarrow> st_seq f \<le> fw_seq w"
    and "fw_file (write_all (Writer_Write io) ss w) = Some f"
  shows "st_seq f \<le> fw_seq w + int (length ss) \<and>
     (fw_file w = Some f \<or> fw_seq w < st_seq f)"
  using assms
proof (induction ss arbitrary: w)
  case (Cons s ss)
  let ?w = "snd (Writer_Write io s w)"
  have seq: "fw_seq ?w = fw_seq w + 1" by (simp add: Writer_Write_def Let_def)
  have content: "fw_file ?w = fw_file w \<or> (\<exists>g. fw_file ?w = Some g \<and> st_seq g = fw_seq w + 1)"
    by (simp add: Writer_Write_def Let_def)
  have inv: "\<forall>g. fw_file ?w = Some g \<longrightarrow> st_seq g \<le> fw_seq ?w"
    using content seq Cons.prems(1) by auto
  have "st_seq f \<le> fw_seq ?w + int (length ss) \<and> (fw_file ?w = Some f \<or> fw_seq ?w < st_seq f)"
    by (rule Cons.IH [OF inv]) (use Cons.prems(2) in simp)
  then show ?case using seq content by auto
qed auto

text \<open>
  A poller of the status file can trust the sequence number. For a writer started fresh, the
  number in the file never exceeds the number of writes issued; after more writes the file either
  still holds the very same snapshot, or one with a strictly larger number. So an unchanged number
  means an unchanged file, also when replacements fail in between.
\<close>

theorem status_seq_monotone:
  assumes "fw_file (write_all (Writer_Write io) ss NewWriter) = Some f"
    and "fw_file (write_all (Writer_Write io) (ss @ ss') NewWriter) = Some f'"
  shows "st_seq f \<le> int (length ss) \<and> (f' = f \<or> st_seq f < st_seq f')"
proof -
  have le: "\<And>g. fw_file (write_all (Writer_Write io) ss NewWriter) = Some g
      \<Longrightarrow> st_seq g \<le> int (length ss)"
    using fw_file_write_all [of NewWriter io ss] by (simp add: NewWriter_def)
  have "fw_file (write_all (Writer_Write io) ss' (write_all (Writer_Write io) ss NewWriter))
      = Some f'" using assms(2) by simp
  from fw_file_write_all [OF _ this]
  have "fw_file (write_all (Writer_Write io) ss NewWriter) = Some f' \<or> int (length ss) < st_seq f'"
    using le by (simp add: fw_seq_write_all NewWriter_def)
  then show ?thesis using assms(1) le by force
qed

theorem status_seq_monotone_witness:
  "\<exists>f f'. fw_file (write_all (Writer_Write (\<lambda>n. (n \<noteq> 2, ''t'')))
        [phase_status PhaseCompiling] NewWriter) = Some f \<and>
      fw_file (write_all (Writer_Write (\<lambda>n. (n \<noteq> 2, ''t'')))
        ([phase_status PhaseCompiling] @ [phase_status PhaseRunning, phase_status PhaseDone])
        NewWriter) = Some f' \<and> st_seq f < st_seq f'"
proof -
  let ?io = "\<lambda>n::int. (n \<noteq> 2, ''t'')"
  let ?f = "(phase_status PhaseCompiling)\<lparr>st_schema_version := ''1'', st_seq := 1,
     st_updated_at := ''t''\<rparr>"
  let ?f' = "(phase_status PhaseDone)\<lparr>st_schema_version := ''1'', st_seq := 3,
     st_updated_at := ''t''\<rparr>"
  have a: "fw_file (write_all (Writer_Write ?io) [phase_status PhaseCompiling] NewWriter) = Some ?f"
    by (simp add: Writer_Write_def NewWriter_def)
  have b: "fw_file (write_all (Writer_Write ?io)
      ([phase_status PhaseCompiling] @ [phase_status PhaseRunning, phase_status PhaseDone])
      NewWriter) = Some ?f'"
    by (simp add: Writer_Write_def NewWriter_def)
  from status_seq_monotone [OF a b] have "?f' = ?f \<or> st_seq ?f < st_seq ?f'" by simp
  moreover have "st_seq ?f \<noteq> st_seq ?f'" by simp
  ultimately show ?thesis using a b by metis
qed

end
