(* ===== verification/LineTail.thy ===== *)
theory LineTail
  imports Prelude
begin

text \<open>
  Tailing a growing file of newline-separated records: the loop that
  \<^verbatim>\<open>PollingReader.readSince\<close> (\<^verbatim>\<open>internal/ipc/reader.go\<close>) and
  \<^verbatim>\<open>Client.drainProgress\<close> (\<^verbatim>\<open>internal/bridge/client.go\<close>) both contain. Each poll
  reads the file from a remembered byte offset with \<^verbatim>\<open>bufio.Scanner\<close> (\<open>scan_upto\<close>: default
  \<^verbatim>\<open>ScanLines\<close>, here a buffer of \<^verbatim>\<open>1<<20\<close> bytes), hands every token to a handler and
  advances the offset by the length of the token plus one.
\<close>

section \<open>bufio.Scanner with ScanLines\<close>

definition max_token :: nat where
  "max_token = 1048576"

text \<open>\<^verbatim>\<open>ScanLines\<close> drops one carriage return at the end of a line.\<close>

definition drop_cr :: "string \<Rightarrow> string" where
  "drop_cr l = (if l \<noteq> [] \<and> last l = carriage_return then butlast l else l)"

definition line_of :: "string \<Rightarrow> string" where
  "line_of s = takeWhile (\<lambda>c. c \<noteq> newline) s"

definition after_line :: "string \<Rightarrow> string" where
  "after_line s = drop (Suc (length (line_of s))) s"

lemma length_after_line: "s \<noteq> [] \<Longrightarrow> length (after_line s) < length s"
  by (cases s) (simp_all add: after_line_def)

text \<open>
  The tokens of the remaining input, and whether the scanner stopped with
  \<^verbatim>\<open>ErrTooLong\<close>: a line that does not fit the buffer together with its terminator. The
  last line is a token even when its newline is not there yet.
\<close>

function scan_upto :: "nat \<Rightarrow> string \<Rightarrow> string list \<times> bool" where
  "scan_upto buffer s =
     (if s = [] then ([], False)
      else if buffer \<le> length (line_of s) then ([], True)
      else (let (ts, err) = scan_upto buffer (after_line s) in (drop_cr (line_of s) # ts, err)))"
  by pat_completeness auto
termination
  by (relation "measure (\<lambda>(b, s). length s)") (simp_all add: length_after_line)

declare scan_upto.simps [simp del]

definition scan_lines :: "string \<Rightarrow> string list \<times> bool" where
  "scan_lines s = scan_upto max_token s"

lemmas scan_lines_simps = scan_upto.simps [of max_token, folded scan_lines_def]

text \<open>
  One poll: the events of the handler for the non-empty tokens, the offset after the scan, and
  whether the scanner failed.
\<close>

definition poll_lines :: "(string \<Rightarrow> 'e list) \<Rightarrow> nat \<Rightarrow> string \<Rightarrow> 'e list \<times> nat \<times> bool" where
  "poll_lines emit offset content =
     (let (ts, err) = scan_lines (drop offset content)
      in (concat (map emit (filter (\<lambda>t. t \<noteq> []) ts)),
          offset + sum_list (map (\<lambda>t. length t + 1) ts), err))"

section \<open>Complete files\<close>

text \<open>A list of records that can be written one per line and read back as they are.\<close>

definition clean_line :: "string \<Rightarrow> bool" where
  "clean_line l \<longleftrightarrow> newline \<notin> set l \<and> carriage_return \<notin> set l \<and> length l < max_token"

definition file_of :: "string list \<Rightarrow> string" where
  "file_of ls = concat (map (\<lambda>l. l @ [newline]) ls)"

lemma file_of_simps [simp]:
  "file_of [] = []"
  "file_of (l # ls) = l @ newline # file_of ls"
  "file_of (ls @ ls') = file_of ls @ file_of ls'"
  by (simp_all add: file_of_def)

lemma takeWhile_not_in: "c \<notin> set l \<Longrightarrow> takeWhile (\<lambda>x. x \<noteq> c) (l @ c # s) = l"
  by (induction l) auto

lemma line_of_terminated [simp]: "newline \<notin> set l \<Longrightarrow> line_of (l @ newline # s) = l"
  by (simp add: line_of_def takeWhile_not_in)

lemma line_of_unterminated [simp]: "newline \<notin> set l \<Longrightarrow> line_of l = l"
  by (simp add: line_of_def takeWhile_eq_all_conv) fastforce

lemma after_line_terminated [simp]: "newline \<notin> set l \<Longrightarrow> after_line (l @ newline # s) = s"
  by (simp add: after_line_def)

lemma after_line_unterminated [simp]: "newline \<notin> set l \<Longrightarrow> after_line l = []"
  by (simp add: after_line_def)

lemma drop_cr_clean [simp]: "carriage_return \<notin> set l \<Longrightarrow> drop_cr l = l"
  by (auto simp: drop_cr_def dest: last_in_set)

lemma scan_Nil [simp]: "scan_lines [] = ([], False)"
  by (simp add: scan_lines_simps)

lemma scan_terminated:
  assumes "newline \<notin> set l" "length l < max_token"
  shows "scan_lines (l @ newline # s) =
     (drop_cr l # fst (scan_lines s), snd (scan_lines s))"
  using assms by (subst scan_lines_simps) (simp add: case_prod_beta)

lemma scan_unterminated:
  assumes "newline \<notin> set l" "length l < max_token" "l \<noteq> []"
  shows "scan_lines l = ([drop_cr l], False)"
  using assms by (subst scan_lines_simps) (simp add: case_prod_beta)

lemma scan_file_of:
  "\<forall>l \<in> set ls. clean_line l \<Longrightarrow> scan_lines (file_of ls) = (ls, False)"
  by (induction ls) (simp_all add: scan_terminated clean_line_def)

lemma length_file_of: "length (file_of ls) = sum_list (map (\<lambda>l. length l + 1) ls)"
  by (induction ls) simp_all

text \<open>The events of a list of lines, and a run of polls over the successive contents of the file.\<close>

definition events_of :: "(string \<Rightarrow> 'e list) \<Rightarrow> string list \<Rightarrow> 'e list" where
  "events_of emit ls = concat (map emit ls)"

lemma events_of_append: "events_of emit (xs @ ys) = events_of emit xs @ events_of emit ys"
  by (simp add: events_of_def)

fun poll_all ::
    "(string \<Rightarrow> 'e list) \<Rightarrow> nat \<Rightarrow> string list \<Rightarrow> 'e list \<times> nat" where
  "poll_all emit offset [] = ([], offset)"
| "poll_all emit offset (c # cs) =
     (let (evs, offset', _) = poll_lines emit offset c; (evs', o') = poll_all emit offset' cs
      in (evs @ evs', o'))"

text \<open>Successive contents of a file that only ever has lines appended to it.\<close>

fun growing :: "string list \<Rightarrow> string list list \<Rightarrow> bool" where
  "growing seen [] = True"
| "growing seen (ls # lss) = (prefix seen ls \<and> growing ls lss)"

lemma growing_last: "growing seen (lss @ [ls]) \<Longrightarrow> prefix seen ls"
  by (induction lss arbitrary: seen) (auto intro: prefix_order.trans)

section \<open>The interface: a handler of lines\<close>

text \<open>
  A reader supplies the handler of one line. Its only obligation is that an empty line yields
  nothing, which the readers guarantee by skipping it; then tailing a file of complete lines is
  exact, however the writes and the polls interleave.
\<close>

locale line_handler =
  fixes emit :: "string \<Rightarrow> 'e list"
  assumes emit_empty: "emit [] = []"
begin

lemma events_skip_empty: "concat (map emit (filter (\<lambda>t. t \<noteq> []) ls)) = events_of emit ls"
  by (induction ls) (auto simp: events_of_def emit_empty)

lemma poll_complete:
  assumes "\<forall>l \<in> set (seen @ new). clean_line l"
  shows "poll_lines emit (length (file_of seen)) (file_of (seen @ new)) =
     (events_of emit new, length (file_of (seen @ new)), False)"
proof -
  have "scan_lines (file_of new) = (new, False)" using assms by (simp add: scan_file_of)
  then show ?thesis
    by (simp add: poll_lines_def events_skip_empty) (simp add: length_file_of)
qed

lemma poll_all_complete:
  assumes "growing seen lss" "\<forall>ls \<in> set (seen # lss). \<forall>l \<in> set ls. clean_line l"
  shows "events_of emit seen @ fst (poll_all emit (length (file_of seen)) (map file_of lss)) =
      events_of emit (last (seen # lss))
    \<and> snd (poll_all emit (length (file_of seen)) (map file_of lss)) = length (file_of (last (seen # lss)))"
  using assms
proof (induction lss arbitrary: seen)
  case Nil
  then show ?case by simp
next
  case (Cons ls lss)
  from Cons.prems obtain new where new: "ls = seen @ new" by (auto simp: prefix_def)
  have "\<forall>l \<in> set (seen @ new). clean_line l" using Cons.prems new by simp
  note p = poll_complete [OF this]
  have "growing ls lss" "\<forall>x \<in> set (ls # lss). \<forall>l \<in> set x. clean_line l"
    using Cons.prems by simp_all
  note IH = Cons.IH [OF this]
  show ?case using IH p new
    by (cases "poll_all emit (length (file_of ls)) (map file_of lss)") (simp add: events_of_append)
qed

end

section \<open>What incomplete and CRLF-terminated lines do\<close>

text \<open>
  A token without its newline still advances the offset by its length plus one, so the byte after
  it is skipped when it is not a newline.
\<close>

lemma poll_unterminated:
  assumes "newline \<notin> set a" "a \<noteq> []" "carriage_return \<notin> set a" "length a < max_token"
  shows "poll_lines emit 0 a = (emit a, length a + 1, False)"
  using assms by (simp add: poll_lines_def scan_unterminated)

text \<open>
  A carriage return before the newline is dropped from the token but not counted, so the offset
  falls one byte short for every such line.
\<close>

definition crlf_file :: "nat \<Rightarrow> string \<Rightarrow> string" where
  "crlf_file k l = concat (replicate k (l @ [carriage_return, newline]))"

lemma crlf_simps [simp]:
  "crlf_file 0 l = []"
  "crlf_file (Suc k) l = (l @ [carriage_return]) @ newline # crlf_file k l"
  by (simp_all add: crlf_file_def)

lemma length_crlf_file: "length (crlf_file k l) = k * (length l + 2)"
  by (induction k) simp_all

lemma newline_not_cr [simp]: "newline \<noteq> carriage_return" "carriage_return \<noteq> newline"
  by (simp_all add: newline_def carriage_return_def)

lemma scan_crlf_file:
  assumes "newline \<notin> set l" "Suc (length l) < max_token"
  shows "scan_lines (crlf_file k l) = (replicate k l, False)"
proof (induction k)
  case (Suc k)
  have "scan_lines (crlf_file (Suc k) l) =
      (drop_cr (l @ [carriage_return]) # fst (scan_lines (crlf_file k l)),
       snd (scan_lines (crlf_file k l)))"
    unfolding crlf_simps by (rule scan_terminated) (use assms in simp_all)
  then show ?case using Suc by (simp add: drop_cr_def)
qed simp

lemma poll_crlf_file:
  assumes "newline \<notin> set l" "Suc (length l) < max_token" "l \<noteq> []"
  shows "poll_lines emit 0 (crlf_file k l) =
     (concat (replicate k (emit l)), k * (length l + 1), False)"
  using assms by (simp add: poll_lines_def scan_crlf_file sum_list_replicate)

lemma crlf_file_append: "crlf_file (j + k) l = crlf_file j l @ crlf_file k l"
  by (simp add: crlf_file_def replicate_add)

lemma poll_crlf_again:
  assumes "newline \<notin> set l" "Suc (length l) < max_token" "l \<noteq> []"
  shows "poll_lines emit ((length l + 2) * (length l + 1)) (crlf_file (length l + 2) l) =
     (emit l, (length l + 2) * (length l + 1) + (length l + 1), False)"
proof -
  have "drop (length (crlf_file (length l + 1) l)) (crlf_file (length l + 1) l @ crlf_file 1 l)
      = crlf_file 1 l" by simp
  then have d: "drop ((length l + 2) * (length l + 1)) (crlf_file (length l + 2) l) = crlf_file 1 l"
    using crlf_file_append [of "length l + 1" 1 l]
    by (simp only: length_crlf_file) (simp add: mult.commute)
  show ?thesis unfolding poll_lines_def d using scan_crlf_file [OF assms(1,2), of 1] assms(3)
    by simp
qed

end
