(* ===== verification/Ipc.thy ===== *)
theory Ipc
  imports LineTail
begin

text \<open>
  The scenario bus, \<^verbatim>\<open>internal/ipc/bus.go\<close> and \<^verbatim>\<open>reader.go\<close>: instances of one
  scenario append messages to a shared file, and one polling reader per instance collects the
  messages its role sent or may see. The payload is any JSON value, the type \<open>'p\<close>; the JSON
  encoder and decoder of the standard library are the parameters \<open>encode\<close> and \<open>decode\<close>.
\<close>

section \<open>Messages and the writer\<close>

record 'p message =
  m_seq :: int
  m_ts :: string
  m_from :: string
  m_to :: string
  m_kind :: string
  m_payload :: "'p option"

record bus_writer =
  bw_path :: string
  bw_role :: string
  bw_seq :: int

definition NewBusWriter :: "string \<Rightarrow> string \<Rightarrow> bus_writer" where
  "NewBusWriter path role = \<lparr>bw_path = path, bw_role = role, bw_seq = 0\<rparr>"

text \<open>What opening the bus file and writing to it does: how many bytes reach the file.\<close>

datatype append_io = OpenFails | Writes nat

datatype bus_error = MarshalError | OpenError | WriteError

text \<open>
  \<^verbatim>\<open>Append\<close> on the bytes of the shared file. The sequence number is spent on every call;
  \<open>now\<close> is the clock.
\<close>

definition BusWriter_Append ::
    "('p message \<Rightarrow> string option) \<Rightarrow> string \<Rightarrow> append_io \<Rightarrow> 'p message \<Rightarrow> bus_writer \<Rightarrow> string
       \<Rightarrow> (bus_error + 'p message) \<times> bus_writer \<times> string" where
  "BusWriter_Append encode now io m0 w file =
     (let w' = w\<lparr>bw_seq := bw_seq w + 1\<rparr>;
          m = m0\<lparr>m_seq := bw_seq w', m_ts := now, m_from := bw_role w'\<rparr>
      in case encode m of
           None \<Rightarrow> (Inl MarshalError, w', file)
         | Some data \<Rightarrow>
             (case io of
                OpenFails \<Rightarrow> (Inl OpenError, w', file)
              | Writes n \<Rightarrow>
                  (let line = data @ [newline]; file' = file @ take n line
                   in if n < length line then (Inl WriteError, w', file')
                      else (Inr m, w', file'))))"

section \<open>The reader\<close>

datatype direction = Send | Recv

record 'p read_event =
  re_msg :: "'p message"
  re_direction :: direction

definition classify :: "string \<Rightarrow> 'p message \<Rightarrow> 'p read_event option" where
  "classify role m =
     (if m_from m = role then Some \<lparr>re_msg = m, re_direction = Send\<rparr>
      else if m_to m = role \<or> m_to m = ''*'' then Some \<lparr>re_msg = m, re_direction = Recv\<rparr>
      else None)"

text \<open>What the body of the scan loop emits for one token.\<close>

definition emit_line ::
    "(string \<Rightarrow> 'p message option) \<Rightarrow> string \<Rightarrow> string \<Rightarrow> 'p read_event list" where
  "emit_line decode role line =
     (if line = [] then []
      else case decode line of
          None \<Rightarrow> []
        | Some m \<Rightarrow> (case classify role m of None \<Rightarrow> [] | Some ev \<Rightarrow> [ev]))"

text \<open>What one look at the bus file finds.\<close>

datatype bus_look = Absent | Unreadable | Bytes string

datatype read_error = NotExist | OtherError

text \<open>
  \<^verbatim>\<open>readSince\<close>: the events it sent, and the new offset or the error. After a scan error the
  offset is the old one although events were sent.
\<close>

definition readSince ::
    "(string \<Rightarrow> 'p message option) \<Rightarrow> string \<Rightarrow> nat \<Rightarrow> bus_look
       \<Rightarrow> 'p read_event list \<times> (read_error + nat)" where
  "readSince decode role offset look =
     (case look of
        Absent \<Rightarrow> ([], Inl NotExist)
      | Unreadable \<Rightarrow> ([], Inl OtherError)
      | Bytes content \<Rightarrow>
          (case poll_lines (emit_line decode role) offset content of
             (evs, offset', err) \<Rightarrow> (evs, if err then Inl OtherError else Inr offset')))"

text \<open>
  \<^verbatim>\<open>Run\<close>: one look per round, \<open>looks\<close> being the rounds up to the one after which the
  context is found cancelled, and \<open>final\<close> the last drain. The boolean is \<open>True\<close> for a nil
  error. A missing file is retried; any other error ends the reader.
\<close>

fun PollingReader_Run ::
    "(string \<Rightarrow> 'p message option) \<Rightarrow> string \<Rightarrow> nat \<Rightarrow> bus_look list \<Rightarrow> bus_look
       \<Rightarrow> 'p read_event list \<times> bool" where
  "PollingReader_Run decode role offset [] final =
     (fst (readSince decode role offset final), True)"
| "PollingReader_Run decode role offset (look # looks) final =
     (case readSince decode role offset look of
        (evs, Inl OtherError) \<Rightarrow> (evs, False)
      | (evs, Inl NotExist) \<Rightarrow>
          (let (evs', ok) = PollingReader_Run decode role offset looks final in (evs @ evs', ok))
      | (evs, Inr offset') \<Rightarrow>
          (let (evs', ok) = PollingReader_Run decode role offset' looks final in (evs @ evs', ok)))"

text \<open>
  \<^verbatim>\<open>RunReaderInto\<close> adds every event to an accumulator before it returns, and
  \<^verbatim>\<open>Snapshot\<close> copies the accumulator.
\<close>

definition RunReaderInto ::
    "(string \<Rightarrow> 'p message option) \<Rightarrow> string \<Rightarrow> bus_look list \<Rightarrow> bus_look
       \<Rightarrow> 'p read_event list \<Rightarrow> 'p read_event list \<times> bool" where
  "RunReaderInto decode role looks final acc =
     (let (evs, ok) = PollingReader_Run decode role 0 looks final in (acc @ evs, ok))"

section \<open>The reader is a line handler\<close>

interpretation bus: line_handler "emit_line decode role"
  for decode :: "string \<Rightarrow> 'p message option" and role
  by unfold_locales (simp add: emit_line_def)

lemma readSince_complete:
  assumes "\<forall>l \<in> set (seen @ new). clean_line l"
  shows "readSince decode role (length (file_of seen)) (Bytes (file_of (seen @ new))) =
     (events_of (emit_line decode role) new, Inr (length (file_of (seen @ new))))"
  using bus.poll_complete [OF assms, of decode role] by (simp add: readSince_def)

lemma Run_complete:
  assumes "growing seen (lss @ [ls])" "\<forall>x \<in> set (seen # lss @ [ls]). \<forall>l \<in> set x. clean_line l"
  shows "PollingReader_Run decode role (length (file_of seen)) (map (Bytes \<circ> file_of) lss)
      (Bytes (file_of ls)) = (events_of (emit_line decode role) (drop (length seen) ls), True)"
  using assms
proof (induction lss arbitrary: seen)
  case Nil
  then obtain new where "ls = seen @ new" by (auto simp: prefix_def)
  then show ?case using Nil.prems readSince_complete [of seen new decode role] by simp
next
  case (Cons c lss)
  then obtain new where c: "c = seen @ new" by (auto simp: prefix_def)
  have g: "growing c (lss @ [ls])" and k: "\<forall>x \<in> set (c # lss @ [ls]). \<forall>l \<in> set x. clean_line l"
    using Cons.prems by simp_all
  from growing_last [OF g] obtain rest where "ls = c @ rest" by (auto simp: prefix_def)
  then show ?case using Cons.IH [OF g k] readSince_complete [of seen new decode role] Cons.prems c
    by (simp add: events_of_append)
qed

section \<open>Properties of the bus\<close>

lemma Run_absent:
  "PollingReader_Run decode role 0 (replicate k Absent @ looks) final =
     PollingReader_Run decode role 0 looks final"
  by (induction k) (simp_all add: readSince_def case_prod_beta)


definition sample_message :: "unit message" where
  "sample_message = \<lparr>m_seq = 1, m_ts = ''t'', m_from = ''host'', m_to = ''*'', m_kind = ''ready'',
     m_payload = None\<rparr>"

definition sample_decode :: "string \<Rightarrow> unit message option" where
  "sample_decode l = (if l = ''abcd'' then Some sample_message else None)"

lemma clean_sample [simp]: "clean_line ''abcd''"
  by (simp add: clean_line_def newline_def carriage_return_def max_token_def)


text \<open>
  A message appended to a bus of complete lines is received: if the encoder writes one clean
  line that the decoder reads back, then after a successful \<open>Append\<close> a reader positioned at the
  old end of the file emits exactly the event of that message for its role, stamped with the
  writer's role as sender and the writer's next sequence number, and moves to the new end.
\<close>

theorem append_then_read:
  assumes "\<forall>l \<in> set ls. clean_line l"
    and "BusWriter_Append encode now io m0 w (file_of ls) = (Inr m, w', file')"
    and "\<And>x l. encode x = Some l \<Longrightarrow> l \<noteq> [] \<and> clean_line l \<and> decode l = Some x"
  shows "m_from m = bw_role w \<and> m_seq m = bw_seq w + 1 \<and> bw_seq w' = bw_seq w + 1 \<and>
     readSince decode role (length (file_of ls)) (Bytes file') =
       ((case classify role m of None \<Rightarrow> [] | Some ev \<Rightarrow> [ev]), Inr (length file'))"
proof -
  let ?m = "m0\<lparr>m_seq := bw_seq w + 1, m_ts := now, m_from := bw_role w\<rparr>"
  obtain l where l: "encode ?m = Some l"
    using assms(2) by (auto simp: BusWriter_Append_def Let_def split: option.splits)
  have eqs: "m = ?m \<and> w' = w\<lparr>bw_seq := bw_seq w + 1\<rparr> \<and> file' = file_of (ls @ [l])"
    using assms(2) l by (auto simp: BusWriter_Append_def Let_def split: append_io.splits if_splits)
  have ok: "l \<noteq> []" "clean_line l" "decode l = Some m" using assms(3) [OF l] eqs by simp_all
  have "readSince decode role (length (file_of ls)) (Bytes (file_of (ls @ [l]))) =
      (events_of (emit_line decode role) [l], Inr (length (file_of (ls @ [l]))))"
    by (rule readSince_complete) (use assms(1) ok in simp)
  then show ?thesis using eqs ok by (simp add: events_of_def emit_line_def)
qed

definition sample_encode :: "unit message \<Rightarrow> string option" where
  "sample_encode m = (if m = sample_message then Some ''abcd'' else None)"

theorem append_then_read_witness:
  "readSince sample_decode ''client'' (length (file_of [''abcd'']))
      (Bytes (file_of [''abcd'', ''abcd''])) =
     ([\<lparr>re_msg = sample_message, re_direction = Recv\<rparr>], Inr 10)"
proof -
  let ?w = "NewBusWriter ''bus.ndjson'' ''host''"
  have app: "BusWriter_Append sample_encode ''t'' (Writes 5) sample_message ?w
      (file_of [''abcd'']) =
     (Inr sample_message, ?w\<lparr>bw_seq := 1\<rparr>, file_of [''abcd'', ''abcd''])"
    by (simp add: BusWriter_Append_def sample_encode_def sample_message_def NewBusWriter_def)
  have enc: "sample_encode x = Some l \<Longrightarrow> l \<noteq> [] \<and> clean_line l \<and> sample_decode l = Some x" for x l
    by (auto simp: sample_encode_def sample_decode_def split: if_splits)
  have clean: "\<forall>l \<in> set [''abcd'']. clean_line l" by simp
  have "classify ''client'' sample_message = Some \<lparr>re_msg = sample_message, re_direction = Recv\<rparr>"
    by (simp add: classify_def sample_message_def)
  then show ?thesis using append_then_read [OF clean app enc, where role = "''client''"]
    by (simp del: file_of_simps) (simp add: eval_nat_numeral)
qed

text \<open>
  A line that a poll sees half-written is lost. If the first poll finds the first part of a
  line without its newline, then after the rest of the line and the newline have arrived the reader
  has already stepped one byte into the rest: it decodes two fragments and never the line itself.
  With a decoder that rejects fragments the message is never delivered, although the file holds the
  complete line and the reader drains it once more at the end.
\<close>

theorem torn_line_lost:
  assumes "clean_line (a @ x # b)" "a \<noteq> []" "decode a = None" "decode b = None"
  shows "PollingReader_Run decode role 0 [Bytes a] (Bytes (file_of [a @ x # b])) = ([], True)"
proof -
  have a: "newline \<notin> set a" "carriage_return \<notin> set a" "length a < max_token"
    and b: "newline \<notin> set b" "carriage_return \<notin> set b" "length b < max_token"
    using assms(1) by (auto simp: clean_line_def)
  have first: "poll_lines (emit_line decode role) 0 a = ([], length a + 1, False)"
    using poll_unterminated [of a "emit_line decode role"] a assms(2,3)
    by (simp add: emit_line_def)
  have "drop (length a + 1) (file_of [a @ x # b]) = b @ newline # []" by simp
  moreover have "scan_lines (b @ newline # []) = ([b], False)"
    using scan_terminated [of b "[]"] b by simp
  ultimately have "fst (poll_lines (emit_line decode role) (length a + 1)
      (file_of [a @ x # b])) = []"
    using assms(4) by (simp only: poll_lines_def) (simp add: emit_line_def)
  with first show ?thesis by (simp add: readSince_def case_prod_beta)
qed

theorem torn_line_lost_witness:
  "sample_decode (''a'' @ CHR ''b'' # ''cd'') = Some sample_message \<and>
   PollingReader_Run sample_decode ''client'' 0 [Bytes ''a'']
     (Bytes (file_of [''a'' @ CHR ''b'' # ''cd''])) = ([], True)"
  using torn_line_lost [of "''a''" "CHR ''b''" "''cd''" sample_decode "''client''"]
  by (simp add: sample_decode_def)

text \<open>
  A bus file with CRLF line ends makes the reader emit a line again: the scanner drops the
  carriage return but the offset counts only the token and one terminator byte. When
  \<open>length l + 2\<close> copies of a line stand in the file at one poll, the next poll of the unchanged
  file decodes the last line a second time.
\<close>

theorem crlf_line_emitted_twice:
  assumes "newline \<notin> set l" "Suc (length l) < max_token" "l \<noteq> []"
    "decode l = Some m" "classify role m = Some ev"
  shows "PollingReader_Run decode role 0 [Bytes (crlf_file (length l + 2) l)]
      (Bytes (crlf_file (length l + 2) l)) = (replicate (length l + 2 + 1) ev, True)"
proof -
  have e: "emit_line decode role l = [ev]" using assms by (simp add: emit_line_def)
  have c: "concat (replicate n [ev]) = replicate n ev" for n by (induction n) simp_all
  have "poll_lines (emit_line decode role) 0 (crlf_file (length l + 2) l) =
      (replicate (length l + 2) ev, (length l + 2) * (length l + 1), False)"
    using poll_crlf_file [OF assms(1-3), of "emit_line decode role" "length l + 2"]
    by (simp only: e c)
  moreover have "poll_lines (emit_line decode role) ((length l + 2) * (length l + 1))
      (crlf_file (length l + 2) l) =
      ([ev], (length l + 2) * (length l + 1) + (length l + 1), False)"
    using poll_crlf_again [OF assms(1-3), of "emit_line decode role"] by (simp only: e)
  ultimately have "PollingReader_Run decode role 0 [Bytes (crlf_file (length l + 2) l)]
      (Bytes (crlf_file (length l + 2) l)) = (replicate (length l + 2) ev @ [ev], True)"
    by (simp only: PollingReader_Run.simps readSince_def bus_look.case prod.case sum.case
        if_False Let_def fst_conv)
  then show ?thesis by (simp only: replicate_append_same replicate_add) simp
qed

theorem crlf_line_emitted_twice_witness:
  "snd (PollingReader_Run sample_decode ''client'' 0 [Bytes (crlf_file (length ''abcd'' + 2) ''abcd'')]
      (Bytes (crlf_file (length ''abcd'' + 2) ''abcd''))) \<and>
   length (fst (PollingReader_Run sample_decode ''client'' 0
      [Bytes (crlf_file (length ''abcd'' + 2) ''abcd'')]
      (Bytes (crlf_file (length ''abcd'' + 2) ''abcd'')))) = 7"
proof -
  have "PollingReader_Run sample_decode ''client'' 0 [Bytes (crlf_file (length ''abcd'' + 2) ''abcd'')]
      (Bytes (crlf_file (length ''abcd'' + 2) ''abcd'')) =
    (replicate (length ''abcd'' + 2 + 1) \<lparr>re_msg = sample_message, re_direction = Recv\<rparr>, True)"
    by (rule crlf_line_emitted_twice [where m = sample_message])
      (simp_all add: newline_def max_token_def sample_decode_def classify_def sample_message_def)
  then show ?thesis by simp
qed

end
