(* ===== verification/Config.thy ===== *)
theory Config
  imports GoPath
begin

text \<open>
  The configuration file, \<^verbatim>\<open>internal/config/config.go\<close>: its fields, the defaults and
  checks of \<^verbatim>\<open>Validate\<close> in the order of the source, \<^verbatim>\<open>Load\<close>, and the
  deadlines derived from the timeouts (\<^verbatim>\<open>time.Duration(ms) * time.Millisecond\<close>, a 64-bit
  product). Reading the file and decoding its JSON are the argument of \<open>Load\<close>; the
  environment variable \<^verbatim>\<open>UNITY_PATH\<close> is the argument \<open>env\<close> of \<open>Validate\<close>.
\<close>

section \<open>The configuration\<close>

record workspace_config =
  ws_backend :: string
  ws_store_root :: string
  ws_store_max_allocated_bytes :: int
  ws_minimum_host_free_bytes :: int
  ws_local_package_overrides :: "(string \<times> string) list"

record timeouts =
  to_compile_ms :: int
  to_test_ms :: int
  to_total_ms :: int

text \<open>
  \<open>cf_max_runs\<close> is \<^verbatim>\<open>retention.max_runs\<close>; \<open>cf_bridge\<close> is the optional block with its
  optional field; \<open>cf_dir\<close> is the unexported directory of the file.
\<close>

record config =
  cf_schema_version :: string
  cf_unity_path :: string
  cf_project_path :: string
  cf_timeout :: timeouts
  cf_result_dir :: string
  cf_test_platform :: string
  cf_max_runs :: "int option"
  cf_bridge :: "bool option option"
  cf_workspace :: "workspace_config option"
  cf_dir :: string

definition DefaultWorkspaceStoreMaxAllocatedBytes :: int where
  "DefaultWorkspaceStoreMaxAllocatedBytes = 32 * 2 ^ 30"

definition DefaultWorkspaceMinimumHostFreeBytes :: int where
  "DefaultWorkspaceMinimumHostFreeBytes = 20 * 2 ^ 30"

definition BridgeEnabled :: "config \<Rightarrow> bool" where
  "BridgeEnabled c = (case cf_bridge c of
      None \<Rightarrow> True | Some None \<Rightarrow> True | Some (Some b) \<Rightarrow> b)"

datatype config_defect =
    Unreadable | Undecodable | TrailingData | SchemaMissing | SchemaUnsupported
  | TotalNegative | PhaseNegative | PhasePartial | BadPlatform | BadRetention
  | BadBackend | RelativeStoreRoot | NegativeLimits | EmptyPackageName | RelativeOverride

datatype config_error =
    ErrConfigNotFound
  | ErrUnityPathMissing
  | ErrConfigInvalid config_defect

section \<open>Validate\<close>

definition default_unity :: "string \<Rightarrow> bool \<Rightarrow> config \<Rightarrow> config_error + config" where
  "default_unity env requireUnity c =
     (if requireUnity then
        (let c1 = (if cf_unity_path c = [] then c\<lparr>cf_unity_path := env\<rparr> else c)
         in if cf_unity_path c1 = [] then Inl ErrUnityPathMissing else Inr c1)
      else Inr c)"

definition anchor_project :: "config \<Rightarrow> config" where
  "anchor_project c =
     (if cf_project_path c = [] then
        (if cf_dir c \<noteq> [] then c\<lparr>cf_project_path := cf_dir c\<rparr> else c)
      else if \<not> IsAbs (cf_project_path c) \<and> cf_dir c \<noteq> [] then
        c\<lparr>cf_project_path := Join [cf_dir c, cf_project_path c]\<rparr>
      else c)"

definition anchor_results :: "config \<Rightarrow> config" where
  "anchor_results c =
     (let c1 = (if cf_result_dir c = []
                then c\<lparr>cf_result_dir := Join [''.testplay'', ''results'']\<rparr> else c)
      in if \<not> IsAbs (cf_result_dir c1) \<and> cf_project_path c1 \<noteq> []
         then c1\<lparr>cf_result_dir := Join [cf_project_path c1, cf_result_dir c1]\<rparr> else c1)"

definition check_timeouts :: "timeouts \<Rightarrow> config_error + timeouts" where
  "check_timeouts t =
     (let t1 = (if to_total_ms t = 0 then t\<lparr>to_total_ms := 300000\<rparr> else t)
      in if to_total_ms t1 < 0 then Inl (ErrConfigInvalid TotalNegative)
         else if to_compile_ms t1 < 0 \<or> to_test_ms t1 < 0 then Inl (ErrConfigInvalid PhaseNegative)
         else if (0 < to_compile_ms t1) \<noteq> (0 < to_test_ms t1)
           then Inl (ErrConfigInvalid PhasePartial)
         else Inr t1)"

definition check_platform :: "string \<Rightarrow> config_error + string" where
  "check_platform p =
     (if p = [] \<or> p = ''edit_mode'' then Inr ''edit_mode''
      else if p = ''play_mode'' then Inr p
      else Inl (ErrConfigInvalid BadPlatform))"

definition check_retention :: "int option \<Rightarrow> config_error + int option" where
  "check_retention r =
     (let n = (case r of None \<Rightarrow> 30 | Some n \<Rightarrow> n)
      in if n < 0 then Inl (ErrConfigInvalid BadRetention) else Inr (Some n))"

definition check_override :: "string \<times> string \<Rightarrow> config_error + unit" where
  "check_override kv =
     (if trim_space (fst kv) = [] then Inl (ErrConfigInvalid EmptyPackageName)
      else if \<not> IsAbs (snd kv) then Inl (ErrConfigInvalid RelativeOverride)
      else Inr ())"

definition known_backend :: "string \<Rightarrow> bool" where
  "known_backend b \<longleftrightarrow> b \<in> {[], ''legacy'', ''image'', ''vhdx-diff'', ''auto''}"

definition default_limits :: "workspace_config \<Rightarrow> workspace_config" where
  "default_limits w =
     (let w1 = (if ws_store_max_allocated_bytes w = 0
              then w\<lparr>ws_store_max_allocated_bytes := DefaultWorkspaceStoreMaxAllocatedBytes\<rparr> else w)
      in if ws_minimum_host_free_bytes w1 = 0
         then w1\<lparr>ws_minimum_host_free_bytes := DefaultWorkspaceMinimumHostFreeBytes\<rparr> else w1)"

definition check_workspace :: "workspace_config \<Rightarrow> config_error + workspace_config" where
  "check_workspace w =
     (if \<not> known_backend (ws_backend w) then Inl (ErrConfigInvalid BadBackend)
      else if ws_store_root w \<noteq> [] \<and> \<not> IsAbs (ws_store_root w)
        then Inl (ErrConfigInvalid RelativeStoreRoot)
      else
        (let w' = default_limits w
         in if ws_store_max_allocated_bytes w' < 0 \<or> ws_minimum_host_free_bytes w' < 0
              then Inl (ErrConfigInvalid NegativeLimits)
            else bind_result (each check_override (ws_local_package_overrides w')) (\<lambda>_. Inr w')))"

definition Validate :: "string \<Rightarrow> bool \<Rightarrow> config \<Rightarrow> config_error + config" where
  "Validate env requireUnity c0 =
     bind_result (default_unity env requireUnity c0) (\<lambda>c1.
       let c2 = anchor_results (anchor_project c1) in
       bind_result (check_timeouts (cf_timeout c2)) (\<lambda>t.
       bind_result (check_platform (cf_test_platform c2)) (\<lambda>p.
       bind_result (check_retention (cf_max_runs c2)) (\<lambda>r.
         let c3 = c2\<lparr>cf_timeout := t, cf_test_platform := p, cf_max_runs := r\<rparr> in
         (case cf_workspace c3 of
            None \<Rightarrow> Inr c3
          | Some w \<Rightarrow> bind_result (check_workspace w) (\<lambda>w'. Inr (c3\<lparr>cf_workspace := Some w'\<rparr>)))))))"

section \<open>Load\<close>

definition Load :: "string \<Rightarrow> config strict_decode file_read \<Rightarrow> config_error + config" where
  "Load path r =
     (case r of
        FileMissing \<Rightarrow> Inl ErrConfigNotFound
      | FileUnreadable \<Rightarrow> Inl (ErrConfigInvalid Unreadable)
      | FileBytes DecodeFails \<Rightarrow> Inl (ErrConfigInvalid Undecodable)
      | FileBytes (Decodes c trailing) \<Rightarrow>
          (if trailing then Inl (ErrConfigInvalid TrailingData)
           else if cf_schema_version c = [] then Inl (ErrConfigInvalid SchemaMissing)
           else if cf_schema_version c \<noteq> ''1'' then Inl (ErrConfigInvalid SchemaUnsupported)
           else Inr (c\<lparr>cf_dir := Dir (Clean path)\<rparr>)))"

section \<open>Deadlines\<close>

definition duration_of_ms :: "int \<Rightarrow> int" where
  "duration_of_ms ms = wrap64 (ms * 1000000)"

text \<open>Two-phase execution is requested by both phase timeouts together.\<close>

definition twoPhaseRequested :: "config \<Rightarrow> bool" where
  "twoPhaseRequested c \<longleftrightarrow> 0 < to_compile_ms (cf_timeout c) \<and> 0 < to_test_ms (cf_timeout c)"

section \<open>What a validated configuration guarantees\<close>

definition workspace_ok :: "workspace_config \<Rightarrow> bool" where
  "workspace_ok w \<longleftrightarrow> known_backend (ws_backend w) \<and>
     (ws_store_root w = [] \<or> IsAbs (ws_store_root w)) \<and>
     0 < ws_store_max_allocated_bytes w \<and> 0 < ws_minimum_host_free_bytes w \<and>
     (\<forall>kv \<in> set (ws_local_package_overrides w). trim_space (fst kv) \<noteq> [] \<and> IsAbs (snd kv))"

definition config_ok :: "bool \<Rightarrow> config \<Rightarrow> bool" where
  "config_ok requireUnity c \<longleftrightarrow>
     (requireUnity \<longrightarrow> cf_unity_path c \<noteq> []) \<and>
     0 < to_total_ms (cf_timeout c) \<and>
     0 \<le> to_compile_ms (cf_timeout c) \<and> 0 \<le> to_test_ms (cf_timeout c) \<and>
     (twoPhaseRequested c \<or> (to_compile_ms (cf_timeout c) = 0 \<and> to_test_ms (cf_timeout c) = 0)) \<and>
     cf_test_platform c \<in> {''edit_mode'', ''play_mode''} \<and>
     (\<exists>n \<ge> 0. cf_max_runs c = Some n) \<and>
     cf_result_dir c \<noteq> [] \<and>
     (IsAbs (cf_dir c) \<longrightarrow> IsAbs (cf_project_path c) \<and> IsAbs (cf_result_dir c)) \<and>
     (case cf_workspace c of None \<Rightarrow> True | Some w \<Rightarrow> workspace_ok w)"

lemma Default_bytes_pos [simp]:
  "0 < DefaultWorkspaceStoreMaxAllocatedBytes" "0 < DefaultWorkspaceMinimumHostFreeBytes"
  by (simp_all add: DefaultWorkspaceStoreMaxAllocatedBytes_def
      DefaultWorkspaceMinimumHostFreeBytes_def)

lemma IsAbs_nonempty: "IsAbs p \<Longrightarrow> p \<noteq> []"
  by auto

lemma Clean_nonempty: "Clean p \<noteq> []"
proof -
  have "assemble r es \<noteq> []" if "\<forall>e \<in> set es. plain e" for r es
    using that by (cases es rule: remdups_adj.cases) (auto simp: assemble_def plain_def)
  then show ?thesis by (simp add: Clean_def plain_Clean_elements)
qed

lemma Join_nonempty_result: "p \<noteq> [] \<Longrightarrow> Join (p # es) \<noteq> []"
  by (simp add: Join_nonempty Clean_nonempty)

lemma check_timeouts_ok:
  "check_timeouts t = Inr t' \<Longrightarrow> 0 < to_total_ms t' \<and> 0 \<le> to_compile_ms t' \<and> 0 \<le> to_test_ms t' \<and>
     ((0 < to_compile_ms t') = (0 < to_test_ms t'))"
  by (auto simp: check_timeouts_def Let_def split: if_splits)

lemma check_platform_ok: "check_platform p = Inr p' \<Longrightarrow> p' \<in> {''edit_mode'', ''play_mode''}"
  by (auto simp: check_platform_def split: if_splits)

lemma check_retention_ok: "check_retention r = Inr r' \<Longrightarrow> \<exists>n \<ge> 0. r' = Some n"
  by (auto simp: check_retention_def Let_def split: if_splits option.splits)

lemma check_override_ok:
  "check_override kv = Inr u \<longleftrightarrow> trim_space (fst kv) \<noteq> [] \<and> IsAbs (snd kv)"
  by (auto simp: check_override_def)

lemma default_limits_frame [simp]:
  "ws_backend (default_limits w) = ws_backend w"
  "ws_store_root (default_limits w) = ws_store_root w"
  "ws_local_package_overrides (default_limits w) = ws_local_package_overrides w"
  by (simp_all add: default_limits_def Let_def)

lemma default_limits_values:
  "ws_store_max_allocated_bytes (default_limits w) =
     (if ws_store_max_allocated_bytes w = 0 then DefaultWorkspaceStoreMaxAllocatedBytes
      else ws_store_max_allocated_bytes w)"
  "ws_minimum_host_free_bytes (default_limits w) =
     (if ws_minimum_host_free_bytes w = 0 then DefaultWorkspaceMinimumHostFreeBytes
      else ws_minimum_host_free_bytes w)"
  by (simp_all add: default_limits_def Let_def)

lemma default_limits_sign:
  "ws_store_max_allocated_bytes (default_limits w) < 0 \<longleftrightarrow> ws_store_max_allocated_bytes w < 0"
  "ws_minimum_host_free_bytes (default_limits w) < 0 \<longleftrightarrow> ws_minimum_host_free_bytes w < 0"
  "ws_store_max_allocated_bytes (default_limits w) \<noteq> 0"
  "ws_minimum_host_free_bytes (default_limits w) \<noteq> 0"
  by (auto simp: default_limits_values DefaultWorkspaceStoreMaxAllocatedBytes_def
      DefaultWorkspaceMinimumHostFreeBytes_def)

lemma check_workspace_Inr:
  "check_workspace w = Inr w' \<longleftrightarrow> known_backend (ws_backend w) \<and>
     (ws_store_root w = [] \<or> IsAbs (ws_store_root w)) \<and>
     0 \<le> ws_store_max_allocated_bytes w \<and> 0 \<le> ws_minimum_host_free_bytes w \<and>
     (\<forall>kv \<in> set (ws_local_package_overrides w). trim_space (fst kv) \<noteq> [] \<and> IsAbs (snd kv)) \<and>
     w' = default_limits w"
  by (auto simp: check_workspace_def Let_def bind_result_Inr_iff each_Inr check_override_ok
      default_limits_sign not_less)

lemma check_workspace_ok: "check_workspace w = Inr w' \<Longrightarrow> workspace_ok w'"
  using default_limits_sign [of w] by (auto simp: check_workspace_Inr workspace_ok_def)

lemma anchor_frame [simp]:
  "cf_timeout (anchor_project c) = cf_timeout c" "cf_timeout (anchor_results c) = cf_timeout c"
  "cf_test_platform (anchor_project c) = cf_test_platform c"
  "cf_test_platform (anchor_results c) = cf_test_platform c"
  "cf_max_runs (anchor_project c) = cf_max_runs c" "cf_max_runs (anchor_results c) = cf_max_runs c"
  "cf_workspace (anchor_project c) = cf_workspace c"
  "cf_workspace (anchor_results c) = cf_workspace c"
  "cf_unity_path (anchor_project c) = cf_unity_path c"
  "cf_unity_path (anchor_results c) = cf_unity_path c"
  "cf_dir (anchor_project c) = cf_dir c" "cf_dir (anchor_results c) = cf_dir c"
  "cf_project_path (anchor_results c) = cf_project_path c"
  by (simp_all add: anchor_project_def anchor_results_def Let_def)

lemma anchor_project_abs: "IsAbs (cf_dir c) \<Longrightarrow> IsAbs (cf_project_path (anchor_project c))"
  by (auto simp: anchor_project_def Join_abs dest: IsAbs_nonempty)

lemma anchor_results_abs:
  "IsAbs (cf_project_path c) \<Longrightarrow> IsAbs (cf_result_dir (anchor_results c))"
  by (auto simp: anchor_results_def Let_def Join_abs dest: IsAbs_nonempty)

lemma anchor_results_nonempty: "cf_result_dir (anchor_results c) \<noteq> []"
  by (auto simp: anchor_results_def Let_def Join_nonempty_result)

lemma default_unity_ok:
  "default_unity env q c = Inr c' \<Longrightarrow> (q \<longrightarrow> cf_unity_path c' \<noteq> []) \<and> cf_dir c' = cf_dir c"
  by (auto simp: default_unity_def Let_def split: if_splits)

lemma Validate_config_ok:
  assumes "Validate env requireUnity c = Inr c'"
  shows "config_ok requireUnity c'"
proof -
  obtain c1 t p r where c1: "default_unity env requireUnity c = Inr c1"
    and t: "check_timeouts (cf_timeout c1) = Inr t"
    and p: "check_platform (cf_test_platform c1) = Inr p"
    and r: "check_retention (cf_max_runs c1) = Inr r"
    and rest: "(let c3 = (anchor_results (anchor_project c1))
        \<lparr>cf_timeout := t, cf_test_platform := p, cf_max_runs := r\<rparr> in
        (case cf_workspace c3 of None \<Rightarrow> Inr c3
         | Some w \<Rightarrow> bind_result (check_workspace w) (\<lambda>w'. Inr (c3\<lparr>cf_workspace := Some w'\<rparr>))))
        = Inr c'"
    using assms by (auto simp: Validate_def bind_result_Inr_iff Let_def)
  have ws: "case cf_workspace c' of None \<Rightarrow> True | Some w \<Rightarrow> workspace_ok w"
    using rest by (auto simp: Let_def bind_result_Inr_iff check_workspace_ok split: option.splits)
  have c': "cf_timeout c' = t" "cf_test_platform c' = p" "cf_max_runs c' = r"
    "cf_unity_path c' = cf_unity_path c1" "cf_dir c' = cf_dir c1"
    "cf_project_path c' = cf_project_path (anchor_project c1)"
    "cf_result_dir c' = cf_result_dir (anchor_results (anchor_project c1))"
    using rest by (auto simp: Let_def bind_result_Inr_iff split: option.splits)
  show ?thesis
    unfolding config_ok_def twoPhaseRequested_def c'
    using ws check_timeouts_ok [OF t] check_platform_ok [OF p] check_retention_ok [OF r]
      default_unity_ok [OF c1] anchor_project_abs [of c1]
      anchor_results_abs [of "anchor_project c1"] anchor_results_nonempty
    by auto
qed

text \<open>
  A configuration that passes \<open>Validate\<close> is ready to run: the Unity path is set when it was
  required; the total deadline is positive; the phase deadlines are both zero or both positive, so
  a partial two-phase setup never slips through; the platform is one of the two; the retention
  count is set and not negative; the result directory is set; the storage limits are positive and
  every store root and package override is absolute; and with an absolute configuration directory
  the project and the result directory are absolute.
\<close>

theorem Validate_establishes_config_ok:
  assumes "Validate env requireUnity c = Inr c'"
  shows "config_ok requireUnity c'"
  using assms by (rule Validate_config_ok)

definition sample_config :: config where
  "sample_config = \<lparr>cf_schema_version = ''1'', cf_unity_path = [], cf_project_path = ''game'',
     cf_timeout = \<lparr>to_compile_ms = 0, to_test_ms = 0, to_total_ms = 0\<rparr>, cf_result_dir = [],
     cf_test_platform = [], cf_max_runs = None, cf_bridge = None, cf_workspace = None,
     cf_dir = ''/work''\<rparr>"

lemma sample_Validate:
  "Validate ''/opt/Unity'' True sample_config =
     Inr (sample_config\<lparr>cf_unity_path := ''/opt/Unity'', cf_project_path := ''/work/game'',
       cf_result_dir := ''/work/game/.testplay/results'',
       cf_timeout := \<lparr>to_compile_ms = 0, to_test_ms = 0, to_total_ms = 300000\<rparr>,
       cf_test_platform := ''edit_mode'', cf_max_runs := Some 30\<rparr>)"
  by code_simp

theorem Validate_establishes_config_ok_witness:
  "\<exists>c'. Validate ''/opt/Unity'' True sample_config = Inr c' \<and> config_ok True c'"
  using sample_Validate Validate_establishes_config_ok [OF sample_Validate] by blast

lemma Validate_accepts:
  "is_ok (Validate env requireUnity c) \<longleftrightarrow>
     (requireUnity \<longrightarrow> cf_unity_path c \<noteq> [] \<or> env \<noteq> []) \<and>
     0 \<le> to_total_ms (cf_timeout c) \<and>
     ((to_compile_ms (cf_timeout c) = 0 \<and> to_test_ms (cf_timeout c) = 0) \<or>
      (0 < to_compile_ms (cf_timeout c) \<and> 0 < to_test_ms (cf_timeout c))) \<and>
     cf_test_platform c \<in> {[], ''edit_mode'', ''play_mode''} \<and>
     (\<forall>n. cf_max_runs c = Some n \<longrightarrow> 0 \<le> n) \<and>
     (\<forall>w. cf_workspace c = Some w \<longrightarrow> known_backend (ws_backend w) \<and>
        (ws_store_root w = [] \<or> IsAbs (ws_store_root w)) \<and>
        0 \<le> ws_store_max_allocated_bytes w \<and> 0 \<le> ws_minimum_host_free_bytes w \<and>
        (\<forall>kv \<in> set (ws_local_package_overrides w). trim_space (fst kv) \<noteq> [] \<and> IsAbs (snd kv)))"
  (is "_ \<longleftrightarrow> ?unity \<and> ?rest")
proof -
  have u: "(\<exists>c1. default_unity env requireUnity c = Inr c1) \<longleftrightarrow> ?unity"
    by (auto simp: default_unity_def Let_def)
  have frame: "default_unity env requireUnity c = Inr c1 \<Longrightarrow> cf_timeout c1 = cf_timeout c \<and>
      cf_test_platform c1 = cf_test_platform c \<and> cf_max_runs c1 = cf_max_runs c \<and>
      cf_workspace c1 = cf_workspace c" for c1
    by (auto simp: default_unity_def Let_def split: if_splits)
  have t: "(\<exists>t'. check_timeouts t = Inr t') \<longleftrightarrow> 0 \<le> to_total_ms t \<and>
      ((to_compile_ms t = 0 \<and> to_test_ms t = 0) \<or> (0 < to_compile_ms t \<and> 0 < to_test_ms t))" for t
    by (auto simp: check_timeouts_def Let_def)
  have p: "(\<exists>p'. check_platform p = Inr p') \<longleftrightarrow> p \<in> {[], ''edit_mode'', ''play_mode''}" for p
    by (auto simp: check_platform_def)
  have r: "(\<exists>r'. check_retention r = Inr r') \<longleftrightarrow> (\<forall>n. r = Some n \<longrightarrow> 0 \<le> n)" for r
    by (auto simp: check_retention_def Let_def split: option.splits)
  have w: "(\<exists>w'. check_workspace w = Inr w') \<longleftrightarrow>
      known_backend (ws_backend w) \<and>
      (ws_store_root w = [] \<or> IsAbs (ws_store_root w)) \<and>
      0 \<le> ws_store_max_allocated_bytes w \<and> 0 \<le> ws_minimum_host_free_bytes w \<and>
      (\<forall>kv \<in> set (ws_local_package_overrides w). trim_space (fst kv) \<noteq> [] \<and> IsAbs (snd kv))" for w
    by (simp add: check_workspace_Inr)
  have "is_ok (Validate env requireUnity c) \<longleftrightarrow>
      (\<exists>c1. default_unity env requireUnity c = Inr c1) \<and>
      (\<exists>t'. check_timeouts (cf_timeout c) = Inr t') \<and>
      (\<exists>p'. check_platform (cf_test_platform c) = Inr p') \<and>
      (\<exists>r'. check_retention (cf_max_runs c) = Inr r') \<and>
      (\<forall>w. cf_workspace c = Some w \<longrightarrow> (\<exists>w'. check_workspace w = Inr w'))"
    by (cases "cf_workspace c")
      (auto simp: is_ok_iff Validate_def bind_result_Inr_iff Let_def frame)
  then show ?thesis by (simp only: u t p r w conj_assoc)
qed

text \<open>
  C9. \<open>Validate\<close> accepts exactly the configurations that meet the documented rules, and applies
  them to the raw file: only a negative total, a negative or half-set pair of phase timeouts, an
  unknown platform or backend, a negative retention count or limit, a relative store root or
  override, an unnamed override or a missing Unity path is refused; everything omitted has a
  default.
\<close>

theorem Validate_accepts_iff:
  "is_ok (Validate env requireUnity c) \<longleftrightarrow>
     (if requireUnity then cf_unity_path c \<noteq> [] \<or> env \<noteq> [] else True) \<and>
     0 \<le> to_total_ms (cf_timeout c) \<and>
     ((to_compile_ms (cf_timeout c) = 0 \<and> to_test_ms (cf_timeout c) = 0) \<or>
      (0 < to_compile_ms (cf_timeout c) \<and> 0 < to_test_ms (cf_timeout c))) \<and>
     cf_test_platform c \<in> {[], ''edit_mode'', ''play_mode''} \<and>
     (case cf_max_runs c of None \<Rightarrow> True | Some n \<Rightarrow> 0 \<le> n) \<and>
     (case cf_workspace c of None \<Rightarrow> True
      | Some w \<Rightarrow> known_backend (ws_backend w) \<and>
          (ws_store_root w = [] \<or> IsAbs (ws_store_root w)) \<and>
          0 \<le> ws_store_max_allocated_bytes w \<and> 0 \<le> ws_minimum_host_free_bytes w \<and>
          list_all (\<lambda>kv. trim_space (fst kv) \<noteq> [] \<and> IsAbs (snd kv)) (ws_local_package_overrides w))"
  unfolding Validate_accepts by (simp add: list_all_iff split: option.split)

lemma Validate_accepts_iff_witness:
  "is_ok (Validate ''/opt/Unity'' True sample_config) \<and>
   \<not> is_ok (Validate [] True sample_config) \<and>
   \<not> is_ok (Validate ''/opt/Unity'' True (sample_config\<lparr>cf_test_platform := ''editor''\<rparr>))"
  unfolding Validate_accepts_iff by (simp add: sample_config_def)

text \<open>
  The deadline of a validated run is the configured number of milliseconds: for a total below
  2^63 nanoseconds the 64-bit product does not wrap, so the context deadline is positive and
  exact. Above that bound a configuration still validates, but its deadline wraps.
\<close>

theorem total_deadline_exact:
  assumes "Validate env requireUnity c = Inr c'" "to_total_ms (cf_timeout c') \<le> 9223372036854"
  shows "duration_of_ms (to_total_ms (cf_timeout c')) = to_total_ms (cf_timeout c') * 1000000 \<and>
     0 < duration_of_ms (to_total_ms (cf_timeout c'))"
proof -
  obtain t where "check_timeouts t = Inr (cf_timeout c')"
    using assms(1) by (auto simp: Validate_def bind_result_Inr_iff Let_def split: option.splits)
  then have "0 < to_total_ms (cf_timeout c')" using check_timeouts_ok by blast
  moreover from this have "duration_of_ms (to_total_ms (cf_timeout c'))
      = to_total_ms (cf_timeout c') * 1000000"
    unfolding duration_of_ms_def using assms(2)
    by (intro wrap64_id) (simp_all add: min_int64_def max_int64_def)
  ultimately show ?thesis by simp
qed

theorem total_deadline_exact_witness: "duration_of_ms 300000 = 300000000000"
  using total_deadline_exact [OF sample_Validate] by simp

text \<open>A total that validates and whose deadline is already in the past.\<close>

lemma total_deadline_wraps:
  "is_ok (Validate ''/opt/Unity'' True (sample_config\<lparr>cf_timeout :=
      \<lparr>to_compile_ms = 0, to_test_ms = 0, to_total_ms = 9223372036855\<rparr>\<rparr>)) \<and>
   duration_of_ms 9223372036855 < 0"
  by (simp add: Validate_accepts sample_config_def duration_of_ms_def wrap64_def)

end
