(* ===== verification/Scenario.thy ===== *)
theory Scenario
  imports RunId Config Status
begin

text \<open>
  Scenario files, \<^verbatim>\<open>internal/scenario/spec.go\<close>: instances with roles, an optional
  dependency on another role and the phase to wait for, and every check of \<^verbatim>\<open>Load\<close> in the
  order of the source. Go's maps from roles are functions of the instance list: after the checks
  roles are unique, so looking a role up finds the one instance that has it.
\<close>

section \<open>Instances\<close>

record instance_spec =
  is_role :: string
  is_config :: string
  is_depends_on :: string
  is_depends_on_phase :: string
  is_ready_phase :: string
  is_ready_timeout_ms :: int
  is_compare_run :: string
  is_env :: "(string \<times> string) list"

record scenario_file =
  sf_schema_version :: string
  sf_instances :: "instance_spec list"
  sf_dir :: string

definition EffectiveReadyPhase :: "instance_spec \<Rightarrow> phase" where
  "EffectiveReadyPhase i = (if is_ready_phase i = [] then ''compiling'' else is_ready_phase i)"

definition EffectiveReadyTimeoutMs :: "instance_spec \<Rightarrow> int" where
  "EffectiveReadyTimeoutMs i = (if is_ready_timeout_ms i \<le> 0 then 30000 else is_ready_timeout_ms i)"

definition ConfigPath :: "scenario_file \<Rightarrow> instance_spec \<Rightarrow> string" where
  "ConfigPath f i = (if IsAbs (is_config i) then is_config i else Join [sf_dir f, is_config i])"

definition DependencyPhase :: "scenario_file \<Rightarrow> instance_spec \<Rightarrow> phase" where
  "DependencyPhase f i =
     (if is_depends_on_phase i \<noteq> [] then is_depends_on_phase i
      else case find (\<lambda>d. is_role d = is_depends_on i) (sf_instances f) of
          Some d \<Rightarrow> EffectiveReadyPhase d
        | None \<Rightarrow> ''compiling'')"

definition SignalPhase :: "scenario_file \<Rightarrow> instance_spec \<Rightarrow> phase" where
  "SignalPhase f i =
     (if is_ready_phase i \<noteq> [] then is_ready_phase i
      else case find (\<lambda>c. is_depends_on c = is_role i \<and> is_depends_on_phase c \<noteq> [])
            (sf_instances f) of
          Some c \<Rightarrow> is_depends_on_phase c
        | None \<Rightarrow> EffectiveReadyPhase i)"

definition validPhaseTarget :: "phase \<Rightarrow> bool" where
  "validPhaseTarget p \<longleftrightarrow> p = [] \<or> p = ''compiling'' \<or> p = ''running'' \<or> p = ''done''"

section \<open>The checks of Load\<close>

datatype spec_error =
    FileNotFound | FileUnreadableErr | BadJson | NoSchema | NoInstances
  | RoleMissing | ConfigMissing | RoleDuplicate | BadReadyPhase | BadDependsOnPhase
  | NegativeReadyTimeout | BadCompareRun
  | UnknownDependency | SelfDependency | PhaseConflict | RequestConflict
  | EmptyEnvKey | EnvKeyWithEquals | CircularDependency
  | SinglePhaseNeverRuns

definition check_instance :: "string list \<Rightarrow> instance_spec \<Rightarrow> spec_error + unit" where
  "check_instance seen i =
     (if is_role i = [] then Inl RoleMissing
      else if is_config i = [] then Inl ConfigMissing
      else if is_role i \<in> set seen then Inl RoleDuplicate
      else if \<not> validPhaseTarget (is_ready_phase i) then Inl BadReadyPhase
      else if \<not> validPhaseTarget (is_depends_on_phase i) then Inl BadDependsOnPhase
      else if is_ready_timeout_ms i < 0 then Inl NegativeReadyTimeout
      else if is_compare_run i \<noteq> [] \<and> \<not> IsValid (is_compare_run i) then Inl BadCompareRun
      else Inr ())"

text \<open>The first loop: every instance on its own, and roles unique among those before it.\<close>

fun check_instances :: "string list \<Rightarrow> instance_spec list \<Rightarrow> spec_error + unit" where
  "check_instances seen [] = Inr ()"
| "check_instances seen (i # is) =
     bind_result (check_instance seen i) (\<lambda>_. check_instances (is_role i # seen) is)"

definition instance_of_role :: "instance_spec list \<Rightarrow> string \<Rightarrow> instance_spec option" where
  "instance_of_role is r = find (\<lambda>d. is_role d = r) is"

text \<open>
  The second loop: references and phases. \<open>req\<close> is the map
  \<^verbatim>\<open>requiredDependencyPhases\<close> from a dependency to the phase asked of it so far.
\<close>

fun check_dependencies ::
    "instance_spec list \<Rightarrow> (string \<rightharpoonup> phase) \<Rightarrow> instance_spec list \<Rightarrow> spec_error + unit" where
  "check_dependencies all req [] = Inr ()"
| "check_dependencies all req (i # is) =
     (if is_depends_on i = [] then check_dependencies all req is
      else case instance_of_role all (is_depends_on i) of
          None \<Rightarrow> Inl UnknownDependency
        | Some dep \<Rightarrow>
            (if is_depends_on i = is_role i then Inl SelfDependency
             else
               (let p = (if is_depends_on_phase i = [] then EffectiveReadyPhase dep
                         else is_depends_on_phase i)
                in if is_ready_phase dep \<noteq> [] \<and> is_depends_on_phase i \<noteq> [] \<and>
                      is_ready_phase dep \<noteq> is_depends_on_phase i then Inl PhaseConflict
                   else if (case req (is_depends_on i) of None \<Rightarrow> False | Some q \<Rightarrow> q \<noteq> p)
                     then Inl RequestConflict
                   else check_dependencies all (req(is_depends_on i \<mapsto> p)) is)))"

definition check_env_key :: "string \<times> string \<Rightarrow> spec_error + unit" where
  "check_env_key kv =
     (if fst kv = [] then Inl EmptyEnvKey
      else if CHR ''='' \<in> set (fst kv) then Inl EnvKeyWithEquals else Inr ())"

text \<open>\<^verbatim>\<open>deps\<close>: role to the role it depends on; a missing key reads as the empty string.\<close>

definition next_role :: "instance_spec list \<Rightarrow> string \<Rightarrow> string" where
  "next_role is r = (case instance_of_role is r of None \<Rightarrow> [] | Some i \<Rightarrow> is_depends_on i)"

definition role_list :: "instance_spec list \<Rightarrow> string list" where
  "role_list is = map is_role is"

lemma instance_of_role_Some:
  "instance_of_role is r = Some i \<Longrightarrow> i \<in> set is \<and> is_role i = r"
  by (auto simp: instance_of_role_def find_Some_iff)

text \<open>
  The walk along the dependencies of one start: \<open>True\<close> when it meets a visited role. It stops
  because every step visits a new role of the finite list or leaves it.
\<close>

function revisits :: "instance_spec list \<Rightarrow> string list \<Rightarrow> string \<Rightarrow> bool" where
  "revisits is visited cur =
     (if cur = [] then False
      else if cur \<in> set visited then True
      else revisits is (cur # visited) (next_role is cur))"
  by pat_completeness auto
termination
proof (relation "measure (\<lambda>(is, v, cur).
    if cur = [] then 0 else Suc (card (set (role_list is) - set v)))", goal_cases)
  case 1
  show ?case by simp
next
  case (2 "is" v cur)
  have "cur \<in> set (role_list is)" if "next_role is cur \<noteq> []"
    using that instance_of_role_Some
    by (fastforce simp: next_role_def role_list_def split: option.splits)
  moreover have "card (set (role_list is) - insert cur (set v)) < card (set (role_list is) - set v)"
    if "cur \<in> set (role_list is)"
    by (rule psubset_card_mono) (use that 2 in auto)
  ultimately show ?case using 2 by auto
qed

declare revisits.simps [simp del]

definition has_cycle :: "instance_spec list \<Rightarrow> bool" where
  "has_cycle is \<longleftrightarrow>
     (\<exists>i \<in> set is. is_depends_on i \<noteq> [] \<and> revisits is [is_role i] (is_depends_on i))"

definition Load_scenario ::
    "string \<Rightarrow> scenario_file option file_read \<Rightarrow> spec_error + scenario_file" where
  "Load_scenario path r =
     (case r of
        FileMissing \<Rightarrow> Inl FileNotFound
      | FileUnreadable \<Rightarrow> Inl FileUnreadableErr
      | FileBytes None \<Rightarrow> Inl BadJson
      | FileBytes (Some sf) \<Rightarrow>
          (if sf_schema_version sf = [] then Inl NoSchema
           else if sf_instances sf = [] then Inl NoInstances
           else bind_result (check_instances [] (sf_instances sf)) (\<lambda>_.
             bind_result (check_dependencies (sf_instances sf) Map.empty (sf_instances sf)) (\<lambda>_.
             bind_result (each (\<lambda>i. each check_env_key (is_env i)) (sf_instances sf)) (\<lambda>_.
               if has_cycle (sf_instances sf) then Inl CircularDependency
               else Inr (sf\<lparr>sf_dir := Dir (Clean path)\<rparr>))))))"

definition ValidateSignalPhases ::
    "(string \<Rightarrow> bool) \<Rightarrow> scenario_file \<Rightarrow> spec_error + unit" where
  "ValidateSignalPhases twoPhase f =
     each (\<lambda>i. if is_depends_on i = [] then Inr ()
            else if DependencyPhase f i = ''running'' \<and> \<not> twoPhase (is_depends_on i)
              then Inl SinglePhaseNeverRuns
            else Inr ()) (sf_instances f)"

section \<open>What a loaded scenario guarantees\<close>

definition depends :: "instance_spec list \<Rightarrow> (string \<times> string) set" where
  "depends is = {(r, d). \<exists>i \<in> set is. is_role i = r \<and> is_depends_on i = d \<and> d \<noteq> []}"

lemma check_instances_ok:
  "check_instances seen is = Inr () \<Longrightarrow>
     distinct (role_list is) \<and> set (role_list is) \<inter> set seen = {} \<and>
     (\<forall>i \<in> set is. is_role i \<noteq> [] \<and> is_config i \<noteq> [] \<and> validPhaseTarget (is_ready_phase i) \<and>
        validPhaseTarget (is_depends_on_phase i) \<and> 0 \<le> is_ready_timeout_ms i \<and>
        (is_compare_run i = [] \<or> IsValid (is_compare_run i)))"
proof (induction "is" arbitrary: seen)
  case Nil
  then show ?case by (simp add: role_list_def)
next
  case (Cons i "is")
  then have "check_instance seen i = Inr ()" and "check_instances (is_role i # seen) is = Inr ()"
    by (auto simp: bind_result_Inr_iff)
  then show ?case using Cons.IH [of "is_role i # seen"]
    by (auto simp: check_instance_def role_list_def split: if_splits)
qed

lemma instance_of_role_unique:
  "distinct (role_list is) \<Longrightarrow> i \<in> set is \<Longrightarrow> instance_of_role is (is_role i) = Some i"
proof (induction "is")
  case (Cons a "is")
  then show ?case by (auto simp: instance_of_role_def role_list_def)
qed simp

text \<open>What the second loop has established about the instances it has passed.\<close>

definition asked_phase :: "instance_spec list \<Rightarrow> instance_spec \<Rightarrow> phase" where
  "asked_phase all i = (if is_depends_on_phase i \<noteq> [] then is_depends_on_phase i
     else case instance_of_role all (is_depends_on i) of
        Some d \<Rightarrow> EffectiveReadyPhase d | None \<Rightarrow> ''compiling'')"

definition dependency_ok :: "instance_spec list \<Rightarrow> instance_spec \<Rightarrow> bool" where
  "dependency_ok all i \<longleftrightarrow>
     (\<exists>dep. instance_of_role all (is_depends_on i) = Some dep \<and> is_depends_on i \<noteq> is_role i \<and>
        (is_ready_phase dep = [] \<or> asked_phase all i = is_ready_phase dep))"

lemma check_dependencies_Cons:
  "check_dependencies all req (i # is) = Inr () \<longleftrightarrow>
     (if is_depends_on i = [] then check_dependencies all req is = Inr ()
      else dependency_ok all i \<and> (\<forall>q. req (is_depends_on i) = Some q \<longrightarrow> q = asked_phase all i) \<and>
        check_dependencies all (req(is_depends_on i \<mapsto> asked_phase all i)) is = Inr ())"
proof (cases "instance_of_role all (is_depends_on i)")
  case None
  then show ?thesis by (simp add: dependency_ok_def)
next
  case (Some dep)
  then have p: "(if is_depends_on_phase i = [] then EffectiveReadyPhase dep
      else is_depends_on_phase i) = asked_phase all i" by (simp add: asked_phase_def)
  have "(is_ready_phase dep \<noteq> [] \<and> is_depends_on_phase i \<noteq> [] \<and>
      is_ready_phase dep \<noteq> is_depends_on_phase i) \<longleftrightarrow>
    \<not> (is_ready_phase dep = [] \<or> asked_phase all i = is_ready_phase dep)"
    using p by (auto simp: EffectiveReadyPhase_def split: if_splits)
  then show ?thesis using Some p by (auto simp: dependency_ok_def Let_def split: option.split)
qed

declare check_dependencies.simps(2) [simp del]

lemma check_dependencies_ok:
  "check_dependencies all req is = Inr () \<Longrightarrow> i \<in> set is \<Longrightarrow> is_depends_on i \<noteq> [] \<Longrightarrow> dependency_ok all i"
  by (induction "is" arbitrary: req) (auto simp: check_dependencies_Cons split: if_splits)

lemma check_dependencies_requested:
  "check_dependencies all req is = Inr () \<Longrightarrow> i \<in> set is \<Longrightarrow> is_depends_on i \<noteq> [] \<Longrightarrow>
     req (is_depends_on i) = Some q \<Longrightarrow> q = asked_phase all i"
proof (induction "is" arbitrary: req)
  case (Cons k "is")
  then show ?case
    by (cases "is_depends_on k = is_depends_on i") (auto simp: check_dependencies_Cons split: if_splits)
qed simp

lemma check_dependencies_agree:
  "check_dependencies all req is = Inr () \<Longrightarrow> i \<in> set is \<Longrightarrow> j \<in> set is \<Longrightarrow> is_depends_on i \<noteq> [] \<Longrightarrow>
     is_depends_on j = is_depends_on i \<Longrightarrow> asked_phase all j = asked_phase all i"
proof (induction "is" arbitrary: req)
  case (Cons k "is")
  have first: "asked_phase all x = asked_phase all k"
    if "x \<in> set is" "is_depends_on x = is_depends_on k" "is_depends_on k \<noteq> []" for x
    using check_dependencies_requested [of all "req(is_depends_on k \<mapsto> asked_phase all k)" "is" x]
      Cons.prems(1) that by (auto simp: check_dependencies_Cons)
  have "\<exists>req'. check_dependencies all req' is = Inr ()"
    using Cons.prems(1) by (auto simp: check_dependencies_Cons split: if_splits)
  then show ?case using Cons first by (metis set_ConsD)
qed simp

lemma DependencyPhase_asked: "DependencyPhase f i = asked_phase (sf_instances f) i"
  by (simp add: DependencyPhase_def asked_phase_def instance_of_role_def)

section \<open>Cycles\<close>

lemma next_role_Nil: "\<forall>i \<in> set is. is_role i \<noteq> [] \<Longrightarrow> next_role is [] = []"
  by (auto simp: next_role_def split: option.splits dest: instance_of_role_Some)

text \<open>A walk that meets no visited role never does, however far it is followed.\<close>

lemma revisits_False:
  assumes "\<not> revisits is visited cur" "\<forall>i \<in> set is. is_role i \<noteq> []"
  shows "(next_role is ^^ n) cur = [] \<or> (next_role is ^^ n) cur \<notin> set visited"
  using assms
proof (induction "is" visited cur arbitrary: n rule: revisits.induct)
  case (1 "is" visited cur)
  show ?case
  proof (cases "cur = []")
    case True
    have "(next_role is ^^ n) [] = []" using next_role_Nil [OF "1.prems"(2)] by (induction n) simp_all
    then show ?thesis using True by simp
  next
    case False
    then have new: "cur \<notin> set visited" and rest: "\<not> revisits is (cur # visited) (next_role is cur)"
      using "1.prems"(1) by (auto simp: revisits.simps [of "is" visited cur] split: if_splits)
    show ?thesis
    proof (cases n)
      case 0
      then show ?thesis using new by simp
    next
      case (Suc m)
      then show ?thesis using "1.IH" [OF False new rest "1.prems"(2), of m]
        by (auto simp: funpow_swap1)
    qed
  qed
qed

lemma depends_next:
  "distinct (role_list is) \<Longrightarrow> (r, d) \<in> depends is \<Longrightarrow> next_role is r = d \<and> d \<noteq> []"
  by (auto simp: depends_def next_role_def instance_of_role_unique)

lemma depends_trancl_next:
  "(r, d) \<in> (depends is)\<^sup>+ \<Longrightarrow> distinct (role_list is) \<Longrightarrow> \<exists>n. (next_role is ^^ n) (next_role is r) = d \<and> d \<noteq> []"
proof (induction rule: trancl_induct)
  case (base y)
  then show ?case using depends_next by (metis funpow_0)
next
  case (step y z)
  then obtain n where "(next_role is ^^ n) (next_role is r) = y" by blast
  then have "(next_role is ^^ Suc n) (next_role is r) = z \<and> z \<noteq> []"
    using step depends_next by simp
  then show ?case by blast
qed

lemma acyclic_depends:
  assumes "\<not> has_cycle is" "distinct (role_list is)" "\<forall>i \<in> set is. is_role i \<noteq> []"
  shows "acyclic (depends is)"
proof (rule acyclicI, rule allI, rule notI)
  fix r assume cyc: "(r, r) \<in> (depends is)\<^sup>+"
  then obtain d where "(r, d) \<in> depends is" by (meson tranclD)
  then obtain i where i: "i \<in> set is" "is_role i = r" "is_depends_on i = d" "d \<noteq> []"
    by (auto simp: depends_def)
  have "next_role is r = d" using depends_next [OF assms(2) \<open>(r, d) \<in> depends is\<close>] by simp
  moreover have "\<not> revisits is [r] d" using assms(1) i by (auto simp: has_cycle_def)
  ultimately have none: "(next_role is ^^ n) (next_role is r) = [] \<or> (next_role is ^^ n) (next_role is r) \<noteq> r" for n
    using revisits_False [of "is" "[r]" d n] assms(3) by simp
  obtain n where "(next_role is ^^ n) (next_role is r) = r" "r \<noteq> []"
    using depends_trancl_next [OF cyc assms(2)] by blast
  with none [of n] show False by simp
qed

lemma Load_scenario_Inr:
  assumes "Load_scenario path r = Inr f"
  shows "check_instances [] (sf_instances f) = Inr ()"
    and "check_dependencies (sf_instances f) Map.empty (sf_instances f) = Inr ()"
    and "\<forall>i \<in> set (sf_instances f). each check_env_key (is_env i) = Inr ()"
    and "\<not> has_cycle (sf_instances f)" and "sf_instances f \<noteq> []"
  using assms
  by (auto simp: Load_scenario_def bind_result_Inr_iff each_Inr split: file_read.splits option.splits if_splits)

section \<open>Properties of a loaded scenario\<close>

lemma Load_acyclic:
  assumes "Load_scenario path r = Inr f"
  shows "acyclic (depends (sf_instances f)) \<and> distinct (role_list (sf_instances f)) \<and>
    (\<forall>(a, d) \<in> depends (sf_instances f). d \<in> set (role_list (sf_instances f)) \<and> d \<noteq> a)"
proof -
  note inst = check_instances_ok [OF Load_scenario_Inr(1) [OF assms]]
  have roles: "distinct (role_list (sf_instances f))" "\<forall>i \<in> set (sf_instances f). is_role i \<noteq> []"
    using inst by blast+
  have "d \<in> set (role_list (sf_instances f)) \<and> d \<noteq> a" if ad: "(a, d) \<in> depends (sf_instances f)" for a d
  proof -
    obtain i where i: "i \<in> set (sf_instances f)" "is_role i = a" "is_depends_on i = d" "d \<noteq> []"
      using ad by (auto simp: depends_def)
    have "dependency_ok (sf_instances f) i"
      using check_dependencies_ok [OF Load_scenario_Inr(2) [OF assms] i(1)] i by simp
    then obtain dep where dep: "instance_of_role (sf_instances f) d = Some dep" "d \<noteq> a"
      using i by (auto simp: dependency_ok_def)
    then have "dep \<in> set (sf_instances f)" "d = is_role dep"
      using instance_of_role_Some by fastforce+
    then show ?thesis using dep(2) by (simp add: role_list_def)
  qed
  then show ?thesis using acyclic_depends [OF Load_scenario_Inr(4) [OF assms] roles] roles by blast
qed

text \<open>
  C4. The dependency graph of every scenario that loads is acyclic, roles are unique and every
  dependency names another instance of the file: so waiting on dependencies can never deadlock.
\<close>

theorem loaded_scenario_acyclic:
  assumes "Load_scenario path r = Inr f"
  shows "acyclic (depends (sf_instances f)) \<and> distinct (role_list (sf_instances f)) \<and>
    (\<forall>(a, d) \<in> depends (sf_instances f). d \<in> set (role_list (sf_instances f)) \<and> d \<noteq> a)"
  by (rule Load_acyclic [OF assms])

definition sample_host :: instance_spec where
  "sample_host = \<lparr>is_role = ''host'', is_config = ''host.json'', is_depends_on = [],
     is_depends_on_phase = [], is_ready_phase = [], is_ready_timeout_ms = 0, is_compare_run = [],
     is_env = []\<rparr>"

definition sample_client :: instance_spec where
  "sample_client = \<lparr>is_role = ''client'', is_config = ''client.json'', is_depends_on = ''host'',
     is_depends_on_phase = ''done'', is_ready_phase = [], is_ready_timeout_ms = 5000,
     is_compare_run = [], is_env = [(''MODE'', ''1'')]\<rparr>"

definition sample_scenario :: scenario_file where
  "sample_scenario = \<lparr>sf_schema_version = ''1'', sf_instances = [sample_host, sample_client],
     sf_dir = []\<rparr>"

lemma sample_Load:
  "Load_scenario ''/s/scenario.json'' (FileBytes (Some sample_scenario)) =
     Inr (sample_scenario\<lparr>sf_dir := ''/s''\<rparr>)"
  by code_simp

theorem loaded_scenario_acyclic_witness:
  "acyclic (depends [sample_host, sample_client]) \<and> (''client'', ''host'') \<in> depends [sample_host, sample_client]"
proof -
  have "(''client'', ''host'') \<in> depends [sample_host, sample_client]"
    by (simp add: depends_def sample_client_def sample_host_def)
  then show ?thesis using loaded_scenario_acyclic [OF sample_Load] by (simp add: sample_scenario_def)
qed

text \<open>
  In every scenario that loads, an instance waits for exactly the phase its dependency signals:
  \<open>DependencyPhase\<close> of the dependent, computed from its own fields, equals \<open>SignalPhase\<close> of the
  dependency, computed from the fields of all its dependents. A waiter never waits for a phase the
  notifier of its dependency is not watching for.
\<close>

theorem waited_phase_is_signalled:
  assumes "Load_scenario path r = Inr f" "i \<in> set (sf_instances f)" "is_depends_on i \<noteq> []"
    "d \<in> set (sf_instances f)" "is_role d = is_depends_on i"
  shows "DependencyPhase f i = SignalPhase f d"
proof -
  let ?is = "sf_instances f"
  note inst = check_instances_ok [OF Load_scenario_Inr(1) [OF assms(1)]]
  note deps = Load_scenario_Inr(2) [OF assms(1)]
  have d: "instance_of_role ?is (is_depends_on i) = Some d"
    using instance_of_role_unique [of ?is d] inst assms(4,5) by simp
  have agree: "asked_phase ?is c = asked_phase ?is i"
    if "c \<in> set ?is" "is_depends_on c = is_depends_on i" for c
    using check_dependencies_agree [OF deps assms(2) that(1) assms(3) that(2)] .
  show ?thesis
  proof (cases "is_ready_phase d = []")
    case False
    then show ?thesis using check_dependencies_ok [OF deps assms(2,3)] d
      by (simp add: dependency_ok_def DependencyPhase_asked SignalPhase_def)
  next
    case True
    show ?thesis
    proof (cases "find (\<lambda>c. is_depends_on c = is_role d \<and> is_depends_on_phase c \<noteq> []) ?is")
      case None
      then have "is_depends_on_phase i = []" using assms(2,5) by (auto simp: find_None_iff)
      then show ?thesis using True None d
        by (simp add: SignalPhase_def DependencyPhase_asked asked_phase_def)
    next
      case (Some c)
      then have c: "c \<in> set ?is" "is_depends_on c = is_depends_on i" "is_depends_on_phase c \<noteq> []"
        using assms(5) by (auto simp: find_Some_iff)
      have "asked_phase ?is c = is_depends_on_phase c" using c(3) by (simp add: asked_phase_def)
      then show ?thesis using agree [OF c(1,2)] True Some
        by (simp add: SignalPhase_def DependencyPhase_asked)
    qed
  qed
qed

theorem waited_phase_is_signalled_witness:
  "DependencyPhase (sample_scenario\<lparr>sf_dir := ''/s''\<rparr>) sample_client = ''done'' \<and>
   SignalPhase (sample_scenario\<lparr>sf_dir := ''/s''\<rparr>) sample_host = ''done''"
  using waited_phase_is_signalled [OF sample_Load, of sample_client sample_host]
  by (simp add: sample_scenario_def sample_client_def sample_host_def DependencyPhase_def)

text \<open>
  After both validations no instance waits for a phase its dependency cannot emit: it waits for
  \<open>compiling\<close>, \<open>running\<close> or \<open>done\<close>, and for \<open>running\<close> only on an instance whose
  configuration is two-phase.
\<close>

theorem waited_phase_can_occur:
  assumes "Load_scenario path r = Inr f" "ValidateSignalPhases twoPhase f = Inr ()"
    "i \<in> set (sf_instances f)" "is_depends_on i \<noteq> []"
  shows "DependencyPhase f i \<in> {''compiling'', ''running'', ''done''} \<and>
    (DependencyPhase f i = ''running'' \<longrightarrow> twoPhase (is_depends_on i))"
proof -
  note inst = check_instances_ok [OF Load_scenario_Inr(1) [OF assms(1)]]
  obtain d where d: "instance_of_role (sf_instances f) (is_depends_on i) = Some d"
    using check_dependencies_ok [OF Load_scenario_Inr(2) [OF assms(1)] assms(3,4)]
    by (auto simp: dependency_ok_def)
  then have "validPhaseTarget (is_ready_phase d)" "validPhaseTarget (is_depends_on_phase i)"
    using inst assms(3) by (auto dest: instance_of_role_Some)
  then have "DependencyPhase f i \<in> {''compiling'', ''running'', ''done''}"
    using d by (auto simp: DependencyPhase_asked asked_phase_def EffectiveReadyPhase_def validPhaseTarget_def)
  moreover have "DependencyPhase f i = ''running'' \<longrightarrow> twoPhase (is_depends_on i)"
    using assms(2-4) by (auto simp: ValidateSignalPhases_def each_Inr split: if_splits)
  ultimately show ?thesis by blast
qed

theorem waited_phase_can_occur_witness:
  "DependencyPhase (sample_scenario\<lparr>sf_dir := ''/s''\<rparr>) sample_client \<in> {''compiling'', ''running'', ''done''}"
proof -
  have "ValidateSignalPhases (\<lambda>_. False) (sample_scenario\<lparr>sf_dir := ''/s''\<rparr>) = Inr ()"
    by (simp add: ValidateSignalPhases_def sample_scenario_def sample_client_def sample_host_def
        DependencyPhase_def)
  moreover have "sample_client \<in> set (sf_instances (sample_scenario\<lparr>sf_dir := ''/s''\<rparr>))"
    "is_depends_on sample_client \<noteq> []" by (simp_all add: sample_scenario_def sample_client_def)
  ultimately show ?thesis using waited_phase_can_occur [OF sample_Load] by blast
qed

end
