(* ===== verification/NUnitParser.thy ===== *)
theory NUnitParser
  imports GoPath LineTail
begin

text \<open>
  NUnit results, \<^verbatim>\<open>internal/parser/parser.go\<close>: from the unmarshalled XML tree to the list of
  test cases, the source location found in a stack trace, and paths relative to the project.
  XML unmarshalling is the argument of \<open>Parse\<close> (\<open>None\<close> where it fails). A
  \<^verbatim>\<open>float64\<close> is its 64-bit pattern; \<^verbatim>\<open>strconv.ParseFloat\<close> is the parameter
  \<open>parse_float\<close>, which returns the value and whether there was no error.
\<close>

type_synonym float64 = "64 word"

record test_case =
  tc_name :: string
  tc_result :: string
  tc_duration :: float64
  tc_message :: string
  tc_excerpt :: string
  tc_file :: string
  tc_absolute_path :: string
  tc_line :: int
  tc_parameterized_group :: string

record nunit_result =
  nr_total :: int
  nr_passed :: int
  nr_failed :: int
  nr_skipped :: int
  nr_duration :: float64
  nr_tests :: "test_case list"

record xml_fail =
  xf_message :: string
  xf_stack_trace :: string

record xml_test_case =
  xc_name :: string
  xc_full_name :: string
  xc_result :: string
  xc_duration :: string
  xc_failure :: "xml_fail option"

datatype xml_test_suite =
  XmlTestSuite (xs_type: string) (xs_name: string) (xs_full_name: string)
    (xs_test_cases: "xml_test_case list") (xs_test_suites: "xml_test_suite list")

record xml_test_run =
  xr_total :: int
  xr_passed :: int
  xr_failed :: int
  xr_skipped :: int
  xr_duration :: string
  xr_test_suites :: "xml_test_suite list"

definition FailedTests :: "nunit_result \<Rightarrow> test_case list" where
  "FailedTests r = filter (\<lambda>tc. tc_result tc = ''Failed'') (nr_tests r)"

section \<open>Source locations\<close>

text \<open>
  A regular expression of the form \<^verbatim>\<open>pre(.+)mid(\d+)post\<close>, leftmost match first and
  \<^verbatim>\<open>.+\<close> as long as possible on its line: the text of the two groups.
\<close>

definition tail_digits :: "string \<Rightarrow> string \<Rightarrow> string \<Rightarrow> string option" where
  "tail_digits mid post s =
     (if has_prefix s mid then
        (let r = drop (length mid) s; ds = takeWhile is_digit r
         in if ds \<noteq> [] \<and> has_prefix (drop (length ds) r) post then Some ds else None)
      else None)"

definition longest_group :: "string \<Rightarrow> string \<Rightarrow> string \<Rightarrow> (string \<times> string) option" where
  "longest_group mid post w =
     (case find (\<lambda>k. tail_digits mid post (drop k w) \<noteq> None) (rev [1..<Suc (length w)]) of
        None \<Rightarrow> None
      | Some k \<Rightarrow> Some (take k w, the (tail_digits mid post (drop k w))))"

fun find_location ::
    "string \<Rightarrow> string \<Rightarrow> string \<Rightarrow> string \<Rightarrow> (string \<times> string) option" where
  "find_location pre mid post [] = None"
| "find_location pre mid post (c # s) =
     (case (if has_prefix (c # s) pre
            then longest_group mid post (line_of (drop (length pre) (c # s))) else None) of
        Some m \<Rightarrow> Some m
      | None \<Rightarrow> find_location pre mid post s)"

definition extractFileAndLine :: "string \<Rightarrow> string \<times> int" where
  "extractFileAndLine st =
     (case find_location '' in '' '':line '' [] st of
        Some (f, l) \<Rightarrow> (trim_space f, atoi_digits l)
      | None \<Rightarrow>
          (case find_location ''(at '' '':'' '')'' st of
             Some (f, l) \<Rightarrow> (trim_space f, atoi_digits l)
           | None \<Rightarrow> ([], 0)))"

section \<open>Durations\<close>

definition parseDuration :: "(string \<Rightarrow> float64 \<times> bool) \<Rightarrow> string \<Rightarrow> float64 \<times> bool" where
  "parseDuration parse_float s = parse_float (map (\<lambda>c. if c = CHR '','' then CHR ''.'' else c) s)"

section \<open>Collecting the test cases\<close>

text \<open>\<^verbatim>\<open>%d\<close> of a line number.\<close>

definition decimal_int :: "int \<Rightarrow> string" where
  "decimal_int n = (if n < 0 then CHR ''-'' # decimal (nat (- n)) else decimal (nat n))"

definition convert_case ::
    "(string \<Rightarrow> float64 \<times> bool) \<Rightarrow> string \<Rightarrow> xml_test_case \<Rightarrow> test_case" where
  "convert_case parse_float grp xc =
     (let tc = \<lparr>tc_name = xc_full_name xc, tc_result = xc_result xc,
             tc_duration = (case parseDuration parse_float (xc_duration xc) of
                 (d, ok) \<Rightarrow> if ok then d else 0),
             tc_message = [], tc_excerpt = [], tc_file = [], tc_absolute_path = [], tc_line = 0,
             tc_parameterized_group = grp\<rparr>
      in case xc_failure xc of
           None \<Rightarrow> tc
         | Some f \<Rightarrow>
             (let msg = trim_space (xf_message f); (path, line) = extractFileAndLine (xf_stack_trace f)
              in tc\<lparr>tc_message := msg, tc_absolute_path := path, tc_file := path, tc_line := line,
                   tc_excerpt := (if path \<noteq> [] \<and> 0 < line
                     then msg @ '' (at '' @ Base path @ '':'' @ decimal_int line @ '')''
                     else msg)\<rparr>))"

text \<open>Sub-suites first, then the suite's own cases; a parameterized method names the group of its cases.\<close>

fun collectCases ::
    "(string \<Rightarrow> float64 \<times> bool) \<Rightarrow> string \<Rightarrow> xml_test_suite \<Rightarrow> test_case list" where
  "collectCases parse_float paramGroup (XmlTestSuite ty nm fn cases subs) =
     (let grp = (if ty = ''ParameterizedMethod'' then fn else paramGroup)
      in concat (map (collectCases parse_float grp) subs) @
         map (convert_case parse_float grp) cases)"

definition Parse ::
    "(string \<Rightarrow> float64 \<times> bool) \<Rightarrow> xml_test_run option \<Rightarrow> nunit_result option" where
  "Parse parse_float x =
     (case x of
        None \<Rightarrow> None
      | Some run \<Rightarrow> Some
          \<lparr>nr_total = xr_total run, nr_passed = xr_passed run, nr_failed = xr_failed run,
           nr_skipped = xr_skipped run,
           nr_duration = fst (parseDuration parse_float (xr_duration run)),
           nr_tests = concat (map (collectCases parse_float []) (xr_test_suites run))\<rparr>)"

section \<open>Paths relative to the project\<close>

definition MakeRelative :: "string \<Rightarrow> string \<Rightarrow> string" where
  "MakeRelative projectPath absPath =
     (case Rel projectPath absPath of
        None \<Rightarrow> absPath
      | Some rel \<Rightarrow> (if has_prefix rel ''..'' then absPath else rel))"

section \<open>No test case is lost, invented or reordered\<close>

text \<open>The test-case elements of a suite, in document order with sub-suites first.\<close>

fun cases_of :: "xml_test_suite \<Rightarrow> xml_test_case list" where
  "cases_of (XmlTestSuite ty nm fn cases subs) = concat (map cases_of subs) @ cases"

lemma convert_case_frame [simp]:
  "tc_name (convert_case pf g xc) = xc_full_name xc"
  "tc_result (convert_case pf g xc) = xc_result xc"
  "tc_parameterized_group (convert_case pf g xc) = g"
  by (simp_all add: convert_case_def Let_def split: option.split prod.split)

lemma collectCases_cases:
  "map (\<lambda>tc. (tc_name tc, tc_result tc)) (collectCases pf g s) =
     map (\<lambda>xc. (xc_full_name xc, xc_result xc)) (cases_of s)"
proof (induction pf g s rule: collectCases.induct)
  case (1 pf g ty nm fn cases subs)
  let ?g = "if ty = ''ParameterizedMethod'' then fn else g"
  have "map (\<lambda>tc. (tc_name tc, tc_result tc)) (concat (map (collectCases pf ?g) subs)) =
      map (\<lambda>xc. (xc_full_name xc, xc_result xc)) (concat (map cases_of subs))"
    using 1 by (simp add: map_concat o_def cong: map_cong)
  then show ?case by (simp only: collectCases.simps cases_of.simps Let_def map_append) (simp add: o_def)
qed

text \<open>
  Parsing keeps every test case of the results file: the names and results of the parsed tests
  are exactly those of the test-case elements of all suites, each once, in document order with
  nested suites before the cases of their parent; so the failed tests are exactly the failed
  elements.
\<close>

theorem Parse_keeps_cases:
  "map_option (\<lambda>r. map (\<lambda>tc. (tc_name tc, tc_result tc)) (nr_tests r)) (Parse pf x) =
     map_option (\<lambda>run. map (\<lambda>xc. (xc_full_name xc, xc_result xc))
       (concat (map cases_of (xr_test_suites run)))) x"
proof (cases x)
  case (Some run)
  have "map (\<lambda>tc. (tc_name tc, tc_result tc)) (concat (map (collectCases pf []) ss)) =
      map (\<lambda>xc. (xc_full_name xc, xc_result xc)) (concat (map cases_of ss))" for ss
    by (induction ss) (simp_all add: collectCases_cases)
  then show ?thesis using Some by (simp add: Parse_def)
qed (simp add: Parse_def)

section \<open>Relative paths are lossless\<close>

lemma strip_common_shape:
  "strip_common as bs = (ra, rb) \<Longrightarrow> \<exists>p. as = p @ ra \<and> bs = p @ rb"
proof (induction as bs rule: strip_common.induct)
  case (1 a as b bs)
  then show ?case by (auto split: if_splits)
qed auto

lemma clean_elements_normal_abs:
  "''.'' \<notin> set (clean_elements True es) \<and> ''..'' \<notin> set (clean_elements True es)"
  using normal_clean_elements [of True es] by (auto simp: normal_def)

lemma split_on_append_sep: "split_on c (s @ c # t) = split_on c s @ split_on c t"
  by (induction s) (auto split: list.splits)

lemma elements_append_sep: "elements (s @ sep # t) = elements s @ elements t"
  by (simp add: elements_def split_on_append_sep)

lemma IsAbs_append: "IsAbs p \<Longrightarrow> IsAbs (p @ s)"
  by (cases p) (simp_all add: IsAbs_def has_prefix_def)

lemma Join_two_abs:
  assumes "IsAbs p"
  shows "Join [p, r] = [sep] @ join_with [sep] (clean_elements True (elements p @ elements r))"
  using assms IsAbs_nonempty_path [OF assms(1)]
  by (simp add: Join_nonempty Clean_eq_abs IsAbs_append elements_append_sep)

lemma has_prefix_dotdot_join: "has_prefix (join_with [sep] (''..'' # es)) ''..''"
  by (cases es) (simp_all add: has_prefix_def)

lemma Rel_inside:
  assumes P: "IsAbs P" and f: "IsAbs f" and rel: "Rel P f = Some r" and np: "\<not> has_prefix r ''..''"
  shows "\<not> IsAbs r \<and> Join [P, r] = Clean f"
proof -
  let ?p = "clean_elements True (elements P)" and ?f = "clean_elements True (elements f)"
  have dots: "''.'' \<notin> set ?f" "''..'' \<notin> set ?f" using clean_elements_normal_abs by blast+
  have plains: "\<forall>e \<in> set ?f. plain e" by (rule plain_Clean_elements)
  have again: "clean_elements True (elements P @ es) = ?p @ es" if "''.'' \<notin> set es" "''..'' \<notin> set es" for es
    using clean_elements_append_plain [OF that] .
  show ?thesis
  proof (cases "Clean f = Clean P")
    case True
    then have "r = ''.''" using rel by (simp add: Rel_def)
    moreover have "elements ''.'' = [''.'']" by (simp add: elements_def sep_def)
    moreover have "clean_elements True (elements P @ [''.'']) = ?p"
      by (simp add: clean_elements_def clean_step_def)
    ultimately show ?thesis using True P
      by (simp add: Join_two_abs Clean_eq_abs) (simp add: IsAbs_def has_prefix_def sep_def)
  next
    case False
    have nd: "Clean P \<noteq> ''.''" using P by (simp add: Clean_eq_abs sep_def)
    obtain rp rf where sc: "strip_common ?p ?f = (rp, rf)" by fastforce
    have r: "(case (rp, rf) of ([], rt) \<Rightarrow> Some (join_with [sep] rt)
        | (rb, rt) \<Rightarrow> if hd rb = ''..'' then None
            else Some (join_with [sep] (replicate (length rb) ''..'' @ rt))) = Some r"
      using rel False nd P f sc by (simp add: Rel_def Let_def elements_Clean_abs)
    have "rp = []"
      using r np has_prefix_dotdot_join by (cases rp) (auto split: if_splits)
    then have "?f = ?p @ rf" "r = join_with [sep] rf"
      using strip_common_shape [OF sc] r by auto
    moreover have "\<forall>e \<in> set rf. plain e" "''.'' \<notin> set rf" "''..'' \<notin> set rf"
      using plains dots \<open>?f = ?p @ rf\<close> by auto
    ultimately show ?thesis
      using again [of rf] P f
      by (simp add: Join_two_abs Clean_eq_abs elements_join_with IsAbs_join_plain)
  qed
qed

text \<open>
  Making a source path relative loses nothing: for an absolute project path, an absolute
  source path is either returned as it is, or becomes a relative path which, joined to the project
  path again, is the same file (the cleaned source path). The two cases are told apart by whether
  the result is absolute.
\<close>

theorem MakeRelative_lossless:
  assumes "IsAbs projectPath" "IsAbs absPath"
  shows "if IsAbs (MakeRelative projectPath absPath)
     then MakeRelative projectPath absPath = absPath
     else Join [projectPath, MakeRelative projectPath absPath] = Clean absPath"
proof (cases "Rel projectPath absPath")
  case None
  then show ?thesis using assms by (simp add: MakeRelative_def)
next
  case (Some r)
  then show ?thesis using assms Rel_inside [OF assms Some]
    by (cases "has_prefix r ''..''") (simp_all add: MakeRelative_def)
qed

lemma MakeRelative_lossless_witness:
  "MakeRelative ''/p/proj'' ''/p/proj/Assets/../Tests/A.cs'' = ''Tests/A.cs'' \<and>
   (if IsAbs (MakeRelative ''/p/proj'' ''/p/proj/Assets/../Tests/A.cs'')
     then MakeRelative ''/p/proj'' ''/p/proj/Assets/../Tests/A.cs'' = ''/p/proj/Assets/../Tests/A.cs''
     else Join [''/p/proj'', MakeRelative ''/p/proj'' ''/p/proj/Assets/../Tests/A.cs''] =
       Clean ''/p/proj/Assets/../Tests/A.cs'')"
proof
  show "MakeRelative ''/p/proj'' ''/p/proj/Assets/../Tests/A.cs'' = ''Tests/A.cs''" by code_simp
qed (rule MakeRelative_lossless; code_simp)

end
