(* ===== verification/Retention.thy ===== *)
theory Retention
  imports RunId
begin

text \<open>
  Directories of runs and their pruning. \<^verbatim>\<open>history.Store.Prune\<close> and
  \<^verbatim>\<open>artifacts.Store.Prune\<close> are the same loop over different entries (a result file per run,
  a directory per run): collect the valid run identifiers, keep the newest, remove the rest one
  by one, going on when a removal fails. The loop is defined here over the two operations that
  differ; its contract is the locale \<open>run_directory\<close>, which both stores interpret.
\<close>

section \<open>Directory entries\<close>

datatype node = File_node string | Dir_node "(string \<times> string) list"

type_synonym entries = "(string \<times> node) list"

definition is_dir :: "node \<Rightarrow> bool" where
  "is_dir n = (case n of Dir_node _ \<Rightarrow> True | File_node _ \<Rightarrow> False)"

lemma is_dir_simps [simp]: "is_dir (Dir_node fs)" "\<not> is_dir (File_node c)"
  by (simp_all add: is_dir_def)

text \<open>An entry is replaced where its name stands, or added.\<close>

fun put :: "string \<Rightarrow> 'n \<Rightarrow> (string \<times> 'n) list \<Rightarrow> (string \<times> 'n) list" where
  "put k x [] = [(k, x)]"
| "put k x ((k', y) # es) = (if k = k' then (k, x) # es else (k', y) # put k x es)"

definition remove_entry :: "string \<Rightarrow> (string \<times> 'n) list \<Rightarrow> (string \<times> 'n) list" where
  "remove_entry k es = filter (\<lambda>e. fst e \<noteq> k) es"

lemma map_of_put [simp]: "map_of (put k x es) = (map_of es)(k \<mapsto> x)"
  by (induction k x es rule: put.induct) auto

lemma map_of_remove_entry [simp]: "map_of (remove_entry k es) = (map_of es)(k := None)"
  by (induction es) (auto simp: remove_entry_def)

lemma fst_put: "set (map fst (put k x es)) = insert k (set (map fst es))"
  by (induction k x es rule: put.induct) auto

lemma distinct_put: "distinct (map fst es) \<Longrightarrow> distinct (map fst (put k x es))"
proof (induction k x es rule: put.induct)
  case (2 k x k' y es)
  then show ?case using fst_put [of k x es] by auto
qed simp

lemma distinct_remove_entry: "distinct (map fst es) \<Longrightarrow> distinct (map fst (remove_entry k es))"
  by (simp add: remove_entry_def distinct_map_filter)

section \<open>Pruning\<close>

text \<open>The identifiers to remove: all but the \<open>keep\<close> greatest; none when \<open>keep\<close> is not positive.\<close>

definition to_prune :: "int \<Rightarrow> string list \<Rightarrow> string list" where
  "to_prune keep ids =
     (if keep \<le> 0 \<or> int (length ids) \<le> keep then []
      else take (length ids - nat keep) (sort ids))"

text \<open>The removal loop: the number removed, the identifiers whose removal failed, the new state.\<close>

fun remove_each ::
    "(string \<Rightarrow> 'd \<Rightarrow> bool \<times> 'd) \<Rightarrow> string list \<Rightarrow> 'd \<Rightarrow> nat \<times> string list \<times> 'd" where
  "remove_each rm [] d = (0, [], d)"
| "remove_each rm (i # is) d =
     (case rm i d of
        (True, d') \<Rightarrow> (case remove_each rm is d' of (n, errs, d'') \<Rightarrow> (Suc n, errs, d''))
      | (False, d') \<Rightarrow> (case remove_each rm is d' of (n, errs, d'') \<Rightarrow> (n, i # errs, d'')))"

definition prune ::
    "('d \<Rightarrow> string list) \<Rightarrow> (string \<Rightarrow> 'd \<Rightarrow> bool \<times> 'd) \<Rightarrow> int \<Rightarrow> 'd \<Rightarrow> nat \<times> string list \<times> 'd" where
  "prune ids rm keep d = remove_each rm (to_prune keep (ids d)) d"

lemma to_prune_split:
  assumes "0 < keep"
  shows "\<exists>new. sort ids = to_prune keep ids @ new \<and> length new = min (nat keep) (length ids)"
proof (cases "int (length ids) \<le> keep")
  case True
  then have "min (nat keep) (length ids) = length ids" by simp
  then show ?thesis using True by (intro exI [of _ "sort ids"]) (simp add: to_prune_def)
next
  case False
  let ?n = "length ids - nat keep"
  have "sort ids = take ?n (sort ids) @ drop ?n (sort ids)" by simp
  moreover have "length (drop ?n (sort ids)) = min (nat keep) (length ids)"
    using False by (simp add: min_def)
  ultimately show ?thesis using False assms
    by (intro exI [of _ "drop ?n (sort ids)"]) (simp add: to_prune_def)
qed

lemma distinct_sorted_append_less:
  fixes xs ys :: "('a::linorder) list"
  assumes "sorted (xs @ ys)" "distinct (xs @ ys)" "x \<in> set xs" "y \<in> set ys"
  shows "x < y"
proof -
  have "x \<le> y" using assms(1,3,4) by (simp add: sorted_append)
  moreover have "x \<noteq> y" using assms(2-4) by auto
  ultimately show ?thesis by simp
qed

text \<open>
  The contract of a directory of runs: removing an identifier removes exactly it, or leaves it
  listed when the removal fails, and touches no entry of another name.
\<close>

locale run_directory =
  fixes ids :: "'d \<Rightarrow> string list"
    and rm :: "string \<Rightarrow> 'd \<Rightarrow> bool \<times> 'd"
    and key :: "string \<Rightarrow> string"
    and look :: "string \<Rightarrow> 'd \<Rightarrow> 'x"
  assumes ids_rm: "set (ids (snd (rm i d))) = set (ids d) - (if fst (rm i d) then {i} else {})"
    and look_rm: "name \<noteq> key i \<Longrightarrow> look name (snd (rm i d)) = look name d"
begin

lemma remove_each_ids:
  "distinct is \<Longrightarrow> remove_each rm is d = (n, errs, d') \<Longrightarrow>
     set (ids d') = set (ids d) - (set is - set errs) \<and> set errs \<subseteq> set is \<and> n + length errs = length is"
proof (induction "is" arbitrary: d n errs d')
  case (Cons i "is")
  obtain ok d1 where r: "rm i d = (ok, d1)" by fastforce
  obtain n1 e1 d2 where l: "remove_each rm is d1 = (n1, e1, d2)" by (metis prod_cases3)
  have res: "d' = d2" "(n, errs) = (if ok then (Suc n1, e1) else (n1, i # e1))"
    using Cons.prems r l by (cases ok; simp)+
  have "set (ids d1) = set (ids d) - (if ok then {i} else {})" using ids_rm [of i d] r by simp
  moreover have "set (ids d2) = set (ids d1) - (set is - set e1) \<and> set e1 \<subseteq> set is \<and>
      n1 + length e1 = length is"
    using Cons.IH [OF _ l] Cons.prems by simp
  ultimately show ?case using res Cons.prems(1) by (cases ok) auto
qed simp

lemma remove_each_look:
  "name \<notin> key ` set is \<Longrightarrow> look name (snd (snd (remove_each rm is d))) = look name d"
proof (induction "is" arbitrary: d)
  case (Cons i "is")
  obtain ok d1 where r: "rm i d = (ok, d1)" by fastforce
  then have "look name d1 = look name d" using look_rm [of name i d] Cons.prems by simp
  then show ?case using Cons r by (cases ok) (simp_all split: prod.split, (metis snd_conv)+)
qed simp

lemma prune_keeps_newest:
  assumes "0 < keep" "distinct (ids d)" "prune ids rm keep d = (removed, failed, d')"
  shows "\<exists>old new. sort (ids d) = old @ new \<and> length new = min (nat keep) (length (ids d))
    \<and> (\<forall>i \<in> set old. \<forall>j \<in> set new. i < j)
    \<and> set (ids d') = set new \<union> set failed \<and> set failed \<subseteq> set old
    \<and> removed + length failed = length old
    \<and> (\<forall>name. name \<notin> key ` set old \<longrightarrow> look name d' = look name d)"
proof -
  let ?old = "to_prune keep (ids d)"
  obtain new where new: "sort (ids d) = ?old @ new" "length new = min (nat keep) (length (ids d))"
    using to_prune_split [OF assms(1)] by blast
  have dist: "distinct (?old @ new)" using assms(2) new(1) by (metis distinct_sort)
  have srt: "sorted (?old @ new)" using new(1) by (metis sorted_sort)
  have loop: "remove_each rm ?old d = (removed, failed, d')" using assms(3) by (simp add: prune_def)
  have "set (ids d) = set ?old \<union> set new" using new(1) by (metis set_append set_sort)
  moreover have "set (ids d') = set (ids d) - (set ?old - set failed) \<and> set failed \<subseteq> set ?old \<and>
      removed + length failed = length ?old"
    using remove_each_ids [OF _ loop] dist by simp
  moreover have "set ?old \<inter> set new = {}" using dist by simp
  ultimately have "set (ids d') = set new \<union> set failed" "set failed \<subseteq> set ?old"
    "removed + length failed = length ?old" by auto
  then show ?thesis using new distinct_sorted_append_less [OF srt dist]
      remove_each_look [of _ ?old d] loop
    by (intro exI [of _ ?old] exI [of _ new]) simp
qed

lemma prune_disabled: "keep \<le> 0 \<Longrightarrow> prune ids rm keep d = (0, [], d)"
  by (simp add: prune_def to_prune_def)

end

end
