(* ===== verification/History.thy ===== *)
theory History
  imports Retention NUnitParser
begin

text \<open>
  The run history, \<^verbatim>\<open>internal/history/history.go\<close>: one JSON file per run, saved once and
  never overwritten, listed newest first, pruned to the newest, compared for regressions. The
  state is the directory: \<open>None\<close> until it exists, then its entries. Faults of the file system
  are the record \<open>store_faults\<close>; JSON encoding and decoding are the parameters
  \<open>marshal\<close> and \<open>unmarshal\<close>. A slice that may be nil is an option; the workspace
  metrics, which the history only carries, are a type parameter.
\<close>

record compile_error =
  ce_file :: string
  ce_absolute_path :: string
  ce_line :: int
  ce_column :: int
  ce_message :: string

record 'm run_result =
  rr_schema_version :: string
  rr_run_id :: string
  rr_exit_code :: int
  rr_timeout_type :: string
  rr_total :: int
  rr_passed :: int
  rr_failed :: int
  rr_skipped :: int
  rr_tests :: "test_case list option"
  rr_errors :: "compile_error list"
  rr_new_failures :: "test_case list option"
  rr_error :: string
  rr_hint :: string
  rr_backend :: string
  rr_metrics :: "'m option"

definition zero_result :: "'m run_result" where
  "zero_result = \<lparr>rr_schema_version = [], rr_run_id = [], rr_exit_code = 0, rr_timeout_type = [],
     rr_total = 0, rr_passed = 0, rr_failed = 0, rr_skipped = 0, rr_tests = None, rr_errors = [],
     rr_new_failures = None, rr_error = [], rr_hint = [], rr_backend = [], rr_metrics = None\<rparr>"

definition items :: "'a list option \<Rightarrow> 'a list" where
  "items s = (case s of None \<Rightarrow> [] | Some xs \<Rightarrow> xs)"

lemma items_simps [simp]: "items None = []" "items (Some xs) = xs"
  by (simp_all add: items_def)

datatype store_error = ErrRunExists | ErrRunNotFound | ErrInvalidRunID | ErrStoreIO | ErrStoreJSON

record store_faults =
  fault_mkdir :: bool
  fault_write :: bool
  fault_read :: "string \<Rightarrow> bool"
  fault_list :: bool
  fault_remove :: "string \<Rightarrow> bool"

definition no_faults :: store_faults where
  "no_faults = \<lparr>fault_mkdir = False, fault_write = False, fault_read = (\<lambda>_. False),
     fault_list = False, fault_remove = (\<lambda>_. False)\<rparr>"

type_synonym store = "entries option"

section \<open>Operations\<close>

definition validateRunID :: "string \<Rightarrow> store_error + unit" where
  "validateRunID i = require (IsValid i) ErrInvalidRunID"

definition result_file :: "string \<Rightarrow> string" where
  "result_file i = i @ ''.json''"

definition Save ::
    "store_faults \<Rightarrow> ('m run_result \<Rightarrow> string option) \<Rightarrow> string \<Rightarrow> 'm run_result \<Rightarrow> store \<Rightarrow>
     (store_error + unit) \<times> store" where
  "Save flt marshal i r d =
     (if validateRunID i \<noteq> Inr () then (Inl ErrInvalidRunID, d)
      else if d = None \<and> fault_mkdir flt then (Inl ErrStoreIO, d)
      else let es = items d in
        if map_of es (result_file i) \<noteq> None then (Inl ErrRunExists, Some es)
        else (case marshal r of
            None \<Rightarrow> (Inl ErrStoreJSON, Some es)
          | Some data \<Rightarrow>
              (if fault_write flt then (Inl ErrStoreIO, Some es)
               else (Inr (), Some (put (result_file i) (File_node data) es)))))"

definition Load ::
    "store_faults \<Rightarrow> (string \<Rightarrow> 'm run_result option) \<Rightarrow> string \<Rightarrow> store \<Rightarrow>
     store_error + 'm run_result" where
  "Load flt unmarshal i d =
     bind_result (validateRunID i) (\<lambda>_.
       case map_of (items d) (result_file i) of
         None \<Rightarrow> Inl ErrRunNotFound
       | Some (Dir_node _) \<Rightarrow> Inl ErrStoreIO
       | Some (File_node data) \<Rightarrow>
           (if fault_read flt i then Inl ErrStoreIO
            else case unmarshal data of
                None \<Rightarrow> Inl ErrStoreJSON
              | Some r \<Rightarrow> Inr (r\<lparr>rr_tests := Some (items (rr_tests r))\<rparr>)))"

text \<open>The identifiers of the directory: regular entries named after a valid run identifier.\<close>

definition result_ids :: "store \<Rightarrow> string list" where
  "result_ids d =
     filter IsValid
       (map (\<lambda>e. trim_suffix (fst e) ''.json'')
         (filter (\<lambda>e. \<not> is_dir (snd e) \<and> has_suffix (fst e) ''.json'') (items d)))"

fun collect :: "('a \<Rightarrow> 'e + 'b) \<Rightarrow> 'a list \<Rightarrow> 'e + 'b list" where
  "collect f [] = Inr []"
| "collect f (x # xs) =
     bind_result (f x) (\<lambda>y. bind_result (collect f xs) (\<lambda>ys. Inr (y # ys)))"

definition listed_ids :: "int \<Rightarrow> store \<Rightarrow> string list" where
  "listed_ids limit d =
     (let ids = rev (sort (result_ids d))
      in if 0 < limit \<and> limit < int (length ids) then take (nat limit) ids else ids)"

definition List ::
    "store_faults \<Rightarrow> (string \<Rightarrow> 'm run_result option) \<Rightarrow> int \<Rightarrow> store \<Rightarrow>
     store_error + 'm run_result list" where
  "List flt unmarshal limit d =
     (if d = None then Inr []
      else if fault_list flt then Inl ErrStoreIO
      else collect (\<lambda>i. Load flt unmarshal i d) (listed_ids limit d))"

text \<open>\<^verbatim>\<open>os.Remove\<close> of a result file; a file that is already gone counts as removed.\<close>

definition remove_result :: "store_faults \<Rightarrow> string \<Rightarrow> store \<Rightarrow> bool \<times> store" where
  "remove_result flt i d =
     (if fault_remove flt i \<and> map_of (items d) (result_file i) \<noteq> None then (False, d)
      else (True, map_option (remove_entry (result_file i)) d))"

definition Prune :: "store_faults \<Rightarrow> int \<Rightarrow> store \<Rightarrow> (store_error + nat \<times> string list) \<times> store" where
  "Prune flt keep d =
     (if keep \<le> 0 \<or> d = None then (Inr (0, []), d)
      else if fault_list flt then (Inl ErrStoreIO, d)
      else (case prune result_ids (remove_result flt) keep d of
          (removed, failed, d') \<Rightarrow> (Inr (removed, failed), d')))"

definition failed_names :: "test_case list \<Rightarrow> string list" where
  "failed_names ts = map tc_name (filter (\<lambda>tc. tc_result tc = ''Failed'') ts)"

definition Compare :: "'m run_result option \<Rightarrow> 'n run_result option \<Rightarrow> test_case list option" where
  "Compare prev cur =
     (case prev of
        None \<Rightarrow> None
      | Some p \<Rightarrow>
          (case cur of
             None \<Rightarrow> None
           | Some c \<Rightarrow>
               (let prevFailed = failed_names (items (rr_tests p))
                in Some (filter (\<lambda>tc. tc_result tc = ''Failed'' \<and> tc_name tc \<notin> set prevFailed)
                     (items (rr_tests c))))))"

section \<open>The interface the run service uses\<close>

text \<open>
  \<^verbatim>\<open>runsvc.ResultStore\<close> is the pair Save, Load. What a client relies on: a successful
  save is read back, and no later save, successful or not, changes what can be loaded.
\<close>

text \<open>A sequence of saves: the outcome of each, with its run, and the final state.\<close>

fun save_all ::
    "(string \<Rightarrow> 'r \<Rightarrow> 's \<Rightarrow> ('e + unit) \<times> 's) \<Rightarrow> (string \<times> 'r) list \<Rightarrow> 's \<Rightarrow>
     (string \<times> 'r \<times> ('e + unit)) list \<times> 's" where
  "save_all save [] s = ([], s)"
| "save_all save ((i, r) # xs) s =
     (case save i r s of
        (o1, s1) \<Rightarrow> (case save_all save xs s1 of (outs, s2) \<Rightarrow> ((i, r, o1) # outs, s2)))"

locale result_store =
  fixes save :: "string \<Rightarrow> 'r \<Rightarrow> 's \<Rightarrow> ('e + unit) \<times> 's"
    and load :: "string \<Rightarrow> 's \<Rightarrow> 'e + 'r"
    and encodable :: "'r \<Rightarrow> bool"
    and view :: "'r \<Rightarrow> 'r"
  assumes load_save: "encodable r \<Longrightarrow> save i r s = (Inr (), s') \<Longrightarrow> load i s' = Inr (view r)"
    and load_frame: "load i s = Inr x \<Longrightarrow> load i (snd (save j r s)) = Inr x"
begin

lemma load_frame_all: "load i s = Inr x \<Longrightarrow> load i (snd (save_all save xs s)) = Inr x"
proof (induction xs arbitrary: s)
  case (Cons y xs)
  obtain j r where y: "y = (j, r)" by fastforce
  obtain o1 s1 where s1: "save j r s = (o1, s1)" by fastforce
  have "load i s1 = Inr x" using load_frame [OF Cons.prems, of j r] s1 by simp
  then have "load i (snd (save_all save xs s1)) = Inr x" by (rule Cons.IH)
  then show ?case using y s1 by (simp split: prod.split)
      (metis snd_conv)
qed simp

lemma save_all_persists:
  assumes "(i, r, Inr ()) \<in> set (fst (save_all save xs s))" "encodable r"
  shows "load i (snd (save_all save xs s)) = Inr (view r)"
  using assms(1)
proof (induction xs arbitrary: s)
  case (Cons y xs)
  obtain j q where y: "y = (j, q)" by fastforce
  obtain o1 s1 where s1: "save j q s = (o1, s1)" by fastforce
  obtain outs s2 where s2: "save_all save xs s1 = (outs, s2)" by fastforce
  from Cons.prems consider "(i, r, Inr ()) = (j, q, o1)" | "(i, r, Inr ()) \<in> set outs"
    using y s1 s2 by auto
  then show ?case
  proof cases
    case 1
    then have "load i s1 = Inr (view r)" using load_save [OF assms(2)] s1 by simp
    then show ?thesis using load_frame_all [of i s1 "view r" xs] y s1 s2 by simp
  next
    case 2
    then show ?thesis using Cons.IH [of s1] y s1 s2 by simp
  qed
qed simp

end

section \<open>The history implements its interfaces\<close>

lemma result_file_inject [simp]: "result_file i = result_file j \<longleftrightarrow> i = j"
  by (simp add: result_file_def)

definition round_trips ::
    "('m run_result \<Rightarrow> string option) \<Rightarrow> (string \<Rightarrow> 'm run_result option) \<Rightarrow> 'm run_result \<Rightarrow> bool" where
  "round_trips marshal unmarshal r =
     (case marshal r of None \<Rightarrow> False | Some data \<Rightarrow> unmarshal data = Some r)"

definition loaded_view :: "'m run_result \<Rightarrow> 'm run_result" where
  "loaded_view r = r\<lparr>rr_tests := Some (items (rr_tests r))\<rparr>"

lemma Save_success:
  assumes "Save flt marshal i r d = (Inr (), d')"
  shows "IsValid i \<and> map_of (items d) (result_file i) = None \<and>
     (\<exists>data. marshal r = Some data \<and> items d' = put (result_file i) (File_node data) (items d))"
  using assms by (auto simp: Save_def validateRunID_def require_def Let_def
      split: if_splits option.splits)

lemma Save_failure:
  assumes "Save flt marshal i r d = (Inl e, d')"
  shows "items d' = items d"
  using assms by (auto simp: Save_def Let_def split: if_splits option.splits)

lemma Load_cong:
  "map_of (items d) (result_file i) = map_of (items d') (result_file i) \<Longrightarrow>
     Load flt unmarshal i d = Load flt unmarshal i d'"
  by (simp add: Load_def)

interpretation history: result_store "Save flt marshal" "Load no_faults unmarshal"
    "round_trips marshal unmarshal" loaded_view for flt marshal unmarshal
proof
  fix i r s s'
  assume "round_trips marshal unmarshal r" "Save flt marshal i r s = (Inr (), s')"
  then show "Load no_faults unmarshal i s' = Inr (loaded_view r)"
    using Save_success [of flt marshal i r s s']
    by (auto simp: round_trips_def Load_def validateRunID_def no_faults_def loaded_view_def)
next
  fix i s x j r
  assume l: "Load no_faults unmarshal i s = Inr x"
  obtain out s' where o: "Save flt marshal j r s = (out, s')" by fastforce
  show "Load no_faults unmarshal i (snd (Save flt marshal j r s)) = Inr x"
  proof (cases out)
    case (Inl e)
    then have "items s' = items s" using o Save_failure by blast
    then have "Load no_faults unmarshal i s' = Load no_faults unmarshal i s"
      by (intro Load_cong) simp
    then show ?thesis using o l by simp
  next
    case (Inr u)
    then obtain data where s': "map_of (items s) (result_file j) = None"
      "items s' = put (result_file j) (File_node data) (items s)"
      using o Save_success [of flt marshal j r s s'] by auto
    have "map_of (items s) (result_file i) \<noteq> None"
      using l by (auto simp: Load_def bind_result_Inr_iff split: option.splits)
    then have "i \<noteq> j" using s'(1) by auto
    then have "Load no_faults unmarshal i s' = Load no_faults unmarshal i s"
      using s'(2) by (intro Load_cong) simp
    then show ?thesis using o l by simp
  qed
qed

text \<open>
  C10. The history is append-only. Over any sequence of saves (with invalid or repeated run
  identifiers, encoding failures and write faults among them) every result whose save succeeded is
  loaded back unchanged (a nil list of tests as an empty one), whatever was saved after it, and
  every result that could be loaded before the sequence still loads with the same value.
  Hypothesis on \<^verbatim>\<open>encoding/json\<close>: the result round-trips.
\<close>

theorem history_append_only:
  assumes "(i, r, Inr ()) \<in> set (fst (save_all (Save flt marshal) xs d))"
    "round_trips marshal unmarshal r"
  shows "Load no_faults unmarshal i (snd (save_all (Save flt marshal) xs d)) = Inr (loaded_view r)
    \<and> (\<forall>j x. Load no_faults unmarshal j d = Inr x \<longrightarrow>
          Load no_faults unmarshal j (snd (save_all (Save flt marshal) xs d)) = Inr x)"
  using history.save_all_persists [OF assms] history.load_frame_all by blast

definition sample_id :: string where
  "sample_id = ''20260101-120000-0000000a''"

definition older_id :: string where
  "older_id = ''20250101-120000-0000000b''"

definition sample_marshal :: "unit run_result \<Rightarrow> string option" where
  "sample_marshal r = Some (decimal_int (rr_total r))"

definition sample_unmarshal :: "string \<Rightarrow> unit run_result option" where
  "sample_unmarshal s = Some (zero_result\<lparr>rr_total := atoi_digits s\<rparr>)"

lemma history_append_only_witness:
  "Load no_faults sample_unmarshal sample_id
     (snd (save_all (Save no_faults sample_marshal)
       [(sample_id, zero_result\<lparr>rr_total := 7\<rparr>), (sample_id, zero_result)] None)) =
     Inr (loaded_view (zero_result\<lparr>rr_total := 7\<rparr>))"
proof -
  have "(sample_id, zero_result\<lparr>rr_total := 7\<rparr>, Inr ()) \<in> set (fst (save_all
      (Save no_faults sample_marshal)
      [(sample_id, zero_result\<lparr>rr_total := 7\<rparr>), (sample_id, zero_result)] None))"
    by code_simp
  moreover have "round_trips sample_marshal sample_unmarshal (zero_result\<lparr>rr_total := 7\<rparr>)"
    by code_simp
  ultimately show ?thesis using history_append_only by blast
qed

section \<open>Pruning and listing\<close>

definition dir_ok :: "store \<Rightarrow> bool" where
  "dir_ok d \<longleftrightarrow> distinct (map fst (items d))"

lemma trim_json: "has_suffix n ''.json'' \<Longrightarrow> n = trim_suffix n ''.json'' @ ''.json''"
  by (metis append_take_drop_id has_suffix_def trim_suffix_def)

lemma result_ids_iff:
  "dir_ok d \<Longrightarrow> i \<in> set (result_ids d) \<longleftrightarrow>
     IsValid i \<and> (\<exists>c. map_of (items d) (result_file i) = Some (File_node c))"
proof -
  assume ok: "dir_ok d"
  have *: "(n, x) \<in> set (items d) \<longleftrightarrow> map_of (items d) n = Some x" for n x
    using ok by (simp add: dir_ok_def)
  have "i \<in> set (result_ids d) \<longleftrightarrow> IsValid i \<and>
      (\<exists>n x. (n, x) \<in> set (items d) \<and> \<not> is_dir x \<and> has_suffix n ''.json'' \<and> i = trim_suffix n ''.json'')"
    by (auto simp: result_ids_def image_iff; force)
  also have "\<dots> \<longleftrightarrow> IsValid i \<and> (\<exists>x. map_of (items d) (result_file i) = Some x \<and> \<not> is_dir x)"
    using trim_json by (auto simp: * result_file_def) (metis has_suffix_append trim_suffix_append)
  also have "\<dots> \<longleftrightarrow> IsValid i \<and> (\<exists>c. map_of (items d) (result_file i) = Some (File_node c))"
    by (metis is_dir_simps node.exhaust)
  finally show ?thesis .
qed

lemma distinct_result_ids: "dir_ok d \<Longrightarrow> distinct (result_ids d)"
proof -
  assume "dir_ok d"
  then have "distinct (map fst (filter (\<lambda>e. \<not> is_dir (snd e) \<and> has_suffix (fst e) ''.json'') (items d)))"
    by (simp add: dir_ok_def distinct_map_filter)
  moreover have "inj_on (\<lambda>n. trim_suffix n ''.json'') {n. has_suffix n ''.json''}"
    by (rule inj_onI) (metis mem_Collect_eq trim_json)
  ultimately have "distinct (map (\<lambda>n. trim_suffix n ''.json'')
      (map fst (filter (\<lambda>e. \<not> is_dir (snd e) \<and> has_suffix (fst e) ''.json'') (items d))))"
    by (subst distinct_map) (auto intro: inj_on_subset)
  then show ?thesis by (simp add: result_ids_def o_def)
qed

lemma set_result_ids_remove:
  "set (result_ids (map_option (remove_entry (result_file i)) d)) = set (result_ids d) - {i}"
proof -
  have *: "has_suffix n ''.json'' \<Longrightarrow> result_file (trim_suffix n ''.json'') = n" for n
    using trim_json [of n] by (simp add: result_file_def)
  have "trim_suffix (result_file i) ''.json'' = i" by (simp add: result_file_def)
  then show ?thesis
    by (cases d) (auto simp: result_ids_def remove_entry_def *)
qed

interpretation results: run_directory result_ids "remove_result flt" result_file
    "\<lambda>name d. map_of (items d) name" for flt
proof
  fix i d
  show "set (result_ids (snd (remove_result flt i d))) =
      set (result_ids d) - (if fst (remove_result flt i d) then {i} else {})"
    by (simp add: remove_result_def set_result_ids_remove)
next
  fix name i d
  assume "name \<noteq> result_file i"
  then show "map_of (items (snd (remove_result flt i d))) name = map_of (items d) name"
    by (cases d) (auto simp: remove_result_def)
qed

lemma dir_ok_remove_result: "dir_ok d \<Longrightarrow> dir_ok (snd (remove_result flt i d))"
  by (cases d) (simp_all add: dir_ok_def remove_result_def distinct_remove_entry)

lemma dir_ok_remove_each:
  "dir_ok d \<Longrightarrow> dir_ok (snd (snd (remove_each (remove_result flt) is d)))"
proof (induction "is" arbitrary: d)
  case (Cons i "is")
  obtain ok d1 where r: "remove_result flt i d = (ok, d1)" by fastforce
  have "dir_ok d1" using dir_ok_remove_result [OF Cons.prems, of flt i] r by simp
  then have "dir_ok (snd (snd (remove_each (remove_result flt) is d1)))" by (rule Cons.IH)
  then show ?case using r by (cases ok) (simp_all split: prod.split, (metis snd_conv)+)
qed simp

lemma dir_ok_Prune: "dir_ok d \<Longrightarrow> dir_ok (snd (Prune flt keep d))"
  using dir_ok_remove_each [of d flt "to_prune keep (result_ids d)"]
  by (auto simp: Prune_def prune_def split: prod.split)

lemma dir_ok_Save: "dir_ok d \<Longrightarrow> dir_ok (snd (Save flt marshal i r d))"
  by (auto simp: Save_def dir_ok_def Let_def distinct_put split: option.split)

lemma Prune_None: "snd (Prune flt keep d) = None \<longleftrightarrow> d = None"
proof -
  have "snd (snd (remove_each (remove_result flt) is d)) = None \<longleftrightarrow> d = None" for "is"
  proof (induction "is" arbitrary: d)
    case (Cons i "is")
    obtain ok d1 where r: "remove_result flt i d = (ok, d1)" by fastforce
    then have "d1 = None \<longleftrightarrow> d = None" by (auto simp: remove_result_def split: if_splits)
    then show ?case using r Cons.IH [of d1] by (cases ok) (auto split: prod.split)
  qed simp
  from this [of "to_prune keep (result_ids d)"] show ?thesis
    by (auto simp: Prune_def prune_def split: prod.split)
qed

lemma Prune_split:
  assumes "dir_ok d" "0 < keep" "Prune flt keep d = (Inr (removed, failed), d')"
  shows "\<exists>old new. sort (result_ids d) = old @ new
    \<and> length new = min (nat keep) (length (result_ids d))
    \<and> (\<forall>i \<in> set old. \<forall>j \<in> set new. i < j)
    \<and> set (result_ids d') = set new \<union> set failed \<and> set failed \<subseteq> set old
    \<and> removed + length failed = length old
    \<and> (\<forall>name. name \<notin> result_file ` set old \<longrightarrow> map_of (items d') name = map_of (items d) name)"
proof (cases "d = None")
  case True
  then have "result_ids d = []" by (simp add: result_ids_def)
  then show ?thesis using True assms(3) by (auto simp: Prune_def)
next
  case False
  then have "prune result_ids (remove_result flt) keep d = (removed, failed, d')"
    using assms(2,3) by (auto simp: Prune_def split: if_splits prod.splits)
  then show ?thesis
    using results.prune_keeps_newest [OF assms(2) distinct_result_ids [OF assms(1)]] by blast
qed

text \<open>
  Pruning removes only the oldest runs. When \<open>Prune\<close> with a positive \<open>keep\<close> succeeds, the
  run identifiers of the directory split by time into old and new, with the \<open>keep\<close> newest (or all)
  among the new: every new run is still there, of the old ones only those whose removal failed
  remain, removed and failed add up, and every other directory entry is untouched.
\<close>

theorem Prune_keeps_newest:
  assumes "dir_ok d" "0 < keep" "Prune flt keep d = (Inr (removed, failed), d')"
  shows "\<exists>old new. sort (result_ids d) = old @ new
    \<and> length new = min (nat keep) (length (result_ids d))
    \<and> (\<forall>i \<in> set old. \<forall>j \<in> set new. i < j)
    \<and> set (result_ids d') = set new \<union> set failed \<and> set failed \<subseteq> set old
    \<and> removed + length failed = length old
    \<and> (\<forall>name. name \<notin> result_file ` set old \<longrightarrow> map_of (items d') name = map_of (items d) name)"
  by (rule Prune_split [OF assms])

definition third_id :: string where
  "third_id = ''20240101-120000''"

definition sample_dir :: store where
  "sample_dir = Some [(sample_id @ ''.json'', File_node ''1''), (''notes.txt'', File_node ''2''),
     (older_id @ ''.json'', File_node ''3''), (third_id @ ''.json'', File_node ''4'')]"

lemma sample_prune:
  "Prune (no_faults\<lparr>fault_remove := (\<lambda>i. i = older_id)\<rparr>) 1 sample_dir =
     (Inr (1, [older_id]), Some [(sample_id @ ''.json'', File_node ''1''),
       (''notes.txt'', File_node ''2''), (older_id @ ''.json'', File_node ''3'')])"
  by code_simp

lemma dir_ok_sample: "dir_ok sample_dir"
  by code_simp

lemma Prune_keeps_newest_witness:
  "\<exists>old new. sort (result_ids sample_dir) = old @ new
    \<and> length new = min (nat 1) (length (result_ids sample_dir))
    \<and> set (result_ids (Some [(sample_id @ ''.json'', File_node ''1''),
       (''notes.txt'', File_node ''2''), (older_id @ ''.json'', File_node ''3'')])) =
       set new \<union> set [older_id]
    \<and> 1 + length [older_id] = length old"
  using Prune_keeps_newest [OF dir_ok_sample zero_less_one sample_prune] by blast

lemma listed_ids_take:
  "0 < limit \<Longrightarrow> listed_ids limit d = take (nat limit) (rev (sort (result_ids d)))"
  by (simp add: listed_ids_def Let_def)

lemma collect_Inr:
  "collect f xs = Inr ys \<longleftrightarrow> list_all2 (\<lambda>x y. f x = Inr y) xs ys"
  by (induction xs arbitrary: ys) (auto simp: bind_result_Inr_iff list_all2_Cons1)

lemma collect_cong: "\<forall>x \<in> set xs. f x = g x \<Longrightarrow> collect f xs = collect g xs"
  by (induction xs) simp_all

text \<open>
  Listing shows the newest runs first. A successful listing returns one result per listed
  identifier, loaded from that identifier's file; the identifiers are distinct and strictly
  descending in time; a positive limit bounds their number, and every run left out is older than
  every run shown.
\<close>

theorem List_newest_first:
  assumes "dir_ok d" "List flt unmarshal limit d = Inr results"
  shows "\<exists>shown. list_all2 (\<lambda>i r. Load flt unmarshal i d = Inr r) shown results
    \<and> sorted_wrt (\<lambda>i j. j < i) shown
    \<and> set shown \<subseteq> set (result_ids d)
    \<and> length shown = (if 0 < limit then min (nat limit) (length (result_ids d)) else length (result_ids d))
    \<and> (\<forall>i \<in> set (result_ids d) - set shown. \<forall>j \<in> set shown. i < j)"
proof -
  let ?ids = "sort (result_ids d)"
  have dist: "distinct ?ids" using distinct_result_ids [OF assms(1)] by simp
  have strict: "sorted_wrt (\<lambda>i j. j < i) (rev ?ids)"
    using dist by (simp add: sorted_wrt_rev strict_sorted_iff)
  define n where "n = (if 0 < limit then min (nat limit) (length ?ids) else length ?ids)"
  have shown: "listed_ids limit d = take n (rev ?ids)"
    by (simp add: listed_ids_def Let_def n_def min_def)
  have split: "rev ?ids = take n (rev ?ids) @ drop n (rev ?ids)" by simp
  have "\<forall>j \<in> set (take n (rev ?ids)). \<forall>i \<in> set (drop n (rev ?ids)). i < j"
    using strict by (subst (asm) split) (simp only: sorted_wrt_append, blast)
  moreover have "set (result_ids d) - set (take n (rev ?ids)) \<subseteq> set (drop n (rev ?ids))"
    by (metis Diff_subset_conv set_append set_rev set_sort split subset_refl)
  moreover have "list_all2 (\<lambda>i r. Load flt unmarshal i d = Inr r) (listed_ids limit d) results"
  proof (cases "d = None")
    case True
    then have "results = []" "listed_ids limit d = []"
      using assms(2) by (simp_all add: List_def listed_ids_def result_ids_def)
    then show ?thesis by simp
  next
    case False
    then show ?thesis using assms(2) by (simp add: List_def collect_Inr split: if_splits)
  qed
  moreover have "sorted_wrt (\<lambda>i j. j < i) (take n (rev ?ids))"
    using strict by (simp add: sorted_wrt_take)
  moreover have "set (take n (rev ?ids)) \<subseteq> set (result_ids d)"
    by (metis set_rev set_sort set_take_subset)
  moreover have "length (take n (rev ?ids)) = (if 0 < limit
      then min (nat limit) (length (result_ids d)) else length (result_ids d))"
    by (simp add: n_def)
  ultimately show ?thesis using shown by (intro exI [of _ "take n (rev ?ids)"]) auto
qed

lemma sample_list:
  "List no_faults sample_unmarshal 2 sample_dir =
     Inr [zero_result\<lparr>rr_total := 1, rr_tests := Some []\<rparr>, zero_result\<lparr>rr_total := 3, rr_tests := Some []\<rparr>]"
  by code_simp

lemma List_newest_first_witness:
  "\<exists>shown. list_all2 (\<lambda>i r. Load no_faults sample_unmarshal i sample_dir = Inr r) shown
      [zero_result\<lparr>rr_total := 1, rr_tests := Some []\<rparr>, zero_result\<lparr>rr_total := 3, rr_tests := Some []\<rparr>]
    \<and> sorted_wrt (\<lambda>i j. j < i) shown
    \<and> length shown = min (nat 2) (length (result_ids sample_dir))"
  using List_newest_first [OF dir_ok_sample sample_list] by auto

text \<open>
  Pruning is invisible to a listing within the retention: whatever removals fail, listing at
  most \<open>keep\<close> runs after pruning to \<open>keep\<close> gives the same answer, errors included, as
  before.
\<close>

theorem Prune_then_List:
  assumes "dir_ok d" "0 < limit" "limit \<le> keep"
  shows "List flt' unmarshal limit (snd (Prune flt keep d)) = List flt' unmarshal limit d"
proof (cases "fst (Prune flt keep d)")
  case (Inl e)
  then have "snd (Prune flt keep d) = d" by (auto simp: Prune_def split: prod.splits if_splits)
  then show ?thesis by simp
next
  case (Inr rf)
  obtain removed failed where rf: "rf = (removed, failed)" by fastforce
  define d' where "d' = snd (Prune flt keep d)"
  have p: "Prune flt keep d = (Inr (removed, failed), d')"
    using Inr rf by (simp add: d'_def prod_eq_iff)
  have pos: "0 < keep" using assms(2,3) by simp
  obtain old new where sp: "sort (result_ids d) = old @ new"
    and ln: "length new = min (nat keep) (length (result_ids d))"
    and lt: "\<forall>i \<in> set old. \<forall>j \<in> set new. i < j"
    and ids': "set (result_ids d') = set new \<union> set failed" and fo: "set failed \<subseteq> set old"
    and frame: "\<forall>name. name \<notin> result_file ` set old \<longrightarrow>
        map_of (items d') name = map_of (items d) name"
    using Prune_split [OF assms(1) pos p] by blast
  have ok': "dir_ok d'" using dir_ok_Prune [OF assms(1)] by (simp add: d'_def)
  have dist: "distinct (old @ new)" using distinct_result_ids [OF assms(1)] sp by (metis distinct_sort)
  have srt: "sorted new" using sp by (metis sorted_append sorted_sort)
  have "sort (result_ids d') = sorted_list_of_set (set failed) @ new"
  proof (rule sorted_distinct_set_unique)
    show "sorted (sorted_list_of_set (set failed) @ new)"
      using srt lt fo by (auto simp: sorted_append intro: less_imp_le)
    show "distinct (sorted_list_of_set (set failed) @ new)"
      using dist fo by auto
    show "set (sort (result_ids d')) = set (sorted_list_of_set (set failed) @ new)"
      using ids' by auto
  qed (use distinct_result_ids [OF ok'] in simp_all)
  moreover have "take (nat limit) (rev (sort (result_ids d))) = take (nat limit) (rev new)"
    using sp ln assms(2,3) by (cases "int (length (result_ids d)) \<le> keep")
      (auto simp: min_def split: if_splits dest: arg_cong [where f = length])
  moreover have "failed = [] \<or> nat limit \<le> length new"
    using ln fo sp assms(2,3) by (cases "old = []") (auto simp: min_def dest: arg_cong [where f = length])
  ultimately have ids: "listed_ids limit d' = listed_ids limit d"
    using assms(2) by (auto simp: listed_ids_take)
  have "set (listed_ids limit d) \<subseteq> set new"
    using \<open>take (nat limit) (rev (sort (result_ids d))) = take (nat limit) (rev new)\<close> assms(2)
    by (simp add: listed_ids_take) (metis set_rev set_take_subset)
  then have "i \<notin> set old" if "i \<in> set (listed_ids limit d)" for i
    using dist that by auto
  then have "\<forall>i \<in> set (listed_ids limit d). Load flt' unmarshal i d' = Load flt' unmarshal i d"
    using frame by (intro ballI Load_cong) (metis image_iff result_file_inject)
  moreover have "d' = None \<longleftrightarrow> d = None"
    using Prune_None [of flt keep d] by (simp add: d'_def)
  ultimately show ?thesis using ids by (simp add: List_def collect_cong flip: d'_def)
qed

lemma Prune_then_List_witness:
  "List no_faults sample_unmarshal 1 (snd (Prune no_faults 2 sample_dir)) =
     List no_faults sample_unmarshal 1 sample_dir"
  by (rule Prune_then_List) (simp_all add: dir_ok_sample)

section \<open>Regressions\<close>

lemma Compare_mem:
  "tc \<in> set (items (Compare (Some p) (Some c))) \<longleftrightarrow>
     tc \<in> set (items (rr_tests c)) \<and> tc_result tc = ''Failed'' \<and>
     tc_name tc \<notin> set (failed_names (items (rr_tests p)))"
  by (auto simp: Compare_def Let_def)

lemma failed_names_iff:
  "n \<in> set (failed_names ts) \<longleftrightarrow> (\<exists>tc \<in> set ts. tc_result tc = ''Failed'' \<and> tc_name tc = n)"
  by (auto simp: failed_names_def)

text \<open>
  Comparing through an intermediate run misses no regression: a test that \<open>Compare\<close> reports
  from run \<open>a\<close> to run \<open>c\<close> is reported from \<open>b\<close> to \<open>c\<close>, or it failed in
  \<open>b\<close> and then a test of its name is reported from \<open>a\<close> to \<open>b\<close>. A run compared with
  itself reports nothing, and nothing is compared (nil) exactly when a run is missing.
\<close>

theorem Compare_regressions:
  "set (items (Compare (Some a) (Some c))) \<subseteq>
     set (items (Compare (Some b) (Some c))) \<union>
     {tc. tc_name tc \<in> tc_name ` set (items (Compare (Some a) (Some b)))}
   \<and> Compare (Some a) (Some a) = Some []
   \<and> (Compare p q = None) = (p = None \<or> q = None)"
proof (intro conjI subsetI)
  fix tc
  assume reg: "tc \<in> set (items (Compare (Some a) (Some c)))"
  show "tc \<in> set (items (Compare (Some b) (Some c))) \<union>
     {tc. tc_name tc \<in> tc_name ` set (items (Compare (Some a) (Some b)))}"
  proof (cases "tc_name tc \<in> set (failed_names (items (rr_tests b)))")
    case True
    then obtain x where "x \<in> set (items (rr_tests b))" "tc_result x = ''Failed''" "tc_name x = tc_name tc"
      by (auto simp: failed_names_iff)
    then have "x \<in> set (items (Compare (Some a) (Some b)))" using reg by (simp add: Compare_mem)
    then show ?thesis using \<open>tc_name x = tc_name tc\<close> by (metis UnI2 image_eqI mem_Collect_eq)
  next
    case False
    then show ?thesis using reg by (simp add: Compare_mem)
  qed
next
  show "Compare (Some a) (Some a) = Some []"
    by (auto simp: Compare_def Let_def failed_names_def filter_empty_conv)
next
  show "(Compare p q = None) = (p = None \<or> q = None)"
    by (simp add: Compare_def Let_def split: option.split)
qed

end
