(* ===== verification/Artifacts.thy ===== *)
theory Artifacts
  imports History
begin

text \<open>
  Per-run artifact directories, \<^verbatim>\<open>internal/artifacts/store.go\<close>: the paths
  \<^verbatim>\<open><root>/<run_id>/<file>\<close>, creation of the run directory and its logs, manifest and
  summary, and pruning of the oldest run directories. The state is the root directory
  (\<open>None\<close> until it exists) with one entry per run; the files of a run are the list inside its
  \<open>Dir_node\<close>. \<^verbatim>\<open>NewStore\<close> makes the root absolute, so paths are built from an
  absolute root.
\<close>

record manifest =
  mf_schema_version :: string
  mf_run_id :: string
  mf_artifact_root :: string
  mf_results_xml :: string
  mf_stdout_log :: string
  mf_stderr_log :: string
  mf_started_at :: string
  mf_finished_at :: string
  mf_exit_code :: int

section \<open>Paths\<close>

definition NewStore :: "string \<Rightarrow> string \<Rightarrow> string" where
  "NewStore cwd root = (if IsAbs root then Clean root else Join [cwd, root])"

definition RunDir :: "string \<Rightarrow> string \<Rightarrow> string" where
  "RunDir root runID = Join [root, runID]"

definition ResultsFilePath :: "string \<Rightarrow> string \<Rightarrow> string" where
  "ResultsFilePath root runID = Join [root, runID, ''results.xml'']"

definition StdoutFilePath :: "string \<Rightarrow> string \<Rightarrow> string" where
  "StdoutFilePath root runID = Join [root, runID, ''stdout.log'']"

definition StderrFilePath :: "string \<Rightarrow> string \<Rightarrow> string" where
  "StderrFilePath root runID = Join [root, runID, ''stderr.log'']"

section \<open>Operations\<close>

text \<open>
  Faults: creating the run directory, creating or replacing a file of it, listing the root, and
  removals that fail half-way, with the file names they leave behind.
\<close>

record artifact_faults =
  af_mkdir :: bool
  af_write :: "string \<Rightarrow> bool"
  af_list :: bool
  af_remove :: "string \<Rightarrow> string list option"

datatype artifact_error = ErrPrepare | ErrWrite string | ErrMarshal | ErrReadRoot

type_synonym root_dir = "entries option"

definition PrepareRunDir :: "artifact_faults \<Rightarrow> string \<Rightarrow> root_dir \<Rightarrow> (artifact_error + unit) \<times> root_dir" where
  "PrepareRunDir flt runID d =
     (if af_mkdir flt then (Inl ErrPrepare, d)
      else case map_of (items d) runID of
          None \<Rightarrow> (Inr (), Some (put runID (Dir_node []) (items d)))
        | Some (Dir_node _) \<Rightarrow> (Inr (), d)
        | Some (File_node _) \<Rightarrow> (Inl ErrPrepare, d))"

text \<open>Writing one file of a run's directory; it fails when the directory is not there.\<close>

definition write_artifact ::
    "artifact_faults \<Rightarrow> string \<Rightarrow> string \<Rightarrow> string \<Rightarrow> root_dir \<Rightarrow> (artifact_error + unit) \<times> root_dir" where
  "write_artifact flt runID name data d =
     (case map_of (items d) runID of
        Some (Dir_node files) \<Rightarrow>
          (if af_write flt name then (Inl (ErrWrite name), d)
           else (Inr (), Some (put runID (Dir_node (put name data files)) (items d))))
      | _ \<Rightarrow> (Inl (ErrWrite name), d))"

definition OpenRunLogs :: "artifact_faults \<Rightarrow> string \<Rightarrow> root_dir \<Rightarrow> (artifact_error + unit) \<times> root_dir" where
  "OpenRunLogs flt runID d =
     (case write_artifact flt runID ''stdout.log'' [] d of
        (Inl e, d') \<Rightarrow> (Inl e, d')
      | (Inr _, d') \<Rightarrow> write_artifact flt runID ''stderr.log'' [] d')"

definition SaveRawLogs ::
    "artifact_faults \<Rightarrow> string \<Rightarrow> string \<Rightarrow> string \<Rightarrow> root_dir \<Rightarrow> (artifact_error + unit) \<times> root_dir" where
  "SaveRawLogs flt runID stdout stderr d =
     (case write_artifact flt runID ''stdout.log'' stdout d of
        (Inl e, d') \<Rightarrow> (Inl e, d')
      | (Inr _, d') \<Rightarrow> write_artifact flt runID ''stderr.log'' stderr d')"

definition SaveManifest ::
    "artifact_faults \<Rightarrow> (manifest \<Rightarrow> string option) \<Rightarrow> string \<Rightarrow> manifest \<Rightarrow> root_dir \<Rightarrow>
     (artifact_error + unit) \<times> root_dir" where
  "SaveManifest flt marshal runID m d =
     (case marshal m of
        None \<Rightarrow> (Inl ErrMarshal, d)
      | Some data \<Rightarrow> write_artifact flt runID ''manifest.json'' data d)"

definition SaveSummary ::
    "artifact_faults \<Rightarrow> ('v \<Rightarrow> string option) \<Rightarrow> string \<Rightarrow> 'v \<Rightarrow> root_dir \<Rightarrow>
     (artifact_error + unit) \<times> root_dir" where
  "SaveSummary flt marshal runID v d =
     (case marshal v of
        None \<Rightarrow> (Inl ErrMarshal, d)
      | Some data \<Rightarrow> write_artifact flt runID ''summary.json'' data d)"

definition run_dirs :: "root_dir \<Rightarrow> string list" where
  "run_dirs d = map fst (filter (\<lambda>e. is_dir (snd e) \<and> IsValid (fst e)) (items d))"

text \<open>
  \<^verbatim>\<open>os.RemoveAll\<close>: the entry goes, or the removal fails and leaves the directory with
  some of its files.
\<close>

definition remove_run_dir :: "artifact_faults \<Rightarrow> string \<Rightarrow> root_dir \<Rightarrow> bool \<times> root_dir" where
  "remove_run_dir flt name d =
     (case (af_remove flt name, map_of (items d) name) of
        (Some left, Some (Dir_node files)) \<Rightarrow>
          (False, Some (put name (Dir_node (filter (\<lambda>f. fst f \<in> set left) files)) (items d)))
      | _ \<Rightarrow> (True, map_option (remove_entry name) d))"

definition Prune_artifacts ::
    "artifact_faults \<Rightarrow> int \<Rightarrow> root_dir \<Rightarrow> (artifact_error + nat \<times> string list) \<times> root_dir" where
  "Prune_artifacts flt keep d =
     (if keep \<le> 0 \<or> d = None then (Inr (0, []), d)
      else if af_list flt then (Inl ErrReadRoot, d)
      else (case prune run_dirs (remove_run_dir flt) keep d of
          (removed, failed, d') \<Rightarrow> (Inr (removed, failed), d')))"

section \<open>Two runs never share a path\<close>

lemma match_classes_length: "match_classes ps s \<Longrightarrow> length s = length ps"
  by (simp add: match_classes_def list_all2_lengthD)

lemma match_classes_bytes:
  "match_classes ps s \<Longrightarrow> set ps \<subseteq> {is_digit, is_dash, is_lower_hex} \<Longrightarrow>
     \<forall>c \<in> set s. is_digit c \<or> is_dash c \<or> is_lower_hex c"
  unfolding match_classes_def by (induction ps s rule: list_all2_induct) auto

lemma IsValid_bytes:
  assumes "IsValid i"
  shows "(\<forall>c \<in> set i. is_digit c \<or> is_dash c \<or> is_lower_hex c) \<and> 15 \<le> length i"
proof -
  from assms consider "match_classes legacy_pattern i"
    | "match_classes (legacy_pattern @ suffix_pattern) i" by (auto simp: IsValid_def)
  then show ?thesis
  proof cases
    case 1
    show ?thesis using match_classes_bytes [OF 1] match_classes_length [OF 1]
      by (simp add: legacy_pattern_def)
  next
    case 2
    show ?thesis using match_classes_bytes [OF 2] match_classes_length [OF 2]
      by (simp add: legacy_pattern_def suffix_pattern_def)
  qed
qed

lemma IsValid_plain: "IsValid i \<Longrightarrow> plain i \<and> i \<noteq> ''.'' \<and> i \<noteq> ''..''"
proof -
  assume "IsValid i"
  note b = IsValid_bytes [OF this]
  have "\<not> is_digit sep" "\<not> is_dash sep" "\<not> is_lower_hex sep"
    by (simp_all add: sep_def is_digit_def is_dash_def is_lower_hex_def byte_of_def)
  then show ?thesis using b by (auto simp: plain_def)
qed

lemma elements_plain_single: "plain e \<Longrightarrow> elements e = [e]"
  using elements_join_with [of "[e]"] by simp

lemma Join_run_path:
  assumes "IsAbs root" "IsValid i" "plain f" "f \<noteq> ''.''" "f \<noteq> ''..''"
  shows "elements (Join [root, i, f]) = clean_elements True (elements root) @ [i, f]"
proof -
  have root: "root \<noteq> []" using assms(1) by (rule IsAbs_nonempty_path)
  have "elements (root @ sep # i @ sep # f) = elements root @ [i, f]"
    using IsValid_plain [OF assms(2)] assms(3)
    by (simp add: elements_append_sep elements_plain_single)
  moreover have "clean_elements True (elements root @ [i, f]) =
      clean_elements True (elements root) @ [i, f]"
    by (rule clean_elements_append_plain) (use assms IsValid_plain [OF assms(2)] in auto)
  ultimately show ?thesis using root assms(1)
    by (simp add: Join_nonempty elements_Clean_abs IsAbs_append)
qed

lemma run_path_eq:
  assumes "IsAbs root" "IsValid i" "IsValid j"
    "plain f" "f \<noteq> ''.''" "f \<noteq> ''..''" "plain g" "g \<noteq> ''.''" "g \<noteq> ''..''"
  shows "Join [root, i, f] = Join [root, j, g] \<longleftrightarrow> i = j \<and> f = g"
proof
  assume eq: "Join [root, i, f] = Join [root, j, g]"
  have "elements (Join [root, i, f]) = clean_elements True (elements root) @ [i, f]"
    by (rule Join_run_path [OF assms(1,2,4,5,6)])
  moreover have "elements (Join [root, j, g]) = clean_elements True (elements root) @ [j, g]"
    by (rule Join_run_path [OF assms(1,3,7,8,9)])
  ultimately have "clean_elements True (elements root) @ [i, f] =
      clean_elements True (elements root) @ [j, g]" by (simp only: eq)
  then show "i = j \<and> f = g" by simp
qed simp

lemma artifact_names [simp]:
  "plain ''results.xml''" "plain ''stdout.log''" "plain ''stderr.log''"
  by (simp_all add: plain_def sep_def)

text \<open>
  Artifact files of different runs never collide: under one absolute root, the results, stdout
  and stderr paths of two valid run identifiers are equal only for the same run and the same kind
  of file.
\<close>

theorem artifact_paths_distinct:
  assumes "IsAbs root" "IsValid i" "IsValid j"
  shows "(ResultsFilePath root i = ResultsFilePath root j \<longleftrightarrow> i = j)
    \<and> (StdoutFilePath root i = StdoutFilePath root j \<longleftrightarrow> i = j)
    \<and> (StderrFilePath root i = StderrFilePath root j \<longleftrightarrow> i = j)
    \<and> distinct [ResultsFilePath root i, StdoutFilePath root j, StderrFilePath root i]
    \<and> ResultsFilePath root i \<noteq> StderrFilePath root j"
  by (simp add: ResultsFilePath_def StdoutFilePath_def StderrFilePath_def run_path_eq assms)

lemma artifact_paths_distinct_witness:
  "ResultsFilePath ''/p/.testplay/runs'' sample_id \<noteq> ResultsFilePath ''/p/.testplay/runs'' older_id"
proof -
  have "IsAbs ''/p/.testplay/runs''" "IsValid sample_id" "IsValid older_id" by code_simp+
  from artifact_paths_distinct [OF this] have
    "ResultsFilePath ''/p/.testplay/runs'' sample_id = ResultsFilePath ''/p/.testplay/runs'' older_id
     \<longleftrightarrow> sample_id = older_id" by blast
  moreover have "sample_id \<noteq> older_id" by code_simp
  ultimately show ?thesis by blast
qed

section \<open>Pruning\<close>

lemma set_run_dirs_remove:
  "set (run_dirs (map_option (remove_entry name) d)) = set (run_dirs d) - {name}"
  by (cases d) (auto simp: run_dirs_def remove_entry_def)

lemma run_dirs_iff:
  "dir_ok d \<Longrightarrow> i \<in> set (run_dirs d) \<longleftrightarrow>
     IsValid i \<and> (\<exists>files. map_of (items d) i = Some (Dir_node files))"
proof -
  assume "dir_ok d"
  then have *: "(n, x) \<in> set (items d) \<longleftrightarrow> map_of (items d) n = Some x" for n x
    by (simp add: dir_ok_def)
  have "i \<in> set (run_dirs d) \<longleftrightarrow> IsValid i \<and> (\<exists>x. (i, x) \<in> set (items d) \<and> is_dir x)"
    by (auto simp: run_dirs_def image_iff; force)
  then show ?thesis by (simp add: *) (metis is_dir_simps node.exhaust)
qed

lemma distinct_run_dirs: "dir_ok d \<Longrightarrow> distinct (run_dirs d)"
  by (simp add: dir_ok_def run_dirs_def distinct_map_filter)

lemma run_dirs_put_dir:
  assumes "map_of es n = Some (Dir_node files)"
  shows "set (run_dirs (Some (put n (Dir_node files') es))) = set (run_dirs (Some es))"
  using assms
proof (induction n "Dir_node files'" es rule: put.induct)
  case (2 k k' y es)
  then show ?case by (cases "k = k'") (auto simp: run_dirs_def)
qed simp

interpretation run_artifacts: run_directory run_dirs "remove_run_dir flt" "\<lambda>i. i"
    "\<lambda>name d. map_of (items d) name" for flt
proof
  fix i :: string and d
  show "set (run_dirs (snd (remove_run_dir flt i d))) =
      set (run_dirs d) - (if fst (remove_run_dir flt i d) then {i} else {})"
    by (cases d) (auto simp: remove_run_dir_def set_run_dirs_remove run_dirs_put_dir
        simp del: map_option_eq_Some option.map split: option.split node.split)
next
  fix name i :: string and d
  assume "name \<noteq> i"
  then show "map_of (items (snd (remove_run_dir flt i d))) name = map_of (items d) name"
    by (cases d) (auto simp: remove_run_dir_def split: option.split node.split)
qed

text \<open>
  Pruning artifacts leaves the newest runs complete: after a successful prune with positive
  \<open>keep\<close>, there are runs, the \<open>keep\<close> newest or all if fewer, each newer than every other run
  directory there was, whose directories hold exactly the files they held; the other run
  directories are gone except those whose removal failed; and entries that are not run directories
  are untouched.
\<close>

theorem Prune_artifacts_keeps_newest:
  assumes "dir_ok d" "0 < keep" "Prune_artifacts flt keep d = (Inr (removed, failed), d')"
  shows "\<exists>new. length new = min (nat keep) (length (run_dirs d)) \<and> distinct new
    \<and> set new \<subseteq> set (run_dirs d)
    \<and> (\<forall>i \<in> set (run_dirs d) - set new. \<forall>j \<in> set new. i < j)
    \<and> set (run_dirs d') = set new \<union> set failed
    \<and> removed + length failed + length new = length (run_dirs d)
    \<and> (\<forall>name. name \<in> set new \<or> name \<notin> set (run_dirs d) \<longrightarrow>
          map_of (items d') name = map_of (items d) name)"
proof (cases "d = None")
  case True
  then have "run_dirs d = []" by (simp add: run_dirs_def)
  then show ?thesis using True assms(3) by (auto simp: Prune_artifacts_def)
next
  case False
  then have "prune run_dirs (remove_run_dir flt) keep d = (removed, failed, d')"
    using assms(2,3) by (auto simp: Prune_artifacts_def split: if_splits prod.splits)
  from run_artifacts.prune_keeps_newest [OF assms(2) distinct_run_dirs [OF assms(1)] this]
  obtain old new where r: "sort (run_dirs d) = old @ new"
    "length new = min (nat keep) (length (run_dirs d))"
    "\<forall>i \<in> set old. \<forall>j \<in> set new. i < j"
    "set (run_dirs d') = set new \<union> set failed" "removed + length failed = length old"
    "\<forall>name. name \<notin> (\<lambda>i. i) ` set old \<longrightarrow> map_of (items d') name = map_of (items d) name"
    by blast
  have "distinct (old @ new)" using distinct_run_dirs [OF assms(1)] r(1) by (metis distinct_sort)
  moreover have "set (run_dirs d) = set old \<union> set new" using r(1) by (metis set_append set_sort)
  moreover have "length (run_dirs d) = length old + length new"
    using r(1) by (metis length_append length_sort)
  ultimately show ?thesis using r(2-6) by (intro exI [of _ new]) auto
qed

definition sample_root :: root_dir where
  "sample_root = Some [(sample_id, Dir_node [(''summary.json'', ''1'')]), (''tmp'', Dir_node []),
     (older_id, Dir_node [(''summary.json'', ''2''), (''stdout.log'', ''x'')])]"

lemma sample_prune_artifacts:
  "Prune_artifacts \<lparr>af_mkdir = False, af_write = (\<lambda>_. False), af_list = False,
      af_remove = (\<lambda>_. Some [''stdout.log''])\<rparr> 1 sample_root =
     (Inr (0, [older_id]), Some [(sample_id, Dir_node [(''summary.json'', ''1'')]),
       (''tmp'', Dir_node []), (older_id, Dir_node [(''stdout.log'', ''x'')])])"
  by code_simp

lemma dir_ok_sample_root: "dir_ok sample_root"
  by code_simp

lemma Prune_artifacts_keeps_newest_witness:
  "\<exists>new. length new = min (nat 1) (length (run_dirs sample_root))
    \<and> set new \<subseteq> set (run_dirs sample_root)
    \<and> set (run_dirs (Some [(sample_id, Dir_node [(''summary.json'', ''1'')]),
       (''tmp'', Dir_node []), (older_id, Dir_node [(''stdout.log'', ''x'')])])) =
       set new \<union> set [older_id]"
  using Prune_artifacts_keeps_newest [OF dir_ok_sample_root zero_less_one sample_prune_artifacts]
  by blast

end
