(* ===== verification/ListCache.thy ===== *)
theory ListCache
  imports NUnitParser
begin

text \<open>
  The list cache, \<^verbatim>\<open>internal/listcache/cache.go\<close>: the test names of the last run that
  may vouch for a complete inventory. The state is the content of
  \<^verbatim>\<open>.testplay/cache/list.json\<close>. Encoding, strict decoding and
  \<^verbatim>\<open>time.Parse(time.RFC3339, _)\<close> are parameters.
\<close>

definition SchemaVersion :: string where
  "SchemaVersion = ''2''"

record metadata =
  md_full_inventory :: bool
  md_test_platform :: string

record list_cache =
  lc_schema_version :: string
  lc_cached_run_id :: string
  lc_cached_at :: string
  lc_full_inventory :: bool
  lc_test_platform :: string
  lc_tests :: "string list option"

datatype cache_error =
    ErrInvalidCache | ErrStaleCache | ErrIncompleteCache | ErrPlatformMismatch | ErrCacheIO

definition CachePath :: "string \<Rightarrow> string" where
  "CachePath projectPath = Join [projectPath, ''.testplay'', ''cache'', ''list.json'']"

definition validTestPlatform :: "string \<Rightarrow> bool" where
  "validTestPlatform p \<longleftrightarrow> p = ''edit_mode'' \<or> p = ''play_mode''"

definition test_names :: "test_case list \<Rightarrow> string list" where
  "test_names tests = filter (\<lambda>n. n \<noteq> []) (map tc_name tests)"

text \<open>
  \<^verbatim>\<open>Write\<close> with the current time already formatted; \<open>io_fails\<close> is a failure of the
  directory, the temporary file or the rename, none of which touches the cache file itself.
\<close>

definition Write ::
    "bool \<Rightarrow> (list_cache \<Rightarrow> string option) \<Rightarrow> string \<Rightarrow> string \<Rightarrow> test_case list \<Rightarrow> metadata \<Rightarrow>
     string file_read \<Rightarrow> (cache_error + unit) \<times> string file_read" where
  "Write io_fails marshal now runID tests md content =
     (if runID = [] then (Inl ErrInvalidCache, content)
      else if \<not> validTestPlatform (md_test_platform md) then (Inl ErrInvalidCache, content)
      else (case marshal \<lparr>lc_schema_version = SchemaVersion, lc_cached_run_id = runID,
                lc_cached_at = now, lc_full_inventory = md_full_inventory md,
                lc_test_platform = md_test_platform md, lc_tests = Some (test_names tests)\<rparr> of
              None \<Rightarrow> (Inl ErrCacheIO, content)
            | Some data \<Rightarrow>
                (if io_fails then (Inl ErrCacheIO, content) else (Inr (), FileBytes data))))"

definition Read ::
    "(string \<Rightarrow> list_cache strict_decode) \<Rightarrow> (string \<Rightarrow> bool) \<Rightarrow> string file_read \<Rightarrow>
     cache_error + list_cache" where
  "Read decode is_rfc3339 content =
     (case content of
        FileBytes data \<Rightarrow>
          (case decode data of
             DecodeFails \<Rightarrow> Inl ErrInvalidCache
           | Decodes c trailing \<Rightarrow>
               bind_result (require (\<not> trailing) ErrInvalidCache) (\<lambda>_.
               bind_result (require (lc_schema_version c = SchemaVersion) ErrStaleCache) (\<lambda>_.
               bind_result (require (lc_cached_run_id c \<noteq> []) ErrInvalidCache) (\<lambda>_.
               bind_result (require (is_rfc3339 (lc_cached_at c)) ErrInvalidCache) (\<lambda>_.
               bind_result (require (lc_full_inventory c) ErrIncompleteCache) (\<lambda>_.
               bind_result (require (validTestPlatform (lc_test_platform c)) ErrInvalidCache) (\<lambda>_.
                 Inr (c\<lparr>lc_tests := Some (case lc_tests c of None \<Rightarrow> [] | Some ts \<Rightarrow> ts)\<rparr>))))))))
      | _ \<Rightarrow> Inl ErrCacheIO)"

definition ReadForPlatform ::
    "(string \<Rightarrow> list_cache strict_decode) \<Rightarrow> (string \<Rightarrow> bool) \<Rightarrow> string \<Rightarrow> string file_read \<Rightarrow>
     cache_error + list_cache" where
  "ReadForPlatform decode is_rfc3339 platform content =
     (if \<not> validTestPlatform platform then Inl ErrPlatformMismatch
      else bind_result (Read decode is_rfc3339 content) (\<lambda>c.
        if lc_test_platform c \<noteq> platform then Inl ErrPlatformMismatch else Inr c))"

section \<open>What a cache vouches for\<close>

text \<open>A sequence of runs, each of which tries to write the cache.\<close>

type_synonym cache_write = "bool \<times> string \<times> string \<times> test_case list \<times> metadata"

fun write_sequence ::
    "(list_cache \<Rightarrow> string option) \<Rightarrow> cache_write list \<Rightarrow> string file_read \<Rightarrow> string file_read" where
  "write_sequence marshal [] content = content"
| "write_sequence marshal ((io_fails, now, runID, tests, md) # ws) content =
     write_sequence marshal ws (snd (Write io_fails marshal now runID tests md content))"

definition faithful_codec ::
    "(list_cache \<Rightarrow> string option) \<Rightarrow> (string \<Rightarrow> list_cache strict_decode) \<Rightarrow> bool" where
  "faithful_codec marshal decode \<longleftrightarrow> (\<forall>c data. marshal c = Some data \<longrightarrow> decode data = Decodes c False)"

lemma Write_content:
  "snd (Write io_fails marshal now runID tests md content) = content \<or>
   (\<exists>data. snd (Write io_fails marshal now runID tests md content) = FileBytes data \<and>
      marshal \<lparr>lc_schema_version = SchemaVersion, lc_cached_run_id = runID, lc_cached_at = now,
        lc_full_inventory = md_full_inventory md, lc_test_platform = md_test_platform md,
        lc_tests = Some (test_names tests)\<rparr> = Some data)"
  by (simp add: Write_def split: option.split)

lemma write_sequence_content:
  "write_sequence marshal ws content = content \<or>
   (\<exists>(io_fails, now, runID, tests, md) \<in> set ws. \<exists>data.
      write_sequence marshal ws content = FileBytes data \<and>
      marshal \<lparr>lc_schema_version = SchemaVersion, lc_cached_run_id = runID, lc_cached_at = now,
        lc_full_inventory = md_full_inventory md, lc_test_platform = md_test_platform md,
        lc_tests = Some (test_names tests)\<rparr> = Some data)"
proof (induction marshal ws content rule: write_sequence.induct)
  case (2 marshal io_fails now runID tests md ws content)
  then show ?case using Write_content [of io_fails marshal now runID tests md content] by fastforce
qed simp

lemma Read_Inr:
  "Read decode is_rfc3339 (FileBytes data) = Inr c \<Longrightarrow> decode data = Decodes c0 tr \<Longrightarrow>
     lc_full_inventory c0 \<and> c = c0\<lparr>lc_tests := Some (case lc_tests c0 of None \<Rightarrow> [] | Some ts \<Rightarrow> ts)\<rparr>"
  by (auto simp: Read_def)

text \<open>
  A complete list is backed by a complete run. Start with no cache file and let any sequence of
  runs write it, some of them failing: when \<open>ReadForPlatform\<close> then succeeds, its answer is the
  exact inventory of one of these runs, with that run's identifier, and that run was unfiltered and
  on the requested platform. Hypothesis on \<^verbatim>\<open>encoding/json\<close>: what is encoded decodes to
  itself.
\<close>

theorem complete_list_is_backed:
  assumes "faithful_codec marshal decode"
    "ReadForPlatform decode is_rfc3339 platform (write_sequence marshal ws FileMissing) = Inr c"
  shows "\<exists>(io_fails, now, runID, tests, md) \<in> set ws.
     md_full_inventory md \<and> md_test_platform md = platform \<and>
     lc_cached_run_id c = runID \<and> lc_tests c = Some (test_names tests)"
proof -
  let ?s = "write_sequence marshal ws FileMissing"
  from assms(2) have r: "Read decode is_rfc3339 ?s = Inr c" and p: "lc_test_platform c = platform"
    by (auto simp: ReadForPlatform_def bind_result_Inr_iff split: if_splits)
  have "?s \<noteq> FileMissing" using r by (auto simp: Read_def)
  with write_sequence_content [of marshal ws FileMissing]
  obtain io now i ts md data where w: "(io, now, i, ts, md) \<in> set ws" "?s = FileBytes data"
    "marshal \<lparr>lc_schema_version = SchemaVersion, lc_cached_run_id = i, lc_cached_at = now,
        lc_full_inventory = md_full_inventory md, lc_test_platform = md_test_platform md,
        lc_tests = Some (test_names ts)\<rparr> = Some data" (is "marshal ?c = _")
    by auto
  have "decode data = Decodes ?c False" using assms(1) w(3) unfolding faithful_codec_def by blast
  from Read_Inr [OF r [unfolded w(2)] this] p have
    "md_full_inventory md \<and> md_test_platform md = platform \<and>
     lc_cached_run_id c = i \<and> lc_tests c = Some (test_names ts)" by auto
  then show ?thesis using w(1) by blast
qed

definition sample_cache :: list_cache where
  "sample_cache = \<lparr>lc_schema_version = SchemaVersion, lc_cached_run_id = ''r2'',
     lc_cached_at = ''now'', lc_full_inventory = True, lc_test_platform = ''edit_mode'',
     lc_tests = Some [''A.B'']\<rparr>"

definition sample_encode :: "list_cache \<Rightarrow> string option" where
  "sample_encode c = (if c = sample_cache then Some ''bytes'' else None)"

definition sample_decode :: "string \<Rightarrow> list_cache strict_decode" where
  "sample_decode s = (if s = ''bytes'' then Decodes sample_cache False else DecodeFails)"

definition named_case :: "string \<Rightarrow> test_case" where
  "named_case n = \<lparr>tc_name = n, tc_result = ''Passed'', tc_duration = 0, tc_message = [],
     tc_excerpt = [], tc_file = [], tc_absolute_path = [], tc_line = 0, tc_parameterized_group = []\<rparr>"

definition sample_writes :: "cache_write list" where
  "sample_writes =
     [(True, ''now'', ''r1'', [named_case ''X''], \<lparr>md_full_inventory = False, md_test_platform = ''edit_mode''\<rparr>),
      (False, ''now'', ''r2'', [named_case ''A.B'', named_case []],
        \<lparr>md_full_inventory = True, md_test_platform = ''edit_mode''\<rparr>),
      (False, ''now'', [], [], \<lparr>md_full_inventory = True, md_test_platform = ''edit_mode''\<rparr>)]"

lemma sample_codec: "faithful_codec sample_encode sample_decode"
  by (simp add: faithful_codec_def sample_encode_def sample_decode_def)

lemma sample_read:
  "ReadForPlatform sample_decode (\<lambda>s. s = ''now'') ''edit_mode''
     (write_sequence sample_encode sample_writes FileMissing) = Inr sample_cache"
  by code_simp

lemma complete_list_is_backed_witness:
  "\<exists>(io_fails, now, runID, tests, md) \<in> set sample_writes.
     md_full_inventory md \<and> md_test_platform md = ''edit_mode'' \<and>
     lc_cached_run_id sample_cache = runID \<and> lc_tests sample_cache = Some (test_names tests)"
  by (rule complete_list_is_backed [OF sample_codec sample_read])

end
