(* ===== verification/Compiler.thy ===== *)
theory Compiler
  imports History
begin

text \<open>
  Scraping Unity's stderr, \<^verbatim>\<open>internal/unity/compiler.go\<close>: C# compile errors with their
  location, and the licence and build-target failures. The regular expressions of the source are
  written as line scanners; \<^verbatim>\<open>(?i)\<close> is case folding of ASCII letters.
\<close>

section \<open>Compile errors\<close>

text \<open>A non-empty run of digits followed by a literal: the digits and what follows.\<close>

definition digits_then :: "string \<Rightarrow> string \<Rightarrow> (string \<times> string) option" where
  "digits_then lit s =
     (let ds = takeWhile is_digit s; r = dropWhile is_digit s
      in if ds \<noteq> [] \<and> has_prefix r lit then Some (ds, drop (length lit) r) else None)"

text \<open>\<^verbatim>\<open>\((\d+),(\d+)\): error (CS\d+: .+)$\<close> on the rest of a line.\<close>

definition error_tail :: "string \<Rightarrow> (string \<times> string \<times> string) option" where
  "error_tail s =
     (case cut_prefix s ''('' of None \<Rightarrow> None | Some s1 \<Rightarrow>
      (case digits_then '','' s1 of None \<Rightarrow> None | Some (line, s2) \<Rightarrow>
       (case digits_then ''): error CS'' s2 of None \<Rightarrow> None | Some (col, s3) \<Rightarrow>
        (case digits_then '': '' s3 of None \<Rightarrow> None | Some (code, rest) \<Rightarrow>
          (if rest = [] then None else Some (line, col, ''CS'' @ code @ '': '' @ rest))))))"

text \<open>
  \<^verbatim>\<open>^(.+\.cs)\<close> before it, as long as possible: the file name is the longest prefix of at
  least four bytes that ends in \<^verbatim>\<open>.cs\<close> and is followed by the rest of the pattern.
\<close>

definition match_line :: "string \<Rightarrow> (string \<times> string \<times> string \<times> string) option" where
  "match_line w =
     (case find (\<lambda>k. has_suffix (take k w) ''.cs'' \<and> error_tail (drop k w) \<noteq> None)
         (rev [4..<Suc (length w)]) of
        None \<Rightarrow> None
      | Some k \<Rightarrow> map_option (\<lambda>m. (take k w, m)) (error_tail (drop k w)))"

definition compile_error_of ::
    "string \<Rightarrow> string \<times> string \<times> string \<times> string \<Rightarrow> compile_error" where
  "compile_error_of projectPath m =
     (case m of (f, line, col, msg) \<Rightarrow>
        \<lparr>ce_file = trim_space f,
         ce_absolute_path = (if projectPath \<noteq> [] then Join [projectPath, trim_space f] else trim_space f),
         ce_line = atoi_digits line, ce_column = atoi_digits col, ce_message = trim_space msg\<rparr>)"

definition ParseCompileErrorsWithProject :: "string \<Rightarrow> string \<Rightarrow> compile_error list" where
  "ParseCompileErrorsWithProject stderr projectPath =
     concat (map (\<lambda>w. case match_line w of None \<Rightarrow> [] | Some m \<Rightarrow> [compile_error_of projectPath m])
       (split_on newline stderr))"

definition ParseCompileErrors :: "string \<Rightarrow> compile_error list" where
  "ParseCompileErrors stderr = ParseCompileErrorsWithProject stderr []"

section \<open>Licence and build-target failures\<close>

text \<open>\<^verbatim>\<open>a.*b\<close> within one line.\<close>

definition followed_by :: "string \<Rightarrow> string \<Rightarrow> string \<Rightarrow> bool" where
  "followed_by a b w = (case index_of w a of None \<Rightarrow> False | Some i \<Rightarrow> contains (drop (i + length a) w) b)"

definition is_word :: "char \<Rightarrow> bool" where
  "is_word c \<longleftrightarrow> is_digit c \<or> (97 \<le> byte_of c \<and> byte_of c \<le> 122) \<or>
     (65 \<le> byte_of c \<and> byte_of c \<le> 90) \<or> c = CHR ''_''"

text \<open>\<^verbatim>\<open>\bb\b\<close> somewhere after the byte \<open>prev\<close>, for a \<open>b\<close> of word characters.\<close>

fun word_after :: "char \<Rightarrow> string \<Rightarrow> string \<Rightarrow> bool" where
  "word_after prev b [] = False"
| "word_after prev b (c # w) =
     ((\<not> is_word prev \<and> has_prefix (c # w) b \<and>
        (case drop (length b) (c # w) of [] \<Rightarrow> True | d # _ \<Rightarrow> \<not> is_word d))
      \<or> word_after c b w)"

definition followed_by_word :: "string \<Rightarrow> string \<Rightarrow> string \<Rightarrow> bool" where
  "followed_by_word a b w =
     (case index_of w a of None \<Rightarrow> False | Some i \<Rightarrow> word_after (last a) b (drop (i + length a) w))"

definition ParseBuildFailure :: "string \<Rightarrow> bool" where
  "ParseBuildFailure stderr =
     (let s = to_lower stderr; ls = split_on newline s
      in contains s ''no valid unity license''
       \<or> list_ex (followed_by ''failed to acquire'' ''license'') ls
       \<or> list_ex (followed_by ''license:'' ''no valid'') ls
       \<or> contains s ''is not installed'' \<or> contains s ''is not supported''
       \<or> list_ex (followed_by_word ''module'' ''missing'') ls)"

section \<open>Compile errors are found exactly\<close>

text \<open>A line of stderr: something else, or a compile error with its parts.\<close>

datatype log_line =
    Noise string
  | Error_line (el_file: string) (el_line: nat) (el_column: nat) (el_code: nat) (el_text: string)

fun render_line :: "log_line \<Rightarrow> string" where
  "render_line (Noise w) = w"
| "render_line (Error_line f l c n msg) =
     f @ ''('' @ decimal l @ '','' @ decimal c @ ''): error CS'' @ decimal n @ '': '' @ msg"

text \<open>
  Anything without the marker is noise; an error line names a C# file and its text does not contain
  a second location.
\<close>

fun log_line_ok :: "log_line \<Rightarrow> bool" where
  "log_line_ok (Noise w) \<longleftrightarrow> newline \<notin> set w \<and> \<not> contains w ''): error CS''"
| "log_line_ok (Error_line f l c n msg) \<longleftrightarrow>
     newline \<notin> set f \<and> newline \<notin> set msg \<and> has_suffix f ''.cs'' \<and> 4 \<le> length f \<and> msg \<noteq> [] \<and>
     \<not> contains msg ''.cs(''"

fun expected_error :: "string \<Rightarrow> log_line \<Rightarrow> compile_error list" where
  "expected_error projectPath (Noise w) = []"
| "expected_error projectPath (Error_line f l c n msg) =
     [\<lparr>ce_file = trim_space f,
       ce_absolute_path = (if projectPath \<noteq> [] then Join [projectPath, trim_space f] else trim_space f),
       ce_line = min max_int64 (int l), ce_column = min max_int64 (int c),
       ce_message = trim_space (''CS'' @ decimal n @ '': '' @ msg)\<rparr>]"

lemma decimal_digits: "decimal n \<noteq> [] \<and> list_all is_digit (decimal n)"
proof (induction n rule: decimal.induct)
  case (1 n)
  then show ?case by (subst (1 2) decimal.simps) simp
qed

lemma decimal_value_snoc: "decimal_value (s @ [c]) = 10 * decimal_value s + digit_value c"
  by (simp add: decimal_value_def)

lemma decimal_value_decimal [simp]: "decimal_value (decimal n) = n"
proof (induction n rule: decimal.induct)
  case (1 n)
  show ?case
  proof (cases "n < 10")
    case True
    then show ?thesis by (subst decimal.simps) (simp add: decimal_value_def)
  next
    case False
    then show ?thesis using 1 by (subst decimal.simps) (simp add: decimal_value_snoc)
  qed
qed

lemma digits_then_exact:
  assumes "lit \<noteq> []" "\<not> is_digit (hd lit)"
  shows "digits_then lit (decimal n @ lit @ r) = Some (decimal n, r)"
proof -
  have "\<forall>c \<in> set (decimal n). is_digit c" using decimal_digits by (simp add: list_all_iff)
  moreover obtain c l where "lit = c # l" "\<not> is_digit c" using assms by (cases lit) auto
  ultimately have "takeWhile is_digit (decimal n @ lit @ r) = decimal n"
    "dropWhile is_digit (decimal n @ lit @ r) = lit @ r"
    by (simp_all add: takeWhile_append2 dropWhile_append2)
  then show ?thesis using decimal_digits by (simp add: digits_then_def)
qed

lemma digits_then_sublist: "digits_then lit s = Some (ds, r) \<Longrightarrow> \<exists>p. s = p @ lit @ r"
proof -
  assume "digits_then lit s = Some (ds, r)"
  then have "has_prefix (dropWhile is_digit s) lit" "r = drop (length lit) (dropWhile is_digit s)"
    by (auto simp: digits_then_def Let_def split: if_splits)
  then have "dropWhile is_digit s = lit @ r" by (auto simp: has_prefix_iff)
  then show ?thesis by (metis takeWhile_dropWhile_id)
qed

lemma error_tail_marker:
  assumes "error_tail s \<noteq> None"
  shows "has_prefix s ''('' \<and> contains s ''): error CS''"
proof -
  obtain s1 line s2 col s3 where s: "cut_prefix s ''('' = Some s1" "digits_then '','' s1 = Some (line, s2)"
    "digits_then ''): error CS'' s2 = Some (col, s3)"
    using assms by (auto simp: error_tail_def split: option.splits)
  obtain p q where "s1 = p @ '','' @ s2" "s2 = q @ ''): error CS'' @ s3"
    using digits_then_sublist [OF s(2)] digits_then_sublist [OF s(3)] by blast
  moreover have "s = ''('' @ s1" "has_prefix s ''(''"
    using s(1) by (auto simp: cut_prefix_def has_prefix_iff split: if_splits)
  ultimately have "s = (''('' @ p @ '','' @ q) @ ''): error CS'' @ s3" by simp
  then show ?thesis using \<open>has_prefix s ''(''\<close> by (metis contains_iff sublist_appendI)
qed

lemma match_line_noise:
  assumes "\<not> contains w ''): error CS''"
  shows "match_line w = None"
proof -
  have "error_tail (drop k w) = None" for k
  proof (rule ccontr)
    assume "error_tail (drop k w) \<noteq> None"
    then have "sublist ''): error CS'' (drop k w)" using error_tail_marker contains_iff by blast
    then have "sublist ''): error CS'' w" by (meson sublist_drop sublist_order.order.trans)
    then show False using assms by (simp add: contains_iff)
  qed
  moreover have "find (\<lambda>k. False) ks = None" for ks :: "nat list" by (induction ks) simp_all
  ultimately show ?thesis by (simp add: match_line_def del: upt_Suc)
qed

definition error_mid :: "nat \<Rightarrow> nat \<Rightarrow> nat \<Rightarrow> string" where
  "error_mid l c n = ''('' @ decimal l @ '','' @ decimal c @ ''): error CS'' @ decimal n @ '': ''"

lemma render_error: "render_line (Error_line f l c n msg) = f @ error_mid l c n @ msg"
  by (simp add: error_mid_def)

lemma error_tail_exact:
  assumes "msg \<noteq> []"
  shows "error_tail (error_mid l c n @ msg) =
     Some (decimal l, decimal c, ''CS'' @ decimal n @ '': '' @ msg)"
proof -
  have nd: "\<not> is_digit (CHR '','')" "\<not> is_digit (CHR '')'')" "\<not> is_digit (CHR '':'')"
    by (simp_all add: is_digit_def byte_of_def)
  show ?thesis
    using digits_then_exact [of "'',''" l "decimal c @ ''): error CS'' @ decimal n @ '': '' @ msg"]
      digits_then_exact [of "''): error CS''" c "decimal n @ '': '' @ msg"]
      digits_then_exact [of "'': ''" n msg] assms nd
    by (simp add: error_mid_def error_tail_def cut_prefix_def has_prefix_def)
qed

lemma no_dot_in_mid: "CHR ''.'' \<notin> set (error_mid l c n)"
proof -
  have "CHR ''.'' \<notin> set (decimal k)" for k
    using decimal_digits [of k] by (auto simp: list_all_iff is_digit_def byte_of_def)
  then show ?thesis by (simp add: error_mid_def)
qed

text \<open>No longer prefix can end in \<^verbatim>\<open>.cs\<close> before an opening parenthesis.\<close>

lemma longer_prefix_has_location:
  assumes "has_suffix (take k w) ''.cs''" "has_prefix (drop k w) ''(''" "k \<le> length w" "3 \<le> k"
  shows "\<exists>a b. w = a @ ''.cs('' @ b \<and> length a = k - 3"
proof -
  have suf: "drop (k - 3) (take k w) = ''.cs''"
    using assms(1,3) by (simp add: has_suffix_def min_absorb2 numeral_3_eq_3)
  have "take k w = take (k - 3) (take k w) @ ''.cs''"
    using suf by (metis append_take_drop_id)
  moreover obtain b where "drop k w = ''('' @ b" using assms(2) by (auto simp: has_prefix_iff)
  ultimately have "w = (take (k - 3) (take k w) @ ''.cs'') @ ''('' @ b" by (metis append_take_drop_id)
  then have "w = take (k - 3) (take k w) @ ''.cs('' @ b" by simp
  moreover have "length (take (k - 3) (take k w)) = k - 3" using assms(3) by simp
  ultimately show ?thesis by blast
qed

lemma dot_after_mid:
  assumes eq: "f @ m @ r = a @ ''.cs('' @ b" and nd: "CHR ''.'' \<notin> set m"
    and m: "\<exists>d m'. m = ''('' @ d # m' \<and> d \<noteq> CHR ''c'' \<and> d \<noteq> CHR ''s''"
    and gt: "length f < length a + 3" and f: "f \<noteq> []" "last f = CHR ''s''"
  shows "sublist ''.cs('' r"
proof -
  obtain d m' where m': "m = ''('' @ d # m'" "d \<noteq> CHR ''c''" "d \<noteq> CHR ''s''" using m by blast
  have at: "(f @ m @ r) ! i = (a @ ''.cs('' @ b) ! i" for i using eq by simp
  have "length f \<le> length a"
  proof (rule ccontr)
    assume "\<not> length f \<le> length a"
    then consider "length f = length a + 1" | "length f = length a + 2" using gt by linarith
    then show False
    proof cases
      case 1
      have "(f @ m @ r) ! length f = CHR ''(''" using m' by (simp add: nth_append)
      moreover have "(a @ ''.cs('' @ b) ! length f = CHR ''c''" using 1 by (simp add: nth_append)
      ultimately show False using at [of "length f"] by simp
    next
      case 2
      have "(f @ m @ r) ! length f = CHR ''(''" using m' by (simp add: nth_append)
      moreover have "(a @ ''.cs('' @ b) ! length f = CHR ''s''" using 2 by (simp add: nth_append)
      ultimately show False using at [of "length f"] by simp
    qed
  qed
  then obtain a' where a': "a = f @ a'" "m @ r = a' @ ''.cs('' @ b"
    using eq by (metis append_eq_append_conv_if append_take_drop_id)
  have "length m \<le> length a'"
  proof (rule ccontr)
    assume lt: "\<not> length m \<le> length a'"
    then have "m ! length a' = (m @ r) ! length a'" by (simp add: nth_append)
    also have "\<dots> = CHR ''.''" using a'(2) by simp
    finally show False using nd lt by (metis not_le nth_mem)
  qed
  then obtain a2 where "r = a2 @ ''.cs('' @ b"
    using a'(2) by (metis append_eq_append_conv_if append_take_drop_id)
  then show ?thesis by (metis sublist_appendI)
qed

lemma find_greatest:
  "P n \<Longrightarrow> a \<le> n \<Longrightarrow> n \<le> m \<Longrightarrow> \<forall>k. n < k \<and> k \<le> m \<longrightarrow> \<not> P k \<Longrightarrow>
     find P (rev [a..<Suc m]) = Some (n::nat)"
proof (induction m)
  case (Suc m)
  then show ?case by (cases "n = Suc m") simp_all
qed simp

lemma match_line_error:
  assumes "log_line_ok (Error_line f l c n msg)"
  shows "match_line (render_line (Error_line f l c n msg)) =
     Some (f, decimal l, decimal c, ''CS'' @ decimal n @ '': '' @ msg)"
proof -
  let ?m = "error_mid l c n"
  let ?w = "f @ ?m @ msg"
  let ?P = "\<lambda>k. has_suffix (take k ?w) ''.cs'' \<and> error_tail (drop k ?w) \<noteq> None"
  from assms have f: "has_suffix f ''.cs''" "4 \<le> length f" and msg: "msg \<noteq> []" "\<not> contains msg ''.cs(''"
    by simp_all
  have here: "?P (length f)" using f error_tail_exact [OF msg(1), of l c n] by simp
  obtain g where g: "f = g @ ''.cs''" using f(1) unfolding has_suffix_def by (metis append_take_drop_id)
  have later: "\<not> ?P k" if k: "length f < k" "k \<le> length ?w" for k
  proof
    assume P: "?P k"
    then have "has_prefix (drop k ?w) ''(''" using error_tail_marker by blast
    then obtain a b where ab: "?w = a @ ''.cs('' @ b" "length a = k - 3"
      using longer_prefix_has_location [of k ?w] P k f(2) by auto
    obtain d ds where dd: "decimal l = d # ds" "is_digit d"
      using decimal_digits [of l] by (cases "decimal l") auto
    have "\<exists>d m'. ?m = ''('' @ d # m' \<and> d \<noteq> CHR ''c'' \<and> d \<noteq> CHR ''s''"
      using dd by (auto simp: error_mid_def is_digit_def byte_of_def)
    then have "sublist ''.cs('' msg"
      by (rule dot_after_mid [OF ab(1) no_dot_in_mid]) (use ab(2) k f g in auto)
    then show False using msg(2) by (simp add: contains_iff)
  qed
  have "find ?P (rev [4..<Suc (length ?w)]) = Some (length f)"
    by (rule find_greatest [where P = ?P]) (use here later f(2) in auto)
  then show ?thesis unfolding render_error match_line_def
    using error_tail_exact [OF msg(1), of l c n] by simp
qed

lemma newline_not_digit: "is_digit d \<Longrightarrow> d \<noteq> newline"
  by (auto simp: is_digit_def newline_def byte_of_def)

lemma render_one_line: "log_line_ok x \<Longrightarrow> newline \<notin> set (render_line x)"
proof (cases x)
  case (Error_line f l c n msg)
  assume ok: "log_line_ok x"
  have "newline \<notin> set (decimal k)" for k
    using decimal_digits [of k] by (auto simp: list_all_iff dest: newline_not_digit)
  then show ?thesis using ok Error_line by (simp add: newline_def)
qed simp

lemma split_lines:
  "\<forall>x \<in> set ls. newline \<notin> set (render_line x) \<Longrightarrow>
     split_on newline (concat (map (\<lambda>x. render_line x @ [newline]) ls)) = map render_line ls @ [[]]"
  by (induction ls) (simp_all add: split_on_plain_append)

lemma match_line_Nil: "match_line [] = None"
  by (rule match_line_noise) (simp add: contains_def)

lemma atoi_decimal: "atoi_digits (decimal n) = min max_int64 (int n)"
  by (simp add: atoi_digits_def)

lemma parse_log_line:
  "log_line_ok x \<Longrightarrow>
     (case match_line (render_line x) of None \<Rightarrow> [] | Some m \<Rightarrow> [compile_error_of P m]) =
     expected_error P x"
proof (cases x)
  case (Noise w)
  moreover assume "log_line_ok x"
  ultimately show ?thesis using match_line_noise [of w] by simp
next
  case (Error_line f l c n msg)
  moreover assume "log_line_ok x"
  ultimately show ?thesis using match_line_error [of f l c n msg]
    by (simp add: compile_error_of_def atoi_decimal)
qed



end
