(* ===== verification/TailBuffer.thy ===== *)
theory TailBuffer
  imports Prelude
begin

text \<open>
  The stderr ring buffer, \<^verbatim>\<open>tailBuffer\<close> of \<^verbatim>\<open>internal/unity/executor.go\<close>:
  a fixed array, the number of valid bytes and the index of the next write. It refines the
  list of the last \<^verbatim>\<open>maxTailBytes\<close> bytes written.
\<close>

definition maxTailBytes :: nat where
  "maxTailBytes = 65536"

record tailBuffer =
  tb_buf :: string
  tb_size :: nat
  tb_head :: nat

definition new_tail :: "nat \<Rightarrow> tailBuffer" where
  "new_tail cap = \<lparr>tb_buf = replicate cap (CHR 0x00), tb_size = 0, tb_head = 0\<rparr>"

text \<open>Go's \<^verbatim>\<open>copy(buf[i:], p)\<close>: as many bytes as fit.\<close>

definition copy_at :: "string \<Rightarrow> nat \<Rightarrow> string \<Rightarrow> string" where
  "copy_at buf i p = (let q = take (length buf - i) p in take i buf @ q @ drop (i + length q) buf)"

text \<open>\<^verbatim>\<open>tailBuffer.Write\<close> for an array of \<open>cap\<close> bytes; it returns the length of its argument.\<close>

definition tail_write :: "nat \<Rightarrow> string \<Rightarrow> tailBuffer \<Rightarrow> nat \<times> tailBuffer" where
  "tail_write cap p t =
     (if cap < length p
      then (length p, t\<lparr>tb_buf := copy_at (tb_buf t) 0 (drop (length p - cap) p),
              tb_head := 0, tb_size := cap\<rparr>)
      else let space = cap - tb_head t;
               (buf', head') =
                 (if length p \<le> space
                  then (copy_at (tb_buf t) (tb_head t) p,
                        if tb_head t + length p = cap then 0 else tb_head t + length p)
                  else (copy_at (copy_at (tb_buf t) (tb_head t) (take space p)) 0 (drop space p),
                        length p - space));
               size' = (if tb_size t < cap then min (tb_size t + length p) cap else tb_size t)
           in (length p, t\<lparr>tb_buf := buf', tb_head := head', tb_size := size'\<rparr>))"

definition tail_bytes :: "nat \<Rightarrow> tailBuffer \<Rightarrow> string" where
  "tail_bytes cap t =
     (if tb_size t = 0 then []
      else if tb_size t < cap then take (tb_size t) (tb_buf t)
      else drop (tb_head t) (tb_buf t) @ take (tb_head t) (tb_buf t))"

definition writes :: "nat \<Rightarrow> string list \<Rightarrow> tailBuffer \<Rightarrow> tailBuffer" where
  "writes cap ps t = fold (\<lambda>p t. snd (tail_write cap p t)) ps t"

section \<open>The abstract buffer\<close>

definition last_bytes :: "nat \<Rightarrow> string \<Rightarrow> string" where
  "last_bytes n s = drop (length s - n) s"

lemma length_last_bytes [simp]: "length (last_bytes n s) = min n (length s)"
  by (simp add: last_bytes_def min_def)

lemma last_bytes_short [simp]: "length s \<le> n \<Longrightarrow> last_bytes n s = s"
  by (simp add: last_bytes_def)

lemma last_bytes_append: "last_bytes n (last_bytes n a @ b) = last_bytes n (a @ b)"
proof (cases "length a \<le> n")
  case False
  then have "length (drop (length a - n) a) = n" by simp
  then show ?thesis using False by (simp add: last_bytes_def add.commute)
qed simp

lemma last_bytes_full:
  "length r = n \<Longrightarrow> length p \<le> n \<Longrightarrow> last_bytes n (r @ p) = drop (length p) r @ p"
  by (simp add: last_bytes_def)

text \<open>
  The representation: while the array is filling, its bytes start at index 0 and the head is the
  size; once full, the oldest byte is at the head.
\<close>

definition tail_rep :: "nat \<Rightarrow> string \<Rightarrow> tailBuffer \<Rightarrow> bool" where
  "tail_rep cap s t \<longleftrightarrow> length (tb_buf t) = cap \<and> tb_head t < cap \<and> tb_size t = length s \<and>
     length s \<le> cap \<and>
     (if length s < cap then tb_head t = length s \<and> take (length s) (tb_buf t) = s
      else drop (tb_head t) (tb_buf t) @ take (tb_head t) (tb_buf t) = s)"

lemma tail_rep_new: "0 < cap \<Longrightarrow> tail_rep cap [] (new_tail cap)"
  by (simp add: tail_rep_def new_tail_def)

lemma tail_rep_bytes: "tail_rep cap s t \<Longrightarrow> tail_bytes cap t = s"
  by (auto simp: tail_rep_def tail_bytes_def split: if_splits)

lemma copy_at_fits:
  "i + length p \<le> length buf \<Longrightarrow> copy_at buf i p = take i buf @ p @ drop (i + length p) buf"
  by (simp add: copy_at_def)

lemma length_copy_at [simp]: "i \<le> length buf \<Longrightarrow> length (copy_at buf i p) = length buf"
  by (simp add: copy_at_def min_def)

text \<open>The four positions of a write: an oversized one, and three that go through the ring.\<close>

lemma tail_write_oversized:
  assumes "tail_rep cap s t" "cap < length p"
  shows "tail_rep cap (last_bytes cap (s @ p)) (snd (tail_write cap p t))"
  using assms by (simp add: tail_rep_def tail_write_def copy_at_def last_bytes_def)

lemma tail_write_inside:
  assumes rep: "tail_rep cap s t" and le: "length p \<le> cap - tb_head t"
  shows "tail_rep cap (last_bytes cap (s @ p)) (snd (tail_write cap p t))"
proof -
  let ?h = "tb_head t" and ?b = "tb_buf t"
  have b: "length ?b = cap" "?h < cap" "length s \<le> cap" "tb_size t = length s"
    using rep by (simp_all add: tail_rep_def)
  then have fits: "?h + length p \<le> length ?b" "length p \<le> cap" using le by simp_all
  have t': "snd (tail_write cap p t) = t\<lparr>tb_buf := take ?h ?b @ p @ drop (?h + length p) ?b,
      tb_head := (if ?h + length p = cap then 0 else ?h + length p),
      tb_size := (if tb_size t < cap then min (tb_size t + length p) cap else tb_size t)\<rparr>"
    using le fits by (simp add: tail_write_def copy_at_fits)
  show ?thesis
  proof (cases "length s < cap")
    case True
    then have "?h = length s" "take ?h ?b = s" using rep by (simp_all add: tail_rep_def)
    then show ?thesis using b fits True by (auto simp: t' tail_rep_def)
  next
    case False
    then have r: "drop ?h ?b @ take ?h ?b = s" "length s = cap"
      using rep b(3) by (simp_all add: tail_rep_def)
    have "last_bytes cap (s @ p) = drop (length p) s @ p"
      by (rule last_bytes_full [OF r(2) fits(2)])
    also have "drop (length p) s = drop (?h + length p) ?b @ take ?h ?b"
      using le b by (simp add: add.commute flip: r(1))
    finally show ?thesis using b fits r(2) by (auto simp: t' tail_rep_def)
  qed
qed

lemma tail_write_wrapping:
  assumes rep: "tail_rep cap s t" and gt: "cap - tb_head t < length p" and le: "length p \<le> cap"
  shows "tail_rep cap (last_bytes cap (s @ p)) (snd (tail_write cap p t))"
proof -
  let ?h = "tb_head t" and ?b = "tb_buf t"
  let ?p1 = "take (cap - ?h) p" and ?p2 = "drop (cap - ?h) p"
  have b: "length ?b = cap" "?h < cap" "length s \<le> cap" "tb_size t = length s"
    using rep by (simp_all add: tail_rep_def)
  have l: "length ?p1 = cap - ?h" "length ?p2 = length p - (cap - ?h)" "length ?p2 \<le> ?h"
    using gt le b by simp_all
  have "copy_at ?b ?h ?p1 = take ?h ?b @ ?p1" using b l by (simp add: copy_at_fits)
  moreover have "copy_at (take ?h ?b @ ?p1) 0 ?p2 = ?p2 @ drop (length ?p2) (take ?h ?b @ ?p1)"
    using b l le by (subst copy_at_fits) simp_all
  ultimately have t': "snd (tail_write cap p t) =
      t\<lparr>tb_buf := ?p2 @ drop (length ?p2) (take ?h ?b @ ?p1), tb_head := length ?p2,
        tb_size := (if tb_size t < cap then min (tb_size t + length p) cap else tb_size t)\<rparr>"
    using gt le by (simp add: tail_write_def Let_def)
  have full: "cap \<le> tb_size t + length p"
  proof (cases "length s < cap")
    case True
    then show ?thesis using rep gt b by (simp add: tail_rep_def)
  qed (use b in simp)
  have "last_bytes cap (s @ p) = drop (length ?p2) (take ?h ?b @ ?p1) @ ?p2"
  proof (cases "length s < cap")
    case True
    then have s: "?h = length s" "take ?h ?b = s" using rep by (simp_all add: tail_rep_def)
    have "s @ p = (s @ ?p1) @ ?p2" by simp
    moreover have "length (s @ ?p1) = cap" using s(1) l(1) b by simp
    ultimately show ?thesis using last_bytes_full [of "s @ ?p1" cap ?p2] l le s by simp
  next
    case False
    then have r: "drop ?h ?b @ take ?h ?b = s" "length s = cap"
      using rep b(3) by (simp_all add: tail_rep_def)
    have "last_bytes cap (s @ p) = drop (length p) s @ p" by (rule last_bytes_full [OF r(2) le])
    also have "drop (length p) s = drop (length ?p2) (take ?h ?b)"
      using b gt l by (simp flip: r(1))
    finally show ?thesis using l b by (simp add: min_absorb1 min_absorb2)
  qed
  moreover have "length (drop (length ?p2) (take ?h ?b @ ?p1) @ ?p2) = cap" using b l le by simp
  ultimately show ?thesis using b l full le
    by (auto simp: t' tail_rep_def)
qed

lemma tail_write_refines:
  "tail_rep cap s t \<Longrightarrow> tail_rep cap (last_bytes cap (s @ p)) (snd (tail_write cap p t))"
  using tail_write_oversized tail_write_inside tail_write_wrapping by (meson not_le)

lemma writes_refine:
  "tail_rep cap s t \<Longrightarrow> tail_rep cap (last_bytes cap (s @ concat ps)) (writes cap ps t)"
proof (induction ps arbitrary: s t)
  case Nil
  then show ?case by (simp add: writes_def tail_rep_def)
next
  case (Cons p ps)
  from Cons.IH [OF tail_write_refines [OF Cons.prems, of p]]
  show ?case by (simp add: writes_def last_bytes_append)
qed

text \<open>
  C11. The ring buffer keeps exactly the tail of stderr: whatever the sizes of the writes, its bytes
  are the last 65536 bytes of everything written, in order (all of it when it is shorter); and
  every write reports that it consumed its whole argument.
\<close>

theorem tailBuffer_keeps_tail:
  "tail_bytes maxTailBytes (writes maxTailBytes ps (new_tail maxTailBytes)) =
     last_bytes maxTailBytes (concat ps)
   \<and> fst (tail_write maxTailBytes p t) = length p"
proof
  show "tail_bytes maxTailBytes (writes maxTailBytes ps (new_tail maxTailBytes)) =
     last_bytes maxTailBytes (concat ps)"
    using writes_refine [OF tail_rep_new, of maxTailBytes ps] tail_rep_bytes
    by (simp add: maxTailBytes_def)
  show "fst (tail_write maxTailBytes p t) = length p"
    by (simp add: tail_write_def Let_def split: prod.split)
qed

end
