(* ===== verification/UnityExec.thy ===== *)
theory UnityExec
  imports Compiler TailBuffer Status Config
begin

text \<open>
  One execution of Unity: the process runner and its arguments
  (\<^verbatim>\<open>internal/unity/runner.go\<close>), the Unity path (\<^verbatim>\<open>discover.go\<close>) and the
  executor that classifies what happened into a result and an exit code
  (\<^verbatim>\<open>executor.go\<close>). The operating system is data: what a process invocation did and how
  the contexts stood when it returned. The statuses the executor writes are the trace it returns,
  in order; with a nil writer they are discarded.
\<close>

section \<open>Contexts and errors\<close>

text \<open>
  A context on return: alive, past its deadline, or cancelled, by the signal sentinel as cause or
  not. \<^verbatim>\<open>Err_launch\<close> is any other error, with whether it wraps
  \<^verbatim>\<open>os.ErrNotExist\<close>, and its text.
\<close>

datatype ctx_state = Alive | Deadline_passed | Cancelled bool

datatype run_err = Err_deadline | Err_canceled | Err_launch bool string

definition ctx_err :: "ctx_state \<Rightarrow> run_err option" where
  "ctx_err c = (case c of
       Alive \<Rightarrow> None | Deadline_passed \<Rightarrow> Some Err_deadline | Cancelled _ \<Rightarrow> Some Err_canceled)"

definition signal_cause :: "ctx_state \<Rightarrow> bool" where
  "signal_cause c = (case c of Cancelled s \<Rightarrow> s | _ \<Rightarrow> False)"

definition is_ctx_err :: "run_err \<Rightarrow> bool" where
  "is_ctx_err e = (case e of Err_launch _ _ \<Rightarrow> False | _ \<Rightarrow> True)"

section \<open>The process runner\<close>

datatype wait_result = Wait_ok | Wait_delay_exceeded | Exit_error int | Wait_error string

record process_run =
  pr_start_error :: "(bool \<times> string) option"
  pr_ctx_at_start :: ctx_state
  pr_wait :: wait_result
  pr_ctx_at_wait :: ctx_state

text \<open>The exit code, the error, and whether \<^verbatim>\<open>OnStart\<close> was called.\<close>

definition ProcessRunner_Run :: "process_run \<Rightarrow> int \<times> run_err option \<times> bool" where
  "ProcessRunner_Run p =
     (case pr_start_error p of
        Some (not_exist, text) \<Rightarrow>
          (case ctx_err (pr_ctx_at_start p) of
             Some e \<Rightarrow> (- 1, Some e, False)
           | None \<Rightarrow> (- 1, Some (Err_launch not_exist text), False))
      | None \<Rightarrow>
          (case pr_wait p of
             Wait_ok \<Rightarrow> (0, None, True)
           | w \<Rightarrow>
               (case ctx_err (pr_ctx_at_wait p) of
                  Some e \<Rightarrow> (- 1, Some e, True)
                | None \<Rightarrow>
                    (case w of
                       Wait_delay_exceeded \<Rightarrow> (0, None, True)
                     | Exit_error n \<Rightarrow> (n, None, True)
                     | Wait_error text \<Rightarrow> (- 1, Some (Err_launch False text), True)
                     | Wait_ok \<Rightarrow> (0, None, True)))))"

text \<open>
  \<^verbatim>\<open>MergeEnv\<close>, with the extra variables in the order the map is ranged over and the
  key comparison of the platform.
\<close>

definition env_key :: "string \<Rightarrow> string" where
  "env_key e = takeWhile (\<lambda>c. c \<noteq> CHR ''='') e"

definition MergeEnv ::
    "(string \<Rightarrow> string \<Rightarrow> bool) \<Rightarrow> string list \<Rightarrow> (string \<times> string) list \<Rightarrow> string list" where
  "MergeEnv envKeysEqual base extra =
     (if extra = [] then base
      else filter (\<lambda>e. \<not> list_ex (\<lambda>x. envKeysEqual (env_key e) (fst x)) extra) base @
        map (\<lambda>(k, v). k @ ''='' @ v) extra)"

definition BuildCompileArgs :: "string \<Rightarrow> string list" where
  "BuildCompileArgs projectPath =
     [''-batchmode'', ''-nographics'', ''-projectPath'', projectPath, ''-quit'']"

record run_options =
  ro_filter :: string
  ro_category :: string
  ro_results_file :: string
  ro_test_platform :: string

definition BuildRunArgs :: "string \<Rightarrow> run_options \<Rightarrow> string list" where
  "BuildRunArgs projectPath opts =
     [''-batchmode'', ''-nographics'', ''-runTests'', ''-testPlatform'',
      (if ro_test_platform opts = ''play_mode'' then ''PlayMode'' else ''EditMode''),
      ''-projectPath'', projectPath] @
     (if ro_results_file opts \<noteq> [] then [''-testResults'', ro_results_file opts] else []) @
     (if ro_filter opts \<noteq> [] then [''-testFilter'', ro_filter opts] else []) @
     (if ro_category opts \<noteq> [] then [''-testCategory'', ro_category opts] else [])"

definition DiscoverUnityPath :: "config \<Rightarrow> string option \<Rightarrow> string option" where
  "DiscoverUnityPath c env =
     (if cf_unity_path c \<noteq> [] then Some (cf_unity_path c)
      else case env of None \<Rightarrow> None | Some p \<Rightarrow> if p \<noteq> [] then Some p else None)"

section \<open>The executor\<close>

definition ExitNoTestsMatched :: int where
  "ExitNoTestsMatched = 10"

record execute_options =
  eo_project_path :: string
  eo_results_file :: string
  eo_timeout_type :: string
  eo_filter :: string
  eo_category :: string
  eo_test_platform :: string
  eo_compile_ms :: int
  eo_test_ms :: int
  eo_extra_args :: "string list"

text \<open>
  One invocation through the \<^verbatim>\<open>Runner\<close> interface: exit code, error, the writes to
  stderr, the state of the outer context on return, and the results file as it then reads.
\<close>

record invocation =
  iv_exit :: int
  iv_err :: "run_err option"
  iv_stderr :: "string list"
  iv_outer :: ctx_state
  iv_results :: "string option"

type_synonym 'm execution = "status list \<times> 'm run_result \<times> int"

text \<open>The result literal of the executor: version, exit code, no tests, and the errors.\<close>

definition plain_result :: "int \<Rightarrow> compile_error list \<Rightarrow> 'm run_result" where
  "plain_result code errs = zero_result\<lparr>rr_schema_version := ''1'', rr_exit_code := code,
     rr_tests := Some [], rr_errors := errs\<rparr>"

definition message_error :: "string \<Rightarrow> compile_error" where
  "message_error m = \<lparr>ce_file = [], ce_absolute_path = [], ce_line = 0, ce_column = 0, ce_message = m\<rparr>"

definition classifyPhaseContextErr :: "ctx_state \<Rightarrow> phase \<Rightarrow> string \<Rightarrow> 'm execution" where
  "classifyPhaseContextErr outer phaseTimeoutStatus phaseTimeoutType =
     (case outer of
        Deadline_passed \<Rightarrow>
          ([phase_status PhaseTimeoutTotal], (plain_result 4 [])\<lparr>rr_timeout_type := ''total''\<rparr>, 4)
      | Cancelled s \<Rightarrow>
          (let code = (if s then 8 else 4) in ([phase_status PhaseInterrupted], plain_result code [], code))
      | Alive \<Rightarrow>
          ([phase_status phaseTimeoutStatus],
           (plain_result 4 [])\<lparr>rr_timeout_type := phaseTimeoutType\<rparr>, 4))"

definition handleContextErr :: "ctx_state \<Rightarrow> run_err \<Rightarrow> execute_options \<Rightarrow> 'm execution" where
  "handleContextErr ctx e opts =
     (case e of
        Err_deadline \<Rightarrow>
          ([phase_status PhaseTimeoutTotal],
           (plain_result 4 [])\<lparr>rr_timeout_type := eo_timeout_type opts\<rparr>, 4)
      | Err_canceled \<Rightarrow>
          (let code = (if signal_cause ctx then 8 else 4)
           in ([phase_status PhaseInterrupted], plain_result code [], code))
      | Err_launch _ _ \<Rightarrow> ([phase_status PhaseInterrupted], plain_result 4 [], 4))"

definition launch_hint :: string where
  "launch_hint = ''unity_path must point to the Unity executable itself (macOS: Unity.app/Contents/MacOS/Unity, not the .app bundle); verify with '' @ quoted ''testplay check''"

definition missing_hint :: string where
  "missing_hint = ''Unity binary not found '' @ em_dash @ '' set unity_path in testplay.json (or the UNITY_PATH env var); verify with '' @ quoted ''testplay check''"

text \<open>The text of an error, and whether it wraps \<^verbatim>\<open>os.ErrNotExist\<close>.\<close>

definition err_text :: "run_err \<Rightarrow> string" where
  "err_text e = (case e of Err_deadline \<Rightarrow> ''context deadline exceeded''
     | Err_canceled \<Rightarrow> ''context canceled'' | Err_launch _ text \<Rightarrow> text)"

definition err_not_exist :: "run_err \<Rightarrow> bool" where
  "err_not_exist e = (case e of Err_launch n _ \<Rightarrow> n | _ \<Rightarrow> False)"

definition classifyLaunchFailure :: "run_err \<Rightarrow> 'm execution" where
  "classifyLaunchFailure e =
     ([phase_status PhaseDone],
      (plain_result 1 [])\<lparr>rr_error := ''failed to launch Unity: '' @ err_text e,
        rr_hint := (if err_not_exist e then missing_hint else launch_hint)\<rparr>, 1)"

definition classifyNoResults :: "compile_error list \<Rightarrow> bool \<Rightarrow> 'm run_result \<times> int" where
  "classifyNoResults compileErrors buildFailure =
     (if compileErrors = [] \<and> buildFailure then (plain_result 6 [], 6)
      else (plain_result 2 compileErrors, 2))"

text \<open>
  \<^verbatim>\<open>parseResultsCore\<close>. \<open>unmarshal\<close> is \<^verbatim>\<open>xml.Unmarshal\<close>, its error as text.
\<close>

definition parseResultsCore ::
    "(string \<Rightarrow> string + xml_test_run) \<Rightarrow> (string \<Rightarrow> float64 \<times> bool) \<Rightarrow> execute_options \<Rightarrow> string \<Rightarrow>
     string option \<Rightarrow> bool \<Rightarrow> 'm execution" where
  "parseResultsCore unmarshal parse_float opts stderrTail xmlData writeTerminalStatus =
     (let compileErrors = ParseCompileErrorsWithProject stderrTail (eo_project_path opts);
          done_trace = (if writeTerminalStatus then [phase_status PhaseDone] else [])
      in case xmlData of
           None \<Rightarrow>
             (case classifyNoResults compileErrors (ParseBuildFailure stderrTail) of
                (r, code) \<Rightarrow> (done_trace, r, code))
         | Some data \<Rightarrow>
             (if compileErrors \<noteq> [] then (done_trace, plain_result 2 compileErrors, 2)
              else case Parse parse_float (case unmarshal data of Inl _ \<Rightarrow> None | Inr run \<Rightarrow> Some run) of
                  None \<Rightarrow>
                    ([], plain_result 2 [message_error
                       (''failed to parse test results: parsing NUnit XML: '' @
                        (case unmarshal data of Inl text \<Rightarrow> text | Inr _ \<Rightarrow> []))], 2)
                | Some r \<Rightarrow>
                    (let code = (if 0 < nr_failed r then 3
                           else if nr_total r = 0 \<and> (eo_filter opts \<noteq> [] \<or> eo_category opts \<noteq> [])
                           then ExitNoTestsMatched else 0)
                     in (if writeTerminalStatus
                         then [(phase_status PhaseDone)\<lparr>st_total := nr_total r,
                           st_passed := nr_passed r, st_failed := nr_failed r,
                           st_exit_code := Some code\<rparr>] else [],
                         (plain_result code [])\<lparr>rr_total := nr_total r, rr_passed := nr_passed r,
                           rr_failed := nr_failed r, rr_skipped := nr_skipped r,
                           rr_tests := Some (nr_tests r)\<rparr>, code))))"

definition stderr_tail :: "invocation \<Rightarrow> string" where
  "stderr_tail iv = tail_bytes maxTailBytes (writes maxTailBytes (iv_stderr iv) (new_tail maxTailBytes))"

text \<open>
  The runner is the argument \<open>run\<close>: the number of the invocation and its arguments give what it
  does.
\<close>

definition run_args :: "execute_options \<Rightarrow> string list" where
  "run_args opts = BuildRunArgs (eo_project_path opts)
     \<lparr>ro_filter = eo_filter opts, ro_category = eo_category opts,
      ro_results_file = eo_results_file opts, ro_test_platform = eo_test_platform opts\<rparr>
     @ eo_extra_args opts"

text \<open>A status written before the rest of an execution.\<close>

definition writing :: "phase \<Rightarrow> 'm execution \<Rightarrow> 'm execution" where
  "writing p x = (case x of (trace, r, code) \<Rightarrow> (phase_status p # trace, r, code))"

definition executeSinglePhase ::
    "(string \<Rightarrow> string + xml_test_run) \<Rightarrow> (string \<Rightarrow> float64 \<times> bool) \<Rightarrow>
     (nat \<Rightarrow> string list \<Rightarrow> invocation) \<Rightarrow> execute_options \<Rightarrow> 'm execution" where
  "executeSinglePhase unmarshal parse_float run opts =
     writing PhaseCompiling
       (let iv = run 0 (run_args opts)
        in case iv_err iv of
             Some e \<Rightarrow> (if is_ctx_err e then handleContextErr (iv_outer iv) e opts
                        else classifyLaunchFailure e)
           | None \<Rightarrow> parseResultsCore unmarshal parse_float opts (stderr_tail iv) (iv_results iv) True)"

definition unknown_compile_exit :: "int \<Rightarrow> string" where
  "unknown_compile_exit n = ''Unity compile invocation exited with code '' @ decimal_int n @
     '' (no C# compile errors in stderr); check Unity/editor logs, package import, shadow workspace cold import, license, or build-target setup''"

definition executeTwoPhase ::
    "(string \<Rightarrow> string + xml_test_run) \<Rightarrow> (string \<Rightarrow> float64 \<times> bool) \<Rightarrow>
     (nat \<Rightarrow> string list \<Rightarrow> invocation) \<Rightarrow> execute_options \<Rightarrow> 'm execution" where
  "executeTwoPhase unmarshal parse_float run opts =
     writing PhaseCompiling
       (let iv = run 0 (BuildCompileArgs (eo_project_path opts) @ eo_extra_args opts);
            errs = ParseCompileErrorsWithProject (stderr_tail iv) (eo_project_path opts)
        in case iv_err iv of
             Some e \<Rightarrow>
               (if is_ctx_err e
                then classifyPhaseContextErr (iv_outer iv) PhaseTimeoutCompile ''compile''
                else classifyLaunchFailure e)
           | None \<Rightarrow>
               (if errs \<noteq> [] then ([phase_status PhaseDone], plain_result 2 errs, 2)
                else if iv_exit iv \<noteq> 0
                then ([phase_status PhaseDone],
                      plain_result 6 (if ParseBuildFailure (stderr_tail iv) then []
                        else [message_error (unknown_compile_exit (iv_exit iv))]), 6)
                else writing PhaseRunning
                  (let iv2 = run 1 (run_args opts)
                   in case iv_err iv2 of
                        Some e \<Rightarrow>
                          (if is_ctx_err e
                           then classifyPhaseContextErr (iv_outer iv2) PhaseTimeoutTest ''test''
                           else classifyLaunchFailure e)
                      | None \<Rightarrow> parseResultsCore unmarshal parse_float opts (stderr_tail iv2)
                          (iv_results iv2) True)))"

definition Execute ::
    "(string \<Rightarrow> string + xml_test_run) \<Rightarrow> (string \<Rightarrow> float64 \<times> bool) \<Rightarrow>
     (nat \<Rightarrow> string list \<Rightarrow> invocation) \<Rightarrow> execute_options \<Rightarrow> 'm execution" where
  "Execute unmarshal parse_float run opts =
     (if 0 < eo_compile_ms opts \<and> 0 < eo_test_ms opts
      then executeTwoPhase unmarshal parse_float run opts
      else executeSinglePhase unmarshal parse_float run opts)"

section \<open>The shape of every outcome\<close>

lemma stderr_tail_eq: "stderr_tail iv = last_bytes maxTailBytes (concat (iv_stderr iv))"
  using writes_refine [OF tail_rep_new, of maxTailBytes "iv_stderr iv"] tail_rep_bytes
  by (simp add: stderr_tail_def maxTailBytes_def)

definition terminal_phase :: "phase \<Rightarrow> bool" where
  "terminal_phase p \<longleftrightarrow> p \<in> {PhaseDone, PhaseTimeoutCompile, PhaseTimeoutTest, PhaseTimeoutTotal,
     PhaseInterrupted}"

text \<open>The timeout type that goes with a terminal phase.\<close>

definition timeout_type_of :: "phase \<Rightarrow> string" where
  "timeout_type_of p =
     (if p = PhaseTimeoutCompile then ''compile'' else if p = PhaseTimeoutTest then ''test''
      else if p = PhaseTimeoutTotal then ''total'' else [])"

definition consistent_outcome :: "'m run_result \<Rightarrow> int \<Rightarrow> bool" where
  "consistent_outcome r code \<longleftrightarrow>
     rr_exit_code r = code \<and> code \<in> {0, 1, 2, 3, 4, 6, 8, 10} \<and>
     rr_tests r \<noteq> None \<and> rr_new_failures r = None \<and>
     (rr_hint r \<noteq> [] \<longleftrightarrow> code = 1) \<and> (rr_error r \<noteq> [] \<longleftrightarrow> code = 1) \<and>
     (rr_timeout_type r \<noteq> [] \<longrightarrow> code = 4) \<and>
     (rr_errors r \<noteq> [] \<longrightarrow> code = 2 \<or> code = 6)"

text \<open>
  What every branch produces after the opening phases: one terminal status that agrees with the
  timeout type, or none at all when the results file does not parse.
\<close>

definition parse_failure :: "'m run_result \<Rightarrow> bool" where
  "parse_failure r \<longleftrightarrow> map (\<lambda>e. take 28 (ce_message e)) (rr_errors r) = [''failed to parse test results'']"

definition branch_ok :: "'m execution \<Rightarrow> bool" where
  "branch_ok x = (case x of (trace, r, code) \<Rightarrow> consistent_outcome r code \<and>
     (case trace of
        [] \<Rightarrow> code = 2 \<and> parse_failure r
      | [t] \<Rightarrow> terminal_phase (st_phase t) \<and> timeout_type_of (st_phase t) = rr_timeout_type r
      | _ \<Rightarrow> False))"

lemma plain_result_simps [simp]:
  "rr_exit_code (plain_result c es) = c" "rr_tests (plain_result c es) = Some []"
  "rr_new_failures (plain_result c es) = None" "rr_hint (plain_result c es) = []"
  "rr_error (plain_result c es) = []" "rr_timeout_type (plain_result c es) = []"
  "rr_errors (plain_result c es) = es"
  by (simp_all add: plain_result_def zero_result_def)

lemma terminal_phases [simp]:
  "terminal_phase PhaseDone" "terminal_phase PhaseTimeoutCompile" "terminal_phase PhaseTimeoutTest"
  "terminal_phase PhaseTimeoutTotal" "terminal_phase PhaseInterrupted"
  "\<not> terminal_phase PhaseCompiling" "\<not> terminal_phase PhaseRunning"
  by (simp_all add: terminal_phase_def phase_defs)

lemma timeout_type_of_simps [simp]:
  "timeout_type_of PhaseDone = []" "timeout_type_of PhaseInterrupted = []"
  "timeout_type_of PhaseTimeoutCompile = ''compile''" "timeout_type_of PhaseTimeoutTest = ''test''"
  "timeout_type_of PhaseTimeoutTotal = ''total''"
  by (simp_all add: timeout_type_of_def phase_defs)

lemmas branch_simps = branch_ok_def consistent_outcome_def

lemma classifyPhaseContextErr_ok:
  "(p, ty) \<in> {(PhaseTimeoutCompile, ''compile''), (PhaseTimeoutTest, ''test'')} \<Longrightarrow>
     branch_ok (classifyPhaseContextErr outer p ty)"
  by (auto simp: classifyPhaseContextErr_def branch_simps Let_def split: ctx_state.split)

lemma handleContextErr_ok:
  "eo_timeout_type opts = ''total'' \<Longrightarrow> is_ctx_err e \<Longrightarrow> branch_ok (handleContextErr ctx e opts)"
  by (auto simp: handleContextErr_def is_ctx_err_def branch_simps Let_def split: run_err.split)

lemma hints_nonempty [simp]: "launch_hint \<noteq> []" "missing_hint \<noteq> []"
  by (simp_all add: launch_hint_def missing_hint_def)

lemma classifyLaunchFailure_ok: "branch_ok (classifyLaunchFailure e)"
  by (simp add: classifyLaunchFailure_def branch_simps)

lemma parseResultsCore_ok:
  "branch_ok (parseResultsCore unmarshal pf opts tail xml True)"
  by (auto simp: parseResultsCore_def classifyNoResults_def branch_simps Let_def parse_failure_def
      message_error_def ExitNoTestsMatched_def split: option.split)

definition phases :: "'m execution \<Rightarrow> phase list" where
  "phases x = map st_phase (fst x)"

lemma branch_ok_prefix:
  assumes "branch_ok (trace, r, code)"
  shows "consistent_outcome r code \<and>
    (filter terminal_phase (map st_phase trace) = [] \<and> code = 2 \<and> parse_failure r \<or>
     filter terminal_phase (map st_phase trace) = [st_phase (last trace)] \<and> trace \<noteq> [] \<and>
     timeout_type_of (st_phase (last trace)) = rr_timeout_type r)"
  using assms by (cases trace rule: list.exhaust; cases "tl trace") (auto simp: branch_ok_def)

definition outcome_ok :: "'m execution \<Rightarrow> bool" where
  "outcome_ok x = (case x of (trace, r, code) \<Rightarrow> consistent_outcome r code \<and>
    (filter terminal_phase (map st_phase trace) = [] \<and> code = 2 \<and> parse_failure r \<or>
     filter terminal_phase (map st_phase trace) = [st_phase (last trace)] \<and> trace \<noteq> [] \<and>
     timeout_type_of (st_phase (last trace)) = rr_timeout_type r))"

lemma outcome_ok_branch: "branch_ok x \<Longrightarrow> outcome_ok x"
  using branch_ok_prefix by (cases x) (auto simp: outcome_ok_def)

lemma outcome_ok_writing:
  "outcome_ok x \<Longrightarrow> p \<in> {PhaseCompiling, PhaseRunning} \<Longrightarrow> outcome_ok (writing p x)"
  by (auto simp: outcome_ok_def writing_def split: prod.splits)

lemma stop_ok:
  "branch_ok ([phase_status PhaseDone], plain_result 2 es, 2)"
  "branch_ok ([phase_status PhaseDone], plain_result 6 es, 6)"
  by (simp_all add: branch_simps)

lemmas branches_ok = classifyPhaseContextErr_ok handleContextErr_ok classifyLaunchFailure_ok
  parseResultsCore_ok stop_ok

lemmas branches_outcome_ok = branches_ok [THEN outcome_ok_branch]

lemma executeSinglePhase_ok:
  assumes "eo_timeout_type opts = ''total''"
  shows "outcome_ok (executeSinglePhase unmarshal pf run opts)"
  unfolding executeSinglePhase_def Let_def using assms
  by (simp add: branches_outcome_ok outcome_ok_writing split: option.split)

lemma executeTwoPhase_ok: "outcome_ok (executeTwoPhase unmarshal pf run opts)"
  unfolding executeTwoPhase_def Let_def
  by (simp add: branches_outcome_ok outcome_ok_writing split: option.split)

text \<open>
  C3. Every execution ends in exactly one way. The result carries the exit code that is returned,
  one of 0, 1, 2, 3, 4, 6, 8, 10, and never a nil list of tests; a hint and an error text are there
  exactly with exit 1, a timeout type only with exit 4, errors only with 2 or 6. Of the statuses
  written, at most the last is terminal, and its phase agrees with the timeout type of the result;
  a terminal status is missing only when the results file did not parse.
\<close>

theorem Execute_outcome:
  assumes "eo_timeout_type opts = ''total''"
  shows "case Execute unmarshal pf run opts of (trace, r, code) \<Rightarrow>
     consistent_outcome r code \<and>
     (filter terminal_phase (map st_phase trace) = [] \<and> code = 2 \<and> parse_failure r \<or>
      filter terminal_phase (map st_phase trace) = [st_phase (last trace)] \<and> trace \<noteq> [] \<and>
      timeout_type_of (st_phase (last trace)) = rr_timeout_type r)"
proof -
  have "outcome_ok (Execute unmarshal pf run opts)"
    by (simp add: Execute_def executeSinglePhase_ok [OF assms] executeTwoPhase_ok)
  then show ?thesis by (simp only: outcome_ok_def)
qed

definition sample_options :: execute_options where
  "sample_options = \<lparr>eo_project_path = ''/p'', eo_results_file = ''/r.xml'', eo_timeout_type = ''total'',
     eo_filter = ''A'', eo_category = [], eo_test_platform = ''edit_mode'', eo_compile_ms = 0,
     eo_test_ms = 0, eo_extra_args = []\<rparr>"

definition sample_run :: "nat \<Rightarrow> string list \<Rightarrow> invocation" where
  "sample_run n args = \<lparr>iv_exit = 0, iv_err = Some Err_deadline, iv_stderr = [], iv_outer = Deadline_passed,
     iv_results = None\<rparr>"

lemma sample_execution:
  "Execute unmarshal pf sample_run sample_options =
     ([phase_status PhaseCompiling, phase_status PhaseTimeoutTotal],
      (plain_result 4 [])\<lparr>rr_timeout_type := ''total''\<rparr>, 4)"
  by (simp add: Execute_def executeSinglePhase_def writing_def sample_run_def sample_options_def
      is_ctx_err_def handleContextErr_def)

lemma Execute_outcome_witness:
  "case Execute (\<lambda>_. Inl ''EOF'') (\<lambda>_. (0, True)) sample_run sample_options of (trace, r, code) \<Rightarrow>
     consistent_outcome (r :: unit run_result) code \<and> code = 4 \<and>
     (filter terminal_phase (map st_phase trace) = [] \<and> code = 2 \<and> parse_failure r \<or>
      filter terminal_phase (map st_phase trace) = [st_phase (last trace)] \<and> trace \<noteq> [] \<and>
      timeout_type_of (st_phase (last trace)) = rr_timeout_type r)"
proof -
  have "eo_timeout_type sample_options = ''total''" by (simp add: sample_options_def)
  from Execute_outcome [OF this, of "\<lambda>_. Inl ''EOF''" "\<lambda>_. (0, True)" sample_run]
  show ?thesis by (simp add: sample_execution)
qed

section \<open>Exit 0 means verified\<close>

definition two_phase :: "execute_options \<Rightarrow> bool" where
  "two_phase opts \<longleftrightarrow> 0 < eo_compile_ms opts \<and> 0 < eo_test_ms opts"

text \<open>The last bytes of an invocation's stderr contain no compile error.\<close>

definition no_compile_errors :: "execute_options \<Rightarrow> invocation \<Rightarrow> bool" where
  "no_compile_errors opts iv \<longleftrightarrow>
     ParseCompileErrorsWithProject (last_bytes maxTailBytes (concat (iv_stderr iv))) (eo_project_path opts) = []"

text \<open>The test invocation ended by itself and left a parseable results file.\<close>

definition results_of ::
    "(string \<Rightarrow> string + xml_test_run) \<Rightarrow> invocation \<Rightarrow> xml_test_run option" where
  "results_of unmarshal iv =
     (case iv_err iv of Some _ \<Rightarrow> None | None \<Rightarrow>
      (case iv_results iv of None \<Rightarrow> None | Some data \<Rightarrow>
       (case unmarshal data of Inl _ \<Rightarrow> None | Inr x \<Rightarrow> Some x)))"

definition passes :: "execute_options \<Rightarrow> xml_test_run \<Rightarrow> bool" where
  "passes opts x \<longleftrightarrow> xr_failed x \<le> 0 \<and> (eo_filter opts = [] \<and> eo_category opts = [] \<or> xr_total x \<noteq> 0)"

lemma ctx_codes_nonzero [simp]:
  "snd (snd (classifyPhaseContextErr outer p ty)) \<noteq> 0"
  "snd (snd (handleContextErr ctx e opts)) \<noteq> 0"
  "snd (snd (classifyLaunchFailure e)) \<noteq> 0"
  by (simp_all add: classifyPhaseContextErr_def handleContextErr_def classifyLaunchFailure_def Let_def
      split: ctx_state.split run_err.split)

lemma writing_code [simp]: "snd (snd (writing p x)) = snd (snd x)"
  by (simp add: writing_def split: prod.split)

lemma parseResultsCore_zero:
  "snd (snd (parseResultsCore unmarshal pf opts tail xml w)) = 0 \<longleftrightarrow>
     ParseCompileErrorsWithProject tail (eo_project_path opts) = [] \<and>
     (\<exists>data x. xml = Some data \<and> unmarshal data = Inr x \<and> passes opts x)"
  by (auto simp: parseResultsCore_def Let_def classifyNoResults_def Parse_def ExitNoTestsMatched_def
      passes_def split: option.split sum.split)

lemma test_branch_zero:
  "snd (snd (parseResultsCore unmarshal pf opts (stderr_tail iv) (iv_results iv) w)) = 0 \<and>
     iv_err iv = None \<longleftrightarrow>
   no_compile_errors opts iv \<and> (\<exists>x. results_of unmarshal iv = Some x \<and> passes opts x)"
  by (auto simp: parseResultsCore_zero results_of_def no_compile_errors_def stderr_tail_eq
      split: option.splits sum.splits)

text \<open>
  C1. Exit 0 is never a quiet success. The executor returns exit 0 exactly when the test invocation
  ended by itself (no launch failure, timeout or cancellation), the retained stderr holds no compile
  error, the results file exists and parses, it reports no failure and, when a filter or category
  selected the tests, at least one test; and in two-phase mode the compile invocation before it also
  ended by itself with process exit 0 and without compile errors.
\<close>

theorem exit_zero_means_verified:
  "snd (snd (Execute unmarshal pf run opts)) = 0 \<longleftrightarrow>
     (let iv = run (if two_phase opts then 1 else 0) (run_args opts)
      in no_compile_errors opts iv \<and> (\<exists>x. results_of unmarshal iv = Some x \<and> passes opts x)) \<and>
     (if two_phase opts
      then (let iv = run 0 (BuildCompileArgs (eo_project_path opts) @ eo_extra_args opts)
        in iv_err iv = None \<and> iv_exit iv = 0 \<and> no_compile_errors opts iv)
      else True)"
proof -
  have one: "snd (snd (case iv_err iv of
       Some e \<Rightarrow> (if is_ctx_err e then handleContextErr (iv_outer iv) e opts else classifyLaunchFailure e)
     | None \<Rightarrow> parseResultsCore unmarshal pf opts (stderr_tail iv) (iv_results iv) True)) = 0 \<longleftrightarrow>
     no_compile_errors opts iv \<and> (\<exists>x. results_of unmarshal iv = Some x \<and> passes opts x)" for iv
    using test_branch_zero [of unmarshal pf opts iv True]
    by (cases "iv_err iv") (simp_all add: results_of_def)
  have two: "snd (snd (case iv_err iv of
       Some e \<Rightarrow> (if is_ctx_err e then classifyPhaseContextErr (iv_outer iv) PhaseTimeoutTest ''test''
                  else classifyLaunchFailure e)
     | None \<Rightarrow> parseResultsCore unmarshal pf opts (stderr_tail iv) (iv_results iv) True)) = 0 \<longleftrightarrow>
     no_compile_errors opts iv \<and> (\<exists>x. results_of unmarshal iv = Some x \<and> passes opts x)" for iv
    using test_branch_zero [of unmarshal pf opts iv True]
    by (cases "iv_err iv") (simp_all add: results_of_def)
  show ?thesis
  proof (cases "two_phase opts")
    case True
    let ?iv = "run 0 (BuildCompileArgs (eo_project_path opts) @ eo_extra_args opts)"
    have "snd (snd (executeTwoPhase unmarshal pf run opts)) = 0 \<longleftrightarrow>
        iv_err ?iv = None \<and> iv_exit ?iv = 0 \<and> no_compile_errors opts ?iv \<and>
        no_compile_errors opts (run 1 (run_args opts)) \<and>
        (\<exists>x. results_of unmarshal (run 1 (run_args opts)) = Some x \<and> passes opts x)"
      unfolding executeTwoPhase_def Let_def
      by (cases "iv_err ?iv") (auto simp: two no_compile_errors_def stderr_tail_eq simp del: One_nat_def)
    then show ?thesis using True by (auto simp: Execute_def two_phase_def Let_def)
  next
    case False
    then show ?thesis unfolding Execute_def two_phase_def executeSinglePhase_def Let_def
      by (auto simp: one)
  qed
qed

text \<open>
  A results file that does not parse leaves the run without a terminal status: Unity ends by
  itself, stderr has no compile error and a results file is there that is not NUnit XML; then the
  executor returns exit 2 but the statuses it wrote are the opening \<^verbatim>\<open>compiling\<close> only, so a
  poller of the status file never sees the run end.
\<close>

theorem unparseable_results_never_finish:
  assumes "\<not> two_phase opts" "iv_err (run 0 (run_args opts)) = None"
    "no_compile_errors opts (run 0 (run_args opts))"
    "iv_results (run 0 (run_args opts)) = Some data" "unmarshal data = Inl text"
  shows "fst (Execute unmarshal pf run opts) = [phase_status PhaseCompiling]
    \<and> snd (snd (Execute unmarshal pf run opts)) = 2"
proof -
  have s: "Execute unmarshal pf run opts = executeSinglePhase unmarshal pf run opts"
    using assms(1) by (auto simp: Execute_def two_phase_def)
  have "ParseCompileErrorsWithProject (stderr_tail (run 0 (run_args opts))) (eo_project_path opts) = []"
    using assms(3) by (simp add: no_compile_errors_def stderr_tail_eq)
  then show ?thesis unfolding s executeSinglePhase_def Let_def using assms
    by (simp add: writing_def parseResultsCore_def Let_def Parse_def)
qed

definition truncated_run :: "nat \<Rightarrow> string list \<Rightarrow> invocation" where
  "truncated_run n args = \<lparr>iv_exit = 1, iv_err = None, iv_stderr = [''Crash''], iv_outer = Alive,
     iv_results = Some ''<test-run''\<rparr>"

lemma unparseable_results_never_finish_witness:
  "fst (Execute (\<lambda>_. Inl ''unexpected EOF'') (\<lambda>_. (0, True)) truncated_run sample_options :: unit execution) =
     [phase_status PhaseCompiling]
    \<and> snd (snd (Execute (\<lambda>_. Inl ''unexpected EOF'') (\<lambda>_. (0, True)) truncated_run sample_options :: unit execution)) = 2"
proof (rule unparseable_results_never_finish)
  show "no_compile_errors sample_options (truncated_run 0 (run_args sample_options))"
    by (simp add: no_compile_errors_def truncated_run_def maxTailBytes_def) code_simp
qed (simp_all add: two_phase_def sample_options_def truncated_run_def)

end
