(* ===== verification/Bridge.thy ===== *)
theory Bridge
  imports UnityExec LineTail
begin

text \<open>
  The warm-editor bridge, Go side: the documents of the file protocol
  (\<^verbatim>\<open>internal/bridge/protocol.go\<close>), the gates that decide whether a live, compatible
  editor is there (\<^verbatim>\<open>bridge.go\<close>), the client that submits one request and polls for
  its end (\<^verbatim>\<open>client.go\<close>), and its classification into the result of a run
  (\<^verbatim>\<open>internal/unity/bridge_executor.go\<close>). File contents and the clock are data; JSON
  decoding and \<^verbatim>\<open>filepath.EvalSymlinks\<close> are parameters.
\<close>

section \<open>Protocol documents\<close>

definition LegacyProtocolVersion :: int where "LegacyProtocolVersion = 2"
definition ProtocolVersion :: int where "ProtocolVersion = 3"
definition CapabilityCompile :: string where "CapabilityCompile = ''compile''"
definition CapabilityWarmTest :: string where "CapabilityWarmTest = ''warm-test''"
definition EditorStateIdle :: string where "EditorStateIdle = ''idle''"
definition OutcomeCompleted :: string where "OutcomeCompleted = ''completed''"
definition OutcomeCompileFailed :: string where "OutcomeCompileFailed = ''compile_failed''"
definition OutcomeBuildFailed :: string where "OutcomeBuildFailed = ''build_failed''"
definition OutcomeBusy :: string where "OutcomeBusy = ''busy''"
definition OutcomeRejected :: string where "OutcomeRejected = ''rejected''"
definition OutcomeIndeterminate :: string where "OutcomeIndeterminate = ''indeterminate''"
definition ExecutionStateNotStarted :: string where "ExecutionStateNotStarted = ''not_started''"
definition ExecutionStatePossiblyStarted :: string where
  "ExecutionStatePossiblyStarted = ''possibly_started''"

lemmas outcome_defs = OutcomeCompleted_def OutcomeCompileFailed_def OutcomeBuildFailed_def
  OutcomeBusy_def OutcomeRejected_def OutcomeIndeterminate_def

record handshake =
  hs_schema_version :: string
  hs_protocol_version :: int
  hs_project_path :: string
  hs_project_path_real :: string
  hs_unity_version :: string
  hs_editor_pid :: int
  hs_workspace_id :: string
  hs_session_id :: string
  hs_updated_at :: string
  hs_editor_state :: string
  hs_active_run_id :: string

record request_file =
  rq_schema_version :: string
  rq_protocol_version :: int
  rq_run_id :: string
  rq_session_id :: string
  rq_workspace_id :: string
  rq_editor_pid :: int
  rq_capability_kind :: string
  rq_test_platform :: string
  rq_filter :: string
  rq_category :: string
  rq_results_xml :: string
  rq_status_ndjson :: string
  rq_compile_errors_json :: string
  rq_idle_deadline_ms :: int

record response_file =
  rs_schema_version :: string
  rs_protocol_version :: int
  rs_run_id :: string
  rs_session_id :: string
  rs_workspace_id :: string
  rs_editor_pid :: int
  rs_capability_kind :: string
  rs_outcome :: string
  rs_results_xml_written :: bool
  rs_compile_failed :: bool
  rs_compile_error_count :: int
  rs_non_pristine :: "string list"
  rs_finished_at :: string

record tombstone_file =
  ts_schema_version :: string
  ts_protocol_version :: int
  ts_run_id :: string
  ts_session_id :: string
  ts_workspace_id :: string
  ts_editor_pid :: int
  ts_execution_state :: string
  ts_reason :: string
  ts_created_at :: string

record progress_line =
  pl_phase :: string
  pl_total :: int
  pl_passed :: int
  pl_failed :: int
  pl_current_test :: string

record run_request =
  rn_run_id :: string
  rn_capability_kind :: string
  rn_test_platform :: string
  rn_filter :: string
  rn_category :: string
  rn_results_xml :: string
  rn_idle_deadline_ms :: int

record run_outcome =
  ou_outcome :: string
  ou_results_xml_written :: bool
  ou_non_pristine :: "string list"
  ou_compile_errors :: "compile_error list"

section \<open>Paths and versions\<close>

definition BridgeDir :: "string \<Rightarrow> string" where
  "BridgeDir projectPath = Join [projectPath, ''.testplay'', ''bridge'']"

definition HandshakePath :: "string \<Rightarrow> string" where
  "HandshakePath projectPath = Join [BridgeDir projectPath, ''handshake.json'']"

definition SupportedProtocol :: "int \<Rightarrow> bool" where
  "SupportedProtocol v \<longleftrightarrow> v = LegacyProtocolVersion \<or> v = ProtocolVersion"

definition canonPath :: "(string \<Rightarrow> string option) \<Rightarrow> string \<Rightarrow> string" where
  "canonPath eval_symlinks p = Clean (case eval_symlinks p of Some r \<Rightarrow> r | None \<Rightarrow> p)"

definition samePath :: "(string \<Rightarrow> string option) \<Rightarrow> string \<Rightarrow> string \<Rightarrow> bool" where
  "samePath eval_symlinks a b =
     (if b = [] then False else equal_fold (canonPath eval_symlinks a) (canonPath eval_symlinks b))"

text \<open>\<^verbatim>\<open>\d{4,}\.\d+\.\d+[abfp]\d+\<close> at the front of the text: the match.\<close>

definition version_here :: "string \<Rightarrow> string option" where
  "version_here s =
     (let d1 = takeWhile is_digit s; s1 = drop (length d1) s in
      if length d1 < 4 \<or> \<not> has_prefix s1 ''.'' then None else
      let d2 = takeWhile is_digit (drop 1 s1); s2 = drop (length d2) (drop 1 s1) in
      if d2 = [] \<or> \<not> has_prefix s2 ''.'' then None else
      let d3 = takeWhile is_digit (drop 1 s2); s3 = drop (length d3) (drop 1 s2) in
      if d3 = [] then None else
      (case s3 of [] \<Rightarrow> None | c # s4 \<Rightarrow>
        let d4 = takeWhile is_digit s4 in
        if c \<in> set ''abfp'' \<and> d4 \<noteq> [] then Some (d1 @ ''.'' @ d2 @ ''.'' @ d3 @ [c] @ d4) else None))"

fun UnityVersionFromPath :: "string \<Rightarrow> string" where
  "UnityVersionFromPath [] = []"
| "UnityVersionFromPath (c # s) =
     (case version_here (c # s) of Some v \<Rightarrow> v | None \<Rightarrow> UnityVersionFromPath s)"

definition ProjectEditorVersion :: "string option \<Rightarrow> string" where
  "ProjectEditorVersion content =
     (case content of None \<Rightarrow> []
      | Some data \<Rightarrow>
          (case List.map_filter (\<lambda>l. cut_prefix (trim_space l) ''m_EditorVersion:'')
              (split_on newline data) of
             [] \<Rightarrow> [] | rest # _ \<Rightarrow> trim_space rest))"

definition ExpectedUnityVersion :: "string \<Rightarrow> string option \<Rightarrow> string" where
  "ExpectedUnityVersion unityPath projectVersion =
     (let v = UnityVersionFromPath unityPath
      in if v \<noteq> [] then v else ProjectEditorVersion projectVersion)"

section \<open>The gates\<close>

definition DefaultStaleWindow :: int where
  "DefaultStaleWindow = 3000000000"

datatype probe_failure =
    No_handshake | Malformed_handshake | Protocol_mismatch int | No_session | Path_mismatch
  | Version_mismatch string string | Bad_timestamp | Stale int | Not_idle string | Active_run

text \<open>\<^verbatim>\<open>Time.Sub\<close> saturates at the bounds of \<^verbatim>\<open>int64\<close> nanoseconds.\<close>

definition time_sub :: "int \<Rightarrow> int \<Rightarrow> int" where
  "time_sub a b = max min_int64 (min max_int64 (a - b))"

record probe_world =
  pw_handshake :: "string option"
  pw_decode :: "string \<Rightarrow> handshake option"
  pw_eval_symlinks :: "string \<Rightarrow> string option"
  pw_parse_time :: "string \<Rightarrow> int option"

definition Probe ::
    "probe_world \<Rightarrow> string \<Rightarrow> string \<Rightarrow> int \<Rightarrow> int \<Rightarrow> handshake option \<times> probe_failure option" where
  "Probe w projectPath expectedUnityVersion now staleWindow0 =
     (let staleWindow = (if staleWindow0 \<le> 0 then DefaultStaleWindow else staleWindow0) in
      case pw_handshake w of
        None \<Rightarrow> (None, Some No_handshake)
      | Some data \<Rightarrow>
       (case pw_decode w data of
          None \<Rightarrow> (None, Some Malformed_handshake)
        | Some h \<Rightarrow>
            if \<not> SupportedProtocol (hs_protocol_version h)
            then (Some h, Some (Protocol_mismatch (hs_protocol_version h)))
            else if hs_session_id h = [] then (Some h, Some No_session)
            else if \<not> samePath (pw_eval_symlinks w) projectPath (hs_project_path_real h) \<and>
                \<not> samePath (pw_eval_symlinks w) projectPath (hs_project_path h)
            then (Some h, Some Path_mismatch)
            else if expectedUnityVersion \<noteq> [] \<and> hs_unity_version h \<noteq> [] \<and>
                \<not> equal_fold expectedUnityVersion (hs_unity_version h)
            then (Some h, Some (Version_mismatch (hs_unity_version h) expectedUnityVersion))
            else case pw_parse_time w (hs_updated_at h) of
                None \<Rightarrow> (Some h, Some Bad_timestamp)
              | Some updatedAt \<Rightarrow>
                  let age = time_sub now updatedAt in
                  if staleWindow < age \<or> age < - staleWindow then (Some h, Some (Stale age))
                  else if hs_editor_state h \<noteq> EditorStateIdle
                  then (Some h, Some (Not_idle (hs_editor_state h)))
                  else if hs_active_run_id h \<noteq> [] then (Some h, Some Active_run)
                  else (Some h, None)))"

datatype capability_failure =
    Bad_path | Probe_failed probe_failure | Needs_v3 int | No_required_workspace
  | No_workspace | Workspace_mismatch | Session_mismatch | Pid_mismatch

record capability_requirements =
  cq_workspace_id :: string
  cq_session_id :: string
  cq_editor_pid :: int

text \<open>
  One component of the runtime path: absent, present and a reparse point or not, or not
  inspectable.
\<close>

datatype lstat_result = Lstat_absent | Lstat_present bool | Lstat_error

fun no_reparse :: "(string \<Rightarrow> lstat_result) \<Rightarrow> string \<Rightarrow> string list \<Rightarrow> bool" where
  "no_reparse lstat current [] = True"
| "no_reparse lstat current (c # cs) =
     (let current' = Join [current, c] in
      (case lstat current' of
         Lstat_absent \<Rightarrow> no_reparse lstat current' cs
       | Lstat_present reparse \<Rightarrow> \<not> reparse \<and> no_reparse lstat current' cs
       | Lstat_error \<Rightarrow> False))"

text \<open>The project path already made absolute.\<close>

definition validateCapabilityBridgePath :: "(string \<Rightarrow> lstat_result) \<Rightarrow> string \<Rightarrow> bool" where
  "validateCapabilityBridgePath lstat root =
     (case Rel root (BridgeDir root) of
        None \<Rightarrow> False
      | Some rel \<Rightarrow>
          if rel = ''.'' \<or> rel = ''..'' \<or> has_prefix rel ''../'' then False
          else no_reparse lstat root (split_on sep rel))"

definition ProbeCapability ::
    "(string \<Rightarrow> lstat_result) \<Rightarrow> probe_world \<Rightarrow> string \<Rightarrow> string \<Rightarrow> string \<Rightarrow> capability_requirements \<Rightarrow> int \<Rightarrow> int \<Rightarrow>
     handshake option \<times> capability_failure option" where
  "ProbeCapability lstat w root projectPath expectedUnityVersion req now staleWindow =
     (if \<not> validateCapabilityBridgePath lstat root then (None, Some Bad_path)
      else case Probe w projectPath expectedUnityVersion now staleWindow of
          (h, Some f) \<Rightarrow> (h, Some (Probe_failed f))
        | (None, None) \<Rightarrow> (None, Some (Probe_failed No_handshake))
        | (Some h, None) \<Rightarrow>
            if hs_protocol_version h \<noteq> ProtocolVersion then (Some h, Some (Needs_v3 (hs_protocol_version h)))
            else if cq_workspace_id req = [] then (Some h, Some No_required_workspace)
            else if hs_workspace_id h = [] then (Some h, Some No_workspace)
            else if hs_workspace_id h \<noteq> cq_workspace_id req then (Some h, Some Workspace_mismatch)
            else if cq_session_id req = [] \<or> hs_session_id h \<noteq> cq_session_id req
            then (Some h, Some Session_mismatch)
            else if cq_editor_pid req \<le> 0 \<or> hs_editor_pid h \<noteq> cq_editor_pid req
            then (Some h, Some Pid_mismatch)
            else (Some h, None))"

section \<open>The client\<close>

record client =
  cl_dir :: string
  cl_protocol :: int
  cl_session_id :: string
  cl_workspace_id :: string
  cl_editor_pid :: int

definition NewClient :: "string \<Rightarrow> string \<Rightarrow> client" where
  "NewClient projectPath sessionID = \<lparr>cl_dir = BridgeDir projectPath,
     cl_protocol = LegacyProtocolVersion, cl_session_id = sessionID, cl_workspace_id = [],
     cl_editor_pid = 0\<rparr>"

definition NewClientForHandshake :: "string \<Rightarrow> handshake option \<Rightarrow> client" where
  "NewClientForHandshake projectPath h =
     (case h of
        None \<Rightarrow> NewClient projectPath []
      | Some h \<Rightarrow> \<lparr>cl_dir = BridgeDir projectPath, cl_protocol = hs_protocol_version h,
          cl_session_id = hs_session_id h, cl_workspace_id = hs_workspace_id h,
          cl_editor_pid = hs_editor_pid h\<rparr>)"

text \<open>Decoders of the documents, \<open>None\<close> where \<^verbatim>\<open>json.Unmarshal\<close> fails.\<close>

record codecs =
  cd_response :: "string \<Rightarrow> response_file option"
  cd_tombstone :: "string \<Rightarrow> tombstone_file option"
  cd_progress :: "string \<Rightarrow> progress_line option"
  cd_compile_errors :: "string \<Rightarrow> compile_error list option"

definition readResponse ::
    "codecs \<Rightarrow> client \<Rightarrow> string \<Rightarrow> string \<Rightarrow> string option \<Rightarrow> response_file option" where
  "readResponse cd c runID capability content =
     (case content of None \<Rightarrow> None | Some data \<Rightarrow>
      (case cd_response cd data of None \<Rightarrow> None | Some r \<Rightarrow>
        if rs_run_id r \<noteq> runID \<or> rs_protocol_version r \<noteq> cl_protocol c \<or> rs_session_id r \<noteq> cl_session_id c
        then None
        else if cl_protocol c = ProtocolVersion \<and>
            (rs_workspace_id r \<noteq> cl_workspace_id c \<or> rs_editor_pid r \<noteq> cl_editor_pid c \<or>
             rs_capability_kind r \<noteq> capability)
        then None else Some r))"

definition readTombstone ::
    "codecs \<Rightarrow> client \<Rightarrow> string \<Rightarrow> string option \<Rightarrow> tombstone_file option" where
  "readTombstone cd c runID content =
     (case content of None \<Rightarrow> None | Some data \<Rightarrow>
      (case cd_tombstone cd data of None \<Rightarrow> None | Some t \<Rightarrow>
        if ts_run_id t \<noteq> runID then None
        else if ts_protocol_version t \<noteq> cl_protocol c then None
        else if cl_protocol c = ProtocolVersion \<and>
            (ts_session_id t \<noteq> cl_session_id c \<or> ts_workspace_id t \<noteq> cl_workspace_id c \<or>
             ts_editor_pid t \<noteq> cl_editor_pid c)
        then None else Some t))"

definition finishOutcome :: "codecs \<Rightarrow> response_file \<Rightarrow> string option \<Rightarrow> run_outcome" where
  "finishOutcome cd r sidecar =
     \<lparr>ou_outcome = rs_outcome r, ou_results_xml_written = rs_results_xml_written r,
      ou_non_pristine = rs_non_pristine r,
      ou_compile_errors =
        (if rs_outcome r = OutcomeCompileFailed
         then (case sidecar of None \<Rightarrow> []
               | Some data \<Rightarrow> (case cd_compile_errors cd data of None \<Rightarrow> [] | Some es \<Rightarrow> es))
         else [])\<rparr>"

definition progressToStatus :: "progress_line \<Rightarrow> status option" where
  "progressToStatus p =
     (if pl_phase p = PhaseCompiling \<or> pl_phase p = PhaseRunning
      then Some ((phase_status (pl_phase p))\<lparr>st_total := pl_total p, st_passed := pl_passed p,
        st_failed := pl_failed p, st_current_test := pl_current_test p\<rparr>)
      else None)"

definition progress_events :: "codecs \<Rightarrow> string \<Rightarrow> status list" where
  "progress_events cd line =
     (if line = [] then []
      else case cd_progress cd line of None \<Rightarrow> []
        | Some p \<Rightarrow> (case progressToStatus p of None \<Rightarrow> [] | Some st \<Rightarrow> [st]))"

text \<open>
  \<^verbatim>\<open>drainProgress\<close>: the statuses written and the new offset; a file that cannot be opened
  leaves the offset. The scanner's error is not looked at.
\<close>

definition drainProgress :: "codecs \<Rightarrow> string option \<Rightarrow> nat \<Rightarrow> status list \<times> nat" where
  "drainProgress cd content offset =
     (case content of None \<Rightarrow> ([], offset)
      | Some data \<Rightarrow> (case poll_lines (progress_events cd) offset data of (evs, off', _) \<Rightarrow> (evs, off')))"

interpretation progress: line_handler "progress_events cd" for cd
  by unfold_locales (simp add: progress_events_def)

text \<open>
  What one turn of the polling loop sees: the files it reads in this order, the sidecar, and what
  the select takes: \<open>None\<close> the tick, \<open>Some\<close> the end of the context with its error; and the
  progress file at the final drain.
\<close>

record poll_view =
  pv_progress :: "string option"
  pv_response :: "string option"
  pv_sidecar :: "string option"
  pv_tombstone :: "string option"
  pv_done :: "run_err option"
  pv_final_progress :: "string option"

datatype bridge_error =
    Bridge_ctx run_err | No_expected_session | Unsupported_protocol int | Bad_capability
  | No_editor_pid | Run_dir_failed | Write_request_failed | Indeterminate string | Transport string

datatype client_result = Finished run_outcome | Failed bridge_error | Still_polling

definition tombstone_error :: "tombstone_file \<Rightarrow> bridge_error" where
  "tombstone_error t =
     (if ts_execution_state t \<noteq> ExecutionStateNotStarted then Indeterminate (ts_reason t)
      else Transport (ts_reason t))"

text \<open>The loop: statuses written, result, and whether the cancel marker was written.\<close>

fun poll_run ::
    "codecs \<Rightarrow> client \<Rightarrow> run_request \<Rightarrow> nat \<Rightarrow> poll_view list \<Rightarrow> status list \<times> client_result \<times> bool" where
  "poll_run cd c req offset [] = ([], Still_polling, False)"
| "poll_run cd c req offset (v # vs) =
     (case drainProgress cd (pv_progress v) offset of (sts, offset') \<Rightarrow>
      (case readResponse cd c (rn_run_id req) (rn_capability_kind req) (pv_response v) of
         Some r \<Rightarrow> (sts, Finished (finishOutcome cd r (pv_sidecar v)), False)
       | None \<Rightarrow>
         (case readTombstone cd c (rn_run_id req) (pv_tombstone v) of
            Some t \<Rightarrow>
              (sts, Failed (tombstone_error t), False)
          | None \<Rightarrow>
            (case pv_done v of
               Some e \<Rightarrow> (sts @ fst (drainProgress cd (pv_final_progress v) offset'), Failed (Bridge_ctx e), True)
             | None \<Rightarrow>
                 (case poll_run cd c req offset' vs of (sts', res, cancel) \<Rightarrow> (sts @ sts', res, cancel))))))"

definition request_of :: "client \<Rightarrow> run_request \<Rightarrow> request_file" where
  "request_of c req =
     \<lparr>rq_schema_version = ''1'', rq_protocol_version = cl_protocol c, rq_run_id = rn_run_id req,
      rq_session_id = cl_session_id c, rq_workspace_id = cl_workspace_id c,
      rq_editor_pid = cl_editor_pid c, rq_capability_kind = rn_capability_kind req,
      rq_test_platform = rn_test_platform req, rq_filter = rn_filter req,
      rq_category = rn_category req, rq_results_xml = rn_results_xml req,
      rq_status_ndjson = Join [cl_dir c, ''runs'', rn_run_id req, ''status.ndjson''],
      rq_compile_errors_json = Join [cl_dir c, ''runs'', rn_run_id req, ''compile-errors.json''],
      rq_idle_deadline_ms = rn_idle_deadline_ms req\<rparr>"

text \<open>The cancel marker, with the time formatted.\<close>

definition writeCancel :: "client \<Rightarrow> string \<Rightarrow> string \<Rightarrow> tombstone_file" where
  "writeCancel c runID now =
     \<lparr>ts_schema_version = ''1'', ts_protocol_version = cl_protocol c, ts_run_id = runID,
      ts_session_id = cl_session_id c, ts_workspace_id = cl_workspace_id c,
      ts_editor_pid = cl_editor_pid c, ts_execution_state = ExecutionStatePossiblyStarted,
      ts_reason = ''request canceled by client'', ts_created_at = now\<rparr>"

text \<open>
  \<^verbatim>\<open>Client.Run\<close>: the checks before anything is published, the request, the loop. The
  first two components are the published request and the cancel marker, if any.
\<close>

record run_world =
  rw_ctx :: "run_err option"
  rw_mkdir_fails :: bool
  rw_request_fails :: bool
  rw_now :: string
  rw_views :: "poll_view list"

definition Client_Run ::
    "codecs \<Rightarrow> client \<Rightarrow> run_world \<Rightarrow> run_request \<Rightarrow>
     request_file option \<times> tombstone_file option \<times> status list \<times> client_result" where
  "Client_Run cd c w req =
     (case rw_ctx w of
        Some e \<Rightarrow> (None, None, [], Failed (Bridge_ctx e))
      | None \<Rightarrow>
        if cl_session_id c = [] then (None, None, [], Failed No_expected_session)
        else if \<not> SupportedProtocol (cl_protocol c)
        then (None, None, [], Failed (Unsupported_protocol (cl_protocol c)))
        else if cl_protocol c = ProtocolVersion \<and>
            rn_capability_kind req \<noteq> CapabilityCompile \<and> rn_capability_kind req \<noteq> CapabilityWarmTest
        then (None, None, [], Failed Bad_capability)
        else if cl_protocol c = ProtocolVersion \<and> cl_editor_pid c \<le> 0
        then (None, None, [], Failed No_editor_pid)
        else if rw_mkdir_fails w then (None, None, [], Failed Run_dir_failed)
        else if rw_request_fails w then (None, None, [], Failed Write_request_failed)
        else (case poll_run cd c req 0 (rw_views w) of (sts, res, cancel) \<Rightarrow>
            (Some (request_of c req),
             (if cancel then Some (writeCancel c (rn_run_id req) (rw_now w)) else None), sts, res)))"

end
