(* ===== verification/BridgeExec.thy ===== *)
theory BridgeExec
  imports Bridge
begin

text \<open>
  A run through the warm editor, \<^verbatim>\<open>ExecuteBridge\<close> of
  \<^verbatim>\<open>internal/unity/bridge_executor.go\<close>, on the bridge client's model: which outcomes
  become a result, which fall back to a cold run, and which must never be rerun.
\<close>

section \<open>The executor\<close>

datatype 'm bridge_exec = Fell_back | Ran "'m run_result" int "string list" | Waiting

definition indeterminate_warning :: "string \<Rightarrow> string" where
  "indeterminate_warning reason =
     ''warm run may have executed but its terminal result is indeterminate; tests were not rerun: '' @ reason"

definition indeterminateBridgeResult :: "string \<Rightarrow> status list \<times> 'm bridge_exec" where
  "indeterminateBridgeResult reason =
     ([(phase_status PhaseDone)\<lparr>st_exit_code := Some 9\<rparr>],
      Ran (zero_result\<lparr>rr_tests := Some []\<rparr>) 9 [indeterminate_warning reason])"

definition bridge_request :: "execute_options \<Rightarrow> string \<Rightarrow> int \<Rightarrow> run_request" where
  "bridge_request opts runID idleDeadlineMs =
     \<lparr>rn_run_id = runID, rn_capability_kind = CapabilityWarmTest,
      rn_test_platform = eo_test_platform opts, rn_filter = eo_filter opts,
      rn_category = eo_category opts, rn_results_xml = eo_results_file opts,
      rn_idle_deadline_ms = idleDeadlineMs\<rparr>"

definition error_text :: "string \<Rightarrow> string \<Rightarrow> string" where
  "error_text runID reason = ''bridge: run '' @ runID @
     '' may have executed but its terminal result is indeterminate: '' @ reason"

definition outcome_result ::
    "(string \<Rightarrow> string + xml_test_run) \<Rightarrow> (string \<Rightarrow> float64 \<times> bool) \<Rightarrow> execute_options \<Rightarrow>
     string option \<Rightarrow> run_outcome \<Rightarrow> status list \<times> 'm bridge_exec" where
  "outcome_result unmarshal pf opts xml out =
     (if ou_outcome out = OutcomeCompleted then
        (if \<not> ou_results_xml_written out
         then indeterminateBridgeResult ''bridge observed completion but did not persist results.xml''
         else case parseResultsCore unmarshal pf opts [] xml False of
             (_, r, code) \<Rightarrow>
               (if code = 2
                then indeterminateBridgeResult
                  ''bridge observed completion but results.xml is missing or unparseable''
                else ([(phase_status PhaseDone)\<lparr>st_total := rr_total r, st_passed := rr_passed r,
                         st_failed := rr_failed r, st_exit_code := Some code\<rparr>],
                      Ran r code (ou_non_pristine out))))
      else if ou_outcome out = OutcomeCompileFailed then
        (case classifyNoResults (ou_compile_errors out) False of
           (r, code) \<Rightarrow> ([phase_status PhaseDone], Ran r code (ou_non_pristine out)))
      else if ou_outcome out = OutcomeBuildFailed then
        (case classifyNoResults [] True of
           (r, code) \<Rightarrow> ([phase_status PhaseDone], Ran r code (ou_non_pristine out)))
      else if ou_outcome out = OutcomeIndeterminate then
        indeterminateBridgeResult (case ou_non_pristine out of
            [] \<Rightarrow> ''warm run may have executed but no trustworthy terminal result was produced; refusing to rerun''
          | x # _ \<Rightarrow> x)
      else ([], Fell_back))"

definition error_result ::
    "ctx_state \<Rightarrow> execute_options \<Rightarrow> string \<Rightarrow> bridge_error \<Rightarrow> status list \<times> 'm bridge_exec" where
  "error_result ctx opts runID e =
     (case e of
        Bridge_ctx re \<Rightarrow>
          (if is_ctx_err re
           then (case handleContextErr ctx re opts of (trace, r, code) \<Rightarrow> (trace, Ran r code []))
           else ([], Fell_back))
      | Indeterminate reason \<Rightarrow> indeterminateBridgeResult (error_text runID reason)
      | _ \<Rightarrow> ([], Fell_back))"

text \<open>\<open>ctx\<close> is the context when the client returns, \<open>xml\<close> the results file then.\<close>

definition ExecuteBridge ::
    "(string \<Rightarrow> string + xml_test_run) \<Rightarrow> (string \<Rightarrow> float64 \<times> bool) \<Rightarrow> codecs \<Rightarrow> client \<Rightarrow> run_world \<Rightarrow>
     ctx_state \<Rightarrow> string option \<Rightarrow> execute_options \<Rightarrow> string \<Rightarrow> int \<Rightarrow> status list \<times> 'm bridge_exec" where
  "ExecuteBridge unmarshal pf cd c w ctx xml opts runID idleDeadlineMs =
     (case Client_Run cd c w (bridge_request opts runID idleDeadlineMs) of
        (_, _, progress, res) \<Rightarrow>
          (case (case res of
                   Finished out \<Rightarrow> outcome_result unmarshal pf opts xml out
                 | Failed e \<Rightarrow> error_result ctx opts runID e
                 | Still_polling \<Rightarrow> ([], Waiting)) of
             (final, x) \<Rightarrow> (phase_status PhaseCompiling # progress @ final, x)))"

section \<open>Only this run's own documents end it\<close>

lemma readResponse_own:
  "readResponse cd c runID capability content = Some r \<Longrightarrow>
     rs_run_id r = runID \<and> rs_protocol_version r = cl_protocol c \<and> rs_session_id r = cl_session_id c \<and>
     (cl_protocol c = ProtocolVersion \<longrightarrow> rs_workspace_id r = cl_workspace_id c \<and>
        rs_editor_pid r = cl_editor_pid c \<and> rs_capability_kind r = capability) \<and>
     (\<exists>data. content = Some data \<and> cd_response cd data = Some r)"
  by (auto simp: readResponse_def split: option.splits if_splits)

lemma poll_run_finished:
  "poll_run cd c req offset vs = (sts, Finished out, cancel) \<Longrightarrow>
     \<not> cancel \<and> (\<exists>v \<in> set vs. \<exists>r.
       readResponse cd c (rn_run_id req) (rn_capability_kind req) (pv_response v) = Some r \<and>
       out = finishOutcome cd r (pv_sidecar v))"
proof (induction vs arbitrary: offset sts)
  case (Cons v vs)
  then show ?case by (auto split: prod.splits option.splits)
qed simp

lemma poll_run_failed:
  "poll_run cd c req offset vs = (sts, Failed e, cancel) \<Longrightarrow>
     (\<exists>re. e = Bridge_ctx re \<and> cancel \<and> (\<exists>v \<in> set vs. pv_done v = Some re)) \<or>
     \<not> cancel \<and> (\<exists>v \<in> set vs. \<exists>t. readTombstone cd c (rn_run_id req) (pv_tombstone v) = Some t \<and>
       e = tombstone_error t)"
proof (induction vs arbitrary: offset sts)
  case (Cons v vs)
  then show ?case by (auto split: prod.splits option.splits)
qed simp

definition own_response :: "client \<Rightarrow> run_request \<Rightarrow> response_file \<Rightarrow> bool" where
  "own_response c req r \<longleftrightarrow>
     rs_run_id r = rn_run_id req \<and> rs_protocol_version r = cl_protocol c \<and>
     rs_session_id r = cl_session_id c \<and>
     (cl_protocol c = ProtocolVersion \<longrightarrow> rs_workspace_id r = cl_workspace_id c \<and>
        rs_editor_pid r = cl_editor_pid c \<and> rs_capability_kind r = rn_capability_kind req)"

lemma Client_Run_finished:
  assumes "Client_Run cd c w req = (published, marker, sts, Finished out)"
  shows "published = Some (request_of c req) \<and> marker = None \<and> cl_session_id c \<noteq> [] \<and>
     (cl_protocol c = ProtocolVersion \<longrightarrow> 0 < cl_editor_pid c) \<and>
     (\<exists>v \<in> set (rw_views w). \<exists>data r. pv_response v = Some data \<and> cd_response cd data = Some r \<and>
        own_response c req r \<and> out = finishOutcome cd r (pv_sidecar v))"
proof -
  obtain sts' res cancel where p: "poll_run cd c req 0 (rw_views w) = (sts', res, cancel)"
    by (metis prod_cases3)
  from assms have *: "res = Finished out" "published = Some (request_of c req)"
    "marker = (if cancel then Some (writeCancel c (rn_run_id req) (rw_now w)) else None)"
    "cl_session_id c \<noteq> []" "cl_protocol c = ProtocolVersion \<longrightarrow> 0 < cl_editor_pid c"
    using p by (auto simp: Client_Run_def split: option.splits if_splits)
  from poll_run_finished [OF p [unfolded *(1)]] obtain v r where
    "\<not> cancel" "v \<in> set (rw_views w)" "out = finishOutcome cd r (pv_sidecar v)"
    "readResponse cd c (rn_run_id req) (rn_capability_kind req) (pv_response v) = Some r" by blast
  then show ?thesis using * readResponse_own [of cd c "rn_run_id req" "rn_capability_kind req" "pv_response v" r]
    by (auto simp: own_response_def)
qed

text \<open>
  A foreign or stale document never ends a run. When \<open>Client_Run\<close> finishes with an outcome,
  its own request was published, no cancel marker was written, and the outcome is that of a response
  it read whose run identifier, protocol version and non-empty session are those of the request,
  and, in protocol 3, also its workspace, its positive editor PID and its capability.
\<close>

theorem finished_by_own_response:
  assumes "Client_Run cd c w req = (published, marker, sts, Finished out)"
  shows "published = Some (request_of c req) \<and> marker = None \<and> cl_session_id c \<noteq> [] \<and>
     (cl_protocol c = ProtocolVersion \<longrightarrow> 0 < cl_editor_pid c) \<and>
     (\<exists>v \<in> set (rw_views w). \<exists>data r. pv_response v = Some data \<and> cd_response cd data = Some r \<and>
        own_response c req r \<and> out = finishOutcome cd r (pv_sidecar v))"
  using assms by (rule Client_Run_finished)

definition sample_client :: client where
  "sample_client = \<lparr>cl_dir = ''/p/.testplay/bridge'', cl_protocol = 3, cl_session_id = ''s1'',
     cl_workspace_id = ''w1'', cl_editor_pid = 42\<rparr>"

definition response_from :: "string \<Rightarrow> string \<Rightarrow> response_file" where
  "response_from session outcome = \<lparr>rs_schema_version = ''1'', rs_protocol_version = 3, rs_run_id = ''r1'',
     rs_session_id = session, rs_workspace_id = ''w1'', rs_editor_pid = 42,
     rs_capability_kind = ''warm-test'', rs_outcome = outcome, rs_results_xml_written = True,
     rs_compile_failed = False, rs_compile_error_count = 0, rs_non_pristine = [], rs_finished_at = []\<rparr>"

definition sample_codecs :: codecs where
  "sample_codecs = \<lparr>cd_response = (\<lambda>s. if s = ''old'' then Some (response_from ''s0'' OutcomeCompleted)
       else if s = ''done'' then Some (response_from ''s1'' OutcomeCompleted)
       else if s = ''busy'' then Some (response_from ''s1'' OutcomeBusy) else None),
     cd_tombstone = (\<lambda>_. None),
     cd_progress = (\<lambda>s. if s = ''run'' then Some \<lparr>pl_phase = ''running'', pl_total = 2, pl_passed = 1,
        pl_failed = 0, pl_current_test = ''A''\<rparr> else None),
     cd_compile_errors = (\<lambda>_. None)\<rparr>"

definition view_of :: "string \<Rightarrow> string option \<Rightarrow> poll_view" where
  "view_of content response = \<lparr>pv_progress = Some content, pv_response = response, pv_sidecar = None,
     pv_tombstone = None, pv_done = None, pv_final_progress = None\<rparr>"

definition sample_world :: "poll_view list \<Rightarrow> run_world" where
  "sample_world vs = \<lparr>rw_ctx = None, rw_mkdir_fails = False, rw_request_fails = False, rw_now = [],
     rw_views = vs\<rparr>"

definition sample_views :: "poll_view list" where
  "sample_views = [view_of [] (Some ''old''), view_of (file_of [''run'']) None,
     view_of (file_of [''run'', ''run'']) (Some ''done'')]"

lemma sample_outcome:
  "snd (snd (snd (Client_Run sample_codecs sample_client (sample_world sample_views)
      (bridge_request sample_options ''r1'' 30000)))) =
     Finished (finishOutcome sample_codecs (response_from ''s1'' OutcomeCompleted) None)"
  by (simp add: Client_Run_def sample_world_def sample_views_def sample_client_def view_of_def
      SupportedProtocol_def ProtocolVersion_def bridge_request_def CapabilityWarmTest_def
      CapabilityCompile_def readResponse_def sample_codecs_def response_from_def readTombstone_def
      split: prod.split)

lemma finished_by_own_response_witness:
  "cl_session_id sample_client \<noteq> [] \<and>
   (\<exists>v \<in> set sample_views. \<exists>data r. pv_response v = Some data \<and>
      cd_response sample_codecs data = Some r \<and>
      own_response sample_client (bridge_request sample_options ''r1'' 30000) r)"
proof -
  obtain published marker sts where
    "Client_Run sample_codecs sample_client (sample_world sample_views)
       (bridge_request sample_options ''r1'' 30000) = (published, marker, sts,
       Finished (finishOutcome sample_codecs (response_from ''s1'' OutcomeCompleted) None))"
    using sample_outcome by (metis prod_cases4 snd_conv)
  from finished_by_own_response [OF this] show ?thesis by (auto simp: sample_world_def)
qed

section \<open>Progress is translated exactly once\<close>

definition keeps_polling :: "codecs \<Rightarrow> client \<Rightarrow> run_request \<Rightarrow> poll_view \<Rightarrow> bool" where
  "keeps_polling cd c req v \<longleftrightarrow>
     readResponse cd c (rn_run_id req) (rn_capability_kind req) (pv_response v) = None \<and>
     readTombstone cd c (rn_run_id req) (pv_tombstone v) = None \<and> pv_done v = None"

lemma drainProgress_poll:
  "drainProgress cd (Some data) offset =
     (fst (poll_lines (progress_events cd) offset data), fst (snd (poll_lines (progress_events cd) offset data)))"
  by (simp add: drainProgress_def split: prod.split)

lemma poll_run_progress:
  assumes "\<forall>v \<in> set vs. keeps_polling cd c req v" "map pv_progress (vs @ [v]) = map Some contents"
    "readResponse cd c (rn_run_id req) (rn_capability_kind req) (pv_response v) = Some r"
  shows "fst (poll_run cd c req offset (vs @ [v])) = fst (poll_all (progress_events cd) offset contents)"
  using assms
proof (induction vs arbitrary: offset contents)
  case Nil
  then obtain d where d: "contents = [d]" "pv_progress v = Some d" by (cases contents) auto
  then show ?case using Nil.prems(3)
    by (simp add: drainProgress_poll split: prod.split)
next
  case (Cons u us)
  then obtain d ds where d: "contents = d # ds" "pv_progress u = Some d"
    "map pv_progress (us @ [v]) = map Some ds" by (cases contents) auto
  obtain evs off' err where p: "poll_lines (progress_events cd) offset d = (evs, off', err)"
    by (metis prod_cases3)
  have q: "keeps_polling cd c req u" using Cons.prems(1) by simp
  have "fst (poll_run cd c req off' (us @ [v])) = fst (poll_all (progress_events cd) off' ds)"
    by (rule Cons.IH) (use Cons.prems d in simp_all)
  then show ?case using d p q
    by (simp add: keeps_polling_def drainProgress_poll split: prod.split) (metis fst_conv)
qed

text \<open>
  Progress is exact. While the bridge only appends complete lines to its progress file, however
  the appends and the polls interleave, the statuses the client has written when the response ends
  the loop are those of the lines of the file as last read: each once, in order, none lost.
\<close>

theorem progress_exactly_once:
  assumes "\<forall>v \<in> set vs. keeps_polling cd c req v"
    "readResponse cd c (rn_run_id req) (rn_capability_kind req) (pv_response v) = Some r"
    "map pv_progress (vs @ [v]) = map (\<lambda>ls. Some (file_of ls)) lss"
    "growing [] lss" "\<forall>ls \<in> set lss. \<forall>l \<in> set ls. clean_line l"
  shows "fst (poll_run cd c req 0 (vs @ [v])) = events_of (progress_events cd) (last lss)"
proof -
  have "lss \<noteq> []" using assms(3) by auto
  have "fst (poll_run cd c req 0 (vs @ [v])) = fst (poll_all (progress_events cd) 0 (map file_of lss))"
    by (rule poll_run_progress [OF assms(1) _ assms(2)]) (use assms(3) in \<open>simp add: o_def\<close>)
  also have "\<dots> = events_of (progress_events cd) (last ([] # lss))"
    using progress.poll_all_complete [of "[]" lss cd] assms(4,5) by (simp add: events_of_def)
  finally show ?thesis using \<open>lss \<noteq> []\<close> by simp
qed

lemma progress_exactly_once_witness:
  "fst (poll_run sample_codecs sample_client (bridge_request sample_options ''r1'' 30000) 0
      ([view_of [] (Some ''old''), view_of (file_of [''run'']) None] @
       [view_of (file_of [''run'', ''run'']) (Some ''done'')])) =
     events_of (progress_events sample_codecs) (last [[], [''run''], [''run'', ''run'']])"
proof (rule progress_exactly_once)
  show "\<forall>v \<in> set [view_of [] (Some ''old''), view_of (file_of [''run'']) None].
      keeps_polling sample_codecs sample_client (bridge_request sample_options ''r1'' 30000) v"
    by code_simp
  show "readResponse sample_codecs sample_client
      (rn_run_id (bridge_request sample_options ''r1'' 30000))
      (rn_capability_kind (bridge_request sample_options ''r1'' 30000))
      (pv_response (view_of (file_of [''run'', ''run'']) (Some ''done''))) =
      Some (response_from ''s1'' OutcomeCompleted)"
    by code_simp
qed (simp_all add: view_of_def clean_line_def newline_def carriage_return_def max_token_def)

section \<open>Falling back and finishing\<close>

definition executed_outcomes :: "string list" where
  "executed_outcomes = [OutcomeCompleted, OutcomeCompileFailed, OutcomeBuildFailed, OutcomeIndeterminate]"

lemma outcome_result_cases:
  "snd (outcome_result unmarshal pf opts xml out) = Fell_back \<longleftrightarrow> ou_outcome out \<notin> set executed_outcomes"
  by (simp add: outcome_result_def executed_outcomes_def indeterminateBridgeResult_def
      classifyNoResults_def outcome_defs split: prod.split)

lemma Client_Run_published:
  "Client_Run cd c w req = (Some rq, marker, sts, res) \<Longrightarrow>
     \<exists>cancel. poll_run cd c req 0 (rw_views w) = (sts, res, cancel)"
  by (auto simp: Client_Run_def split: option.splits if_splits prod.splits)

lemma Client_Run_unpublished:
  "Client_Run cd c w req = (None, marker, sts, res) \<Longrightarrow> \<exists>e. res = Failed e \<and> sts = []"
  by (auto simp: Client_Run_def split: option.splits if_splits prod.splits)

lemma ctx_codes [simp]: "ctx_err ctx = Some re \<Longrightarrow> is_ctx_err re"
  by (auto simp: ctx_err_def is_ctx_err_def split: ctx_state.splits)

text \<open>
  C2. Tests that may have run are never run again. When \<open>ExecuteBridge\<close> falls back to a cold run
  after publishing its request, then either a tombstone of this run says that execution had not
  started, or the run's own response reports an outcome that is none of completed, compile failed,
  build failed and indeterminate (it is busy, rejected or unknown); the end of the context is never
  a reason.
\<close>

theorem fallback_only_if_not_executed:
  assumes "ExecuteBridge unmarshal pf cd c w ctx xml opts runID idle = (sts, Fell_back)"
    "fst (Client_Run cd c w (bridge_request opts runID idle)) \<noteq> None"
    "\<forall>v \<in> set (rw_views w). \<forall>e. pv_done v = Some e \<longrightarrow> is_ctx_err e"
  shows "\<exists>v \<in> set (rw_views w).
     (\<exists>t. readTombstone cd c runID (pv_tombstone v) = Some t \<and>
        ts_execution_state t = ExecutionStateNotStarted) \<or>
     (\<exists>r. readResponse cd c runID CapabilityWarmTest (pv_response v) = Some r \<and>
        rs_outcome r \<notin> set executed_outcomes)"
proof -
  let ?req = "bridge_request opts runID idle"
  have req: "rn_run_id ?req = runID" "rn_capability_kind ?req = CapabilityWarmTest"
    by (simp_all add: bridge_request_def)
  obtain rq marker progress res where run: "Client_Run cd c w ?req = (Some rq, marker, progress, res)"
    using assms(2) by (metis fst_conv not_Some_eq prod_cases4)
  then obtain cancel where p: "poll_run cd c ?req 0 (rw_views w) = (progress, res, cancel)"
    using Client_Run_published by blast
  show ?thesis
  proof (cases res)
    case (Finished out)
    then have "snd (outcome_result unmarshal pf opts xml out) = (Fell_back :: 'a bridge_exec)"
      using assms(1) run by (auto simp: ExecuteBridge_def split: prod.splits)
    then have "ou_outcome out \<notin> set executed_outcomes" by (simp only: outcome_result_cases not_False_eq_True)
    moreover obtain v r where "v \<in> set (rw_views w)" "out = finishOutcome cd r (pv_sidecar v)"
      "readResponse cd c runID CapabilityWarmTest (pv_response v) = Some r"
      using poll_run_finished [OF p [unfolded Finished]] req by auto
    ultimately show ?thesis by (auto simp: finishOutcome_def)
  next
    case (Failed e)
    then have fb: "snd (error_result ctx opts runID e) = (Fell_back :: 'a bridge_exec)"
      using assms(1) run by (auto simp: ExecuteBridge_def split: prod.splits)
    from poll_run_failed [OF p [unfolded Failed]] consider
      re v where "e = Bridge_ctx re" "v \<in> set (rw_views w)" "pv_done v = Some re"
      | v t where "v \<in> set (rw_views w)" "readTombstone cd c runID (pv_tombstone v) = Some t"
        "e = tombstone_error t" using req by auto
    then show ?thesis
    proof cases
      case 1
      then show ?thesis using fb assms(3) by (auto simp: error_result_def split: prod.splits)
    next
      case 2
      then have "ts_execution_state t = ExecutionStateNotStarted"
        using fb by (auto simp: tombstone_error_def error_result_def indeterminateBridgeResult_def
            split: if_splits)
      then show ?thesis using 2 by blast
    qed
  next
    case Still_polling
    then show ?thesis using assms(1) run by (auto simp: ExecuteBridge_def split: prod.splits)
  qed
qed

definition busy_views :: "poll_view list" where
  "busy_views = [view_of [] (Some ''old''), view_of [] (Some ''busy'')]"

lemma sample_fallback:
  "snd (ExecuteBridge unmarshal pf sample_codecs sample_client (sample_world busy_views) Alive None
      sample_options ''r1'' 30000) = Fell_back
   \<and> fst (Client_Run sample_codecs sample_client (sample_world busy_views)
      (bridge_request sample_options ''r1'' 30000)) \<noteq> None"
  by (simp add: ExecuteBridge_def Client_Run_def sample_world_def busy_views_def sample_client_def
      view_of_def SupportedProtocol_def ProtocolVersion_def bridge_request_def
      CapabilityWarmTest_def CapabilityCompile_def readResponse_def sample_codecs_def
      response_from_def readTombstone_def finishOutcome_def outcome_result_def outcome_defs
      split: prod.split)

lemma fallback_only_if_not_executed_witness:
  "\<exists>v \<in> set busy_views.
     (\<exists>t. readTombstone sample_codecs sample_client ''r1'' (pv_tombstone v) = Some t \<and>
        ts_execution_state t = ExecutionStateNotStarted) \<or>
     (\<exists>r. readResponse sample_codecs sample_client ''r1'' CapabilityWarmTest (pv_response v) = Some r \<and>
        rs_outcome r \<notin> set executed_outcomes)"
proof -
  let ?x = "ExecuteBridge (\<lambda>_. Inl []) (\<lambda>_. (0, True)) sample_codecs sample_client (sample_world busy_views)
      Alive None sample_options ''r1'' 30000 :: status list \<times> unit bridge_exec"
  have "?x = (fst ?x, Fell_back)" using sample_fallback by (metis prod.collapse)
  moreover have "\<forall>v \<in> set (rw_views (sample_world busy_views)). \<forall>e. pv_done v = Some e \<longrightarrow> is_ctx_err e"
    by (simp add: sample_world_def busy_views_def view_of_def)
  ultimately have "\<exists>v \<in> set (rw_views (sample_world busy_views)).
     (\<exists>t. readTombstone sample_codecs sample_client ''r1'' (pv_tombstone v) = Some t \<and>
        ts_execution_state t = ExecutionStateNotStarted) \<or>
     (\<exists>r. readResponse sample_codecs sample_client ''r1'' CapabilityWarmTest (pv_response v) = Some r \<and>
        rs_outcome r \<notin> set executed_outcomes)"
    by (rule fallback_only_if_not_executed [OF _ conjunct2 [OF sample_fallback]])
  moreover have "rw_views (sample_world busy_views) = busy_views" by (simp add: sample_world_def)
  ultimately show ?thesis by (simp only:)
qed

lemma progress_not_terminal: "s \<in> set (progress_events cd line) \<Longrightarrow> \<not> terminal_phase (st_phase s)"
  by (auto simp: progress_events_def progressToStatus_def split: if_splits option.splits)

lemma drain_not_terminal:
  "s \<in> set (fst (drainProgress cd content offset)) \<Longrightarrow> \<not> terminal_phase (st_phase s)"
  by (auto simp: drainProgress_def poll_lines_def dest: progress_not_terminal
      split: option.splits prod.splits)

lemma poll_run_not_terminal:
  "s \<in> set (fst (poll_run cd c req offset vs)) \<Longrightarrow> \<not> terminal_phase (st_phase s)"
proof (induction vs arbitrary: offset)
  case (Cons v vs)
  obtain sts off' where d: "drainProgress cd (pv_progress v) offset = (sts, off')" by fastforce
  have s: "x \<in> set sts \<Longrightarrow> \<not> terminal_phase (st_phase x)" for x
    using drain_not_terminal [of x cd "pv_progress v" offset] d by simp
  show ?case using Cons.prems s drain_not_terminal Cons.IH [of off'] d
    by (auto split: option.splits prod.splits)
qed simp

lemma Client_Run_not_terminal:
  assumes "Client_Run cd c w req = (rq, marker, sts, res)"
  shows "filter terminal_phase (map st_phase sts) = []"
proof -
  have "\<forall>s \<in> set sts. \<not> terminal_phase (st_phase s)"
  proof (cases rq)
    case None
    then show ?thesis using Client_Run_unpublished assms by fastforce
  next
    case (Some r)
    then show ?thesis using assms Client_Run_published poll_run_not_terminal by (metis fst_conv)
  qed
  then show ?thesis by (auto simp: filter_empty_conv)
qed

text \<open>What the classification adds: one terminal status with a result, none otherwise.\<close>

definition final_ok :: "status list \<times> 'm bridge_exec \<Rightarrow> bool" where
  "final_ok y = (case y of (sts, x) \<Rightarrow>
     (case x of
        Ran r code warnings \<Rightarrow> length sts = 1 \<and> terminal_phase (st_phase (hd sts)) \<and>
          code \<in> {0, 2, 3, 4, 6, 8, 9, 10} \<and> rr_tests r \<noteq> None \<and> rr_new_failures r = None
      | _ \<Rightarrow> sts = []))"

lemma parseResultsCore_bridge:
  assumes "parseResultsCore unmarshal pf opts tail xml False = (t, r, code)"
  shows "code \<in> {0, 2, 3, 6, 10} \<and> rr_tests r \<noteq> None \<and> rr_new_failures r = None"
  using assms by (auto simp: parseResultsCore_def classifyNoResults_def Let_def ExitNoTestsMatched_def
      split: option.splits if_splits)

lemma zero_result_tests [simp]: "rr_tests (zero_result\<lparr>rr_tests := ts\<rparr>) = ts"
    "rr_new_failures zero_result = None"
  by (simp_all add: zero_result_def)

lemma indeterminate_final_ok: "final_ok (indeterminateBridgeResult reason)"
  by (simp add: final_ok_def indeterminateBridgeResult_def)

lemma final_ok_Ran:
  "terminal_phase (st_phase t) \<Longrightarrow> code \<in> {0, 2, 3, 4, 6, 8, 9, 10} \<Longrightarrow> rr_tests r \<noteq> None \<Longrightarrow>
     rr_new_failures r = None \<Longrightarrow> final_ok ([t], Ran r code ws)"
  by (simp add: final_ok_def)

lemma final_ok_none: "final_ok ([], Fell_back)" "final_ok ([], Waiting)"
  by (simp_all add: final_ok_def)

lemma outcome_final_ok:
  "final_ok (outcome_result unmarshal pf opts xml out :: status list \<times> 'm bridge_exec)"
proof -
  obtain t and r :: "'m run_result" and code
    where p: "parseResultsCore unmarshal pf opts [] xml False = (t, r, code)"
    by (metis prod_cases3)
  note c = parseResultsCore_bridge [OF p]
  have completed: "final_ok (if code = 2 then indeterminateBridgeResult reason
      else ([(phase_status PhaseDone)\<lparr>st_total := a, st_passed := b, st_failed := d,
        st_exit_code := Some code\<rparr>], Ran r code ws))" for reason a b d ws
    using c by (auto simp: indeterminate_final_ok intro!: final_ok_Ran)
  show ?thesis
    by (simp add: outcome_result_def p completed indeterminate_final_ok final_ok_none
        classifyNoResults_def final_ok_Ran)
qed

lemma handleContextErr_final:
  "is_ctx_err re \<Longrightarrow>
     final_ok (case handleContextErr ctx re opts of (trace, r, code) \<Rightarrow> (trace, Ran r code []))"
  by (cases re) (simp_all add: handleContextErr_def Let_def is_ctx_err_def final_ok_Ran)

lemma error_final_ok: "final_ok (error_result ctx opts runID e)"
  by (cases e) (simp_all add: error_result_def indeterminate_final_ok final_ok_none
      handleContextErr_final)

lemma outcome_zero:
  fixes r :: "'m run_result"
  assumes "outcome_result unmarshal pf opts xml out = (sts, Ran r 0 ws)"
  shows "ou_outcome out = OutcomeCompleted \<and> ou_results_xml_written out \<and>
     (\<exists>data x. xml = Some data \<and> unmarshal data = Inr x \<and> passes opts x)"
proof -
  obtain t and r' :: "'m run_result" and code
    where p: "parseResultsCore unmarshal pf opts [] xml False = (t, r', code)"
    by (metis prod_cases3)
  have "ou_outcome out = OutcomeCompleted \<and> ou_results_xml_written out \<and> code = 0"
    using assms by (simp add: outcome_result_def indeterminateBridgeResult_def p
        classifyNoResults_def split: if_splits)
  moreover have "snd (snd (parseResultsCore unmarshal pf opts [] xml False :: 'm execution)) = code"
    using p by simp
  ultimately show ?thesis
    using parseResultsCore_zero [where ?'a = 'm, of unmarshal pf opts "[]" xml False] by simp
qed

text \<open>The statuses of a bridge run: opening, progress, and what the classification adds.\<close>

lemma ExecuteBridge_split:
  obtains progress final and x :: "'m bridge_exec" where
    "ExecuteBridge unmarshal pf cd c w ctx xml opts runID idle = (phase_status PhaseCompiling # progress @ final, x)"
    "filter terminal_phase (map st_phase progress) = []" "final_ok (final, x)"
proof -
  obtain rq marker progress res where run:
    "Client_Run cd c w (bridge_request opts runID idle) = (rq, marker, progress, res)"
    by (metis prod_cases4)
  obtain final and x :: "'m bridge_exec" where y: "(case res of
       Finished out \<Rightarrow> outcome_result unmarshal pf opts xml out
     | Failed e \<Rightarrow> error_result ctx opts runID e
     | Still_polling \<Rightarrow> ([], Waiting)) = (final, x)"
    by fastforce
  have "final_ok (final, x)"
    by (fold y, cases res) (simp_all add: outcome_final_ok error_final_ok final_ok_none)
  then show ?thesis
    using that [of progress final x] Client_Run_not_terminal [OF run] run y by (simp add: ExecuteBridge_def)
qed

text \<open>
  A bridge run ends like a cold run. With a result, exactly one of the statuses written is
  terminal, and it is the last; without one (falling back, or still waiting) none is. The exit code
  is one of 0, 2, 3, 4, 6, 8, 9, 10, the list of tests is never nil, and exit 0 requires that the
  client finished with this run's completed outcome, that the bridge said it wrote the results, and
  that the results file is there, parses and passes.
\<close>

theorem ExecuteBridge_outcome:
  "case ExecuteBridge unmarshal pf cd c w ctx xml opts runID idle of (sts, x) \<Rightarrow>
     (case x of
        Ran r code warnings \<Rightarrow>
          filter terminal_phase (map st_phase sts) = [st_phase (last sts)] \<and>
          code \<in> {0, 2, 3, 4, 6, 8, 9, 10} \<and> rr_tests r \<noteq> None \<and>
          (if code = 0
           then (\<exists>out data y. snd (snd (snd (Client_Run cd c w (bridge_request opts runID idle)))) = Finished out
             \<and> ou_outcome out = OutcomeCompleted \<and> ou_results_xml_written out
             \<and> xml = Some data \<and> unmarshal data = Inr y \<and> passes opts y)
           else True)
      | _ \<Rightarrow> filter terminal_phase (map st_phase sts) = [])"
proof -
  obtain rq marker progress res where run:
    "Client_Run cd c w (bridge_request opts runID idle) = (rq, marker, progress, res)"
    by (metis prod_cases4)
  define y where "y = (case res of
       Finished out \<Rightarrow> outcome_result unmarshal pf opts xml out
     | Failed e \<Rightarrow> error_result ctx opts runID e
     | Still_polling \<Rightarrow> ([], Waiting :: 'a bridge_exec))"
  obtain final x where yx: "y = (final, x)" by fastforce
  have ex: "ExecuteBridge unmarshal pf cd c w ctx xml opts runID idle =
      (phase_status PhaseCompiling # progress @ final, x)"
    using run yx by (simp add: ExecuteBridge_def y_def)
  have ok: "final_ok y"
    by (cases res) (simp_all add: y_def outcome_final_ok error_final_ok final_ok_none)
  have quiet: "filter terminal_phase (map st_phase progress) = []" by (rule Client_Run_not_terminal [OF run])
  show ?thesis
  proof (cases x)
    case (Ran r code ws)
    then obtain t where t: "final = [t]" "terminal_phase (st_phase t)"
      "code \<in> {0, 2, 3, 4, 6, 8, 9, 10}" "rr_tests r \<noteq> None"
      using ok yx by (auto simp: final_ok_def length_Suc_conv)
    have "code = 0 \<Longrightarrow> \<exists>out data z. res = Finished out \<and> ou_outcome out = OutcomeCompleted \<and>
        ou_results_xml_written out \<and> xml = Some data \<and> unmarshal data = Inr z \<and> passes opts z"
    proof -
      assume z: "code = 0"
      show ?thesis
      proof (cases res)
        case (Finished out)
        then have "outcome_result unmarshal pf opts xml out = (final, Ran r 0 ws)"
          using yx Ran z by (simp add: y_def)
        then show ?thesis using outcome_zero Finished by blast
      next
        case (Failed e)
        then have "error_result ctx opts runID e = (final, Ran r 0 ws)"
          using yx Ran z by (simp add: y_def)
        then show ?thesis
          by (cases e) (auto simp: error_result_def indeterminateBridgeResult_def handleContextErr_def
              Let_def split: if_splits run_err.splits)
      next
        case Still_polling
        then show ?thesis using yx Ran by (simp add: y_def)
      qed
    qed
    then show ?thesis using ex Ran t quiet run by simp
  next
    case Fell_back
    then show ?thesis using ok yx ex quiet by (simp add: final_ok_def)
  next
    case Waiting
    then show ?thesis using ok yx ex quiet by (simp add: final_ok_def)
  qed
qed

end
