(* ===== verification/Machine.thy ===== *)
theory Machine
  imports Prelude
begin

text \<open>
  Machines that are driven by a list of events: the copy pool, the scenario orchestrator and the VHDX
  broker. An event may be impossible in a state. A machine has an invariant that every step keeps; some
  have a measure that every step lowers. The laws of a step give the laws of a run.
\<close>

locale machine =
  fixes step :: "'e \<Rightarrow> 's \<Rightarrow> 's option"
    and steps :: "'e list \<Rightarrow> 's \<Rightarrow> 's option"
    and inv :: "'s \<Rightarrow> bool"
  assumes steps_Nil: "steps [] s = Some s"
    and steps_Cons: "steps (e # es) s = (case step e s of None \<Rightarrow> None | Some t \<Rightarrow> steps es t)"
    and step_inv: "inv s \<Longrightarrow> step e s = Some t \<Longrightarrow> inv t"
begin

lemma steps_inv: "inv s \<Longrightarrow> steps es s = Some t \<Longrightarrow> inv t"
proof (induction es arbitrary: s)
  case Nil
  then show ?case by (simp add: steps_Nil)
next
  case (Cons e es)
  then show ?case using step_inv [of s e] by (auto simp: steps_Cons split: option.split_asm)
qed

lemma steps_append: "steps (es @ fs) s = (case steps es s of None \<Rightarrow> None | Some t \<Rightarrow> steps fs t)"
  by (induction es arbitrary: s) (auto simp: steps_Nil steps_Cons split: option.splits)

text \<open>Every state on the way satisfies the invariant, not only the last.\<close>

lemma prefix_inv:
  assumes "inv s" "steps (es @ fs) s = Some t"
  shows "\<exists>u. steps es s = Some u \<and> inv u \<and> steps fs u = Some t"
  using assms steps_inv by (auto simp: steps_append split: option.split_asm)

text \<open>What every step by an event of a kind keeps, under the invariant, a run of such events keeps.\<close>

lemma steps_keep:
  assumes "\<And>s e t. inv s \<Longrightarrow> Q e \<Longrightarrow> step e s = Some t \<Longrightarrow> P s \<Longrightarrow> P t"
    "inv s" "steps es s = Some t" "\<forall>e \<in> set es. Q e" "P s"
  shows "P t"
  using assms(2-5)
proof (induction es arbitrary: s)
  case Nil
  then show ?case by (simp add: steps_Nil)
next
  case (Cons e es)
  then obtain u where u: "step e s = Some u" "steps es u = Some t" by (auto simp: steps_Cons split: option.splits)
  have "P u" using assms(1) [OF Cons.prems(1) _ u(1)] Cons.prems(3,4) by simp
  then show ?case using Cons.IH [OF step_inv [OF Cons.prems(1) u(1)] u(2)] Cons.prems(3) by simp
qed

end

locale terminating_machine = machine +
  fixes left :: "'b \<Rightarrow> nat"
  assumes step_left: "inv s \<Longrightarrow> step e s = Some t \<Longrightarrow> left t < left s"
begin

lemma steps_left: "inv s \<Longrightarrow> steps es s = Some t \<Longrightarrow> length es + left t \<le> left s"
proof (induction es arbitrary: s)
  case Nil
  then show ?case by (simp add: steps_Nil)
next
  case (Cons e es)
  from Cons.prems(2) obtain u where u: "step e s = Some u" "steps es u = Some t"
    by (auto simp: steps_Cons split: option.splits)
  show ?case
    using Cons.IH [OF step_inv [OF Cons.prems(1) u(1)] u(2)] step_left [OF Cons.prems(1) u(1)] by simp
qed

end

end
