(* ===== verification/ScenarioRunner.thy ===== *)
theory ScenarioRunner
  imports Scenario Ipc Machine
begin

text \<open>
  The orchestrator, \<^verbatim>\<open>internal/scenario/runner.go\<close>: one goroutine per instance,
  which waits for its dependency, runs, and closes its done channel. The interleaving is explicit:
  a state holds what every goroutine is doing and which ready channels are closed; an event is one
  step of one goroutine, of an instance's run, or of the context. What a run returns and the bus
  messages an instance has collected are data of the events.
\<close>

section \<open>Results\<close>

text \<open>
  \<^verbatim>\<open>InstanceResult\<close> with the exit code of its response; \<open>ir_err\<close> is the
  infrastructure error.
\<close>

record 'p instance_result =
  ir_role :: string
  ir_code :: int
  ir_err :: "string option"
  ir_ipc :: "'p read_event list"

definition exitCodeSeverity :: "int \<Rightarrow> int" where
  "exitCodeSeverity code =
     (if code = 0 then 0 else if code = 10 then 1
      else if 1 \<le> code \<and> code \<le> 9 then 10 + code else 100)"

text \<open>The code an instance counts with: an infrastructure error without a code is exit 1.\<close>

definition effective_code :: "'p instance_result \<Rightarrow> int" where
  "effective_code r = (if ir_err r \<noteq> None \<and> ir_code r = 0 then 1 else ir_code r)"

fun aggregate_from :: "int \<times> int \<Rightarrow> 'p instance_result list \<Rightarrow> int \<times> int" where
  "aggregate_from (selected, severity) [] = (selected, severity)"
| "aggregate_from (selected, severity) (r # rs) =
     (let code = effective_code r; s = exitCodeSeverity code
      in if severity < s then aggregate_from (code, s) rs else aggregate_from (selected, severity) rs)"

definition aggregateExitCode :: "'p instance_result list \<Rightarrow> int" where
  "aggregateExitCode rs = fst (aggregate_from (0, exitCodeSeverity 0) rs)"

definition exitCodeLabel :: "int \<Rightarrow> string" where
  "exitCodeLabel code =
     (if code = 0 then ''all passed'' else if code = 1 then ''dependency error''
      else if code = 2 then ''compile error'' else if code = 3 then ''test failure''
      else if code = 4 then ''timeout'' else if code = 5 then ''config error''
      else if code = 6 then ''build error'' else if code = 7 then ''permission error''
      else if code = 8 then ''interrupted'' else if code = 9 then ''runner system error''
      else if code = 10 then ''no tests matched'' else ''unknown'')"

definition lastReceivedFrom :: "'p read_event list \<Rightarrow> string \<Rightarrow> 'p message option" where
  "lastReceivedFrom events role =
     map_option re_msg (find (\<lambda>ev. re_direction ev = Recv \<and> m_from (re_msg ev) = role) (rev events))"

text \<open>Orchestrator errors, with the last message received from the dependency.\<close>

datatype orchestrator_error =
    Dependency_infra string string phase "(int \<times> string) option"
  | Dependency_exited string string int string phase "(int \<times> string) option"
  | Wait_timed_out string string phase int "(int \<times> string) option"

definition last_received :: "'p read_event list \<Rightarrow> string \<Rightarrow> (int \<times> string) option" where
  "last_received events role =
     map_option (\<lambda>m. (m_seq m, m_kind m)) (lastReceivedFrom events role)"

section \<open>The orchestrator as a transition system\<close>

text \<open>
  A goroutine waits (before its select), executes its run, has finished it, or has abandoned it
  without ever running.
\<close>

datatype 'p goroutine =
    Waiting | Executing | Finished "'p instance_result" | Abandoned "'p instance_result"

record 'p run_state =
  gs_state :: "'p goroutine list"
  gs_ready :: "bool list"
  gs_ctx_done :: bool
  gs_errors :: "orchestrator_error list"

definition initial :: "scenario_file \<Rightarrow> 'p run_state" where
  "initial spec = \<lparr>gs_state = replicate (length (sf_instances spec)) Waiting,
     gs_ready = replicate (length (sf_instances spec)) False, gs_ctx_done = False, gs_errors = []\<rparr>"

text \<open>\<^verbatim>\<open>roleIndex\<close>: the index of the instance with a role.\<close>

definition role_index :: "scenario_file \<Rightarrow> string \<Rightarrow> nat option" where
  "role_index spec r =
     find (\<lambda>j. is_role (sf_instances spec ! j) = r) [0..<length (sf_instances spec)]"

text \<open>
  Events: a goroutine without dependency, or whose dependency is ready, starts its run; a running
  instance signals ready; a run returns; a dependency has ended without signalling; the wait times
  out; the context ends; a waiting goroutine notices it.
\<close>

datatype 'p run_event =
    Start nat
  | Signal nat
  | Return nat int "string option" "'p read_event list"
  | Fail_fast nat "'p read_event list"
  | Time_out nat "'p read_event list"
  | Context_done
  | Cancel_wait nat string "'p read_event list"

definition is_over :: "'p goroutine \<Rightarrow> bool" where
  "is_over g = (case g of Finished _ \<Rightarrow> True | Abandoned _ \<Rightarrow> True | _ \<Rightarrow> False)"

definition result_of :: "'p goroutine \<Rightarrow> 'p instance_result option" where
  "result_of g = (case g of Finished r \<Rightarrow> Some r | Abandoned r \<Rightarrow> Some r | _ \<Rightarrow> None)"

definition dep_index :: "scenario_file \<Rightarrow> nat \<Rightarrow> nat option" where
  "dep_index spec i = role_index spec (is_depends_on (sf_instances spec ! i))"

definition fail_fast_error :: "scenario_file \<Rightarrow> instance_spec \<Rightarrow> 'p instance_result \<Rightarrow> 'p read_event list \<Rightarrow> orchestrator_error" where
  "fail_fast_error spec inst dep events =
     (let seen = last_received events (is_depends_on inst) in
      if ir_err dep \<noteq> None
      then Dependency_infra (is_role inst) (is_depends_on inst) (DependencyPhase spec inst) seen
      else Dependency_exited (is_role inst) (is_depends_on inst) (ir_code dep)
        (exitCodeLabel (ir_code dep)) (DependencyPhase spec inst) seen)"

definition waiting_at :: "scenario_file \<Rightarrow> 'p run_state \<Rightarrow> nat \<Rightarrow> bool" where
  "waiting_at spec s i \<longleftrightarrow> i < length (sf_instances spec) \<and> gs_state s ! i = Waiting"

definition waits_for_dep :: "scenario_file \<Rightarrow> 'p run_state \<Rightarrow> nat \<Rightarrow> bool" where
  "waits_for_dep spec s i \<longleftrightarrow> waiting_at spec s i \<and> is_depends_on (sf_instances spec ! i) \<noteq> []"

text \<open>One event; \<open>None\<close> when it cannot happen in the state.\<close>

definition perform :: "scenario_file \<Rightarrow> 'p run_event \<Rightarrow> 'p run_state \<Rightarrow> 'p run_state option" where
  "perform spec e s =
     (case e of
        Start i \<Rightarrow>
          (if waiting_at spec s i \<and>
              (is_depends_on (sf_instances spec ! i) = [] \<or>
               (case dep_index spec i of None \<Rightarrow> False | Some j \<Rightarrow> gs_ready s ! j))
           then Some (s\<lparr>gs_state := (gs_state s)[i := Executing]\<rparr>) else None)
      | Signal i \<Rightarrow>
          (if i < length (sf_instances spec) \<and> gs_state s ! i = Executing \<and> \<not> gs_ready s ! i
           then Some (s\<lparr>gs_ready := (gs_ready s)[i := True]\<rparr>) else None)
      | Return i code err events \<Rightarrow>
          (if i < length (sf_instances spec) \<and> gs_state s ! i = Executing
           then Some (s\<lparr>gs_state := (gs_state s)[i := Finished
             \<lparr>ir_role = is_role (sf_instances spec ! i), ir_code = code, ir_err = err, ir_ipc = events\<rparr>]\<rparr>)
           else None)
      | Fail_fast i events \<Rightarrow>
          (if \<not> waits_for_dep spec s i then None
           else case dep_index spec i of None \<Rightarrow> None
             | Some j \<Rightarrow>
                 (case result_of (gs_state s ! j) of None \<Rightarrow> None
                  | Some dep \<Rightarrow>
                      if gs_ready s ! j then None
                      else Some (s\<lparr>gs_state := (gs_state s)[i := Abandoned
                          \<lparr>ir_role = is_role (sf_instances spec ! i), ir_code = 4, ir_err = None,
                           ir_ipc = events\<rparr>],
                        gs_errors := gs_errors s @
                          [fail_fast_error spec (sf_instances spec ! i) dep events]\<rparr>)))
      | Time_out i events \<Rightarrow>
          (if waits_for_dep spec s i
           then (let inst = sf_instances spec ! i in
             Some (s\<lparr>gs_state := (gs_state s)[i := Abandoned
               \<lparr>ir_role = is_role inst, ir_code = 4, ir_err = None, ir_ipc = events\<rparr>],
               gs_errors := gs_errors s @ [Wait_timed_out (is_role inst) (is_depends_on inst)
                 (DependencyPhase spec inst) (EffectiveReadyTimeoutMs inst)
                 (last_received events (is_depends_on inst))]\<rparr>))
           else None)
      | Context_done \<Rightarrow> (if gs_ctx_done s then None else Some (s\<lparr>gs_ctx_done := True\<rparr>))
      | Cancel_wait i text events \<Rightarrow>
          (if waits_for_dep spec s i \<and> gs_ctx_done s
           then Some (s\<lparr>gs_state := (gs_state s)[i := Abandoned
             \<lparr>ir_role = is_role (sf_instances spec ! i), ir_code = 0, ir_err = Some text,
              ir_ipc = events\<rparr>]\<rparr>)
           else None))"

inductive reachable :: "scenario_file \<Rightarrow> 'p run_state \<Rightarrow> bool" for spec where
  start: "reachable spec (initial spec)"
| step: "reachable spec s \<Longrightarrow> perform spec e s = Some s' \<Longrightarrow> reachable spec s'"

text \<open>A whole run, when every goroutine is over: the results in order and the scenario's exit code.\<close>

definition all_over :: "scenario_file \<Rightarrow> 'p run_state \<Rightarrow> bool" where
  "all_over spec s \<longleftrightarrow> list_all is_over (gs_state s)"

definition scenario_results :: "'p run_state \<Rightarrow> 'p instance_result list" where
  "scenario_results s = List.map_filter result_of (gs_state s)"

fun perform_all :: "scenario_file \<Rightarrow> 'p run_event list \<Rightarrow> 'p run_state \<Rightarrow> 'p run_state option" where
  "perform_all spec [] s = Some s"
| "perform_all spec (e # es) s =
     (case perform spec e s of None \<Rightarrow> None | Some s' \<Rightarrow> perform_all spec es s')"

definition RunScenario ::
    "scenario_file \<Rightarrow> 'p run_event list \<Rightarrow> (int \<times> 'p instance_result list \<times> orchestrator_error list) option" where
  "RunScenario spec es =
     (case perform_all spec es (initial spec) of None \<Rightarrow> None
      | Some s \<Rightarrow>
          if all_over spec s
          then Some (aggregateExitCode (scenario_results s), scenario_results s, gs_errors s)
          else None)"

section \<open>Invariants\<close>

definition has_run :: "'p goroutine \<Rightarrow> bool" where
  "has_run g = (case g of Executing \<Rightarrow> True | Finished _ \<Rightarrow> True | _ \<Rightarrow> False)"

lemma goroutine_simps [simp]:
  "has_run Executing" "has_run (Finished r)" "\<not> has_run Waiting" "\<not> has_run (Abandoned r)"
  "is_over (Finished r)" "is_over (Abandoned r)" "\<not> is_over Waiting" "\<not> is_over Executing"
  "result_of (Finished r) = Some r" "result_of (Abandoned r) = Some r"
  "result_of Waiting = None" "result_of Executing = None"
  by (simp_all add: has_run_def is_over_def result_of_def)

lemma result_of_over: "result_of g = Some r \<Longrightarrow> g = Finished r \<or> g = Abandoned r"
  by (cases g) simp_all

lemma over_result: "is_over g \<Longrightarrow> \<exists>r. result_of g = Some r"
  by (cases g) simp_all

lemma find_Some_mem: "find P xs = Some x \<Longrightarrow> x \<in> set xs \<and> P x"
  by (induction xs) (auto split: if_splits)

lemma dep_index_bound: "dep_index spec i = Some j \<Longrightarrow> j < length (sf_instances spec)"
  by (auto simp: dep_index_def role_index_def dest: find_Some_mem)

text \<open>
  What holds in every reachable state: a goroutine that has not run has not signalled, one that runs
  or ran had a ready dependency, and one that gave up counts as a failure.
\<close>

definition sound :: "scenario_file \<Rightarrow> 'p run_state \<Rightarrow> bool" where
  "sound spec s \<longleftrightarrow>
     length (gs_state s) = length (sf_instances spec) \<and>
     length (gs_ready s) = length (sf_instances spec) \<and>
     (\<forall>i < length (sf_instances spec).
        (gs_ready s ! i \<longrightarrow> has_run (gs_state s ! i)) \<and>
        (has_run (gs_state s ! i) \<and> is_depends_on (sf_instances spec ! i) \<noteq> [] \<longrightarrow>
           (\<exists>j. dep_index spec i = Some j \<and> gs_ready s ! j)) \<and>
        (\<forall>r. gs_state s ! i = Abandoned r \<longrightarrow> effective_code r \<noteq> 0))"

lemma sound_initial: "sound spec (initial spec)"
  by (simp add: sound_def initial_def)

lemma soundI:
  assumes "sound spec s" "i < length (sf_instances spec)" "\<not> gs_ready s ! i \<or> has_run g"
    "has_run g \<Longrightarrow> is_depends_on (sf_instances spec ! i) \<noteq> [] \<Longrightarrow>
       \<exists>j. dep_index spec i = Some j \<and> gs_ready s ! j"
    "\<And>r. g = Abandoned r \<Longrightarrow> effective_code r \<noteq> 0"
  shows "sound spec (s\<lparr>gs_state := (gs_state s)[i := g], gs_errors := errs\<rparr>)"
  using assms unfolding sound_def by (auto simp: nth_list_update)

lemma soundI':
  assumes "sound spec s" "i < length (sf_instances spec)" "\<not> gs_ready s ! i \<or> has_run g"
    "has_run g \<Longrightarrow> is_depends_on (sf_instances spec ! i) \<noteq> [] \<Longrightarrow>
       \<exists>j. dep_index spec i = Some j \<and> gs_ready s ! j"
    "\<And>r. g = Abandoned r \<Longrightarrow> effective_code r \<noteq> 0"
  shows "sound spec (s\<lparr>gs_state := (gs_state s)[i := g]\<rparr>)"
  using soundI [OF assms, of "gs_errors s"] by simp

lemma sound_ready:
  "sound spec s \<Longrightarrow> i < length (sf_instances spec) \<Longrightarrow> gs_ready s ! i \<Longrightarrow> has_run (gs_state s ! i)"
  by (simp add: sound_def)

lemma sound_dep:
  "sound spec s \<Longrightarrow> i < length (sf_instances spec) \<Longrightarrow> has_run (gs_state s ! i) \<Longrightarrow>
     is_depends_on (sf_instances spec ! i) \<noteq> [] \<Longrightarrow> \<exists>j. dep_index spec i = Some j \<and> gs_ready s ! j"
  by (simp add: sound_def)

lemma sound_waiting: "sound spec s \<Longrightarrow> waiting_at spec s i \<Longrightarrow> \<not> gs_ready s ! i"
  unfolding waiting_at_def using sound_ready by force

lemma sound_perform:
  assumes "sound spec s" "perform spec e s = Some s'"
  shows "sound spec s'"
proof (cases e)
  case (Start i)
  then have w: "waiting_at spec s i" and d: "is_depends_on (sf_instances spec ! i) = [] \<or>
      (\<exists>j. dep_index spec i = Some j \<and> gs_ready s ! j)"
    and s': "s' = s\<lparr>gs_state := (gs_state s)[i := Executing]\<rparr>"
    using assms(2) by (auto simp: perform_def split: if_splits option.splits)
  have "i < length (sf_instances spec)" using w by (simp add: waiting_at_def)
  then show ?thesis unfolding s' using d by (intro soundI' [OF assms(1)]) auto
next
  case (Signal i)
  then show ?thesis using assms
    by (auto simp: perform_def sound_def nth_list_update split: if_splits)
next
  case (Return i code err events)
  then have i: "i < length (sf_instances spec)" "gs_state s ! i = Executing"
    and s': "s' = s\<lparr>gs_state := (gs_state s)[i := Finished \<lparr>ir_role = is_role (sf_instances spec ! i),
      ir_code = code, ir_err = err, ir_ipc = events\<rparr>]\<rparr>"
    using assms(2) by (auto simp: perform_def split: if_splits)
  show ?thesis unfolding s'
    by (rule soundI' [OF assms(1) i(1)]) (use i sound_dep [OF assms(1) i(1)] in auto)
next
  case (Fail_fast i events)
  then have w: "waiting_at spec s i"
    and s': "\<exists>errs. s' = s\<lparr>gs_state := (gs_state s)[i := Abandoned \<lparr>ir_role = is_role (sf_instances spec ! i),
      ir_code = 4, ir_err = None, ir_ipc = events\<rparr>], gs_errors := errs\<rparr>"
    using assms(2) by (auto simp: perform_def waits_for_dep_def split: if_splits option.splits)
  have i: "i < length (sf_instances spec)" using w by (simp add: waiting_at_def)
  obtain errs where "s' = s\<lparr>gs_state := (gs_state s)[i := Abandoned \<lparr>ir_role = is_role (sf_instances spec ! i),
      ir_code = 4, ir_err = None, ir_ipc = events\<rparr>], gs_errors := errs\<rparr>" using s' by blast
  then show ?thesis using sound_waiting [OF assms(1) w] i
    by (simp only:) (rule soundI [OF assms(1) i], auto simp: effective_code_def)
next
  case (Time_out i events)
  then have w: "waiting_at spec s i"
    and s': "\<exists>errs. s' = s\<lparr>gs_state := (gs_state s)[i := Abandoned \<lparr>ir_role = is_role (sf_instances spec ! i),
      ir_code = 4, ir_err = None, ir_ipc = events\<rparr>], gs_errors := errs\<rparr>"
    using assms(2) by (auto simp: perform_def waits_for_dep_def Let_def split: if_splits)
  have i: "i < length (sf_instances spec)" using w by (simp add: waiting_at_def)
  obtain errs where "s' = s\<lparr>gs_state := (gs_state s)[i := Abandoned \<lparr>ir_role = is_role (sf_instances spec ! i),
      ir_code = 4, ir_err = None, ir_ipc = events\<rparr>], gs_errors := errs\<rparr>" using s' by blast
  then show ?thesis using sound_waiting [OF assms(1) w] i
    by (simp only:) (rule soundI [OF assms(1) i], auto simp: effective_code_def)
next
  case Context_done
  then show ?thesis using assms by (auto simp: perform_def sound_def split: if_splits)
next
  case (Cancel_wait i why events)
  then have w: "waiting_at spec s i"
    and s': "s' = s\<lparr>gs_state := (gs_state s)[i := Abandoned \<lparr>ir_role = is_role (sf_instances spec ! i),
      ir_code = 0, ir_err = Some why, ir_ipc = events\<rparr>]\<rparr>"
    using assms(2) by (auto simp: perform_def waits_for_dep_def split: if_splits)
  have i: "i < length (sf_instances spec)" using w by (simp add: waiting_at_def)
  show ?thesis unfolding s' using sound_waiting [OF assms(1) w]
    by (intro soundI' [OF assms(1) i]) (auto simp: effective_code_def)
qed

interpretation orchestrator: machine "perform spec" "perform_all spec" "sound spec" for spec
  by unfold_locales (simp_all add: sound_perform)

lemma reachable_sound: "reachable spec s \<Longrightarrow> sound spec s"
  by (induction rule: reachable.induct) (auto intro: sound_initial sound_perform)

text \<open>Direct dependency between instance positions.\<close>

definition dep_rel :: "scenario_file \<Rightarrow> (nat \<times> nat) set" where
  "dep_rel spec = {(i, j). i < length (sf_instances spec) \<and>
     is_depends_on (sf_instances spec ! i) \<noteq> [] \<and> dep_index spec i = Some j}"

text \<open>
  C5. An instance only ever runs after everything it depends on: in every state the orchestrator can
  reach, however goroutines, runs, timeouts and cancellation interleave, if an instance is running
  or has run, then every instance it depends on, directly or through others, has been run and has
  signalled its ready phase.
\<close>

theorem runs_after_dependencies:
  assumes "reachable spec s" "(i, j) \<in> (dep_rel spec)\<^sup>+" "has_run (gs_state s ! i)"
  shows "gs_ready s ! j \<and> has_run (gs_state s ! j)"
proof -
  note sd = reachable_sound [OF assms(1)]
  have one: "gs_ready s ! b \<and> has_run (gs_state s ! b)"
    if "(a, b) \<in> dep_rel spec" "has_run (gs_state s ! a)" for a b
  proof -
    have a: "a < length (sf_instances spec)" "is_depends_on (sf_instances spec ! a) \<noteq> []"
      "dep_index spec a = Some b" using that(1) by (auto simp: dep_rel_def)
    then have "gs_ready s ! b" using sound_dep [OF sd a(1) that(2) a(2)] by auto
    then show ?thesis using sound_ready [OF sd] dep_index_bound [OF a(3)] by blast
  qed
  show ?thesis using assms(2)
    by (induction rule: trancl_induct) (use one assms(3) in blast)+
qed


inductive_cases reachable_stepE: "reachable spec s"

text \<open>A host and a client that depends on it, the host with an explicit name and no ready phase.\<close>

definition pair_scenario :: scenario_file where
  "pair_scenario = sample_scenario\<lparr>sf_dir := ''/s''\<rparr>"

lemma reachable_perform_all:
  "reachable spec s \<Longrightarrow> perform_all spec es s = Some s' \<Longrightarrow> reachable spec s'"
  by (induction es arbitrary: s) (auto intro: reachable.step split: option.splits)

lemma pair_dep_index: "dep_index pair_scenario 1 = Some 0" "(Suc 0, 0) \<in> dep_rel pair_scenario"
  by (simp_all add: dep_index_def role_index_def dep_rel_def pair_scenario_def sample_scenario_def
      sample_client_def sample_host_def upt_rec)

lemma pair_started:
  "perform_all pair_scenario [Start 0, Signal 0, Start 1] (initial pair_scenario) =
     Some (\<lparr>gs_state = [Executing, Executing], gs_ready = [True, False], gs_ctx_done = False,
       gs_errors = []\<rparr> :: string run_state)"
  by (simp add: perform_def initial_def waiting_at_def pair_dep_index [simplified]
      pair_scenario_def sample_scenario_def sample_client_def sample_host_def
      del: One_nat_def) (simp add: pair_dep_index [unfolded pair_scenario_def sample_scenario_def sample_client_def sample_host_def, simplified])

theorem runs_after_dependencies_witness:
  "\<exists>s :: string run_state. reachable pair_scenario s \<and> has_run (gs_state s ! 1) \<and> gs_ready s ! 0"
proof -
  let ?s = "\<lparr>gs_state = [Executing, Executing], gs_ready = [True, False], gs_ctx_done = False,
    gs_errors = []\<rparr> :: string run_state"
  have r: "reachable pair_scenario ?s"
    by (rule reachable_perform_all [OF reachable.start pair_started])
  then show ?thesis
    using runs_after_dependencies [OF r r_into_trancl [OF pair_dep_index(2)]] by (intro exI [of _ ?s]) simp
qed


section \<open>Every scenario ends\<close>

lemma dep_index_role:
  "dep_index spec i = Some j \<Longrightarrow>
     j < length (sf_instances spec) \<and> is_role (sf_instances spec ! j) = is_depends_on (sf_instances spec ! i)"
  by (auto simp: dep_index_def role_index_def dest: find_Some_mem)

lemma dep_rel_depends:
  "(i, j) \<in> dep_rel spec \<Longrightarrow>
     (is_role (sf_instances spec ! i), is_role (sf_instances spec ! j)) \<in> depends (sf_instances spec)"
  by (auto simp: dep_rel_def depends_def dest!: dep_index_role)

lemma finite_depends: "finite (depends is)"
proof (rule finite_subset)
  show "depends is \<subseteq> (\<lambda>i. (is_role i, is_depends_on i)) ` set is" by (auto simp: depends_def)
qed simp

lemma loaded_wf:
  assumes "Load_scenario path r = Inr spec"
  shows "wf ((dep_rel spec)\<inverse>)"
proof -
  have "wf ((depends (sf_instances spec))\<inverse>)"
    using Load_acyclic [OF assms] finite_depends by (simp add: finite_acyclic_wf_converse)
  then have "wf (inv_image ((depends (sf_instances spec))\<inverse>) (\<lambda>i. is_role (sf_instances spec ! i)))"
    by (rule wf_inv_image)
  then show ?thesis by (rule wf_subset) (auto simp: inv_image_def dest: dep_rel_depends)
qed

lemma loaded_dep_index:
  assumes "Load_scenario path r = Inr spec" "i < length (sf_instances spec)"
    "is_depends_on (sf_instances spec ! i) \<noteq> []"
  shows "\<exists>j. dep_index spec i = Some j"
proof -
  let ?d = "is_depends_on (sf_instances spec ! i)"
  have "(is_role (sf_instances spec ! i), ?d) \<in> depends (sf_instances spec)"
    using assms(2,3) by (auto simp: depends_def)
  then have "?d \<in> set (role_list (sf_instances spec))" using Load_acyclic [OF assms(1)] by blast
  then have "\<exists>j < length (sf_instances spec). is_role (sf_instances spec ! j) = ?d"
    by (auto simp: role_list_def in_set_conv_nth)
  then have "role_index spec ?d \<noteq> None" by (auto simp: role_index_def find_None_iff)
  then show ?thesis by (simp add: dep_index_def)
qed

text \<open>The steps that need no timeout and no cancellation.\<close>

definition prompt :: "'p run_event \<Rightarrow> bool" where
  "prompt e = (case e of Start _ \<Rightarrow> True | Return _ _ _ _ \<Rightarrow> True | Fail_fast _ _ \<Rightarrow> True | _ \<Rightarrow> False)"

lemma not_over_cases: "\<not> is_over g \<Longrightarrow> g = Waiting \<or> g = Executing"
  by (cases g) simp_all

lemma some_prompt_event:
  assumes "Load_scenario path r = Inr spec" "sound spec s" "i < length (sf_instances spec)"
    "\<not> is_over (gs_state s ! i)"
  shows "\<exists>e. prompt e \<and> perform spec e s \<noteq> None"
  using assms(3,4)
proof (induction i rule: wf_induct_rule [OF loaded_wf [OF assms(1)]])
  case (1 i)
  show ?case
  proof (cases "gs_state s ! i = Executing")
    case True
    then have "perform spec (Return i 0 None []) s \<noteq> None" using 1 by (simp add: perform_def)
    then show ?thesis by (intro exI [of _ "Return i 0 None []"]) (simp add: prompt_def)
  next
    case False
    then have w: "waiting_at spec s i" using 1 not_over_cases by (auto simp: waiting_at_def)
    show ?thesis
    proof (cases "is_depends_on (sf_instances spec ! i) = []")
      case True
      then have "perform spec (Start i) s \<noteq> None" using w by (simp add: perform_def)
      then show ?thesis by (intro exI [of _ "Start i"]) (simp add: prompt_def)
    next
      case dep: False
      then obtain j where j: "dep_index spec i = Some j" using loaded_dep_index [OF assms(1)] 1 by blast
      have jl: "j < length (sf_instances spec)" using dep_index_role [OF j] by simp
      consider "gs_ready s ! j" | "\<not> gs_ready s ! j" "is_over (gs_state s ! j)" | "\<not> is_over (gs_state s ! j)"
        by blast
      then show ?thesis
      proof cases
        case 1
        then have "perform spec (Start i) s \<noteq> None" using w j by (simp add: perform_def)
        then show ?thesis by (intro exI [of _ "Start i"]) (simp add: prompt_def)
      next
        case 2
        then obtain dr where "result_of (gs_state s ! j) = Some dr" using over_result by blast
        then have "perform spec (Fail_fast i []) s \<noteq> None"
          using w j dep 2 by (simp add: perform_def waits_for_dep_def)
        then show ?thesis by (intro exI [of _ "Fail_fast i []"]) (simp add: prompt_def)
      next
        case 3
        have "(j, i) \<in> (dep_rel spec)\<inverse>" using "1.prems" dep j by (simp add: dep_rel_def)
        then show ?thesis using "1.IH" jl 3 by blast
      qed
    qed
  qed
qed

text \<open>Every event uses up a bounded resource.\<close>

definition steps_left_of :: "'p goroutine \<Rightarrow> nat" where
  "steps_left_of g = (case g of Waiting \<Rightarrow> 2 | Executing \<Rightarrow> 1 | _ \<Rightarrow> 0)"

definition steps_left :: "'p run_state \<Rightarrow> nat" where
  "steps_left s = sum_list (map steps_left_of (gs_state s)) +
     sum_list (map (\<lambda>b. if b then 0 else 1) (gs_ready s)) + (if gs_ctx_done s then 0 else 1)"

lemma steps_left_of_simps [simp]:
  "steps_left_of Waiting = 2" "steps_left_of Executing = 1" "steps_left_of (Finished r) = 0"
  "steps_left_of (Abandoned r) = 0"
  by (simp_all add: steps_left_of_def)

lemma sum_list_update_less:
  "i < length xs \<Longrightarrow> f g < f (xs ! i) \<Longrightarrow> sum_list (map f (xs[i := g])) < (sum_list (map f xs) :: nat)"
  by (induction xs arbitrary: i) (auto split: nat.split)

lemma steps_left_state:
  "i < length (gs_state s) \<Longrightarrow> steps_left_of g < steps_left_of (gs_state s ! i) \<Longrightarrow>
     steps_left (s\<lparr>gs_state := (gs_state s)[i := g]\<rparr>) < steps_left s"
  "i < length (gs_state s) \<Longrightarrow> steps_left_of g < steps_left_of (gs_state s ! i) \<Longrightarrow>
     steps_left (s\<lparr>gs_state := (gs_state s)[i := g], gs_errors := errs\<rparr>) < steps_left s"
  by (simp_all add: steps_left_def sum_list_update_less)

lemma perform_decreases:
  assumes "sound spec s" "perform spec e s = Some s'"
  shows "steps_left s' < steps_left s"
proof -
  have l: "length (gs_state s) = length (sf_instances spec)"
    "length (gs_ready s) = length (sf_instances spec)" using assms(1) by (simp_all add: sound_def)
  show ?thesis
  proof (cases e)
    case (Signal i)
    then have "i < length (gs_ready s)" "\<not> gs_ready s ! i" "s' = s\<lparr>gs_ready := (gs_ready s)[i := True]\<rparr>"
      using assms(2) l by (auto simp: perform_def split: if_splits)
    then show ?thesis
      using sum_list_update_less [of i "gs_ready s" "\<lambda>b. if b then 0 else 1" True] by (simp add: steps_left_def)
  next
    case Context_done
    then show ?thesis using assms(2) by (auto simp: perform_def steps_left_def split: if_splits)
  qed (use assms(2) l in \<open>auto simp: perform_def waits_for_dep_def waiting_at_def Let_def
        split: if_splits option.splits intro!: steps_left_state\<close>)
qed

interpretation orchestrator_run:
  terminating_machine "perform spec" "perform_all spec" "sound spec" steps_left for spec
  by unfold_locales (rule perform_decreases)

lemma steps_left_initial: "steps_left (initial spec) = 3 * length (sf_instances spec) + 1"
  by (simp add: steps_left_def initial_def sum_list_replicate)

lemma not_all_over:
  "sound spec s \<Longrightarrow> \<not> all_over spec s \<Longrightarrow> \<exists>i < length (sf_instances spec). \<not> is_over (gs_state s ! i)"
  by (auto simp: all_over_def list_all_length sound_def)

text \<open>
  C6. A scenario that loads always comes to an end, whatever the interleaving: no run of the
  orchestrator has more than three events per instance and one for the context, and as long as some
  goroutine is not over there is an event that needs no timeout and no cancellation, namely a
  start, the return of a run or a fast failure. Waiting on dependencies never deadlocks.
\<close>

theorem scenario_never_deadlocks:
  assumes "Load_scenario path r = Inr spec" "perform_all spec es (initial spec) = Some s"
  shows "length es \<le> 3 * length (sf_instances spec) + 1 \<and>
    (if all_over spec s then True else \<exists>e. prompt e \<and> perform spec e s \<noteq> None)"
proof -
  have sd: "sound spec s"
    by (rule orchestrator.steps_inv [OF sound_initial assms(2)])
  have "length es \<le> 3 * length (sf_instances spec) + 1"
    using orchestrator_run.steps_left [OF sound_initial assms(2)] by (simp add: steps_left_initial)
  then show ?thesis using not_all_over [OF sd] some_prompt_event [OF assms(1) sd] by auto
qed

theorem scenario_never_deadlocks_witness:
  "\<exists>e :: string run_event. prompt e \<and>
     perform pair_scenario e \<lparr>gs_state = [Executing, Executing], gs_ready = [True, False],
       gs_ctx_done = False, gs_errors = []\<rparr> \<noteq> None"
  using scenario_never_deadlocks [OF sample_Load [folded pair_scenario_def] pair_started]
  by (simp add: all_over_def)

section \<open>The exit code of a scenario\<close>

lemma aggregate_from_severity:
  "sev = exitCodeSeverity sel \<Longrightarrow> aggregate_from (sel, sev) rs = (c, v) \<Longrightarrow>
     v = exitCodeSeverity c \<and> sev \<le> v \<and> (c = sel \<or> c \<in> effective_code ` set rs) \<and>
     (\<forall>r \<in> set rs. exitCodeSeverity (effective_code r) \<le> v)"
proof (induction rs arbitrary: sel sev)
  case (Cons r rs)
  let ?c = "effective_code r"
  show ?case
  proof (cases "sev < exitCodeSeverity ?c")
    case True
    then have "aggregate_from (?c, exitCodeSeverity ?c) rs = (c, v)" using Cons.prems by (simp add: Let_def)
    then show ?thesis using Cons.IH [OF refl] True by fastforce
  next
    case False
    then have "aggregate_from (sel, sev) rs = (c, v)" using Cons.prems by (simp add: Let_def)
    then show ?thesis using Cons.IH [OF Cons.prems(1)] False by fastforce
  qed
qed simp

lemma aggregate_severity:
  "(aggregateExitCode rs = 0 \<or> aggregateExitCode rs \<in> effective_code ` set rs) \<and>
   list_all (\<lambda>r. exitCodeSeverity (effective_code r) \<le> exitCodeSeverity (aggregateExitCode rs)) rs"
  using aggregate_from_severity [of "exitCodeSeverity 0" 0 rs] unfolding aggregateExitCode_def
  by (cases "aggregate_from (0, exitCodeSeverity 0) rs") (auto simp: list_all_iff)

lemma exitCodeSeverity_0: "exitCodeSeverity c \<le> 0 \<longleftrightarrow> c = 0"
  by (auto simp: exitCodeSeverity_def)

lemma aggregate_zero: "aggregateExitCode rs = 0 \<longleftrightarrow> list_all (\<lambda>r. effective_code r = 0) rs"
proof -
  have "exitCodeSeverity 0 = 0" by (simp add: exitCodeSeverity_def)
  then show ?thesis using aggregate_severity [of rs] by (auto simp: list_all_iff exitCodeSeverity_0)
qed

definition gave_up :: "'p goroutine list \<Rightarrow> bool" where
  "gave_up gs \<longleftrightarrow> (\<exists>r. Abandoned r \<in> set gs)"

lemma gave_up_keep: "gave_up gs \<Longrightarrow> gs ! i = Waiting \<or> gs ! i = Executing \<Longrightarrow> gave_up (gs[i := g])"
  unfolding gave_up_def
  by (metis goroutine.distinct(5) goroutine.distinct(9) in_set_conv_nth length_list_update nth_list_update_neq)

lemma gave_up_now: "i < length gs \<Longrightarrow> gave_up (gs[i := Abandoned r])"
  unfolding gave_up_def by (blast intro: set_update_memI)

definition failure_kept :: "'p run_state \<Rightarrow> bool" where
  "failure_kept s \<longleftrightarrow> gs_errors s = [] \<or> gave_up (gs_state s)"

lemma failure_kept_perform:
  assumes "failure_kept s" "sound spec s" "perform spec e s = Some s'"
  shows "failure_kept s'"
proof -
  have l: "length (gs_state s) = length (sf_instances spec)" using assms(2) by (simp add: sound_def)
  show ?thesis using assms(1,3) l
    by (cases e) (auto simp: failure_kept_def perform_def waits_for_dep_def waiting_at_def Let_def
        gave_up_now
        split: if_splits option.splits intro: gave_up_keep)
qed

lemma failure_kept_initial: "failure_kept (initial spec)"
  by (simp add: failure_kept_def initial_def)

lemma reachable_failure_kept: "reachable spec s \<Longrightarrow> failure_kept s"
  by (induction rule: reachable.induct)
    (auto intro: failure_kept_perform reachable_sound simp: failure_kept_initial)

lemma map_filter_over:
  "list_all is_over gs \<Longrightarrow> List.map_filter result_of gs = map (\<lambda>g. the (result_of g)) gs"
  by (induction gs) (auto simp: List.map_filter_def dest!: over_result)

text \<open>What \<^verbatim>\<open>RunScenario\<close> returns, in terms of the state it ends in.\<close>

lemma RunScenario_state:
  assumes "RunScenario spec es = Some (code, rs, errs)"
  obtains s where "perform_all spec es (initial spec) = Some s" "sound spec s" "failure_kept s"
    "all_over spec s" "code = aggregateExitCode rs" "rs = map (\<lambda>g. the (result_of g)) (gs_state s)"
    "errs = gs_errors s"
proof -
  obtain s where s1: "perform_all spec es (initial spec) = Some s"
    using assms by (cases "perform_all spec es (initial spec)") (simp_all add: RunScenario_def)
  then have s: "perform_all spec es (initial spec) = Some s" "all_over spec s"
    "code = aggregateExitCode (scenario_results s)" "rs = scenario_results s" "errs = gs_errors s"
    using assms by (auto simp: RunScenario_def split: if_splits)
  have "reachable spec s" by (rule reachable_perform_all [OF reachable.start s(1)])
  note r = this
  have rs: "rs = map (\<lambda>g. the (result_of g)) (gs_state s)"
    using s(2,4) by (simp add: scenario_results_def all_over_def map_filter_over)
  have code: "code = aggregateExitCode rs" using s(3,4) by (simp only:)
  show ?thesis
    by (rule that [OF s(1) reachable_sound [OF r] reachable_failure_kept [OF r] s(2) code rs s(5)])
qed

definition clean_finish :: "'p instance_result \<Rightarrow> bool" where
  "clean_finish r \<longleftrightarrow> ir_code r = 0 \<and> ir_err r = None"

lemma effective_code_0: "effective_code r = 0 \<longleftrightarrow> clean_finish r"
  by (auto simp: effective_code_def clean_finish_def)

text \<open>
  A scenario exits 0 only when everything passed: exit code 0 means exactly that every instance
  has a result with exit code 0 and no infrastructure error, and then no goroutine gave up waiting
  and there are no orchestrator errors. Otherwise the code is the most severe one of the instances:
  no instance counts with a more severe code, where 10 (nothing ran) ranks below every real error.
\<close>

theorem scenario_exit_code:
  assumes "RunScenario spec es = Some (code, rs, errs)"
  shows "length rs = length (sf_instances spec) \<and>
    (code = 0 \<longleftrightarrow> list_all clean_finish rs) \<and>
    (if code = 0 then errs = [] else code \<in> effective_code ` set rs) \<and>
    list_all (\<lambda>r. exitCodeSeverity (effective_code r) \<le> exitCodeSeverity code) rs"
proof -
  obtain s where s: "perform_all spec es (initial spec) = Some s" "sound spec s" "failure_kept s"
    "all_over spec s" "code = aggregateExitCode rs" "rs = map (\<lambda>g. the (result_of g)) (gs_state s)"
    "errs = gs_errors s" by (rule RunScenario_state [OF assms])
  have "length rs = length (sf_instances spec)" using s(2,6) by (simp add: sound_def)
  moreover have zero: "code = 0 \<longleftrightarrow> list_all clean_finish rs"
    using aggregate_zero [of rs] s(5) by (simp add: effective_code_0)
  moreover have "errs = []" if "code = 0"
  proof (rule ccontr)
    assume "errs \<noteq> []"
    then obtain r where r: "Abandoned r \<in> set (gs_state s)"
      using s(3,7) by (auto simp: failure_kept_def gave_up_def)
    then have "effective_code r \<noteq> 0" using s(2) by (auto simp: sound_def in_set_conv_nth)
    moreover have "r \<in> set rs" using r s(6) by force
    ultimately show False using zero that by (auto simp: list_all_iff effective_code_0)
  qed
  ultimately show ?thesis using aggregate_severity [of rs] s(5) by auto
qed

theorem scenario_exit_code_witness:
  "RunScenario pair_scenario [Start 0, Return 0 10 None [], Fail_fast 1 ([] :: string read_event list)] =
     Some (4, [\<lparr>ir_role = ''host'', ir_code = 10, ir_err = None, ir_ipc = []\<rparr>,
       \<lparr>ir_role = ''client'', ir_code = 4, ir_err = None, ir_ipc = []\<rparr>],
       [Dependency_exited ''client'' ''host'' 10 ''no tests matched'' ''done'' None]) \<and>
   exitCodeSeverity 10 \<le> exitCodeSeverity 4"
proof -
  have r: "RunScenario pair_scenario [Start 0, Return 0 10 None [], Fail_fast 1 ([] :: string read_event list)] =
     Some (4, [\<lparr>ir_role = ''host'', ir_code = 10, ir_err = None, ir_ipc = []\<rparr>,
       \<lparr>ir_role = ''client'', ir_code = 4, ir_err = None, ir_ipc = []\<rparr>],
       [Dependency_exited ''client'' ''host'' 10 ''no tests matched'' ''done'' None])"
    by code_simp
  show ?thesis using r scenario_exit_code [OF r] by (simp add: effective_code_def)
qed

end
