(* ===== verification/CopyPool.thy ===== *)
theory CopyPool
  imports Machine "HOL-Library.Multiset"
begin

text \<open>
  The parallel directory copy, \<^verbatim>\<open>CopyDirParallelWithStats\<close> of
  \<^verbatim>\<open>internal/shadow/workspace.go\<close>: a walker sends one job per file over a bounded
  channel, a fixed number of workers copy, and the function returns when all have stopped. Every
  shadow workspace, library cache and materialized library is made by it. The interleaving is
  explicit: a state holds the walker, the channel, the workers, the shared error and the context;
  an event is one step of one of them.
\<close>

section \<open>State and events\<close>

text \<open>
  What the walk meets, in its order: a directory or symbolic link, made in place, successfully or
  not; a file, with its size when it is regular; or an error of the walk itself.
\<close>

datatype 'f walk_entry = In_place bool | File_entry 'f "int option" | Walk_error

datatype 'f walker = Walking | Sending 'f | Walked bool

datatype 'f worker = Idle | Copying 'f | Exited

record 'f pool =
  po_entries :: "'f walk_entry list"
  po_walker :: "'f walker"
  po_jobs :: "'f list"
  po_workers :: "'f worker list"
  po_copy_err :: bool
  po_ctx_done :: bool
  po_copied :: "'f list"
  po_file_count :: int
  po_logical_bytes :: int

definition worker_count :: "int \<Rightarrow> nat" where
  "worker_count workers = (if workers \<le> 0 then 8 else nat workers)"

definition new_pool :: "int \<Rightarrow> 'f walk_entry list \<Rightarrow> 'f pool" where
  "new_pool workers es = \<lparr>po_entries = es, po_walker = Walking, po_jobs = [],
     po_workers = replicate (worker_count workers) Idle, po_copy_err = False, po_ctx_done = False,
     po_copied = [], po_file_count = 0, po_logical_bytes = 0\<rparr>"

text \<open>
  The walker visits its next entry, delivers its pending job, or gives it up when the context ends;
  a worker takes a job (and leaves when the context or an error says so), leaves when the channel
  is closed and empty, and finishes or fails a copy.
\<close>

datatype pool_event =
    Visit | Deliver | Give_up | Take nat | Leave nat | Copy_done nat | Copy_fails nat | Context_ends

definition walk_over :: "'f walker \<Rightarrow> bool" where
  "walk_over w = (case w of Walked _ \<Rightarrow> True | _ \<Rightarrow> False)"

definition visit :: "'f pool \<Rightarrow> 'f pool" where
  "visit p =
     (case po_entries p of
        [] \<Rightarrow> p\<lparr>po_walker := Walked False\<rparr>
      | e # es \<Rightarrow>
          (if po_ctx_done p \<or> po_copy_err p then p\<lparr>po_walker := Walked True\<rparr>
           else case e of
               Walk_error \<Rightarrow> p\<lparr>po_walker := Walked True\<rparr>
             | In_place ok \<Rightarrow>
                 (if ok then p\<lparr>po_entries := es\<rparr> else p\<lparr>po_walker := Walked True\<rparr>)
             | File_entry f sz \<Rightarrow>
                 p\<lparr>po_entries := es, po_walker := Sending f,
                   po_file_count := po_file_count p + (case sz of None \<Rightarrow> 0 | Some _ \<Rightarrow> 1),
                   po_logical_bytes := po_logical_bytes p + (case sz of None \<Rightarrow> 0 | Some n \<Rightarrow> n)\<rparr>))"

definition worker_is :: "'f pool \<Rightarrow> nat \<Rightarrow> ('f worker \<Rightarrow> bool) \<Rightarrow> bool" where
  "worker_is p i P \<longleftrightarrow> i < length (po_workers p) \<and> P (po_workers p ! i)"

definition pool_step :: "pool_event \<Rightarrow> 'f pool \<Rightarrow> 'f pool option" where
  "pool_step e p =
     (case e of
        Visit \<Rightarrow> (case po_walker p of Walking \<Rightarrow> Some (visit p) | _ \<Rightarrow> None)
      | Deliver \<Rightarrow>
          (case po_walker p of
             Sending f \<Rightarrow>
               (if length (po_jobs p) < 2 * length (po_workers p)
                then Some (p\<lparr>po_jobs := po_jobs p @ [f], po_walker := Walking\<rparr>) else None)
           | _ \<Rightarrow> None)
      | Give_up \<Rightarrow>
          (case po_walker p of
             Sending f \<Rightarrow> (if po_ctx_done p then Some (p\<lparr>po_walker := Walked True\<rparr>) else None)
           | _ \<Rightarrow> None)
      | Take i \<Rightarrow>
          (if worker_is p i (\<lambda>w. w = Idle) then
             (case po_jobs p of
                [] \<Rightarrow> None
              | f # fs \<Rightarrow> Some (p\<lparr>po_jobs := fs, po_workers := (po_workers p)[i :=
                  (if po_ctx_done p \<or> po_copy_err p then Exited else Copying f)]\<rparr>))
           else None)
      | Leave i \<Rightarrow>
          (if worker_is p i (\<lambda>w. w = Idle) \<and> po_jobs p = [] \<and> walk_over (po_walker p)
           then Some (p\<lparr>po_workers := (po_workers p)[i := Exited]\<rparr>) else None)
      | Copy_done i \<Rightarrow>
          (if i < length (po_workers p) then
             (case po_workers p ! i of
                Copying f \<Rightarrow> Some (p\<lparr>po_workers := (po_workers p)[i := Idle],
                  po_copied := po_copied p @ [f]\<rparr>)
              | _ \<Rightarrow> None)
           else None)
      | Copy_fails i \<Rightarrow>
          (if i < length (po_workers p) then
             (case po_workers p ! i of
                Copying f \<Rightarrow> Some (p\<lparr>po_workers := (po_workers p)[i := Exited], po_copy_err := True\<rparr>)
              | _ \<Rightarrow> None)
           else None)
      | Context_ends \<Rightarrow> (if po_ctx_done p then None else Some (p\<lparr>po_ctx_done := True\<rparr>)))"

fun pool_steps :: "pool_event list \<Rightarrow> 'f pool \<Rightarrow> 'f pool option" where
  "pool_steps [] p = Some p"
| "pool_steps (e # es) p = (case pool_step e p of None \<Rightarrow> None | Some q \<Rightarrow> pool_steps es q)"

definition pool_over :: "'f pool \<Rightarrow> bool" where
  "pool_over p \<longleftrightarrow> walk_over (po_walker p) \<and> list_all (\<lambda>w. w = Exited) (po_workers p)"

text \<open>What the function returns at the end: the counts, and whether there is an error.\<close>

definition pool_result :: "'f pool \<Rightarrow> (int \<times> int) \<times> bool" where
  "pool_result p = ((po_file_count p, po_logical_bytes p), po_walker p = Walked True \<or> po_copy_err p)"

text \<open>The whole call; \<open>remove_fails\<close> is the removal of the old destination.\<close>

definition CopyDirParallelWithStats ::
    "bool \<Rightarrow> int \<Rightarrow> 'f walk_entry list \<Rightarrow> pool_event list \<Rightarrow>
     ('f list \<times> (int \<times> int) \<times> bool) option" where
  "CopyDirParallelWithStats remove_fails workers es events =
     (if remove_fails then Some ([], (0, 0), True)
      else case pool_steps events (new_pool workers es) of
          None \<Rightarrow> None
        | Some p \<Rightarrow> if pool_over p then Some (po_copied p, pool_result p) else None)"

section \<open>Where the files are\<close>

definition files_of :: "'f walk_entry list \<Rightarrow> 'f list" where
  "files_of es = List.map_filter (\<lambda>e. case e of File_entry f _ \<Rightarrow> Some f | _ \<Rightarrow> None) es"

definition sizes_of :: "'f walk_entry list \<Rightarrow> int list" where
  "sizes_of es = List.map_filter (\<lambda>e. case e of File_entry _ s \<Rightarrow> s | _ \<Rightarrow> None) es"

lemma entry_lists [simp]:
  "files_of [] = []" "files_of (In_place b # es) = files_of es" "files_of (Walk_error # es) = files_of es"
  "files_of (File_entry f s # es) = f # files_of es"
  "sizes_of [] = []" "sizes_of (In_place b # es) = sizes_of es" "sizes_of (Walk_error # es) = sizes_of es"
  "sizes_of (File_entry f s # es) = (case s of None \<Rightarrow> [] | Some n \<Rightarrow> [n]) @ sizes_of es"
  by (simp_all add: files_of_def sizes_of_def List.map_filter_def split: option.split)

definition hand :: "'f worker \<Rightarrow> 'f multiset" where
  "hand w = (case w of Copying f \<Rightarrow> {#f#} | _ \<Rightarrow> {#})"

definition in_hands :: "'f worker list \<Rightarrow> 'f multiset" where
  "in_hands ws = sum_list (map hand ws)"

definition pending :: "'f walker \<Rightarrow> 'f multiset" where
  "pending w = (case w of Sending f \<Rightarrow> {#f#} | _ \<Rightarrow> {#})"

lemma hand_simps [simp]:
  "hand Idle = {#}" "hand Exited = {#}" "hand (Copying f) = {#f#}"
  "pending Walking = {#}" "pending (Walked b) = {#}" "pending (Sending f) = {#f#}"
  "walk_over (Walked b)" "\<not> walk_over Walking" "\<not> walk_over (Sending f)"
  by (simp_all add: hand_def pending_def walk_over_def)

lemma in_hands_update:
  "i < length ws \<Longrightarrow> in_hands (ws[i := w]) + hand (ws ! i) = in_hands ws + hand w"
  by (induction ws arbitrary: i) (auto simp: in_hands_def split: nat.split)

text \<open>Every file that is copied, being copied, queued, being sent, or not yet visited.\<close>

definition accounted :: "'f pool \<Rightarrow> 'f multiset" where
  "accounted p = mset (po_copied p) + in_hands (po_workers p) + mset (po_jobs p) +
     pending (po_walker p) + mset (files_of (po_entries p))"

text \<open>
  The invariant: counts and sizes of visited and remaining entries add up; the walker ends without
  error only at the end of the walk; a worker that left did so because of an error, the context, or
  the closed and drained channel; and unless something went wrong no file is unaccounted for.
\<close>

definition pool_ok :: "'f walk_entry list \<Rightarrow> 'f pool \<Rightarrow> bool" where
  "pool_ok es p \<longleftrightarrow>
     po_file_count p + int (length (sizes_of (po_entries p))) = int (length (sizes_of es)) \<and>
     po_logical_bytes p + sum_list (sizes_of (po_entries p)) = sum_list (sizes_of es) \<and>
     (po_walker p = Walked False \<longrightarrow> po_entries p = []) \<and>
     (Exited \<in> set (po_workers p) \<longrightarrow>
        po_copy_err p \<or> po_ctx_done p \<or> po_jobs p = [] \<and> walk_over (po_walker p)) \<and>
     (po_copy_err p \<or> po_ctx_done p \<or> po_walker p = Walked True \<or> accounted p = mset (files_of es))"

lemma in_hands_idle [simp]: "in_hands (replicate n Idle) = {#}"
  by (induction n) (simp_all add: in_hands_def)

lemma pool_ok_new: "pool_ok es (new_pool workers es)"
  by (auto simp: pool_ok_def new_pool_def accounted_def worker_count_def)

lemma set_update_cases: "x \<in> set (xs[i := y]) \<Longrightarrow> x = y \<or> x \<in> set xs"
  using set_update_subset_insert by force

lemma in_hands_idle_update:
  "i < length ws \<Longrightarrow> ws ! i = Idle \<Longrightarrow> in_hands (ws[i := w]) = in_hands ws + hand w"
  using in_hands_update [of i ws w] by simp

lemma in_hands_done:
  "i < length ws \<Longrightarrow> ws ! i = Copying f \<Longrightarrow> in_hands (ws[i := Idle]) + {#f#} = in_hands ws"
  using in_hands_update [of i ws Idle] by simp

lemma pool_ok_visit: "pool_ok es p \<Longrightarrow> po_walker p = Walking \<Longrightarrow> pool_ok es (visit p)"
  by (cases p) (auto simp: pool_ok_def visit_def accounted_def split: list.split walk_entry.split option.split)

lemma pool_ok_step:
  assumes "pool_ok es p" "pool_step e p = Some q"
  shows "pool_ok es q"
proof (cases e)
  case Visit
  then show ?thesis using assms pool_ok_visit by (auto simp: pool_step_def split: walker.splits)
next
  case Deliver
  then show ?thesis using assms
    by (auto simp: pool_step_def pool_ok_def accounted_def split: walker.splits if_splits)
next
  case Give_up
  then show ?thesis using assms by (auto simp: pool_step_def pool_ok_def split: walker.splits if_splits)
next
  case (Take i)
  then obtain f fs where t: "i < length (po_workers p)" "po_workers p ! i = Idle" "po_jobs p = f # fs"
    and q: "q = p\<lparr>po_jobs := fs, po_workers := (po_workers p)[i :=
      (if po_ctx_done p \<or> po_copy_err p then Exited else Copying f)]\<rparr>"
    using assms(2) by (auto simp: pool_step_def worker_is_def split: list.splits if_splits)
  show ?thesis
  proof (cases "po_ctx_done p \<or> po_copy_err p")
    case True
    then show ?thesis using assms(1) q by (auto simp: pool_ok_def)
  next
    case False
    then show ?thesis using assms(1) t q
      by (auto simp: pool_ok_def accounted_def in_hands_idle_update dest: set_update_cases)
  qed
next
  case (Leave i)
  then show ?thesis using assms
    by (auto simp: pool_step_def pool_ok_def accounted_def worker_is_def in_hands_idle_update
        split: if_splits)
next
  case (Copy_done i)
  then obtain f where t: "i < length (po_workers p)" "po_workers p ! i = Copying f"
    and q: "q = p\<lparr>po_workers := (po_workers p)[i := Idle], po_copied := po_copied p @ [f]\<rparr>"
    using assms(2) by (auto simp: pool_step_def split: worker.splits if_splits)
  have "accounted q = accounted p" using in_hands_done [OF t] q
    by (simp add: accounted_def ac_simps)
  then show ?thesis using assms(1) q by (auto simp: pool_ok_def dest: set_update_cases)
next
  case (Copy_fails i)
  then show ?thesis using assms
    by (auto simp: pool_step_def pool_ok_def split: worker.splits if_splits)
next
  case Context_ends
  then show ?thesis using assms by (auto simp: pool_step_def pool_ok_def split: if_splits)
qed

interpretation pool_machine: machine pool_step pool_steps "pool_ok es" for es
  by unfold_locales (simp_all add: pool_ok_step)


section \<open>What a finished copy has done\<close>

lemma pool_steps_workers:
  "pool_steps events p = Some q \<Longrightarrow> length (po_workers q) = length (po_workers p)"
proof (induction events arbitrary: p)
  case (Cons e es)
  then obtain r where r: "pool_step e p = Some r" "pool_steps es r = Some q" by (auto split: option.splits)
  have "length (po_workers r) = length (po_workers p)" using r(1)
    by (cases e) (auto simp: pool_step_def visit_def split: walker.splits list.splits walk_entry.splits
        worker.splits if_splits)
  then show ?case using Cons.IH [OF r(2)] by simp
qed simp

lemma worker_count_pos: "0 < worker_count n"
  by (simp add: worker_count_def)

lemma in_hands_exited: "list_all (\<lambda>w. w = Exited) ws \<Longrightarrow> in_hands ws = {#}"
  by (induction ws) (simp_all add: in_hands_def)

text \<open>The end of a call that returned, as a state of the pool.\<close>

lemma CopyDir_state:
  assumes "CopyDirParallelWithStats False workers es events = Some (copied, (files, bytes), err)"
  obtains p where "pool_steps events (new_pool workers es) = Some p" "pool_over p" "pool_ok es p"
    "Exited \<in> set (po_workers p)" "copied = po_copied p" "files = po_file_count p"
    "bytes = po_logical_bytes p" "err \<longleftrightarrow> po_walker p = Walked True \<or> po_copy_err p"
proof -
  obtain p where p: "pool_steps events (new_pool workers es) = Some p" "pool_over p"
    "copied = po_copied p" "((files, bytes), err) = pool_result p"
    using assms by (auto simp: CopyDirParallelWithStats_def split: option.splits if_splits)
  have "length (po_workers p) = worker_count workers"
    using pool_steps_workers [OF p(1)] by (simp add: new_pool_def)
  then have "po_workers p \<noteq> []" using worker_count_pos [of workers] by auto
  then have "Exited \<in> set (po_workers p)" using p(2) by (cases "po_workers p") (auto simp: pool_over_def)
  then show ?thesis using that [OF p(1,2) pool_machine.steps_inv [OF pool_ok_new p(1)]] p(3,4)
    by (auto simp: pool_result_def)
qed

definition context_ends :: "pool_event list \<Rightarrow> bool" where
  "context_ends events \<longleftrightarrow> Context_ends \<in> set events"

lemma pool_steps_ctx:
  "pool_steps events p = Some q \<Longrightarrow> po_ctx_done q \<longleftrightarrow> po_ctx_done p \<or> context_ends events"
proof (induction events arbitrary: p)
  case (Cons e es)
  then obtain r where r: "pool_step e p = Some r" "pool_steps es r = Some q" by (auto split: option.splits)
  have "po_ctx_done r \<longleftrightarrow> po_ctx_done p \<or> e = Context_ends" using r(1)
    by (cases e) (auto simp: pool_step_def visit_def split: walker.splits list.splits walk_entry.splits
        worker.splits if_splits)
  then show ?case using Cons.IH [OF r(2)] by (auto simp: context_ends_def)
qed (simp add: context_ends_def)

text \<open>
  C18. While the context is alive a copy without error is complete: however the walker and the
  workers interleave, when \<open>CopyDirParallelWithStats\<close> returns no error and the context has not
  ended, every file of the source was copied exactly once, and the counts it reports are the number
  and the total size of the regular files.
\<close>

theorem finished_copy_is_complete:
  assumes "CopyDirParallelWithStats False workers es events = Some (copied, (files, bytes), False)"
    "\<not> context_ends events"
  shows "mset copied = mset (files_of es) \<and> files = int (length (sizes_of es)) \<and>
    bytes = sum_list (sizes_of es)"
proof -
  obtain p where p: "pool_steps events (new_pool workers es) = Some p" "pool_over p" "pool_ok es p"
    "Exited \<in> set (po_workers p)" "copied = po_copied p" "files = po_file_count p"
    "bytes = po_logical_bytes p" "False \<longleftrightarrow> po_walker p = Walked True \<or> po_copy_err p"
    by (rule CopyDir_state [OF assms(1)])
  have alive: "\<not> po_ctx_done p" using pool_steps_ctx [OF p(1)] assms(2) by (simp add: new_pool_def)
  have w: "po_walker p = Walked False" using p(2,8) by (cases "po_walker p") (auto simp: pool_over_def)
  then have "po_entries p = []" "po_jobs p = []" "accounted p = mset (files_of es)"
    using p(3,4,8) alive by (auto simp: pool_ok_def)
  moreover have "in_hands (po_workers p) = {#}" using p(2) by (simp add: pool_over_def in_hands_exited)
  ultimately have "mset copied = mset (files_of es)" using p(5) w by (simp add: accounted_def)
  then show ?thesis using p(3,6,7) \<open>po_entries p = []\<close> by (simp add: pool_ok_def)
qed

definition two_files :: "nat walk_entry list" where
  "two_files = [In_place True, File_entry 1 (Some 10), File_entry 2 (Some 20)]"

theorem finished_copy_is_complete_witness:
  "mset [2, 1 :: nat] = mset (files_of two_files)"
proof -
  have "CopyDirParallelWithStats False 2 two_files [Visit, Visit, Deliver, Take 0, Visit, Deliver, Take 1,
      Copy_done 1, Copy_done 0, Visit, Leave 0, Leave 1] = Some ([2, 1], (2, 30), False)"
    by code_simp
  moreover have "\<not> context_ends [Visit, Visit, Deliver, Take 0, Visit, Deliver, Take 1,
      Copy_done 1, Copy_done 0, Visit, Leave 0, Leave 1]" by (simp add: context_ends_def)
  ultimately show ?thesis using finished_copy_is_complete by blast
qed

text \<open>
  A cancelled copy can be reported as complete. The workers check the context before each job
  and leave without recording an error, so when the context ends after the walk and before the last
  jobs are taken, the function returns no error and the full counts although files are missing:
  here the walk of two files is over, nothing was copied, and the result is success with two files.
\<close>

theorem cancelled_copy_reports_success:
  "CopyDirParallelWithStats False 2 two_files [Visit, Visit, Deliver, Visit, Deliver, Visit,
     Context_ends, Take 0, Take 1] = Some ([], (2, 30), False)"
  by code_simp

section \<open>When a copy comes to an end\<close>

definition left_of :: "'f worker \<Rightarrow> nat" where
  "left_of w = (case w of Idle \<Rightarrow> 1 | Copying _ \<Rightarrow> 2 | Exited \<Rightarrow> 0)"

definition walker_left :: "'f walker \<Rightarrow> nat" where
  "walker_left w = (case w of Walking \<Rightarrow> 1 | Sending _ \<Rightarrow> 5 | Walked _ \<Rightarrow> 0)"

definition pool_left :: "'f pool \<Rightarrow> nat" where
  "pool_left p = 6 * length (po_entries p) + walker_left (po_walker p) + 3 * length (po_jobs p) +
     sum_list (map left_of (po_workers p)) + (if po_ctx_done p then 0 else 1)"

lemma left_simps [simp]:
  "left_of Idle = 1" "left_of (Copying f) = 2" "left_of Exited = 0"
  "walker_left Walking = 1" "walker_left (Sending f) = 5" "walker_left (Walked b) = 0"
  by (simp_all add: left_of_def walker_left_def)

lemma left_update:
  "i < length ws \<Longrightarrow> sum_list (map left_of (ws[i := w])) + left_of (ws ! i) =
     sum_list (map left_of ws) + left_of w"
  by (induction ws arbitrary: i) (auto split: nat.split)

lemma left_idle_update:
  "i < length ws \<Longrightarrow> ws ! i = Idle \<Longrightarrow> sum_list (map left_of (ws[i := w])) + 1 = sum_list (map left_of ws) + left_of w"
  using left_update [of i ws w] by simp

lemma left_copying_update:
  "i < length ws \<Longrightarrow> ws ! i = Copying f \<Longrightarrow>
     sum_list (map left_of (ws[i := w])) + 2 = sum_list (map left_of ws) + left_of w"
  using left_update [of i ws w] by simp

lemma pool_step_decreases:
  assumes "pool_step e p = Some q" shows "pool_left q < pool_left p"
proof (cases e)
  case (Take i)
  then show ?thesis using assms left_idle_update [of i "po_workers p" Exited]
      left_idle_update [of i "po_workers p" "Copying (hd (po_jobs p))"]
    by (auto simp: pool_step_def pool_left_def worker_is_def split: list.splits if_splits)
next
  case (Leave i)
  then show ?thesis using assms left_idle_update [of i "po_workers p" Exited]
    by (auto simp: pool_step_def pool_left_def worker_is_def split: if_splits)
next
  case (Copy_done i)
  then show ?thesis using assms left_copying_update [of i "po_workers p" _ Idle]
    by (auto simp: pool_step_def pool_left_def split: if_splits worker.splits)
next
  case (Copy_fails i)
  then show ?thesis using assms left_copying_update [of i "po_workers p" _ Exited]
    by (auto simp: pool_step_def pool_left_def split: if_splits worker.splits)
qed (use assms in \<open>auto simp: pool_step_def visit_def pool_left_def
        split: walker.splits list.splits walk_entry.splits if_splits option.splits\<close>)

interpretation pool_run: terminating_machine pool_step pool_steps "pool_ok es" pool_left for es
  by unfold_locales (rule pool_step_decreases)

definition stuck :: "'f pool \<Rightarrow> bool" where
  "stuck p \<longleftrightarrow> \<not> pool_over p \<and> (\<forall>e. e \<noteq> Context_ends \<longrightarrow> pool_step e p = None)"

lemma not_stuckI: "pool_step e p \<noteq> None \<Longrightarrow> e \<noteq> Context_ends \<Longrightarrow> \<not> stuck p"
  by (auto simp: stuck_def)

lemma idle_step:
  assumes "worker_is p i (\<lambda>w. w = Idle)" "po_jobs p \<noteq> [] \<or> walk_over (po_walker p)"
  shows "\<not> stuck p"
proof (cases "po_jobs p = []")
  case True
  then show ?thesis using assms by (intro not_stuckI [of "Leave i"]) (simp_all add: pool_step_def)
next
  case False
  then show ?thesis using assms
    by (intro not_stuckI [of "Take i"]) (simp_all add: pool_step_def split: list.split)
qed

lemma some_idle:
  "\<exists>w \<in> set (po_workers p). w = Idle \<Longrightarrow> \<exists>i. worker_is p i (\<lambda>w. w = Idle)"
  by (auto simp: worker_is_def in_set_conv_nth)

lemma pool_progress:
  assumes "pool_ok es p" "po_workers p \<noteq> []" "\<not> po_copy_err p"
  shows "\<not> stuck p"
proof (cases "pool_over p")
  case True
  then show ?thesis by (simp add: stuck_def)
next
  case running: False
  show ?thesis
  proof (cases "\<exists>i f. i < length (po_workers p) \<and> po_workers p ! i = Copying f")
    case True
    then obtain i f where "i < length (po_workers p)" "po_workers p ! i = Copying f" by blast
    then show ?thesis by (intro not_stuckI [of "Copy_done i"]) (simp_all add: pool_step_def)
  next
    case False
    then have ws: "w = Idle \<or> w = Exited" if "w \<in> set (po_workers p)" for w
      using that by (cases w) (auto simp: in_set_conv_nth)
    show ?thesis
    proof (cases "po_walker p")
      case Walking
      then show ?thesis by (intro not_stuckI [of Visit]) (simp_all add: pool_step_def)
    next
      case (Sending f)
      show ?thesis
      proof (cases "length (po_jobs p) < 2 * length (po_workers p)")
        case True
        then show ?thesis using Sending by (intro not_stuckI [of Deliver]) (simp_all add: pool_step_def)
      next
        case full: False
        then have "po_jobs p \<noteq> []" using assms(2) by auto
        then show ?thesis
        proof (cases "\<exists>w \<in> set (po_workers p). w = Idle")
          case True
          then show ?thesis using some_idle idle_step \<open>po_jobs p \<noteq> []\<close> by blast
        next
          case False
          then have "Exited \<in> set (po_workers p)" using ws assms(2) by (cases "po_workers p") auto
          then have "po_ctx_done p" using assms(1,3) \<open>po_jobs p \<noteq> []\<close> by (simp add: pool_ok_def)
          then show ?thesis using Sending by (intro not_stuckI [of Give_up]) (simp_all add: pool_step_def)
        qed
      qed
    next
      case (Walked b)
      then have "\<exists>w \<in> set (po_workers p). w = Idle"
        using running ws by (auto simp: pool_over_def list_all_iff)
      then show ?thesis using some_idle idle_step Walked by (metis hand_simps(7))
    qed
  qed
qed

text \<open>
  C19. A copy in which no file copy has failed never hangs: whatever the interleaving, as long as the
  pool is not over and no error is recorded, some step other than the end of the context is
  possible, and no run has more than six steps per directory entry, one per worker and two more.
\<close>

theorem copy_never_hangs_without_error:
  assumes "pool_steps events (new_pool workers es) = Some p"
  shows "length events \<le> 6 * length es + worker_count workers + 2 \<and> (po_copy_err p \<or> \<not> stuck p)"
proof -
  have "pool_left (new_pool workers es) = 6 * length es + worker_count workers + 2"
    by (simp add: pool_left_def new_pool_def sum_list_replicate)
  then have "length events \<le> 6 * length es + worker_count workers + 2"
    using pool_run.steps_left [OF pool_ok_new assms] by simp
  moreover have "po_workers p \<noteq> []"
    using pool_steps_workers [OF assms] worker_count_pos [of workers] by (auto simp: new_pool_def)
  ultimately show ?thesis using pool_progress [OF pool_machine.steps_inv [OF pool_ok_new assms]] by blast
qed

theorem copy_never_hangs_without_error_witness:
  "\<not> stuck (new_pool 2 two_files)"
proof -
  have "pool_steps [] (new_pool 2 two_files) = Some (new_pool 2 two_files)" by simp
  from copy_never_hangs_without_error [OF this] show ?thesis by (simp add: new_pool_def)
qed

definition many_files :: "nat walk_entry list" where
  "many_files = map (\<lambda>n. File_entry n (Some 1)) [0..<25]"

text \<open>Eight workers take one file each, sixteen more are queued, and all eight copies fail.\<close>

definition hang_events :: "pool_event list" where
  "hang_events = concat (map (\<lambda>i. [Visit, Deliver, Take i]) [0..<8]) @
     concat (replicate 16 [Visit, Deliver]) @ [Visit] @ map Copy_fails [0..<8]"

lemma stuckI:
  "po_walker p = Sending f \<Longrightarrow> \<not> po_ctx_done p \<Longrightarrow> length (po_jobs p) = 2 * length (po_workers p) \<Longrightarrow>
     list_all (\<lambda>w. w = Exited) (po_workers p) \<Longrightarrow> stuck p"
proof -
  assume a: "po_walker p = Sending f" "\<not> po_ctx_done p" "length (po_jobs p) = 2 * length (po_workers p)"
    "list_all (\<lambda>w. w = Exited) (po_workers p)"
  have "pool_step e p = None" if "e \<noteq> Context_ends" for e
    using a that by (cases e) (auto simp: pool_step_def worker_is_def list_all_length)
  then show "stuck p" using a(1) by (simp add: stuck_def pool_over_def)
qed

definition is_stuck :: "'f pool \<Rightarrow> bool" where
  "is_stuck p \<longleftrightarrow> \<not> walk_over (po_walker p) \<and> (case po_walker p of Sending _ \<Rightarrow> True | _ \<Rightarrow> False) \<and>
     \<not> po_ctx_done p \<and> length (po_jobs p) = 2 * length (po_workers p) \<and>
     list_all (\<lambda>w. w = Exited) (po_workers p)"

lemma is_stuck_stuck: "is_stuck p \<Longrightarrow> stuck p"
  by (cases "po_walker p") (auto simp: is_stuck_def intro: stuckI)

lemma hang_run:
  "case pool_steps hang_events (new_pool 0 many_files) of None \<Rightarrow> False | Some p \<Rightarrow> is_stuck p"
  by code_simp

text \<open>
  A copy can hang. When every worker is copying, the queue is full and the walker waits to send
  one more file, then a disk that fails all copies makes every worker leave without taking another
  job: the walker waits for ever and the call only returns if the context ends. It happens with the
  default eight workers and twenty-five files.
\<close>

theorem copy_can_hang:
  "case pool_steps hang_events (new_pool 0 many_files) of None \<Rightarrow> False | Some p \<Rightarrow> stuck p"
  using hang_run is_stuck_stuck by (auto split: option.splits)

end
