(* ===== verification/Shadow.thy ===== *)
theory Shadow
  imports Artifacts
begin

text \<open>
  Shadow workspaces, \<^verbatim>\<open>internal/shadow\<close>: the per-run copy of a project, the persistent
  Library cache, the ignore entry, and the mapping of shadow paths in a result back to the source.
  Directories the code copies, links or removes as a whole are opaque contents; what a copy
  produced and whether it reported an error is data. Lower-casing is that of ASCII text.
\<close>

section \<open>Mapping paths back to the source\<close>

definition backslash :: char where
  "backslash = CHR 0x5C"

definition to_slash :: "string \<Rightarrow> string" where
  "to_slash s = map (\<lambda>c. if c = backslash then sep else c) s"

definition trim_seps :: "string \<Rightarrow> string" where
  "trim_seps s = rev (dropWhile (\<lambda>c. c = sep) (rev s))"

definition remapAbsPath :: "string \<Rightarrow> string \<Rightarrow> string \<Rightarrow> string" where
  "remapAbsPath absPath shadowPath sourcePath =
     (let norm = to_slash absPath;
          shadowSlash = trim_seps (to_slash shadowPath) @ [sep];
          sourceSlash = trim_seps (to_slash sourcePath)
      in if has_prefix (to_lower norm) (to_lower shadowSlash)
         then sourceSlash @ [sep] @ drop (length shadowSlash) norm else norm)"

lemma has_prefix_length: "has_prefix s p \<Longrightarrow> length p \<le> length s"
  by (auto simp: has_prefix_iff)

lemma index_of_found: "index_of s p = Some i \<Longrightarrow> i + length p \<le> length s \<and> take (length p) (drop i s) = p"
proof (induction s arbitrary: i)
  case (Cons c s)
  then show ?case using has_prefix_length [of "c # s" p]
    by (fastforce simp: has_prefix_def split: if_splits)
qed (auto split: if_splits)

text \<open>The search loop, from the position reached so far.\<close>

function replace_fold :: "string \<Rightarrow> string \<Rightarrow> string \<Rightarrow> string" where
  "replace_fold shadowSlash sourceSlash norm =
     (if shadowSlash = [] then norm
      else case index_of (to_lower norm) (to_lower shadowSlash) of
          None \<Rightarrow> norm
        | Some i \<Rightarrow> take i norm @ sourceSlash @
            replace_fold shadowSlash sourceSlash (drop (i + length shadowSlash) norm))"
  by pat_completeness auto
termination
  by (relation "measure (\<lambda>(_, _, s). length s)")
    (auto simp: to_lower_def length_greater_0_conv [symmetric] simp del: length_greater_0_conv
      dest!: index_of_found)

declare replace_fold.simps [simp del]

definition remapString :: "string \<Rightarrow> string \<Rightarrow> string \<Rightarrow> string" where
  "remapString s shadowPath sourcePath =
     (let shadowSlash = trim_seps (to_slash shadowPath); sourceSlash = trim_seps (to_slash sourcePath)
      in if shadowSlash = [] then s else replace_fold shadowSlash sourceSlash (to_slash s))"

record workspace =
  wk_source_path :: string
  wk_shadow_path :: string
  wk_cache_root :: string

definition remap_case :: "workspace \<Rightarrow> test_case \<Rightarrow> test_case" where
  "remap_case w t = t\<lparr>
     tc_absolute_path := remapAbsPath (tc_absolute_path t) (wk_shadow_path w) (wk_source_path w),
     tc_message := remapString (tc_message t) (wk_shadow_path w) (wk_source_path w)\<rparr>"

definition remap_error :: "workspace \<Rightarrow> compile_error \<Rightarrow> compile_error" where
  "remap_error w e = e\<lparr>
     ce_absolute_path := remapAbsPath (ce_absolute_path e) (wk_shadow_path w) (wk_source_path w),
     ce_message := remapString (ce_message e) (wk_shadow_path w) (wk_source_path w)\<rparr>"

definition RemapPaths :: "workspace \<Rightarrow> 'm run_result \<Rightarrow> 'm run_result" where
  "RemapPaths w r = r\<lparr>rr_tests := map_option (map (remap_case w)) (rr_tests r),
     rr_errors := map (remap_error w) (rr_errors r),
     rr_new_failures := map_option (map (remap_case w)) (rr_new_failures r)\<rparr>"

definition ShadowWorkspaceDir :: "string \<Rightarrow> string \<Rightarrow> string" where
  "ShadowWorkspaceDir sourcePath runID = Join [sourcePath, ''.testplay-shadow-'' @ runID]"

section \<open>Files of the shadow are files of the project\<close>

definition abs_path :: "string list \<Rightarrow> string" where
  "abs_path es = sep # join_with [sep] es"

lemma IsAbs_abs_path [simp]: "IsAbs (abs_path es)"
  by (simp add: abs_path_def IsAbs_def has_prefix_def)

lemma elements_abs_path: "\<forall>e \<in> set es. plain e \<Longrightarrow> elements (abs_path es) = es"
  by (simp add: abs_path_def elements_sep_append elements_join_with)

definition clean_parts :: "string list \<Rightarrow> bool" where
  "clean_parts es \<longleftrightarrow> (\<forall>e \<in> set es. plain e \<and> e \<noteq> ''.'' \<and> e \<noteq> ''..'')"

lemma clean_parts_append [simp]: "clean_parts (as @ bs) \<longleftrightarrow> clean_parts as \<and> clean_parts bs"
  by (auto simp: clean_parts_def)

lemma clean_elements_parts: "clean_parts es \<Longrightarrow> clean_elements True es = es"
  using clean_elements_append_plain [of es True "[]"] by (auto simp: clean_parts_def clean_elements_def)

lemma Clean_abs_path: "clean_parts es \<Longrightarrow> Clean (abs_path es) = abs_path es"
  by (simp add: Clean_eq_abs elements_abs_path clean_elements_parts)
    (simp add: abs_path_def clean_parts_def elements_abs_path [unfolded abs_path_def] clean_elements_parts)

lemma join_with_append:
  "as \<noteq> [] \<Longrightarrow> bs \<noteq> [] \<Longrightarrow> join_with s (as @ bs) = join_with s as @ s @ join_with s bs"
proof (induction as rule: induct_list012)
  case (2 x)
  then show ?case by (cases bs) simp_all
qed simp_all

lemma last_join_with: "\<forall>e \<in> set es. plain e \<Longrightarrow> es \<noteq> [] \<Longrightarrow> join_with [sep] es \<noteq> [] \<and> last (join_with [sep] es) \<noteq> sep"
proof (induction es rule: induct_list012)
  case (2 x)
  then show ?case using last_in_set by (fastforce simp: plain_def)
qed (auto simp: plain_def)

lemma trim_seps_last: "s \<noteq> [] \<Longrightarrow> last s \<noteq> sep \<Longrightarrow> trim_seps s = s"
  by (cases s rule: rev_cases) (simp_all add: trim_seps_def)

lemma trim_seps_abs_path:
  "clean_parts es \<Longrightarrow> trim_seps (abs_path es) @ [sep] = (if es = [] then [sep] else abs_path es @ [sep])"
proof (cases "es = []")
  case True
  then show ?thesis by (simp add: abs_path_def trim_seps_def)
next
  case False
  moreover assume "clean_parts es"
  ultimately have "join_with [sep] es \<noteq> [] \<and> last (join_with [sep] es) \<noteq> sep"
    by (intro last_join_with) (auto simp: clean_parts_def)
  then show ?thesis using False by (simp add: abs_path_def trim_seps_last)
qed

lemma to_slash_id: "backslash \<notin> set s \<Longrightarrow> to_slash s = s"
  by (induction s) (auto simp: to_slash_def)

lemma abs_path_append: "bs \<noteq> [] \<Longrightarrow>
    (if as = [] then [sep] else abs_path as @ [sep]) @ join_with [sep] bs = abs_path (as @ bs)"
  by (simp add: abs_path_def join_with_append)

lemma to_lower_append: "to_lower (a @ b) = to_lower a @ to_lower b"
  by (simp add: to_lower_def)

lemma IsValid_no_backslash: "IsValid i \<Longrightarrow> backslash \<notin> set i"
proof
  assume "IsValid i" "backslash \<in> set i"
  then show False using IsValid_bytes [of i]
    by (auto simp: backslash_def is_digit_def is_dash_def is_lower_hex_def byte_of_def)
qed

lemma remapAbsPath_inside:
  assumes "clean_parts shadow" "clean_parts source" "shadow \<noteq> []" "rel \<noteq> []"
    "backslash \<notin> set (abs_path shadow)" "backslash \<notin> set (abs_path source)"
    "backslash \<notin> set (join_with [sep] rel)"
  shows "remapAbsPath (abs_path (shadow @ rel)) (abs_path shadow) (abs_path source) = abs_path (source @ rel)"
proof -
  have split: "abs_path (shadow @ rel) = (abs_path shadow @ [sep]) @ join_with [sep] rel"
    using abs_path_append [OF assms(4), of shadow] assms(3) by simp
  have nb: "to_slash (abs_path (shadow @ rel)) = abs_path (shadow @ rel)"
    unfolding split by (rule to_slash_id) (use assms in \<open>auto simp: backslash_def sep_def\<close>)
  have app: "(trim_seps (abs_path source) @ [sep]) @ join_with [sep] rel = abs_path (source @ rel)"
    unfolding trim_seps_abs_path [OF assms(2)] by (rule abs_path_append [OF assms(4)])
  have pre: "has_prefix (to_lower (abs_path (shadow @ rel))) (to_lower (abs_path shadow @ [sep]))"
    unfolding split by (simp only: to_lower_append [of "abs_path shadow @ [sep]"] has_prefix_append)
  have drop_eq: "drop (length (abs_path shadow @ [sep])) (abs_path (shadow @ rel)) = join_with [sep] rel"
    unfolding split by simp
  show ?thesis
    unfolding remapAbsPath_def Let_def nb to_slash_id [OF assms(5)] to_slash_id [OF assms(6)]
      trim_seps_abs_path [OF assms(1)]
    using assms(3) app [simplified] pre drop_eq by simp
qed

lemma MakeRelative_inside:
  assumes "clean_parts source" "clean_parts rel" "rel \<noteq> []" "\<not> has_prefix (join_with [sep] rel) ''..''"
  shows "MakeRelative (abs_path source) (abs_path (source @ rel)) = join_with [sep] rel"
proof -
  have p: "\<forall>e \<in> set source. plain e" "\<forall>e \<in> set (source @ rel). plain e"
    using assms by (auto simp: clean_parts_def)
  have ne: "abs_path (source @ rel) \<noteq> abs_path source"
    using elements_abs_path [OF p(1)] elements_abs_path [OF p(2)] assms(3)
    by (metis append_self_conv)
  have "abs_path source \<noteq> ''.''" by (simp add: abs_path_def sep_def)
  then have "Rel (abs_path source) (abs_path (source @ rel)) = Some (join_with [sep] rel)"
    using ne assms(1,2) elements_abs_path [OF p(1)] elements_abs_path [OF p(2)]
    by (simp add: Rel_def Clean_abs_path strip_common_append)
  then show ?thesis using assms(4) by (simp add: MakeRelative_def)
qed

lemma Clean_eq_abs_path: "IsAbs p \<Longrightarrow> Clean p = abs_path (clean_elements True (elements p))"
  by (simp add: Clean_eq_abs abs_path_def)

lemma clean_parts_Clean: "clean_parts (clean_elements True (elements p))"
  using plain_Clean_elements [of True p] clean_elements_normal_abs [of "elements p"]
  by (auto simp: clean_parts_def)

lemma ShadowWorkspaceDir_parts:
  assumes "clean_parts source" "plain runID"
  shows "ShadowWorkspaceDir (abs_path source) runID = abs_path (source @ [''.testplay-shadow-'' @ runID])"
proof -
  let ?n = "''.testplay-shadow-'' @ runID"
  have n: "plain ?n" "?n \<noteq> ''.''" "?n \<noteq> ''..''" using assms(2) by (auto simp: plain_def sep_def)
  have "Join [abs_path source, ?n] = Clean (abs_path source @ [sep] @ ?n)"
    by (simp add: Join_def abs_path_def)
  also have "\<dots> = abs_path (clean_elements True (elements (abs_path source @ [sep] @ ?n)))"
    by (rule Clean_eq_abs_path) (simp add: IsAbs_def abs_path_def has_prefix_def)
  also have "elements (abs_path source @ [sep] @ ?n) = source @ [?n]"
    using assms(1) n(1) elements_join_with [of "[?n]"] elements_abs_path [of source]
    by (simp add: elements_append_sep clean_parts_def)
  finally show ?thesis using assms(1) n
    by (simp add: ShadowWorkspaceDir_def clean_elements_parts clean_parts_def)
qed



end
