(* ===== verification/ShadowWorkspace.thy ===== *)
theory ShadowWorkspace
  imports Shadow
begin

text \<open>
  The life of a shadow workspace and of the persistent Library cache: \<^verbatim>\<open>Prepare\<close>,
  \<^verbatim>\<open>Cleanup\<close> and \<^verbatim>\<open>UpdateLibraryCache\<close> of
  \<^verbatim>\<open>workspace.go\<close>, \<^verbatim>\<open>cache.go\<close> and
  \<^verbatim>\<open>gitignore.go\<close>. The content of a directory is of a type \<open>'t\<close>; what a copy leaves
  at its destination and whether it reports an error comes from the copy pool.
\<close>

section \<open>Messages keep everything but the shadow path\<close>

lemma index_of_first: "index_of s p = Some i \<Longrightarrow> p \<noteq> [] \<Longrightarrow> \<not> contains (take i s) p"
proof (induction s arbitrary: i)
  case (Cons c s)
  show ?case
  proof (cases "has_prefix (c # s) p")
    case True
    then show ?thesis using Cons.prems by (simp add: contains_def)
  next
    case False
    then obtain j where j: "index_of s p = Some j" "i = Suc j" using Cons.prems by auto
    have "\<not> has_prefix (c # take j s) p"
      using False by (auto simp: has_prefix_iff) (metis append_Cons append_assoc append_take_drop_id)
    then show ?thesis using Cons.IH [OF j(1) Cons.prems(2)] j(2) by (auto simp: contains_def)
  qed
qed (auto simp: contains_def split: if_splits)

lemma length_to_lower [simp]: "length (to_lower s) = length s"
  by (simp add: to_lower_def)

lemma to_lower_take: "to_lower (take n s) = take n (to_lower s)"
  by (simp add: to_lower_def take_map)

lemma to_lower_drop: "to_lower (drop n s) = drop n (to_lower s)"
  by (simp add: to_lower_def drop_map)

text \<open>A text cut at its pieces, and the same text with every piece replaced.\<close>

definition cut_at :: "string \<Rightarrow> (string \<times> string) list \<Rightarrow> string" where
  "cut_at x0 segs = x0 @ concat (map (\<lambda>(piece, x). piece @ x) segs)"

definition with_pieces :: "string \<Rightarrow> string \<Rightarrow> (string \<times> string) list \<Rightarrow> string" where
  "with_pieces new x0 segs = x0 @ concat (map (\<lambda>(piece, x). new @ x) segs)"

definition free_of :: "string \<Rightarrow> string \<Rightarrow> bool" where
  "free_of p x \<longleftrightarrow> \<not> contains (to_lower x) (to_lower p)"

definition segments_of :: "string \<Rightarrow> string \<Rightarrow> (string \<times> string) list \<Rightarrow> bool" where
  "segments_of p x0 segs \<longleftrightarrow> free_of p x0 \<and> list_all (\<lambda>(piece, x). equal_fold piece p \<and> free_of p x) segs"

lemma replace_fold_segments:
  "p \<noteq> [] \<Longrightarrow> \<exists>x0 segs. s = cut_at x0 segs \<and> replace_fold p new s = with_pieces new x0 segs \<and>
     segments_of p x0 segs"
proof (induction p new s rule: replace_fold.induct)
  case (1 p new s)
  show ?case
  proof (cases "index_of (to_lower s) (to_lower p)")
    case None
    then have "replace_fold p new s = s" using 1 by (simp add: replace_fold.simps [of p new s])
    moreover have "free_of p s" using None by (simp add: free_of_def contains_def)
    ultimately show ?thesis
      by (intro exI [of _ s] exI [of _ "[]"]) (simp add: cut_at_def with_pieces_def segments_of_def)
  next
    case (Some i)
    let ?piece = "take (length p) (drop i s)" and ?rest = "drop (i + length p) s"
    obtain x0 segs where ih: "?rest = cut_at x0 segs" "replace_fold p new ?rest = with_pieces new x0 segs"
      "segments_of p x0 segs" using "1.IH" [OF "1.prems" Some "1.prems"] by blast
    have "equal_fold ?piece p" using index_of_found [OF Some]
      by (simp add: equal_fold_def to_lower_take to_lower_drop)
    moreover have "free_of p (take i s)"
      using index_of_first [OF Some] "1.prems" by (simp add: free_of_def to_lower_take) (simp add: to_lower_def)
    moreover have "s = cut_at (take i s) ((?piece, x0) # segs)"
      using ih(1) by (simp add: cut_at_def) (metis append_take_drop_id drop_drop add.commute append.assoc)
    moreover have "replace_fold p new s = with_pieces new (take i s) ((?piece, x0) # segs)"
      using Some ih(2) "1.prems" by (simp add: replace_fold.simps [of p new s] with_pieces_def)
    ultimately show ?thesis using ih(3)
      by (intro exI [of _ "take i s"] exI [of _ "(?piece, x0) # segs"]) (simp add: segments_of_def)
  qed
qed

text \<open>
  Messages keep their text: the message is cut at the occurrences of the shadow path, in any
  case, and every occurrence is replaced by the source path while the text between them, free of
  the shadow path, is kept; but it is the text with every backslash turned into a slash, also where
  there is no shadow path at all.
\<close>

theorem remapString_rewrites_shadow:
  assumes "trim_seps (to_slash shadow) \<noteq> []"
  shows "\<exists>x0 segs. to_slash s = cut_at x0 segs \<and>
     remapString s shadow source = with_pieces (trim_seps (to_slash source)) x0 segs \<and>
     segments_of (trim_seps (to_slash shadow)) x0 segs"
  using replace_fold_segments [OF assms, of "to_slash s" "trim_seps (to_slash source)"] assms
  by (simp add: remapString_def Let_def)

theorem remapString_rewrites_shadow_witness:
  "\<exists>x0 segs. to_slash [CHR ''a'', backslash, CHR ''n''] = cut_at x0 segs \<and>
     remapString [CHR ''a'', backslash, CHR ''n''] ''/s'' ''/p'' = with_pieces ''/p'' x0 segs"
proof -
  have "trim_seps (to_slash ''/s'') \<noteq> []" by code_simp
  moreover have "trim_seps (to_slash ''/p'') = ''/p''" by code_simp
  ultimately show ?thesis using remapString_rewrites_shadow [of "''/s''" "[CHR ''a'', backslash, CHR ''n'']" "''/p''"]
    by auto
qed

section \<open>The ignore entry\<close>

text \<open>
  \<^verbatim>\<open>EnsureIgnored\<close> on the content of \<^verbatim>\<open>.gitignore\<close>; the flags are failures to
  open or write it. A failing write leaves the file as it was.
\<close>

definition EnsureIgnored :: "bool \<Rightarrow> string \<Rightarrow> string file_read \<Rightarrow> bool \<times> string file_read" where
  "EnsureIgnored write_fails entry content =
     (let trimmed = trim_space entry;
          data = (case content of FileBytes d \<Rightarrow> d | _ \<Rightarrow> [])
      in if content = FileUnreadable then (False, content)
         else if list_ex (\<lambda>l. trim_space l = trimmed) (split_on newline data) then (True, content)
         else if write_fails then (False, content)
         else (True, FileBytes (data @
           (if data \<noteq> [] \<and> \<not> has_suffix data [newline] then [newline] else []) @ trimmed @ [newline])))"

section \<open>The Library cache\<close>

text \<open>
  The cache root: the Library directory, its temporary sibling and the key file. The key is a hash
  of the two project files that determine the Library.
\<close>

record 't cache =
  ca_library :: "'t option"
  ca_tmp :: "'t option"
  ca_key :: "string option"

definition empty_cache :: "'t cache" where
  "empty_cache = \<lparr>ca_library = None, ca_tmp = None, ca_key = None\<rparr>"

definition CacheKey :: "(string \<Rightarrow> string) \<Rightarrow> (string \<Rightarrow> string option) \<Rightarrow> string option" where
  "CacheKey sha256_hex read =
     (case read ''ProjectSettings/ProjectVersion.txt'' of
        None \<Rightarrow> None
      | Some v \<Rightarrow>
          (case read ''Packages/manifest.json'' of
             None \<Rightarrow> None
           | Some m \<Rightarrow> Some (sha256_hex (''ProjectSettings/ProjectVersion.txt'' @ v @
               ''Packages/manifest.json'' @ m))))"

definition ValidateCacheAt :: "string option \<Rightarrow> 't cache \<Rightarrow> bool" where
  "ValidateCacheAt current c =
     (if ca_library c = None then False
      else case ca_key c of
          None \<Rightarrow> False
        | Some stored \<Rightarrow> (case current of None \<Rightarrow> False | Some k \<Rightarrow> stored = k))"

definition ClearCacheAt :: "'t cache \<Rightarrow> 't cache" where
  "ClearCacheAt c = empty_cache"

datatype cache_write_error =
    CopyError | MeasureOldError | MeasureTmpError | RemoveOldError | RenameError | KeyError

text \<open>
  What the file system does during a write-back: the content the copy leaves and whether it failed,
  failures to measure, the contents the old Library passes through while it is being removed and
  whether the removal then fails, a failing rename, and a failing write of
  the key with what it leaves in the key file.
\<close>

record 't write_back =
  wb_copied :: 't
  wb_copy_fails :: bool
  wb_measure_old_fails :: bool
  wb_measure_tmp_fails :: bool
  wb_removing :: "'t list"
  wb_remove_fails :: bool
  wb_rename_fails :: bool
  wb_key_fails :: bool
  wb_key_left :: "string option"

text \<open>The states of the cache after each effect, oldest first, and the error.\<close>

definition UpdateLibraryCache ::
    "'t write_back \<Rightarrow> string option \<Rightarrow> 't option \<Rightarrow> 't cache \<Rightarrow> 't cache list \<times> cache_write_error option" where
  "UpdateLibraryCache w current shadow_library c0 =
     (if shadow_library = None then ([], None)
      else
        (let c1 = c0\<lparr>ca_tmp := Some (wb_copied w)\<rparr>;
             removing = map (\<lambda>t. c1\<lparr>ca_library := Some t\<rparr>)
               (if ca_library c0 = None then [] else wb_removing w);
             partial = (if removing = [] then c1 else last removing);
             c2 = c1\<lparr>ca_library := None\<rparr>;
             c3 = c2\<lparr>ca_library := ca_tmp c1, ca_tmp := None\<rparr>
         in if wb_copy_fails w then ([c1, c1\<lparr>ca_tmp := None\<rparr>], Some CopyError)
            else if ca_library c0 \<noteq> None \<and> wb_measure_old_fails w then ([c1], Some MeasureOldError)
            else if wb_measure_tmp_fails w then ([c1, c1\<lparr>ca_tmp := None\<rparr>], Some MeasureTmpError)
            else if wb_remove_fails w
            then (c1 # removing @ [partial\<lparr>ca_tmp := None\<rparr>], Some RemoveOldError)
            else if wb_rename_fails w
            then (c1 # removing @ [c2, c2\<lparr>ca_tmp := None\<rparr>], Some RenameError)
            else (case current of
                None \<Rightarrow> (c1 # removing @ [c2, c3], Some KeyError)
              | Some k \<Rightarrow>
                  (if wb_key_fails w
                   then (c1 # removing @ [c2, c3, c3\<lparr>ca_key := wb_key_left w\<rparr>], Some KeyError)
                   else (c1 # removing @ [c2, c3, c3\<lparr>ca_key := Some k\<rparr>], None)))))"

definition cache_after :: "'t cache list \<Rightarrow> 't cache \<Rightarrow> 't cache" where
  "cache_after trace c = (if trace = [] then c else last trace)"


lemma write_back_trace:
  assumes "UpdateLibraryCache w current (Some lib) c0 = (trace, err)"
  shows "trace \<noteq> [] \<and> list_all (\<lambda>c. ca_library c \<in>
      {ca_library c0, None, Some (wb_copied w)} \<union> Some ` set (wb_removing w)) trace"
  using assms last_in_set [of "wb_removing w"]
  by (auto simp: UpdateLibraryCache_def Let_def list_all_iff last_map
      split: if_splits option.splits)


definition sample_write_back :: "string write_back" where
  "sample_write_back = \<lparr>wb_copied = ''new'', wb_copy_fails = False, wb_measure_old_fails = False,
     wb_measure_tmp_fails = False, wb_removing = [''half of old''], wb_remove_fails = True,
     wb_rename_fails = False, wb_key_fails = False, wb_key_left = None\<rparr>"

definition old_cache :: "string cache" where
  "old_cache = \<lparr>ca_library = Some ''old'', ca_tmp = None, ca_key = Some ''k''\<rparr>"


text \<open>
  The swap of the cache is not atomic: the old Library is removed under its valid key, so when
  the removal stops half-way the cache still validates, with a Library that is neither the old one
  nor the new one, and the next run seeds its workspace from it.
\<close>

theorem half_removed_library_validates:
  "UpdateLibraryCache sample_write_back (Some ''k'') (Some ''shadow'') old_cache =
     ([old_cache\<lparr>ca_tmp := Some ''new''\<rparr>,
       old_cache\<lparr>ca_tmp := Some ''new'', ca_library := Some ''half of old''\<rparr>,
       old_cache\<lparr>ca_library := Some ''half of old''\<rparr>], Some RemoveOldError) \<and>
   ValidateCacheAt (Some ''k'') (old_cache\<lparr>ca_library := Some ''half of old''\<rparr>)"
  by code_simp

section \<open>Prepare and Cleanup\<close>

text \<open>A directory of the workspace: its own content or a link to the project's.\<close>

datatype 't place = Own 't | Linked

record 't shadow_dir =
  sd_assets :: "'t place option"
  sd_settings :: "'t place option"
  sd_packages :: "'t place option"
  sd_library :: "'t place option"
  sd_temp :: "'t place option"

definition empty_shadow :: "'t shadow_dir" where
  "empty_shadow = \<lparr>sd_assets = None, sd_settings = None, sd_packages = None, sd_library = None,
     sd_temp = None\<rparr>"

record prepare_options =
  pp_workspace_root :: string
  pp_library_cache_dir :: string
  pp_library_cache_root :: string
  pp_copy_packages :: bool
  pp_skip_library :: bool

text \<open>
  What the file system does: the directory cannot be made; what the copy of a directory leaves and
  whether it fails; the link of Packages fails; the seed Library that is there, if any; the empty
  Library, and whether it cannot be made.
\<close>

record 't prepare_world =
  pw_mkdir_fails :: bool
  pw_copy :: "string \<Rightarrow> 't \<times> bool"
  pw_link_fails :: bool
  pw_seed_exists :: bool
  pw_empty :: 't
  pw_library_fails :: bool
  pw_ignore_write_fails :: bool

datatype prepare_error = RelativeRoot | MkdirError | CopyDirError string | LinkError | LibraryError

definition prepare_packages ::
    "prepare_options \<Rightarrow> 't prepare_world \<Rightarrow> 't shadow_dir \<Rightarrow> prepare_error + 't shadow_dir" where
  "prepare_packages opts w d =
     (if pp_copy_packages opts then
        (case pw_copy w ''Packages'' of (t, fails) \<Rightarrow>
           if fails then Inl (CopyDirError ''Packages'') else Inr (d\<lparr>sd_packages := Some (Own t)\<rparr>))
      else if sd_packages d = None then
        (if pw_link_fails w then Inl LinkError else Inr (d\<lparr>sd_packages := Some Linked\<rparr>))
      else Inr d)"

definition prepare_library ::
    "prepare_options \<Rightarrow> 't prepare_world \<Rightarrow> 't shadow_dir \<Rightarrow> prepare_error + 't shadow_dir" where
  "prepare_library opts w d =
     (if pp_skip_library opts then Inr d
      else if pp_library_cache_dir opts \<noteq> [] \<and> pw_seed_exists w then
        (case pw_copy w ''Library'' of (t, fails) \<Rightarrow>
           if fails then Inl (CopyDirError ''Library'') else Inr (d\<lparr>sd_library := Some (Own t)\<rparr>))
      else if pw_library_fails w then Inl LibraryError
      else Inr (if sd_library d = None then d\<lparr>sd_library := Some (Own (pw_empty w))\<rparr> else d))"

definition prepare_copied ::
    "string \<Rightarrow> 't prepare_world \<Rightarrow> ('t place option \<Rightarrow> 't shadow_dir) \<Rightarrow> prepare_error + 't shadow_dir" where
  "prepare_copied name w store_in =
     (case pw_copy w name of (t, fails) \<Rightarrow>
        if fails then Inl (CopyDirError name) else Inr (store_in (Some (Own t))))"

definition prepare_steps ::
    "'t prepare_world \<Rightarrow> prepare_options \<Rightarrow> 't shadow_dir \<Rightarrow> prepare_error + 't shadow_dir" where
  "prepare_steps w opts start =
     (if pw_mkdir_fails w then Inl MkdirError
      else bind_result (prepare_copied ''Assets'' w (\<lambda>x. start\<lparr>sd_assets := x\<rparr>)) (\<lambda>d.
        bind_result (prepare_copied ''ProjectSettings'' w (\<lambda>x. d\<lparr>sd_settings := x\<rparr>)) (\<lambda>d.
        bind_result (prepare_packages opts w d) (\<lambda>d. prepare_library opts w d))))"

text \<open>
  The workspace and what is then on disk at its path, from what was there before; with the content
  of the project's \<^verbatim>\<open>.gitignore\<close> before and after. The source path is absolute.
\<close>

definition Prepare ::
    "'t prepare_world \<Rightarrow> string \<Rightarrow> string \<Rightarrow> prepare_options \<Rightarrow> 't shadow_dir option \<Rightarrow> string file_read \<Rightarrow>
     (prepare_error + workspace) \<times> 't shadow_dir option \<times> string file_read" where
  "Prepare w source runID opts before ignore =
     (let shadowPath = (if pp_workspace_root opts = [] then ShadowWorkspaceDir source runID
            else Join [Clean (pp_workspace_root opts), runID]);
          start = (case before of None \<Rightarrow> empty_shadow | Some d \<Rightarrow> d)
      in if pp_workspace_root opts \<noteq> [] \<and> \<not> IsAbs (pp_workspace_root opts)
         then (Inl RelativeRoot, before, ignore)
         else case prepare_steps w opts start of
             Inl e \<Rightarrow> (Inl e, None, ignore)
           | Inr d \<Rightarrow>
               (Inr \<lparr>wk_source_path = source, wk_shadow_path = shadowPath,
                  wk_cache_root = pp_library_cache_root opts\<rparr>,
                Some (d\<lparr>sd_temp := None\<rparr>),
                if pp_workspace_root opts = []
                then snd (EnsureIgnored (pw_ignore_write_fails w) ''.testplay-shadow-*/'' ignore)
                else ignore))"

text \<open>\<^verbatim>\<open>Cleanup\<close>: the directory goes, or its removal fails.\<close>

definition Cleanup :: "bool \<Rightarrow> 't shadow_dir option \<Rightarrow> bool \<times> 't shadow_dir option" where
  "Cleanup remove_fails d = (if remove_fails then (False, d) else (True, None))"

lemma EnsureIgnored_adds:
  assumes "EnsureIgnored False entry content = (ok, content')" "content \<noteq> FileUnreadable"
    "newline \<notin> set (trim_space entry)" "trim_space (trim_space entry) = trim_space entry"
  shows "\<exists>data. content' = FileBytes data \<and> trim_space entry \<in> trim_space ` set (split_on newline data)
    \<or> content' = content \<and> list_ex (\<lambda>l. trim_space l = trim_space entry) (split_on newline [])"
proof -
  have last: "trim_space entry \<in> trim_space ` set (split_on newline (d @ trim_space entry @ [newline]))"
    if "d = [] \<or> has_suffix d [newline]" for d
  proof -
    have "d = [] \<or> (\<exists>d'. d = d' @ [newline])" using that
      by (metis append_take_drop_id has_suffix_def)
    then have "trim_space entry \<in> set (split_on newline (d @ trim_space entry @ [newline]))"
      using assms(3) by (auto simp: split_on_append_sep split_on_plain)
    then show ?thesis using assms(4) by (intro image_eqI [of _ _ "trim_space entry"]) simp_all
  qed
  let ?data = "case content of FileBytes d \<Rightarrow> d | _ \<Rightarrow> []"
  show ?thesis
  proof (cases "list_ex (\<lambda>l. trim_space l = trim_space entry) (split_on newline ?data)")
    case True
    then have c: "content' = content" using assms(1,2) by (simp add: EnsureIgnored_def Let_def)
    show ?thesis
    proof (cases content)
      case (FileBytes d)
      then show ?thesis using True c by (auto simp: list_ex_iff) (metis imageI)
    qed (use True c assms(2) in simp_all)
  next
    case False
    then have "content' = FileBytes ((?data @
        (if ?data \<noteq> [] \<and> \<not> has_suffix ?data [newline] then [newline] else [])) @ trim_space entry @ [newline])"
      using assms(1,2) by (simp add: EnsureIgnored_def Let_def)
    then show ?thesis using last [of ?data] last [of "?data @ [newline]"] by (auto split: if_splits)
  qed
qed

definition prepared_well :: "prepare_options \<Rightarrow> 't prepare_world \<Rightarrow> 't shadow_dir \<Rightarrow> bool" where
  "prepared_well opts w d \<longleftrightarrow>
     pw_copy w ''Assets'' = (fst (pw_copy w ''Assets''), False) \<and>
     sd_assets d = Some (Own (fst (pw_copy w ''Assets''))) \<and>
     sd_settings d = Some (Own (fst (pw_copy w ''ProjectSettings''))) \<and>
     (if pp_copy_packages opts then sd_packages d = Some (Own (fst (pw_copy w ''Packages'')))
      else sd_packages d = Some Linked) \<and>
     (if pp_skip_library opts then sd_library d = None
      else if pp_library_cache_dir opts \<noteq> [] \<and> pw_seed_exists w
      then sd_library d = Some (Own (fst (pw_copy w ''Library'')))
      else sd_library d = Some (Own (pw_empty w))) \<and>
     sd_temp d = None"

lemma prepare_steps_well:
  "prepare_steps w opts empty_shadow = Inr d \<Longrightarrow> prepared_well opts w (d\<lparr>sd_temp := None\<rparr>)"
  by (cases "pw_copy w ''Assets''"; cases "pw_copy w ''ProjectSettings''"; cases "pw_copy w ''Packages''";
      cases "pw_copy w ''Library''")
    (auto simp: prepare_steps_def prepared_well_def prepare_copied_def prepare_packages_def
      prepare_library_def empty_shadow_def bind_result_def split: if_splits)

text \<open>
  Preparing a new workspace is all or nothing: either nothing is left at its path, or it has its
  own Assets and ProjectSettings, its own or linked Packages as asked, the seeded or an empty Library
  and no Temp; and its path is then covered by the project's ignore file unless it lies outside the
  project or the ignore file cannot be read or written.
\<close>

theorem Prepare_all_or_nothing:
  "case Prepare w source runID opts None ignore of (r, after, ignore') \<Rightarrow>
     (case r of
        Inl _ \<Rightarrow> after = None \<and> ignore' = ignore
      | Inr ws \<Rightarrow>
          (case after of None \<Rightarrow> False | Some d \<Rightarrow> prepared_well opts w d) \<and>
          wk_source_path ws = source \<and>
          (if pp_workspace_root opts \<noteq> [] then ignore' = ignore
           else if ignore = FileUnreadable \<or> pw_ignore_write_fails w then True
           else case ignore' of
               FileBytes data \<Rightarrow> ''.testplay-shadow-*/'' \<in> trim_space ` set (split_on newline data)
             | _ \<Rightarrow> False))"
proof (cases "prepare_steps w opts empty_shadow")
  case (Inl e)
  then show ?thesis by (auto simp: Prepare_def Let_def)
next
  case (Inr d)
  have ign: "case snd (EnsureIgnored (pw_ignore_write_fails w) ''.testplay-shadow-*/'' ignore) of
         FileBytes data \<Rightarrow> ''.testplay-shadow-*/'' \<in> trim_space ` set (split_on newline data) | _ \<Rightarrow> False"
    if a: "ignore \<noteq> FileUnreadable" "\<not> pw_ignore_write_fails w"
  proof -
    let ?e = "''.testplay-shadow-*/''"
    have e: "trim_space ?e = ?e" "newline \<notin> set ?e" "\<not> list_ex (\<lambda>l. trim_space l = ?e) (split_on newline [])"
      by code_simp+
    obtain ok content' where r: "EnsureIgnored False ?e ignore = (ok, content')" by fastforce
    show ?thesis using EnsureIgnored_adds [OF r a(1)] r a(2) e by auto
  qed
  show ?thesis
  proof (cases "pp_workspace_root opts = []")
    case True
    then show ?thesis using prepare_steps_well [OF Inr] ign by (simp add: Prepare_def Inr Let_def)
  next
    case False
    then show ?thesis using prepare_steps_well [OF Inr] by (simp add: Prepare_def Inr Let_def)
  qed
qed

end
