(* ===== verification/WorkspaceLease.thy ===== *)
theory WorkspaceLease
  imports ShadowWorkspace Config
begin

text \<open>
  Workspace backends of a run, \<^verbatim>\<open>internal/runsvc/workspace_provider.go\<close> and the
  shared parts of \<^verbatim>\<open>workspace_backend.go\<close>: metrics, the store root, the choice of
  the provider with its fallback, and the lease that owns the cleanup order. Durations and sizes
  the code measures are data.
\<close>

section \<open>Metrics\<close>

text \<open>\<^verbatim>\<open>history.WorkspaceMetrics\<close>, its image and VHDX parts as records of their own.\<close>

record image_metrics =
  im_resolution_status :: string
  im_key :: string
  im_creation_ms :: int
  im_materializer :: string
  im_resolve_ms :: int
  im_metadata_verify_ms :: int
  im_full_hash_ms :: int
  im_materialize_ms :: int
  im_workspace_verify_ms :: int
  im_base_logical :: int
  im_base_physical :: int
  im_store_physical :: int
  im_builder_logical :: int
  im_builder_physical :: int

record vhdx_metrics =
  vm_provider :: string
  vm_parent_key :: string
  vm_parent_status :: string
  vm_parent_path :: string
  vm_parent_virtual :: int
  vm_parent_allocated :: int
  vm_parent_created :: bool
  vm_parent_reused :: bool
  vm_parent_build_ms :: int
  vm_parent_verify_ms :: int
  vm_child_create_ms :: int
  vm_child_attach_ms :: int
  vm_child_mount_ms :: int
  vm_child_release_ms :: int
  vm_child_ready :: int
  vm_child_peak :: int
  vm_child_released :: int
  vm_ready_measured :: bool
  vm_peak_measured :: bool
  vm_released_measured :: bool
  vm_mount_path :: string
  vm_physical_disk :: string
  vm_volume_guid :: string
  vm_cleanup_state :: string
  vm_quota :: int
  vm_store_allocated :: int
  vm_host_free :: int
  vm_host_floor :: int
  vm_local_count :: int
  vm_local_digest :: string

record workspace_metrics =
  wm_backend :: string
  wm_image_status :: string
  wm_preparation_ms :: int
  wm_file_copy_ms :: int
  wm_library_ms :: int
  wm_startup_ms :: int
  wm_execution_ms :: int
  wm_test_ms :: int
  wm_cleanup_ms :: int
  wm_write_back_ms :: int
  wm_logical :: int
  wm_physical :: int
  wm_peak :: int
  wm_retained :: int
  wm_reclaimed :: int
  wm_added :: int
  wm_fallback_used :: bool
  wm_fallback_reason :: string
  wm_kept :: bool
  wm_image :: image_metrics
  wm_vhdx :: vhdx_metrics

definition zero_image :: image_metrics where
  "zero_image = \<lparr>im_resolution_status = [], im_key = [], im_creation_ms = 0, im_materializer = [],
     im_resolve_ms = 0, im_metadata_verify_ms = 0, im_full_hash_ms = 0, im_materialize_ms = 0,
     im_workspace_verify_ms = 0, im_base_logical = 0, im_base_physical = 0, im_store_physical = 0,
     im_builder_logical = 0, im_builder_physical = 0\<rparr>"

definition zero_vhdx :: vhdx_metrics where
  "zero_vhdx = \<lparr>vm_provider = [], vm_parent_key = [], vm_parent_status = [], vm_parent_path = [],
     vm_parent_virtual = 0, vm_parent_allocated = 0, vm_parent_created = False,
     vm_parent_reused = False, vm_parent_build_ms = 0, vm_parent_verify_ms = 0,
     vm_child_create_ms = 0, vm_child_attach_ms = 0, vm_child_mount_ms = 0, vm_child_release_ms = 0,
     vm_child_ready = 0, vm_child_peak = 0, vm_child_released = 0, vm_ready_measured = False,
     vm_peak_measured = False, vm_released_measured = False, vm_mount_path = [],
     vm_physical_disk = [], vm_volume_guid = [], vm_cleanup_state = [], vm_quota = 0,
     vm_store_allocated = 0, vm_host_free = 0, vm_host_floor = 0, vm_local_count = 0,
     vm_local_digest = []\<rparr>"

definition WorkspaceBackendLegacy :: string where "WorkspaceBackendLegacy = ''legacy''"
definition WorkspaceBackendImage :: string where "WorkspaceBackendImage = ''image''"
definition WorkspaceBackendVHDXDiff :: string where "WorkspaceBackendVHDXDiff = ''vhdx-diff''"
definition WorkspaceBackendAuto :: string where "WorkspaceBackendAuto = ''auto''"

lemmas backend_defs = WorkspaceBackendLegacy_def WorkspaceBackendImage_def
  WorkspaceBackendVHDXDiff_def WorkspaceBackendAuto_def

definition ValidWorkspaceBackend :: "string \<Rightarrow> bool" where
  "ValidWorkspaceBackend v \<longleftrightarrow> v = [] \<or> v = WorkspaceBackendLegacy \<or> v = WorkspaceBackendImage \<or>
     v = WorkspaceBackendVHDXDiff \<or> v = WorkspaceBackendAuto"

definition prepareMetrics :: "string \<Rightarrow> workspace_metrics" where
  "prepareMetrics backend = \<lparr>wm_backend = backend,
     wm_image_status = (if backend = WorkspaceBackendImage then ''unsupported'' else ''not_selected''),
     wm_preparation_ms = 0, wm_file_copy_ms = 0, wm_library_ms = 0, wm_startup_ms = 0,
     wm_execution_ms = 0, wm_test_ms = 0, wm_cleanup_ms = 0, wm_write_back_ms = 0, wm_logical = 0,
     wm_physical = 0, wm_peak = 0, wm_retained = 0, wm_reclaimed = 0, wm_added = 0,
     wm_fallback_used = False, wm_fallback_reason = [], wm_kept = False, wm_image = zero_image,
     wm_vhdx = zero_vhdx\<rparr>"

definition updateObservedPeak :: "workspace_metrics \<Rightarrow> int \<Rightarrow> workspace_metrics" where
  "updateObservedPeak m n = (if wm_peak m < n then m\<lparr>wm_peak := n\<rparr> else m)"

definition durationWithoutVerification :: "int \<Rightarrow> int \<Rightarrow> int \<Rightarrow> int" where
  "durationWithoutVerification whole metadata_verify full_hash =
     (let excluded = metadata_verify + full_hash in if whole \<le> excluded then 0 else whole - excluded)"

definition updateImageVerificationMetrics :: "workspace_metrics \<Rightarrow> int \<Rightarrow> int \<Rightarrow> workspace_metrics" where
  "updateImageVerificationMetrics m metadata_ms hash_ms =
     m\<lparr>wm_image := (wm_image m)\<lparr>im_metadata_verify_ms := metadata_ms, im_full_hash_ms := hash_ms\<rparr>\<rparr>"

section \<open>The store root\<close>

text \<open>
  What the file system says of a path: whether it is a directory, and its resolution through
  symbolic links; \<open>hash8\<close> is the hexadecimal form of the first eight bytes of the SHA-256.
\<close>

record path_world =
  xw_is_dir :: "string \<Rightarrow> bool option"
  xw_resolve :: "string \<Rightarrow> string option"
  xw_hash8 :: "string \<Rightarrow> string"

datatype store_root_error = Not_absolute | Stat_failed | Not_directory | Resolve_failed | Overlaps_project

definition resolveWorkspaceStoreRoot :: "path_world \<Rightarrow> string \<Rightarrow> string \<Rightarrow> store_root_error + string" where
  "resolveWorkspaceStoreRoot w projectPath requested =
     (if requested = [] then Inr (Join [projectPath, ''.testplay''])
      else if \<not> IsAbs requested then Inl Not_absolute
      else case xw_is_dir w requested of
          None \<Rightarrow> Inl Stat_failed
        | Some d \<Rightarrow>
            (if \<not> d then Inl Not_directory
             else case (xw_resolve w requested, xw_resolve w projectPath) of
                 (Some root, Some project) \<Rightarrow>
                   (if root = project \<or> has_prefix (project @ [sep]) (root @ [sep]) \<or>
                       has_prefix (root @ [sep]) (project @ [sep])
                    then Inl Overlaps_project
                    else Inr (Join [root, xw_hash8 w project]))
               | _ \<Rightarrow> Inl Resolve_failed))"

definition store_root :: "path_world \<Rightarrow> string \<Rightarrow> string \<Rightarrow> string" where
  "store_root w projectPath requested =
     (case resolveWorkspaceStoreRoot w projectPath requested of Inl _ \<Rightarrow> [] | Inr r \<Rightarrow> r)"

definition legacyCacheRoot :: "path_world \<Rightarrow> string \<Rightarrow> string \<Rightarrow> string" where
  "legacyCacheRoot w projectPath requested =
     Join [store_root w projectPath requested, if requested = [] then ''cache'' else ''legacy-cache'']"

definition imageStoreRoot :: "path_world \<Rightarrow> string \<Rightarrow> string \<Rightarrow> string" where
  "imageStoreRoot w projectPath requested = Join [store_root w projectPath requested, ''library-images'']"

section \<open>Leases\<close>

text \<open>
  \<^verbatim>\<open>serviceWorkspaceLease\<close>: the workspace, its metrics and, for the VHDX backend, the
  broker's lease identifier, empty once released. \<open>le_shell\<close> is whether the physical workspace
  directory is still there.
\<close>

record lease =
  le_workspace :: workspace
  le_metrics :: workspace_metrics
  le_vhdx :: "string option"
  le_released :: bool
  le_shell :: bool

datatype lease_effect = Child_released bool | Shell_removed

text \<open>
  A release with the answers of the broker and of the directory removal (\<open>None\<close> is success): the
  error, the effects in their order, and the lease. The flag of \<open>Child_released\<close> is
  \<^verbatim>\<open>RetainChild\<close>.
\<close>

definition vhdx_state :: "string \<Rightarrow> lease \<Rightarrow> lease" where
  "vhdx_state st l = l\<lparr>le_metrics := (le_metrics l)\<lparr>wm_vhdx := (wm_vhdx (le_metrics l))\<lparr>vm_cleanup_state := st\<rparr>\<rparr>\<rparr>"

definition vhdx_Release ::
    "bool \<Rightarrow> string option \<Rightarrow> lease \<Rightarrow> string option \<times> lease_effect list \<times> lease" where
  "vhdx_Release retain answer l =
     (case le_vhdx l of
        None \<Rightarrow> (None, [], l)
      | Some i \<Rightarrow>
          (if i = [] then (None, [], l)
           else case answer of
               Some e \<Rightarrow> (Some e, [], vhdx_state ''uncertain'' l)
             | None \<Rightarrow> (None, [Child_released retain],
                 (vhdx_state (if retain then ''retained'' else ''released'') l)\<lparr>le_vhdx := Some []\<rparr>)))"

definition lease_Release ::
    "bool \<Rightarrow> string option \<Rightarrow> string option \<Rightarrow> lease \<Rightarrow> string option \<times> lease_effect list \<times> lease" where
  "lease_Release keep broker_answer cleanup_answer l =
     (if le_released l then (None, [], l)
      else case vhdx_Release keep broker_answer l of
          (Some e, effs, l1) \<Rightarrow> (Some e, effs, l1)
        | (None, effs, l1) \<Rightarrow>
            (if keep then (None, effs, l1\<lparr>le_released := True\<rparr>)
             else case cleanup_answer of
                 Some e \<Rightarrow> (Some e, effs, l1)
               | None \<Rightarrow> (None, effs @ [Shell_removed], l1\<lparr>le_released := True, le_shell := False\<rparr>)))"

text \<open>A sequence of release attempts, as the run service makes them.\<close>

fun release_all ::
    "(bool \<times> string option \<times> string option) list \<Rightarrow> lease \<Rightarrow> lease_effect list \<times> lease" where
  "release_all [] l = ([], l)"
| "release_all ((keep, b, c) # rs) l =
     (case lease_Release keep b c l of (_, effs, l1) \<Rightarrow>
       (case release_all rs l1 of (effs', l2) \<Rightarrow> (effs @ effs', l2)))"

definition child_mounted :: "lease \<Rightarrow> bool" where
  "child_mounted l \<longleftrightarrow> (case le_vhdx l of None \<Rightarrow> False | Some i \<Rightarrow> i \<noteq> [])"

text \<open>No prefix of the effects removes the shell before the child is released, and each effect happens once.\<close>

definition safe_release :: "bool \<Rightarrow> lease_effect list \<Rightarrow> bool" where
  "safe_release mounted effs \<longleftrightarrow>
     effs \<in> (if mounted then {[], [Child_released True], [Child_released False],
         [Child_released True, Shell_removed], [Child_released False, Shell_removed]}
       else {[], [Shell_removed]})"

lemma vhdx_Release_frame [simp]:
  "le_released (vhdx_state s l) = le_released l" "le_shell (vhdx_state s l) = le_shell l"
  "le_vhdx (vhdx_state s l) = le_vhdx l"
  by (simp_all add: vhdx_state_def)

lemma lease_Release_released: "le_released l \<Longrightarrow> release_all rs l = ([], l)"
  by (induction rs) (auto simp: lease_Release_def split: prod.splits)

lemma lease_Release_unmounted:
  "\<not> child_mounted l \<Longrightarrow> \<not> le_released l \<Longrightarrow>
     lease_Release keep b c l = (if keep then (None, [], l\<lparr>le_released := True\<rparr>)
       else case c of Some e \<Rightarrow> (Some e, [], l)
         | None \<Rightarrow> (None, [Shell_removed], l\<lparr>le_released := True, le_shell := False\<rparr>))"
  by (auto simp: lease_Release_def vhdx_Release_def child_mounted_def split: option.splits)

lemma release_all_unmounted:
  "\<not> child_mounted l \<Longrightarrow> \<not> le_released l \<Longrightarrow> fst (release_all rs l) \<in> {[], [Shell_removed]}"
proof (induction rs arbitrary: l)
  case (Cons r rs)
  obtain keep b c where r: "r = (keep, b, c)" by (metis prod_cases3)
  show ?case using Cons r by (cases keep; cases c)
    (auto simp: lease_Release_unmounted lease_Release_released split: prod.split)
qed simp

lemma release_all_mounted:
  "child_mounted l \<Longrightarrow> \<not> le_released l \<Longrightarrow> safe_release True (fst (release_all rs l))"
proof (induction rs arbitrary: l)
  case (Cons r rs)
  obtain keep b c where r: "r = (keep, b, c)" by (metis prod_cases3)
  obtain i where i: "le_vhdx l = Some i" "i \<noteq> []" using Cons.prems by (auto simp: child_mounted_def split: option.splits)
  show ?case
  proof (cases b)
    case (Some e)
    then have "lease_Release keep b c l = (Some e, [], vhdx_state ''uncertain'' l)"
      using i Cons.prems by (simp add: lease_Release_def vhdx_Release_def)
    then show ?thesis using Cons r i by (auto simp: child_mounted_def split: prod.split)
  next
    case None
    let ?l = "(vhdx_state (if keep then ''retained'' else ''released'') l)\<lparr>le_vhdx := Some []\<rparr>"
    have v: "vhdx_Release keep b l = (None, [Child_released keep], ?l)"
      using i None by (simp add: vhdx_Release_def)
    have "\<not> child_mounted ?l" "\<not> le_released ?l" using Cons.prems by (simp_all add: child_mounted_def)
    note later = release_all_unmounted [OF this, of rs]
    show ?thesis using Cons.prems r v later
      by (cases keep; cases c) (auto simp: lease_Release_def lease_Release_released safe_release_def split: prod.split)
  qed
qed (simp add: safe_release_def)

text \<open>
  The mounted child disk always goes before the directory it is mounted in: over any sequence of
  release attempts, keeping or not, with any answers of the broker and of the file system, the child
  is released at most once, the workspace directory is removed at most once and only after the child
  was released, and a lease that was released or kept is never touched again.
\<close>

theorem child_released_before_shell:
  assumes "\<not> le_released l"
  shows "safe_release (child_mounted l) (fst (release_all rs l))"
  using release_all_mounted [OF _ assms] release_all_unmounted [OF _ assms]
  by (cases "child_mounted l") (simp_all add: safe_release_def)

definition sample_lease :: lease where
  "sample_lease = \<lparr>le_workspace = \<lparr>wk_source_path = ''/p'', wk_shadow_path = ''/s'', wk_cache_root = []\<rparr>,
     le_metrics = prepareMetrics WorkspaceBackendVHDXDiff, le_vhdx = Some ''lease-1'',
     le_released = False, le_shell = True\<rparr>"

theorem child_released_before_shell_witness:
  "fst (release_all [(False, Some ''broker down'', None), (False, None, Some ''busy''), (False, None, None)]
     sample_lease) = [Child_released False, Shell_removed] \<and>
   safe_release True (fst (release_all [(False, Some ''broker down'', None), (False, None, Some ''busy''),
     (False, None, None)] sample_lease))"
proof
  show "fst (release_all [(False, Some ''broker down'', None), (False, None, Some ''busy''), (False, None, None)]
      sample_lease) = [Child_released False, Shell_removed]" by code_simp
  have "child_mounted sample_lease" by code_simp
  then show "safe_release True (fst (release_all [(False, Some ''broker down'', None),
      (False, None, Some ''busy''), (False, None, None)] sample_lease))"
    using child_released_before_shell [of sample_lease "[(False, Some ''broker down'', None),
      (False, None, Some ''busy''), (False, None, None)]"] by (simp add: sample_lease_def)
qed

section \<open>Providers\<close>

text \<open>
  What preparing a backend gives: an error, with whether it is a permission error and whether it is
  \<^verbatim>\<open>errVHDXPreStartUnavailable\<close>, or a workspace.
\<close>

record prepare_failure =
  pf_text :: string
  pf_permission :: bool
  pf_pre_start :: bool

type_synonym prepared = "prepare_failure + lease"

definition mark_fallback :: "string \<Rightarrow> lease \<Rightarrow> lease" where
  "mark_fallback reason l = l\<lparr>le_metrics := (le_metrics l)\<lparr>wm_fallback_used := True,
     wm_fallback_reason := reason\<rparr>, le_vhdx := None\<rparr>"

definition Provider_Prepare :: "string \<Rightarrow> prepared \<Rightarrow> prepared \<Rightarrow> prepared \<Rightarrow> prepared" where
  "Provider_Prepare backend legacy imaged vhdx =
     (if backend = WorkspaceBackendLegacy then legacy
      else if backend = WorkspaceBackendImage then imaged
      else if backend = WorkspaceBackendVHDXDiff then vhdx
      else if backend = WorkspaceBackendAuto then
        (case vhdx of
           Inl e \<Rightarrow> (if pf_pre_start e then map_sum id (mark_fallback (pf_text e)) legacy else Inl e)
         | Inr l \<Rightarrow> Inr l)
      else Inl \<lparr>pf_text = ''unknown workspace provider'', pf_permission = False, pf_pre_start = False\<rparr>)"

text \<open>
  \<^verbatim>\<open>prepareLegacyWorkspace\<close>: the seed of the Library is the cache, when it may be used
  and its key matches the project; the rest is \<open>Prepare\<close>.
\<close>

definition legacy_options :: "bool \<Rightarrow> string \<Rightarrow> string option \<Rightarrow> 't cache \<Rightarrow> prepare_options" where
  "legacy_options clear_cache cacheRoot current c =
     \<lparr>pp_workspace_root = [],
      pp_library_cache_dir = (if \<not> clear_cache \<and> ValidateCacheAt current c
        then Join [cacheRoot, ''Library''] else []),
      pp_library_cache_root = cacheRoot, pp_copy_packages = False, pp_skip_library = False\<rparr>"

definition prepareLegacyWorkspace ::
    "bool \<Rightarrow> string \<Rightarrow> string option \<Rightarrow> 't cache \<Rightarrow> 't prepare_world \<Rightarrow> string \<Rightarrow> string \<Rightarrow>
     't shadow_dir option \<Rightarrow> string file_read \<Rightarrow>
     (prepare_error + workspace) \<times> 't shadow_dir option \<times> string file_read" where
  "prepareLegacyWorkspace clear_cache cacheRoot current c w source runID before ignore =
     Prepare w source runID (legacy_options clear_cache cacheRoot current c) before ignore"

text \<open>
  A Library is reused only when it belongs to the project's state: when a legacy workspace is
  prepared anew, its Library is the copy of the cache only if the cache was not asked to be cleared
  and validates under the current key, and it is empty otherwise.
\<close>

theorem legacy_library_only_from_valid_cache:
  assumes "prepareLegacyWorkspace clear_cache cacheRoot current c w source runID None ignore =
      (Inr ws, Some d, ignore')" "sd_library d \<noteq> Some (Own (pw_empty w))"
  shows "\<not> clear_cache \<and> ValidateCacheAt current c \<and> sd_library d = Some (Own (fst (pw_copy w ''Library'')))"
proof -
  let ?o = "legacy_options clear_cache cacheRoot current c"
  obtain d0 where d0: "prepare_steps w ?o empty_shadow = Inr d0" "d = d0\<lparr>sd_temp := None\<rparr>"
    using assms(1) by (auto simp: prepareLegacyWorkspace_def Prepare_def Let_def legacy_options_def
        split: sum.splits if_splits)
  from prepare_steps_well [OF d0(1)] d0(2) assms(2) show ?thesis
    by (auto simp: prepared_well_def legacy_options_def split: if_splits)
qed

definition sample_prepare_world :: "string prepare_world" where
  "sample_prepare_world = \<lparr>pw_mkdir_fails = False, pw_copy = (\<lambda>n. (''copy of '' @ n, False)),
     pw_link_fails = False, pw_seed_exists = True, pw_empty = [], pw_library_fails = False,
     pw_ignore_write_fails = False\<rparr>"

theorem legacy_library_only_from_valid_cache_witness:
  "ValidateCacheAt (Some ''k'') old_cache"
proof -
  let ?r = "prepareLegacyWorkspace False ''/c'' (Some ''k'') old_cache sample_prepare_world ''/p'' sample_id
      None FileMissing"
  have "?r = (Inr \<lparr>wk_source_path = ''/p'', wk_shadow_path = ''/p/.testplay-shadow-20260101-120000-0000000a'',
        wk_cache_root = ''/c''\<rparr>,
      Some \<lparr>sd_assets = Some (Own ''copy of Assets''), sd_settings = Some (Own ''copy of ProjectSettings''),
        sd_packages = Some Linked, sd_library = Some (Own ''copy of Library''), sd_temp = None\<rparr>,
      FileBytes (''.testplay-shadow-*/'' @ [newline]))"
    by code_simp
  from legacy_library_only_from_valid_cache [OF this] show ?thesis
    by (simp add: sample_prepare_world_def)
qed

end
