(* ===== verification/RunService.thy ===== *)
theory RunService
  imports WorkspaceLease BridgeExec ListCache
begin

text \<open>
  One run of the tests, \<^verbatim>\<open>Service.Run\<close> of \<^verbatim>\<open>internal/runsvc/service.go\<close>, as the
  composition of the other components: guards, run directory and logs, the warm bridge when it is
  eligible, else a cold run in the project or in a workspace, disclosures, comparison, path
  mapping, cache write-back, the release of the workspace, and what is persisted. Warnings are
  values of a datatype, their wording aside. What the environment does is the record \<open>service_world\<close>.
\<close>

section \<open>Requests and responses\<close>

record service_request =
  sq_config :: config
  sq_filter :: string
  sq_category :: string
  sq_compare_run :: string
  sq_reset_shadow :: bool
  sq_force_shadow :: bool
  sq_clear_cache :: bool
  sq_skip_write_back :: bool
  sq_force_bridge :: bool
  sq_disable_bridge :: bool
  sq_backend :: string
  sq_keep :: bool
  sq_store_root :: string

type_synonym result = "workspace_metrics run_result"

datatype fallback_reason = Declined | Probe_refused probe_failure

datatype warning =
    Bridge_note string
  | Safety_monitor string
  | Bridge_unavailable fallback_reason string
  | No_tests_matched string string
  | Zero_tests
  | Compare_not_found string store_error
  | Cache_not_updated cache_write_error
  | Retain_failed string
  | Cleanup_failed string
  | Result_not_saved store_error
  | Summary_not_written artifact_error
  | Manifest_not_written artifact_error

record service_response =
  sr_run_id :: string
  sr_result :: result
  sr_exit_code :: int
  sr_warnings :: "warning list"

datatype service_error =
    Invalid_backend | Bridge_with_backend | Bad_store_root store_root_error
  | Prepare_dir_failed artifact_error | Open_logs_failed artifact_error
  | Prepare_workspace_failed prepare_failure

text \<open>The exit code of the response that comes with an error.\<close>

definition error_exit_code :: "service_error \<Rightarrow> int" where
  "error_exit_code e = (case e of
       Prepare_workspace_failed f \<Rightarrow> (if pf_permission f then 7 else 0) | _ \<Rightarrow> 0)"

definition backendProcess :: string where "backendProcess = ''process''"
definition backendShadow :: string where "backendShadow = ''shadow''"
definition backendBridge :: string where "backendBridge = ''bridge''"

section \<open>The environment\<close>

text \<open>What persists between runs: artifacts, history, list cache, and the legacy Library cache.\<close>

record service_state =
  ss_artifacts :: root_dir
  ss_store :: store
  ss_list_cache :: "string file_read"
  ss_library_cache :: "string cache"

record summary =
  su_run_id :: string
  su_exit_code :: int
  su_backend :: string
  su_total :: int
  su_passed :: int
  su_failed :: int
  su_skipped :: int
  su_timeout_type :: "string option"
  su_metrics :: "workspace_metrics option"

record service_codecs =
  sc_xml :: "string \<Rightarrow> string + xml_test_run"
  sc_float :: "string \<Rightarrow> float64 \<times> bool"
  sc_marshal :: "result \<Rightarrow> string option"
  sc_unmarshal :: "string \<Rightarrow> result option"
  sc_summary :: "summary \<Rightarrow> string option"
  sc_manifest :: "manifest \<Rightarrow> string option"
  sc_cache :: "list_cache \<Rightarrow> string option"

text \<open>The bridge side of the world: the probe, the client's polls, and how the run ended.\<close>

record bridge_world =
  bw_probe :: probe_world
  bw_version_file :: "string option"
  bw_now :: int
  bw_codecs :: codecs
  bw_run :: run_world
  bw_ctx :: ctx_state
  bw_xml :: "string option"

text \<open>
  The cold side: whether the editor holds the project, what the file system does while a legacy
  workspace is prepared, what the image and VHDX backends give, Unity, the safety monitor.
\<close>

record cold_world =
  cw_locked :: bool
  cw_key :: "string option"
  cw_prepare :: "string prepare_world"
  cw_before :: "string shadow_dir option"
  cw_permission :: "prepare_error \<Rightarrow> bool"
  cw_preparation_ms :: int
  cw_copy_ms :: int
  cw_library_ms :: int
  cw_image :: prepared
  cw_vhdx :: prepared
  cw_run :: "nat \<Rightarrow> string list \<Rightarrow> invocation"
  cw_monitor :: "string option"
  cw_execution_ms :: int
  cw_test_ms :: "test_case list option \<Rightarrow> int"

text \<open>
  The end of a run with a workspace: the write-back (the Library of the workspace, the current key,
  what the file system does, time and peak size), the sizes measured, and the answers of the broker and the file system to the release and to the deferred
  second release.
\<close>

record finish_world =
  fi_library :: "string option"
  fi_key :: "string option"
  fi_cache_write :: "string write_back"
  fi_write_back_ms :: int
  fi_write_back_peak :: int
  fi_usage :: "(int \<times> int) option"
  fi_cache_usage :: "int option"
  fi_release :: "string option \<times> string option"
  fi_deferred :: "string option \<times> string option"
  fi_cleanup_ms :: int

record service_world =
  sw_paths :: path_world
  sw_clock :: clock_time
  sw_random :: "8 word \<times> 8 word \<times> 8 word \<times> 8 word"
  sw_pid :: int
  sw_started :: string
  sw_finished :: string
  sw_now :: string
  sw_artifact_root :: string
  sw_artifact_faults :: artifact_faults
  sw_store_faults :: store_faults
  sw_cache_fails :: bool
  sw_bridge :: bridge_world
  sw_cold :: cold_world
  sw_finish :: finish_world

section \<open>The warm tier\<close>

definition bridge_eligible :: "service_request \<Rightarrow> bool" where
  "bridge_eligible q \<longleftrightarrow> sq_backend q = [] \<and> \<not> sq_force_shadow q \<and> \<not> sq_reset_shadow q \<and>
     \<not> sq_clear_cache q \<and> \<not> sq_disable_bridge q \<and> \<not> twoPhaseRequested (sq_config q) \<and>
     (BridgeEnabled (sq_config q) \<or> sq_force_bridge q)"

definition bridgeIdleDeadline :: "config \<Rightarrow> int" where
  "bridgeIdleDeadline c =
     (let total = to_total_ms (cf_timeout c) in if 0 < total \<and> total < 30000 then total else 30000)"

definition bridge_options :: "service_request \<Rightarrow> string \<Rightarrow> execute_options" where
  "bridge_options q resultsFile =
     \<lparr>eo_project_path = cf_project_path (sq_config q), eo_results_file = resultsFile,
      eo_timeout_type = ''total'', eo_filter = sq_filter q, eo_category = sq_category q,
      eo_test_platform = cf_test_platform (sq_config q), eo_compile_ms = 0, eo_test_ms = 0,
      eo_extra_args = []\<rparr>"

text \<open>What the warm tier did: not selected, refused by the probe, or executed.\<close>

datatype warm = Not_eligible | Refused probe_failure | Executed "status list" "workspace_metrics bridge_exec"

definition warm_tier :: "service_codecs \<Rightarrow> bridge_world \<Rightarrow> service_request \<Rightarrow> string \<Rightarrow> string \<Rightarrow> warm" where
  "warm_tier k w q runID resultsFile =
     (if \<not> bridge_eligible q then Not_eligible
      else case Probe (bw_probe w) (cf_project_path (sq_config q))
            (ExpectedUnityVersion (cf_unity_path (sq_config q)) (bw_version_file w)) (bw_now w) 0 of
          (h, Some f) \<Rightarrow> Refused f
        | (h, None) \<Rightarrow>
            (case ExecuteBridge (sc_xml k) (sc_float k) (bw_codecs w)
                (NewClientForHandshake (cf_project_path (sq_config q)) h) (bw_run w) (bw_ctx w) (bw_xml w)
                (bridge_options q resultsFile) runID (bridgeIdleDeadline (sq_config q)) of
               (trace, x) \<Rightarrow> Executed trace x))"

section \<open>The cold tiers\<close>

definition use_workspace :: "cold_world \<Rightarrow> service_request \<Rightarrow> bool" where
  "use_workspace w q \<longleftrightarrow>
     sq_backend q \<noteq> [] \<or> sq_force_shadow q \<or> sq_reset_shadow q \<or> cw_locked w"

text \<open>A legacy workspace as a lease; the key of the project and the cache decide its Library.\<close>

definition legacy_prepared ::
    "path_world \<Rightarrow> cold_world \<Rightarrow> service_request \<Rightarrow> string \<Rightarrow> string cache \<Rightarrow> prepared" where
  "legacy_prepared pw w q runID c =
     (let project = cf_project_path (sq_config q)
      in case fst (prepareLegacyWorkspace (sq_clear_cache q) (legacyCacheRoot pw project (sq_store_root q))
            (cw_key w) c (cw_prepare w) project runID (cw_before w) FileMissing) of
          Inl e \<Rightarrow> Inl \<lparr>pf_text = [], pf_permission = cw_permission w e, pf_pre_start = False\<rparr>
        | Inr ws \<Rightarrow> Inr \<lparr>le_workspace = ws,
            le_metrics = (prepareMetrics WorkspaceBackendLegacy)\<lparr>wm_preparation_ms := cw_preparation_ms w,
              wm_file_copy_ms := cw_copy_ms w, wm_library_ms := cw_library_ms w\<rparr>,
            le_vhdx = None, le_released = False, le_shell = True\<rparr>)"

definition prepare_workspace ::
    "cold_world \<Rightarrow> prepared \<Rightarrow> service_request \<Rightarrow> prepare_failure + lease option" where
  "prepare_workspace w legacy q =
     (if use_workspace w q
      then map_sum id Some (Provider_Prepare
        (if sq_backend q = [] then WorkspaceBackendLegacy else sq_backend q)
        legacy (cw_image w) (cw_vhdx w))
      else Inr None)"

definition cold_options :: "service_request \<Rightarrow> string \<Rightarrow> lease option \<Rightarrow> execute_options" where
  "cold_options q resultsFile l =
     \<lparr>eo_project_path = (case l of None \<Rightarrow> cf_project_path (sq_config q)
        | Some l \<Rightarrow> wk_shadow_path (le_workspace l)),
      eo_results_file = resultsFile, eo_timeout_type = ''total'', eo_filter = sq_filter q,
      eo_category = sq_category q, eo_test_platform = cf_test_platform (sq_config q),
      eo_compile_ms = to_compile_ms (cf_timeout (sq_config q)),
      eo_test_ms = to_test_ms (cf_timeout (sq_config q)),
      eo_extra_args = (if l = None then [] else [''-disable-assembly-updater''])\<rparr>"

definition execution_metrics :: "cold_world \<Rightarrow> result \<Rightarrow> workspace_metrics \<Rightarrow> workspace_metrics" where
  "execution_metrics w r m =
     (let test = cw_test_ms w (rr_tests r); startup = cw_execution_ms w - test
      in m\<lparr>wm_execution_ms := cw_execution_ms w, wm_test_ms := test,
           wm_startup_ms := (if startup < 0 then 0 else startup)\<rparr>)"

text \<open>Statuses, result, exit code, warnings, and the lease when a workspace was used.\<close>

definition cold_run ::
    "service_codecs \<Rightarrow> cold_world \<Rightarrow> prepared \<Rightarrow> service_request \<Rightarrow> string \<Rightarrow>
     prepare_failure + (status list \<times> result \<times> int \<times> warning list \<times> lease option)" where
  "cold_run k w legacy q resultsFile =
     bind_result (prepare_workspace w legacy q) (\<lambda>l.
       case Execute (sc_xml k) (sc_float k) (cw_run w) (cold_options q resultsFile l) of
         (trace, r, code) \<Rightarrow>
           Inr (trace, r\<lparr>rr_backend := (if l = None then backendProcess else backendShadow)\<rparr>, code,
             (case l of
                None \<Rightarrow> []
              | Some l \<Rightarrow> (if child_mounted l then
                  (case cw_monitor w of None \<Rightarrow> [] | Some e \<Rightarrow> [Safety_monitor e]) else [])),
             map_option (\<lambda>l. l\<lparr>le_metrics := execution_metrics w r (le_metrics l)\<rparr>) l))"

section \<open>Disclosures and comparison\<close>

definition disclosures ::
    "service_request \<Rightarrow> fallback_reason option \<Rightarrow> int \<Rightarrow> result \<Rightarrow> warning list" where
  "disclosures q reason code r =
     (case reason of
        Some f \<Rightarrow> (if sq_force_bridge q then [Bridge_unavailable f (rr_backend r)] else [])
      | None \<Rightarrow> []) @
     (if code = ExitNoTestsMatched then [No_tests_matched (sq_filter q) (sq_category q)]
      else if code = 0 \<and> rr_total r = 0 then [Zero_tests] else [])"

text \<open>A comparison that never happened is a nil list of new failures, with a warning.\<close>

definition compare_run ::
    "service_codecs \<Rightarrow> store_faults \<Rightarrow> service_request \<Rightarrow> store \<Rightarrow> result \<Rightarrow> result \<times> warning list" where
  "compare_run k flt q d r =
     (if sq_compare_run q = [] then (r, [])
      else case History.Load flt (sc_unmarshal k) (sq_compare_run q) d of
          Inr prev \<Rightarrow> (r\<lparr>rr_new_failures := Some (items (Compare (Some prev) (Some r)))\<rparr>, [])
        | Inl e \<Rightarrow> (r\<lparr>rr_new_failures := None\<rparr>, [Compare_not_found (sq_compare_run q) e]))"

definition relative_case :: "string \<Rightarrow> test_case \<Rightarrow> test_case" where
  "relative_case project t =
     (if tc_absolute_path t = [] then t else t\<lparr>tc_file := MakeRelative project (tc_absolute_path t)\<rparr>)"

definition relative_error :: "string \<Rightarrow> compile_error \<Rightarrow> compile_error" where
  "relative_error project e =
     (if ce_absolute_path e = [] then e else e\<lparr>ce_file := MakeRelative project (ce_absolute_path e)\<rparr>)"

definition normalise_paths :: "string \<Rightarrow> lease option \<Rightarrow> result \<Rightarrow> result" where
  "normalise_paths project l r =
     (let r1 = (case l of None \<Rightarrow> r | Some l \<Rightarrow> RemapPaths (le_workspace l) r)
      in r1\<lparr>rr_tests := map_option (map (relative_case project)) (rr_tests r1),
            rr_errors := map (relative_error project) (rr_errors r1),
            rr_new_failures := map_option (map (relative_case project)) (rr_new_failures r1)\<rparr>)"

section \<open>The end of a workspace\<close>

definition write_back_due :: "service_request \<Rightarrow> int \<Rightarrow> workspace_metrics \<Rightarrow> bool" where
  "write_back_due q code m \<longleftrightarrow> wm_backend m = WorkspaceBackendLegacy \<and>
     \<not> sq_skip_write_back q \<and> (code = 0 \<or> code = 3)"

definition write_back ::
    "finish_world \<Rightarrow> service_request \<Rightarrow> int \<Rightarrow> string cache \<Rightarrow> lease \<Rightarrow> warning list \<times> lease \<times> string cache" where
  "write_back w q code c l =
     (if write_back_due q code (le_metrics l)
      then (case UpdateLibraryCache (fi_cache_write w) (fi_key w) (fi_library w) c of (trace, err) \<Rightarrow>
          ((case err of None \<Rightarrow> [] | Some e \<Rightarrow> [Cache_not_updated e]),
           l\<lparr>le_metrics := (le_metrics l)\<lparr>wm_write_back_ms := fi_write_back_ms w\<rparr>\<rparr>, cache_after trace c))
      else ([], l, c))"

definition measured :: "finish_world \<Rightarrow> service_request \<Rightarrow> int \<Rightarrow> workspace_metrics \<Rightarrow> workspace_metrics \<times> int" where
  "measured w q code m0 =
     (let m = (case fi_usage w of None \<Rightarrow> m0
            | Some (logical, allocated) \<Rightarrow> m0\<lparr>wm_logical := logical, wm_physical := allocated,
                wm_added := wm_added m0 + allocated\<rparr>);
          persistent = (if wm_backend m = WorkspaceBackendImage then im_store_physical (wm_image m)
            else if wm_backend m = WorkspaceBackendVHDXDiff then vm_parent_allocated (wm_vhdx m)
            else case fi_cache_usage w of None \<Rightarrow> 0 | Some n \<Rightarrow> n);
          peak = (if wm_backend m = WorkspaceBackendImage then m
            else if wm_backend m = WorkspaceBackendVHDXDiff
            then updateObservedPeak m (persistent + vm_child_peak (wm_vhdx m) + wm_physical m)
            else updateObservedPeak m (wm_physical m +
              (if write_back_due q code m then fi_write_back_peak w else 0)))
      in (updateObservedPeak peak (persistent + wm_physical peak), persistent))"

definition child_bytes :: "workspace_metrics \<Rightarrow> int" where
  "child_bytes m = (if wm_backend m = WorkspaceBackendVHDXDiff then vm_child_peak (wm_vhdx m) else 0)"

text \<open>
  The release at the end, with the deferred second attempt when the first failed and the workspace
  is not kept: warnings, effects, and the lease with its final metrics.
\<close>

definition finish_workspace ::
    "finish_world \<Rightarrow> service_request \<Rightarrow> int \<Rightarrow> lease \<Rightarrow> warning list \<times> lease_effect list \<times> lease" where
  "finish_workspace w q code l0 =
     (case measured w q code (le_metrics l0) of (m, persistent) \<Rightarrow>
      (case lease_Release (sq_keep q) (fst (fi_release w)) (snd (fi_release w)) (l0\<lparr>le_metrics := m\<rparr>) of
         (err, effs, l1) \<Rightarrow>
           (let m1 = (le_metrics l1)\<lparr>wm_cleanup_ms := fi_cleanup_ms w\<rparr>;
                m2 = (if sq_keep q then m1\<lparr>wm_kept := True,
                    wm_retained := persistent + wm_physical m1 + child_bytes m1\<rparr>
                  else if err \<noteq> None then m1\<lparr>wm_retained := persistent + wm_physical m1\<rparr>
                  else m1\<lparr>wm_reclaimed := wm_physical m1 + child_bytes m1, wm_retained := persistent\<rparr>);
                l2 = l1\<lparr>le_metrics := m2\<rparr>;
                warnings = (case err of None \<Rightarrow> []
                  | Some e \<Rightarrow> [if sq_keep q then Retain_failed e else Cleanup_failed e])
            in if err = None \<or> sq_keep q then (warnings, effs, l2)
               else case lease_Release False (fst (fi_deferred w)) (snd (fi_deferred w)) l2 of
                   (_, effs', l3) \<Rightarrow> (warnings, effs @ effs', l3\<lparr>le_metrics := m2\<rparr>))))"

definition end_workspace ::
    "finish_world \<Rightarrow> service_request \<Rightarrow> int \<Rightarrow> string cache \<Rightarrow> lease option \<Rightarrow>
     warning list \<times> lease_effect list \<times> lease option \<times> string cache" where
  "end_workspace w q code c l0 =
     (case l0 of
        None \<Rightarrow> ([], [], None, c)
      | Some l \<Rightarrow>
          (case write_back w q code c l of (wb, l1, c1) \<Rightarrow>
           (case finish_workspace w q code l1 of (fin, effs, l2) \<Rightarrow> (wb @ fin, effs, Some l2, c1))))"

definition with_metrics :: "lease option \<Rightarrow> result \<Rightarrow> result" where
  "with_metrics l r = (case l of None \<Rightarrow> r | Some l \<Rightarrow> r\<lparr>rr_metrics := Some (le_metrics l)\<rparr>)"

section \<open>Persistence\<close>

definition buildSummary :: "string \<Rightarrow> result \<Rightarrow> int \<Rightarrow> summary" where
  "buildSummary runID r code =
     \<lparr>su_run_id = runID, su_exit_code = code, su_backend = rr_backend r, su_total = rr_total r,
      su_passed = rr_passed r, su_failed = rr_failed r, su_skipped = rr_skipped r,
      su_timeout_type = (if rr_timeout_type r = [] then None else Some (rr_timeout_type r)),
      su_metrics = rr_metrics r\<rparr>"

definition run_manifest :: "service_world \<Rightarrow> string \<Rightarrow> int \<Rightarrow> manifest" where
  "run_manifest w runID code =
     \<lparr>mf_schema_version = ''1'', mf_run_id = runID, mf_artifact_root = RunDir (sw_artifact_root w) runID,
      mf_results_xml = ResultsFilePath (sw_artifact_root w) runID,
      mf_stdout_log = StdoutFilePath (sw_artifact_root w) runID,
      mf_stderr_log = StderrFilePath (sw_artifact_root w) runID,
      mf_started_at = sw_started w, mf_finished_at = sw_finished w, mf_exit_code = code\<rparr>"

definition list_cache_due :: "service_request \<Rightarrow> int \<Rightarrow> bool" where
  "list_cache_due q code \<longleftrightarrow> \<not> sq_skip_write_back q \<and> sq_filter q = [] \<and> sq_category q = [] \<and>
     (code = 0 \<or> code = 3)"

definition persist ::
    "service_codecs \<Rightarrow> service_world \<Rightarrow> service_request \<Rightarrow> string \<Rightarrow> result \<Rightarrow> int \<Rightarrow> service_state \<Rightarrow>
     int \<times> warning list \<times> service_state" where
  "persist k w q runID r code0 s =
     (case Save (sw_store_faults w) (sc_marshal k) runID r (ss_store s) of (saved, store1) \<Rightarrow>
       (let cache1 = (if list_cache_due q code0
              then snd (Write (sw_cache_fails w) (sc_cache k) (sw_now w) runID (items (rr_tests r))
                \<lparr>md_full_inventory = True, md_test_platform = cf_test_platform (sq_config q)\<rparr> (ss_list_cache s))
              else ss_list_cache s);
            code1 = (case saved of Inl _ \<Rightarrow> 9 | Inr _ \<Rightarrow> code0)
        in case SaveSummary (sw_artifact_faults w) (sc_summary k) runID (buildSummary runID r code1)
              (ss_artifacts s) of (summarised, art1) \<Rightarrow>
           (let code2 = (case summarised of Inl _ \<Rightarrow> 9 | Inr _ \<Rightarrow> code1)
            in case SaveManifest (sw_artifact_faults w) (sc_manifest k) runID (run_manifest w runID code2) art1 of
                 (manifested, art2) \<Rightarrow>
                   (case manifested of Inl _ \<Rightarrow> 9 | Inr _ \<Rightarrow> code2,
                    (case saved of Inl e \<Rightarrow> [Result_not_saved e] | Inr _ \<Rightarrow> []) @
                    (case summarised of Inl e \<Rightarrow> [Summary_not_written e] | Inr _ \<Rightarrow> []) @
                    (case manifested of Inl e \<Rightarrow> [Manifest_not_written e] | Inr _ \<Rightarrow> []),
                    s\<lparr>ss_store := store1, ss_list_cache := cache1, ss_artifacts := art2\<rparr>))))"


section \<open>The whole run\<close>

definition check_request :: "path_world \<Rightarrow> service_request \<Rightarrow> service_error option" where
  "check_request w q =
     (if \<not> ValidWorkspaceBackend (sq_backend q) then Some Invalid_backend
      else if sq_backend q \<noteq> [] \<and> sq_force_bridge q then Some Bridge_with_backend
      else case resolveWorkspaceStoreRoot w (cf_project_path (sq_config q)) (sq_store_root q) of
          Inl e \<Rightarrow> Some (Bad_store_root e)
        | Inr _ \<Rightarrow> None)"

definition opening_status :: "service_world \<Rightarrow> string \<Rightarrow> status" where
  "opening_status w runID = (phase_status PhaseCompiling)\<lparr>st_started_at := sw_started w, st_pid := sw_pid w,
     st_artifact_root := RunDir (sw_artifact_root w) runID\<rparr>"

text \<open>
  What follows an execution: disclosures, comparison, paths, write-back, release and persistence.
  The lease is the workspace the run used, if any.
\<close>

record completion =
  co_response :: service_response
  co_effects :: "lease_effect list"
  co_lease :: "lease option"

definition complete ::
    "service_codecs \<Rightarrow> service_world \<Rightarrow> service_request \<Rightarrow> string \<Rightarrow> fallback_reason option \<Rightarrow> result \<Rightarrow> int \<Rightarrow>
     warning list \<Rightarrow> lease option \<Rightarrow> service_state \<Rightarrow> completion \<times> service_state" where
  "complete k w q runID reason r0 code ws0 l0 s =
     (let disclosed = disclosures q reason code r0;
          r1 = r0\<lparr>rr_run_id := runID, rr_schema_version := ''1'', rr_exit_code := code\<rparr>
      in case compare_run k (sw_store_faults w) q (ss_store s) r1 of (r2, compared) \<Rightarrow>
       (let r3 = normalise_paths (cf_project_path (sq_config q)) l0 r2
        in case end_workspace (sw_finish w) q code (ss_library_cache s) l0 of (ended, effs, l2, cache) \<Rightarrow>
               (let r4 = with_metrics l2 r3
                in case persist k w q runID r4 code (s\<lparr>ss_library_cache := cache\<rparr>) of (final, persisted, s') \<Rightarrow>
                    (\<lparr>co_response = \<lparr>sr_run_id = runID, sr_result = r4, sr_exit_code = final,
                        sr_warnings = ws0 @ disclosed @ compared @ ended @ persisted\<rparr>,
                      co_effects = effs, co_lease = l2\<rparr>, s'))))"

text \<open>
  The outcome of a run: an error, a completed run, or a bridge that has not answered yet; with the
  statuses written, each stamped with the run identifier, and the state.
\<close>

datatype service_outcome = Service_error service_error | Completed completion | Still_waiting

definition stamped :: "string \<Rightarrow> status list \<Rightarrow> status list" where
  "stamped runID = map (\<lambda>st. st\<lparr>st_run_id := runID\<rparr>)"

definition cold_path ::
    "service_codecs \<Rightarrow> service_world \<Rightarrow> service_request \<Rightarrow> string \<Rightarrow> fallback_reason option \<Rightarrow> service_state \<Rightarrow>
     service_outcome \<times> status list \<times> service_state" where
  "cold_path k w q runID reason s =
     (case cold_run k (sw_cold w) (legacy_prepared (sw_paths w) (sw_cold w) q runID (ss_library_cache s)) q
         (ResultsFilePath (sw_artifact_root w) runID) of
        Inl f \<Rightarrow> (Service_error (Prepare_workspace_failed f), [], s)
      | Inr (trace, r, code, ws, l) \<Rightarrow>
          (case complete k w q runID reason r code ws l s of (c, s') \<Rightarrow> (Completed c, trace, s')))"

definition execute_tiers ::
    "service_codecs \<Rightarrow> service_world \<Rightarrow> service_request \<Rightarrow> string \<Rightarrow> service_state \<Rightarrow>
     service_outcome \<times> status list \<times> service_state" where
  "execute_tiers k w q runID s =
     (case warm_tier k (sw_bridge w) q runID (ResultsFilePath (sw_artifact_root w) runID) of
        Not_eligible \<Rightarrow> cold_path k w q runID None s
      | Refused f \<Rightarrow> cold_path k w q runID (Some (Probe_refused f)) s
      | Executed trace x \<Rightarrow>
          (case x of
             Waiting \<Rightarrow> (Still_waiting, trace, s)
           | Fell_back \<Rightarrow>
               (case cold_path k w q runID (Some Declined) s of (out, trace', s') \<Rightarrow> (out, trace @ trace', s'))
           | Ran r code notes \<Rightarrow>
               (case complete k w q runID None (r\<lparr>rr_backend := backendBridge\<rparr>) code (map Bridge_note notes)
                   None s of (c, s') \<Rightarrow> (Completed c, trace, s'))))"

definition clear_cache :: "service_request \<Rightarrow> service_state \<Rightarrow> service_state" where
  "clear_cache q s =
     (if sq_clear_cache q \<and> sq_backend q \<noteq> WorkspaceBackendImage
      then s\<lparr>ss_library_cache := ClearCacheAt (ss_library_cache s)\<rparr> else s)"

definition Run ::
    "service_codecs \<Rightarrow> service_world \<Rightarrow> service_request \<Rightarrow> service_state \<Rightarrow>
     service_outcome \<times> status list \<times> service_state" where
  "Run k w q s =
     (let runID = Generate (sw_clock w) (sw_random w)
      in case check_request (sw_paths w) q of
          Some e \<Rightarrow> (Service_error e, [], s)
        | None \<Rightarrow>
            (case PrepareRunDir (sw_artifact_faults w) runID (ss_artifacts s) of
               (Inl e, art) \<Rightarrow> (Service_error (Prepare_dir_failed e), [], s\<lparr>ss_artifacts := art\<rparr>)
             | (Inr _, art) \<Rightarrow>
                 (case OpenRunLogs (sw_artifact_faults w) runID art of
                    (Inl e, art') \<Rightarrow> (Service_error (Open_logs_failed e), [], s\<lparr>ss_artifacts := art'\<rparr>)
                  | (Inr _, art') \<Rightarrow>
                      (case execute_tiers k w q runID (clear_cache q (s\<lparr>ss_artifacts := art'\<rparr>)) of
                         (out, trace, s') \<Rightarrow> (out, stamped runID (opening_status w runID # trace), s')))))"

end
