(* ===== verification/RunServiceProps.thy ===== *)
theory RunServiceProps
  imports RunService
begin

text \<open>
  What a run guarantees, over the model of \<^verbatim>\<open>Service.Run\<close>: what exit 0 leaves on disk,
  which runs may vouch for the test inventory, disclosure of a refused bridge and of a comparison
  that did not happen, the statuses a poller sees, and the end of the workspace.
\<close>

section \<open>What completing a run keeps\<close>

lemma rr_update_frame [simp]:
  "rr_total (RemapPaths ws r) = rr_total r" "rr_exit_code (RemapPaths ws r) = rr_exit_code r"
  "rr_backend (RemapPaths ws r) = rr_backend r"
  "rr_new_failures (RemapPaths ws r) = map_option (map (remap_case ws)) (rr_new_failures r)"
  by (simp_all add: RemapPaths_def)

lemma normalise_frame [simp]:
  "rr_total (normalise_paths p l r) = rr_total r" "rr_exit_code (normalise_paths p l r) = rr_exit_code r"
  "rr_backend (normalise_paths p l r) = rr_backend r"
  "rr_new_failures (normalise_paths p l r) = None \<longleftrightarrow> rr_new_failures r = None"
  by (simp_all add: normalise_paths_def Let_def split: option.split)

definition compared :: "service_request \<Rightarrow> warning list \<Rightarrow> bool" where
  "compared q ws \<longleftrightarrow> sq_compare_run q \<noteq> [] \<and> (\<forall>i e. Compare_not_found i e \<notin> set ws)"

lemma compare_run_frame:
  assumes "compare_run k flt q d r = (r', ws)"
  shows "rr_total r' = rr_total r \<and> rr_exit_code r' = rr_exit_code r \<and> rr_backend r' = rr_backend r \<and>
    (rr_new_failures r = None \<longrightarrow> (rr_new_failures r' \<noteq> None \<longleftrightarrow> compared q ws)) \<and>
    (\<forall>x \<in> set ws. \<exists>i e. x = Compare_not_found i e)"
  using assms by (auto simp: compare_run_def compared_def split: if_splits sum.splits)

lemma write_back_lease: "write_back w q code c l = (ws, l', c') \<Longrightarrow> le_released l' = le_released l \<and>
    le_vhdx l' = le_vhdx l \<and> le_shell l' = le_shell l \<and> set ws \<subseteq> range Cache_not_updated"
  by (auto simp: write_back_def split: if_splits option.splits prod.splits)

definition release_note :: "warning \<Rightarrow> bool" where
  "release_note x = (case x of Cache_not_updated _ \<Rightarrow> True | Retain_failed _ \<Rightarrow> True
     | Cleanup_failed _ \<Rightarrow> True | _ \<Rightarrow> False)"

definition persist_note :: "warning \<Rightarrow> bool" where
  "persist_note x = (case x of Result_not_saved _ \<Rightarrow> True | Summary_not_written _ \<Rightarrow> True
     | Manifest_not_written _ \<Rightarrow> True | _ \<Rightarrow> False)"

lemma finish_notes:
  "finish_workspace w q code l = (ws, effs, l') \<Longrightarrow> \<forall>x \<in> set ws. release_note x"
  by (auto simp: finish_workspace_def Let_def release_note_def split: prod.splits option.splits if_splits)

lemma write_back_notes: "write_back w q code c l = (ws, l', c') \<Longrightarrow> \<forall>x \<in> set ws. release_note x"
  by (auto simp: write_back_def release_note_def split: if_splits option.splits prod.splits)

lemma persist_notes:
  "persist k w q runID r code s = (final, ws, s') \<Longrightarrow> \<forall>x \<in> set ws. persist_note x"
  by (auto simp: persist_def Let_def persist_note_def split: prod.splits sum.splits)

lemma end_workspace_notes:
  "end_workspace w q code c l0 = (ws, effs, l, c') \<Longrightarrow> \<forall>x \<in> set ws. release_note x"
  using write_back_notes finish_notes
  by (fastforce simp: end_workspace_def split: option.splits prod.splits)

lemma with_metrics_frame [simp]:
  "rr_exit_code (with_metrics l r) = rr_exit_code r" "rr_total (with_metrics l r) = rr_total r"
  "rr_backend (with_metrics l r) = rr_backend r" "rr_new_failures (with_metrics l r) = rr_new_failures r"
  "rr_tests (with_metrics l r) = rr_tests r"
  by (simp_all add: with_metrics_def split: option.split)

text \<open>A completed run in terms of what was executed and what was persisted.\<close>

lemma complete_cases:
  assumes "complete k w q runID reason r0 code ws0 l0 s = (c, s')"
  obtains final persisted compared_ws ended where
    "persist k w q runID (sr_result (co_response c)) code (s\<lparr>ss_library_cache := ss_library_cache s'\<rparr>) =
       (final, persisted, s')"
    "sr_exit_code (co_response c) = final" "sr_run_id (co_response c) = runID"
    "sr_warnings (co_response c) = ws0 @ disclosures q reason code r0 @ compared_ws @ ended @ persisted"
    "rr_exit_code (sr_result (co_response c)) = code" "rr_total (sr_result (co_response c)) = rr_total r0"
    "rr_backend (sr_result (co_response c)) = rr_backend r0"
    "rr_new_failures r0 = None \<longrightarrow>
       (rr_new_failures (sr_result (co_response c)) \<noteq> None \<longleftrightarrow> compared q compared_ws)"
    "\<forall>x \<in> set compared_ws. \<exists>i e. x = Compare_not_found i e" "\<forall>x \<in> set ended. release_note x"
    "\<forall>x \<in> set persisted. persist_note x"
proof -
  let ?r1 = "r0\<lparr>rr_run_id := runID, rr_schema_version := ''1'', rr_exit_code := code\<rparr>"
  obtain r2 cw where r2: "compare_run k (sw_store_faults w) q (ss_store s) ?r1 = (r2, cw)" by fastforce
  note frame = compare_run_frame [OF r2]
  let ?r3 = "normalise_paths (cf_project_path (sq_config q)) l0 r2"
  obtain ended effs l2 cache where
    fin: "end_workspace (sw_finish w) q code (ss_library_cache s) l0 = (ended, effs, l2, cache)"
    by (metis prod_cases4)
  let ?r4 = "with_metrics l2 ?r3"
  obtain final persisted s2 where
    p: "persist k w q runID ?r4 code (s\<lparr>ss_library_cache := cache\<rparr>) = (final, persisted, s2)"
    by (metis prod_cases3)
  have same: "ss_library_cache s2 = cache"
    using p by (auto simp: persist_def Let_def split: prod.splits)
  have c: "c = \<lparr>co_response = \<lparr>sr_run_id = runID, sr_result = ?r4, sr_exit_code = final,
      sr_warnings = ws0 @ disclosures q reason code r0 @ cw @ ended @ persisted\<rparr>,
      co_effects = effs, co_lease = l2\<rparr>" "s' = s2"
    using assms fin p r2 by (simp_all add: complete_def Let_def)
  show ?thesis
    by (rule that [of final persisted cw ended])
      (use c p same frame end_workspace_notes [OF fin] persist_notes [OF p] in simp_all)
qed

section \<open>The two ways a run completes\<close>

text \<open>What executed the tests: result, exit code, statuses and the first warnings.\<close>

lemma cold_path_cases:
  assumes "cold_path k w q runID reason s = (Completed c, trace, s')"
  obtains r code ws l where
    "cold_run k (sw_cold w) (legacy_prepared (sw_paths w) (sw_cold w) q runID (ss_library_cache s)) q
       (ResultsFilePath (sw_artifact_root w) runID) = Inr (trace, r, code, ws, l)"
    "complete k w q runID reason r code ws l s = (c, s')"
  using assms by (auto simp: cold_path_def split: sum.splits prod.splits)

lemma cold_run_cases:
  assumes "cold_run k w legacy q file = Inr (trace, r, code, ws, l)"
  obtains r' :: "workspace_metrics run_result" where "Execute (sc_xml k) (sc_float k) (cw_run w) (cold_options q file
      (case prepare_workspace w legacy q of Inr x \<Rightarrow> x | Inl _ \<Rightarrow> None)) = (trace, r', code)"
    "r = r'\<lparr>rr_backend := (if l = None then backendProcess else backendShadow)\<rparr>"
    "\<forall>x \<in> set ws. \<exists>e. x = Safety_monitor e"
proof -
  obtain l0 where l0: "prepare_workspace w legacy q = Inr l0"
    using assms by (auto simp: cold_run_def bind_result_Inr_iff)
  obtain t c and r' :: "workspace_metrics run_result" where
    e: "Execute (sc_xml k) (sc_float k) (cw_run w) (cold_options q file l0) = (t, r', c)"
    by (metis prod_cases3)
  show ?thesis
    by (rule that [of r'])
      (use assms l0 e in \<open>auto simp: cold_run_def bind_result_def split: option.splits if_splits\<close>)
qed

lemma execute_tiers_cases:
  assumes "execute_tiers k w q runID s = (Completed c, trace, s')"
  obtains (bridge) r code nts where
      "warm_tier k (sw_bridge w) q runID (ResultsFilePath (sw_artifact_root w) runID) = Executed trace (Ran r code nts)"
      "complete k w q runID None (r\<lparr>rr_backend := backendBridge\<rparr>) code (map Bridge_note nts) None s = (c, s')"
  | (cold) reason sts trace' where "cold_path k w q runID reason s = (Completed c, trace', s')"
      "trace = sts @ trace'" "reason \<noteq> None \<longleftrightarrow> bridge_eligible q"
      "sts = [] \<or> warm_tier k (sw_bridge w) q runID (ResultsFilePath (sw_artifact_root w) runID) = Executed sts Fell_back"
proof (cases "warm_tier k (sw_bridge w) q runID (ResultsFilePath (sw_artifact_root w) runID)")
  case Not_eligible
  then have "\<not> bridge_eligible q" by (auto simp: warm_tier_def split: if_splits prod.splits option.splits)
  then show ?thesis using assms Not_eligible cold [of None trace "[]"] by (simp add: execute_tiers_def)
next
  case (Refused f)
  then have "bridge_eligible q" by (auto simp: warm_tier_def split: if_splits)
  then show ?thesis using assms Refused cold [of "Some (Probe_refused f)" trace "[]"]
    by (simp add: execute_tiers_def)
next
  case (Executed sts x)
  then have e: "bridge_eligible q" by (auto simp: warm_tier_def split: if_splits)
  show ?thesis
  proof (cases x)
    case Fell_back
    then obtain trace' where "cold_path k w q runID (Some Declined) s = (Completed c, trace', s')" "trace = sts @ trace'"
      using assms Executed by (auto simp: execute_tiers_def split: prod.splits)
    then show ?thesis using cold [of "Some Declined" trace' sts] e Executed Fell_back by simp
  next
    case (Ran r code nts)
    then show ?thesis using assms Executed bridge by (auto simp: execute_tiers_def split: prod.splits)
  next
    case Waiting
    then show ?thesis using assms Executed by (simp add: execute_tiers_def)
  qed
qed

lemma Run_Completed:
  assumes "Run k w q s = (Completed c, trace, s')"
  obtains art trace' where
    "execute_tiers k w q (Generate (sw_clock w) (sw_random w)) (clear_cache q (s\<lparr>ss_artifacts := art\<rparr>)) = (Completed c, trace', s')"
    "trace = stamped (Generate (sw_clock w) (sw_random w))
       (opening_status w (Generate (sw_clock w) (sw_random w)) # trace')"
  using assms by (auto simp: Run_def Let_def split: option.splits sum.splits prod.splits)

section \<open>What reaches the completion step\<close>

definition early_note :: "warning \<Rightarrow> bool" where
  "early_note x = (case x of Bridge_note _ \<Rightarrow> True | Safety_monitor _ \<Rightarrow> True | _ \<Rightarrow> False)"

lemma Execute_no_comparison:
  assumes "Execute x pf run (cold_options q file l) = (t, r, code)"
  shows "rr_new_failures r = None"
proof -
  have "eo_timeout_type (cold_options q file l) = ''total''" by (simp add: cold_options_def)
  then have "outcome_ok (t, r, code)" unfolding assms [symmetric]
    by (simp add: Execute_def executeSinglePhase_ok executeTwoPhase_ok)
  then show ?thesis by (simp add: outcome_ok_def consistent_outcome_def)
qed

lemma warm_tier_Executed:
  assumes "warm_tier k w q runID file = Executed sts x"
  obtains progress final where "sts = phase_status PhaseCompiling # progress @ final"
    "filter terminal_phase (map st_phase progress) = []" "final_ok (final, x)" "bridge_eligible q"
proof -
  obtain h where e: "bridge_eligible q" "ExecuteBridge (sc_xml k) (sc_float k) (bw_codecs w)
      (NewClientForHandshake (cf_project_path (sq_config q)) h) (bw_run w) (bw_ctx w) (bw_xml w)
      (bridge_options q file) runID (bridgeIdleDeadline (sq_config q)) = (sts, x)"
    using assms by (auto simp: warm_tier_def split: if_splits prod.splits option.splits)
  show ?thesis using ExecuteBridge_split that e by (metis Pair_inject)
qed

text \<open>Every completed run completes one execution, on the state the opening left.\<close>

lemma Run_complete_cases:
  assumes "Run k w q s = (Completed c, trace, s')"
  obtains reason r code ws l s1 where
    "complete k w q (Generate (sw_clock w) (sw_random w)) reason r code ws l s1 = (c, s')"
    "ss_store s1 = ss_store s" "ss_list_cache s1 = ss_list_cache s"
    "\<forall>x \<in> set ws. early_note x" "rr_new_failures r = None"
    "if rr_backend r = backendBridge then bridge_eligible q \<and> reason = None
     else reason \<noteq> None \<longleftrightarrow> bridge_eligible q"
proof -
  let ?i = "Generate (sw_clock w) (sw_random w)"
  obtain s1 t where s1: "ss_store s1 = ss_store s" "ss_list_cache s1 = ss_list_cache s"
      and e: "execute_tiers k w q ?i s1 = (Completed c, t, s')"
    by (rule Run_Completed [OF assms], rule that) (simp_all add: clear_cache_def)
  have names: "backendProcess \<noteq> backendBridge" "backendShadow \<noteq> backendBridge"
    by (simp_all add: backendProcess_def backendShadow_def backendBridge_def)
  from e show ?thesis
  proof (cases rule: execute_tiers_cases)
    case (bridge r code nts)
    obtain final where "final_ok (final, Ran r code nts)" "bridge_eligible q"
      by (rule warm_tier_Executed [OF bridge(1)])
    then show ?thesis using that [OF bridge(2) s1] by (auto simp: early_note_def final_ok_def)
  next
    case (cold reason sts t')
    obtain r code ws l where c: "cold_run k (sw_cold w) (legacy_prepared (sw_paths w) (sw_cold w) q ?i
        (ss_library_cache s1)) q (ResultsFilePath (sw_artifact_root w) ?i) = Inr (t', r, code, ws, l)"
      "complete k w q ?i reason r code ws l s1 = (c, s')"
      by (rule cold_path_cases [OF cold(1)])
    obtain r' where r': "rr_new_failures r' = None"
        "r = r'\<lparr>rr_backend := (if l = None then backendProcess else backendShadow)\<rparr>"
        "\<forall>x \<in> set ws. \<exists>e. x = Safety_monitor e"
      by (rule cold_run_cases [OF c(1)]) (blast dest: Execute_no_comparison)
    have "\<forall>x \<in> set ws. early_note x" using r'(3) by (auto simp: early_note_def)
    then show ?thesis using that [OF c(2) s1] r' cold(3) names by simp
  qed
qed

section \<open>Persistence\<close>

lemma write_artifact_success:
  assumes "write_artifact flt i n data d = (Inr u, d')"
  obtains files where "map_of (items d) i = Some (Dir_node files)"
    "map_of (items d') i = Some (Dir_node (put n data files))"
  using assms by (auto simp: write_artifact_def split: option.splits node.splits if_splits)

lemma persist_code: "persist k w q i r code s = (final, ws, s') \<Longrightarrow> final = (if ws = [] then code else 9)"
  by (auto simp: persist_def Let_def split: prod.splits sum.splits)

lemma persist_zero:
  assumes "persist k w q i r code s = (0, ws, s')"
  shows "code = 0 \<and> (\<exists>data sum man files. map_of (items (ss_store s')) (result_file i) = Some (File_node data) \<and>
     sc_marshal k r = Some data \<and> map_of (items (ss_artifacts s')) i = Some (Dir_node files) \<and>
     map_of files ''summary.json'' = Some sum \<and> sc_summary k (buildSummary i r 0) = Some sum \<and>
     map_of files ''manifest.json'' = Some man \<and> sc_manifest k (run_manifest w i 0) = Some man)"
proof -
  obtain st art1 where saved: "Save (sw_store_faults w) (sc_marshal k) i r (ss_store s) = (Inr (), st)" "code = 0"
    and sum: "SaveSummary (sw_artifact_faults w) (sc_summary k) i (buildSummary i r 0) (ss_artifacts s) = (Inr (), art1)"
    and man: "SaveManifest (sw_artifact_faults w) (sc_manifest k) i (run_manifest w i 0) art1 = (Inr (), ss_artifacts s')"
    and s': "ss_store s' = st"
    using assms by (auto simp: persist_def Let_def split: prod.splits sum.splits)
  obtain sd md where data: "sc_summary k (buildSummary i r 0) = Some sd" "sc_manifest k (run_manifest w i 0) = Some md"
    and writes: "write_artifact (sw_artifact_faults w) i ''summary.json'' sd (ss_artifacts s) = (Inr (), art1)"
      "write_artifact (sw_artifact_faults w) i ''manifest.json'' md art1 = (Inr (), ss_artifacts s')"
    using sum man by (auto simp: SaveSummary_def SaveManifest_def split: option.splits)
  obtain f1 where f1: "map_of (items art1) i = Some (Dir_node (put ''summary.json'' sd f1))"
    by (rule write_artifact_success [OF writes(1)])
  obtain f2 where f2: "map_of (items art1) i = Some (Dir_node f2)"
      "map_of (items (ss_artifacts s')) i = Some (Dir_node (put ''manifest.json'' md f2))"
    by (rule write_artifact_success [OF writes(2)])
  show ?thesis using Save_success [OF saved(1)] s' saved(2) data f1 f2 by auto
qed

lemma persist_cache:
  assumes "persist k w q i r code s = (final, ws, s')"
  shows "ss_list_cache s' = ss_list_cache s \<or> list_cache_due q code \<and>
    (\<exists>data. ss_list_cache s' = FileBytes data \<and> sc_cache k \<lparr>lc_schema_version = SchemaVersion,
       lc_cached_run_id = i, lc_cached_at = sw_now w, lc_full_inventory = True,
       lc_test_platform = cf_test_platform (sq_config q),
       lc_tests = Some (test_names (items (rr_tests r)))\<rparr> = Some data)"
  using assms by (auto simp: persist_def Let_def Write_def split: prod.splits sum.splits option.splits if_splits)

section \<open>What a completed run discloses\<close>

lemma note_kinds:
  "early_note x \<Longrightarrow> \<not> persist_note x \<and> x \<noteq> Zero_tests \<and> x \<noteq> Bridge_unavailable f b \<and> x \<noteq> Compare_not_found i e"
  "release_note x \<Longrightarrow> \<not> persist_note x \<and> x \<noteq> Zero_tests \<and> x \<noteq> Bridge_unavailable f b \<and> x \<noteq> Compare_not_found i e"
  "persist_note x \<Longrightarrow> x \<noteq> Zero_tests \<and> x \<noteq> Bridge_unavailable f b \<and> x \<noteq> Compare_not_found i e"
  by (cases x; simp add: early_note_def release_note_def persist_note_def)+

lemma disclosures_kinds:
  "\<forall>x \<in> set (disclosures q reason code r). \<not> persist_note x \<and> (\<forall>i e. x \<noteq> Compare_not_found i e)"
  "Zero_tests \<in> set (disclosures q reason code r) \<longleftrightarrow> code = 0 \<and> rr_total r = 0"
  "(\<exists>f b. Bridge_unavailable f b \<in> set (disclosures q reason code r)) \<longleftrightarrow> reason \<noteq> None \<and> sq_force_bridge q"
  by (auto simp: disclosures_def persist_note_def ExitNoTestsMatched_def split: option.splits)

lemma Run_disclosures:
  assumes "Run k w q s = (Completed c, trace, s')"
  defines "res \<equiv> sr_result (co_response c)" and "ws \<equiv> set (sr_warnings (co_response c))"
  shows "sr_exit_code (co_response c) = (if \<exists>x \<in> ws. persist_note x then 9 else rr_exit_code res)"
    "Zero_tests \<in> ws \<longleftrightarrow> rr_exit_code res = 0 \<and> rr_total res = 0"
    "(\<exists>f b. Bridge_unavailable f b \<in> ws) \<longleftrightarrow>
       sq_force_bridge q \<and> bridge_eligible q \<and> rr_backend res \<noteq> backendBridge"
    "rr_new_failures res \<noteq> None \<longleftrightarrow> sq_compare_run q \<noteq> [] \<and> (\<forall>i e. Compare_not_found i e \<notin> ws)"
proof -
  obtain reason r code ws0 l s1 where run:
    "complete k w q (Generate (sw_clock w) (sw_random w)) reason r code ws0 l s1 = (c, s')"
    "\<forall>x \<in> set ws0. early_note x" "rr_new_failures r = None"
    "if rr_backend r = backendBridge then bridge_eligible q \<and> reason = None
     else reason \<noteq> None \<longleftrightarrow> bridge_eligible q"
    by (rule Run_complete_cases [OF assms(1)])
  obtain final persisted cw ended where p:
    "persist k w q (Generate (sw_clock w) (sw_random w)) res code
      (s1\<lparr>ss_library_cache := ss_library_cache s'\<rparr>) = (final, persisted, s')"
    "sr_exit_code (co_response c) = final"
    "ws = set ws0 \<union> set (disclosures q reason code r) \<union> set cw \<union> set ended \<union> set persisted"
    "rr_exit_code res = code" "rr_total res = rr_total r" "rr_backend res = rr_backend r"
    "rr_new_failures res \<noteq> None \<longleftrightarrow> compared q cw"
    "\<forall>x \<in> set cw. \<exists>i e. x = Compare_not_found i e" "\<forall>x \<in> set ended. release_note x"
    "\<forall>x \<in> set persisted. persist_note x"
    by (rule complete_cases [OF run(1)]) (simp add: res_def ws_def run(3) Un_assoc)
  have cw: "x \<in> set cw \<Longrightarrow> \<not> persist_note x \<and> x \<noteq> Zero_tests \<and> x \<noteq> Bridge_unavailable f b" for x f b
    using p(8) by (auto simp: persist_note_def)
  have mem: "x \<in> ws \<longleftrightarrow> x \<in> set ws0 \<or> x \<in> set (disclosures q reason code r) \<or> x \<in> set cw \<or>
      x \<in> set ended \<or> x \<in> set persisted" for x
    using p(3) by blast
  have "(\<exists>x \<in> ws. persist_note x) \<longleftrightarrow> persisted \<noteq> []"
    using mem note_kinds(1,2) run(2) p(9,10) disclosures_kinds(1) cw
    by (metis list.set_intros(1) neq_Nil_conv empty_iff empty_set)
  then show "sr_exit_code (co_response c) = (if \<exists>x \<in> ws. persist_note x then 9 else rr_exit_code res)"
    using persist_code [OF p(1)] p(2,4) by simp
  show "Zero_tests \<in> ws \<longleftrightarrow> rr_exit_code res = 0 \<and> rr_total res = 0"
    using mem [of Zero_tests] run(2) p(9,10) cw note_kinds disclosures_kinds(2) p(4,5) by metis
  show "(\<exists>f b. Bridge_unavailable f b \<in> ws) \<longleftrightarrow>
       sq_force_bridge q \<and> bridge_eligible q \<and> rr_backend res \<noteq> backendBridge"
  proof -
    have "Bridge_unavailable f b \<in> ws \<longleftrightarrow> Bridge_unavailable f b \<in> set (disclosures q reason code r)" for f b
      using mem [of "Bridge_unavailable f b"] run(2) p(9,10) cw note_kinds by metis
    then have "(\<exists>f b. Bridge_unavailable f b \<in> ws) \<longleftrightarrow> reason \<noteq> None \<and> sq_force_bridge q"
      by (simp only: disclosures_kinds(3))
    then show ?thesis using run(4) p(6) by (auto split: if_splits)
  qed
  show "rr_new_failures res \<noteq> None \<longleftrightarrow> sq_compare_run q \<noteq> [] \<and> (\<forall>i e. Compare_not_found i e \<notin> ws)"
  proof -
    have "Compare_not_found i e \<in> ws \<longleftrightarrow> Compare_not_found i e \<in> set cw" for i e
      using mem [of "Compare_not_found i e"] run(2) p(9,10) note_kinds disclosures_kinds(1) by metis
    then show ?thesis using p(7) by (simp add: compared_def)
  qed
qed

section \<open>A concrete run\<close>

text \<open>
  An unfiltered run in the project itself, with the bridge disabled: Unity exits 0 with an empty
  results file, and every write succeeds.
\<close>

definition demo_config :: config where
  "demo_config = sample_config\<lparr>cf_unity_path := ''/opt/Unity'', cf_project_path := ''/work/game'',
     cf_result_dir := ''/work/game/.testplay/results'',
     cf_timeout := \<lparr>to_compile_ms = 0, to_test_ms = 0, to_total_ms = 300000\<rparr>,
     cf_test_platform := ''edit_mode'', cf_max_runs := Some 30\<rparr>"

definition demo_request :: service_request where
  "demo_request = \<lparr>sq_config = demo_config, sq_filter = [], sq_category = [], sq_compare_run = [],
     sq_reset_shadow = False, sq_force_shadow = False, sq_clear_cache = False, sq_skip_write_back = False,
     sq_force_bridge = False, sq_disable_bridge = True, sq_backend = [], sq_keep = False, sq_store_root = []\<rparr>"

definition demo_id_value :: string where
  "demo_id_value = ''20260102-030405-000102ff''"

definition demo_cache :: list_cache where
  "demo_cache = \<lparr>lc_schema_version = SchemaVersion, lc_cached_run_id = demo_id_value, lc_cached_at = [],
     lc_full_inventory = True, lc_test_platform = ''edit_mode'', lc_tests = Some []\<rparr>"

definition demo_codecs :: service_codecs where
  "demo_codecs = \<lparr>sc_xml = (\<lambda>_. Inr \<lparr>xr_total = 0, xr_passed = 0, xr_failed = 0, xr_skipped = 0,
       xr_duration = [], xr_test_suites = []\<rparr>), sc_float = (\<lambda>_. (0, True)),
     sc_marshal = (\<lambda>_. Some ''r''), sc_unmarshal = (\<lambda>_. None), sc_summary = (\<lambda>_. Some ''s''),
     sc_manifest = (\<lambda>_. Some ''m''), sc_cache = (\<lambda>c. if c = demo_cache then Some ''c'' else None)\<rparr>"

definition demo_failure :: prepare_failure where
  "demo_failure = \<lparr>pf_text = ''x'', pf_permission = False, pf_pre_start = True\<rparr>"

definition demo_world :: service_world where
  "demo_world = \<lparr>sw_paths = \<lparr>xw_is_dir = (\<lambda>_. None), xw_resolve = (\<lambda>_. None), xw_hash8 = (\<lambda>x. x)\<rparr>,
     sw_clock = \<lparr>year = 2026, month = 1, day = 2, hour = 3, minute = 4, second = 5\<rparr>,
     sw_random = (0, 1, 2, 255), sw_pid = 1, sw_started = [], sw_finished = [], sw_now = [],
     sw_artifact_root = ''/a'',
     sw_artifact_faults = \<lparr>af_mkdir = False, af_write = (\<lambda>_. False), af_list = False, af_remove = (\<lambda>_. None)\<rparr>,
     sw_store_faults = no_faults, sw_cache_fails = False,
     sw_bridge = \<lparr>bw_probe = \<lparr>pw_handshake = None, pw_decode = (\<lambda>_. None), pw_eval_symlinks = (\<lambda>_. None),
         pw_parse_time = (\<lambda>_. None)\<rparr>, bw_version_file = None, bw_now = 0, bw_codecs = sample_codecs,
       bw_run = sample_world [], bw_ctx = Alive, bw_xml = None\<rparr>,
     sw_cold = \<lparr>cw_locked = False, cw_key = None, cw_prepare = sample_prepare_world,
       cw_before = None, cw_permission = (\<lambda>_. False), cw_preparation_ms = 0, cw_copy_ms = 0, cw_library_ms = 0,
       cw_image = Inl demo_failure,
       cw_vhdx = Inl demo_failure,
       cw_run = (\<lambda>_ _. \<lparr>iv_exit = 0, iv_err = None, iv_stderr = [], iv_outer = Alive, iv_results = Some []\<rparr>),
       cw_monitor = None, cw_execution_ms = 0, cw_test_ms = (\<lambda>_. 0)\<rparr>,
     sw_finish = \<lparr>fi_library = None, fi_key = None, fi_cache_write = sample_write_back, fi_write_back_ms = 0, fi_write_back_peak = 0, fi_usage = None,
       fi_cache_usage = None, fi_release = (None, None), fi_deferred = (None, None), fi_cleanup_ms = 0\<rparr>\<rparr>"

definition demo_state :: service_state where
  "demo_state = \<lparr>ss_artifacts = None, ss_store = None, ss_list_cache = FileMissing,
     ss_library_cache = empty_cache\<rparr>"

lemma demo_id: "Generate (sw_clock demo_world) (sw_random demo_world) = ''20260102-030405-000102ff''"
  by code_simp

text \<open>A request for an unfiltered single-phase cold run in the project itself, in the demo world.\<close>

definition plain_request :: "service_request \<Rightarrow> bool" where
  "plain_request q \<longleftrightarrow> sq_disable_bridge q \<and> sq_backend q = [] \<and> \<not> sq_force_shadow q \<and> \<not> sq_reset_shadow q \<and>
     \<not> sq_clear_cache q \<and> sq_compare_run q = [] \<and> sq_filter q = [] \<and> sq_category q = [] \<and>
     to_compile_ms (cf_timeout (sq_config q)) = 0 \<and> check_request (sw_paths demo_world) q = None"

lemma demo_plain: "plain_request demo_request"
  by code_simp

lemma plain_warm: "plain_request q \<Longrightarrow> warm_tier k w q i f = Not_eligible"
  by (simp add: warm_tier_def bridge_eligible_def plain_request_def)

lemma plain_clear: "plain_request q \<Longrightarrow> clear_cache q s = s"
  by (simp add: clear_cache_def plain_request_def)

definition demo_result :: result where
  "demo_result = (plain_result 0 [])\<lparr>rr_backend := backendProcess\<rparr>"

lemma no_stderr_no_errors: "ParseCompileErrorsWithProject [] p = []"
  by (simp add: ParseCompileErrorsWithProject_def match_line_def)

lemma demo_parse: "Parse (\<lambda>_. (0, True)) (Some \<lparr>xr_total = 0, xr_passed = 0, xr_failed = 0, xr_skipped = 0,
       xr_duration = [], xr_test_suites = []\<rparr>) =
     Some \<lparr>nr_total = 0, nr_passed = 0, nr_failed = 0, nr_skipped = 0, nr_duration = 0, nr_tests = []\<rparr>"
  by code_simp

lemma demo_execution:
  assumes "plain_request q"
  shows "Execute (sc_xml demo_codecs) (sc_float demo_codecs) (cw_run (sw_cold demo_world)) (cold_options q f None) =
    ([phase_status PhaseCompiling, (phase_status PhaseDone)\<lparr>st_exit_code := Some 0\<rparr>], plain_result 0 [], 0)"
  using assms
  by (simp add: Execute_def executeSinglePhase_def cold_options_def plain_request_def demo_world_def
      demo_codecs_def writing_def stderr_tail_eq parseResultsCore_def no_stderr_no_errors demo_parse Let_def
      phase_status_def plain_result_def zero_result_def zero_status_def)

lemma demo_cold:
  assumes "plain_request q"
  shows "cold_run demo_codecs (sw_cold demo_world) legacy q f =
    Inr ([phase_status PhaseCompiling, (phase_status PhaseDone)\<lparr>st_exit_code := Some 0\<rparr>], demo_result, 0, [], None)"
proof -
  have "prepare_workspace (sw_cold demo_world) legacy q = Inr None" using assms
    by (simp add: prepare_workspace_def use_workspace_def demo_world_def plain_request_def)
  then show ?thesis by (simp add: cold_run_def demo_execution [OF assms] demo_result_def)
qed

lemma demo_opened: "PrepareRunDir (sw_artifact_faults demo_world) i None = (Inr (), Some [(i, Dir_node [])])"
  "OpenRunLogs (sw_artifact_faults demo_world) i (Some [(i, Dir_node [])]) =
     (Inr (), Some [(i, Dir_node [(''stdout.log'', []), (''stderr.log'', [])])])"
  by (simp_all add: PrepareRunDir_def demo_world_def OpenRunLogs_def write_artifact_def)

lemma demo_Save: "\<exists>d. Save no_faults (sc_marshal demo_codecs) demo_id_value r None = (Inr (), d)"
proof -
  have "IsValid demo_id_value" by code_simp
  then show ?thesis by (simp add: Save_def validateRunID_def no_faults_def demo_codecs_def Let_def)
qed

definition demo_opened_state :: service_state where
  "demo_opened_state = demo_state\<lparr>ss_artifacts := Some [(demo_id_value,
     Dir_node [(''stdout.log'', []), (''stderr.log'', [])])]\<rparr>"

lemma demo_persist:
  assumes "persist demo_codecs demo_world q demo_id_value r 0 demo_opened_state = (final, ws, s')"
  shows "final = 0 \<and> ws = []"
proof -
  obtain d where "Save no_faults (sc_marshal demo_codecs) demo_id_value r None = (Inr (), d)" using demo_Save by blast
  then have "Save (sw_store_faults demo_world) (sc_marshal demo_codecs) demo_id_value r (ss_store demo_opened_state) = (Inr (), d)"
    by (simp add: demo_world_def demo_state_def demo_opened_state_def)
  then show ?thesis using assms
    by (auto simp: persist_def Let_def SaveSummary_def SaveManifest_def demo_codecs_def write_artifact_def
        demo_world_def demo_opened_state_def)
qed

lemma demo_complete:
  assumes "plain_request q"
    "complete demo_codecs demo_world q demo_id_value None demo_result 0 [] None demo_opened_state = (c, s')"
  shows "sr_exit_code (co_response c) = 0 \<and> sr_warnings (co_response c) = [Zero_tests] \<and> co_lease c = None \<and>
     sr_run_id (co_response c) = demo_id_value \<and> rr_tests (sr_result (co_response c)) = Some [] \<and>
     rr_backend (sr_result (co_response c)) = backendProcess"
  using assms
  by (auto simp: complete_def Let_def compare_run_def plain_request_def end_workspace_def disclosures_def
      ExitNoTestsMatched_def demo_result_def normalise_paths_def with_metrics_def plain_result_def zero_result_def
      split: prod.splits dest!: demo_persist)

lemma plain_completes:
  assumes "plain_request q"
  shows "\<exists>c t s'. Run demo_codecs demo_world q demo_state = (Completed c, t, s') \<and>
     sr_exit_code (co_response c) = 0 \<and> sr_warnings (co_response c) = [Zero_tests] \<and> co_lease c = None \<and>
     sr_run_id (co_response c) = demo_id_value \<and> rr_tests (sr_result (co_response c)) = Some [] \<and>
     rr_backend (sr_result (co_response c)) = backendProcess"
proof -
  obtain c s' where c: "complete demo_codecs demo_world q demo_id_value None demo_result 0 [] None
      demo_opened_state = (c, s')" by fastforce
  have "ss_artifacts demo_state = None" by (simp add: demo_state_def)
  moreover have "check_request (sw_paths demo_world) q = None" using assms by (simp add: plain_request_def)
  ultimately have "\<exists>t. Run demo_codecs demo_world q demo_state = (Completed c, t, s')"
    using c by (simp add: Run_def demo_id demo_opened execute_tiers_def plain_warm [OF assms] cold_path_def
        plain_clear [OF assms] demo_cold [OF assms] flip: demo_id_value_def demo_opened_state_def)
  then show ?thesis using demo_complete [OF assms c] by blast
qed

lemmas demo_completes = plain_completes [OF demo_plain]

section \<open>Properties of a run\<close>

text \<open>
  C14. Exit 0 is on disk. When a run ends with exit code 0, its result records 0 and is the content
  of its history entry, \<^verbatim>\<open>summary.json\<close> of its artifact directory is the summary of that
  result with exit code 0, \<^verbatim>\<open>manifest.json\<close> there records exit code 0, and a result without a
  single test is disclosed as such, and only then.
\<close>

theorem exit_zero_on_disk:
  assumes "Run k w q s = (Completed c, trace, s')" "sr_exit_code (co_response c) = 0"
  shows "rr_exit_code (sr_result (co_response c)) = 0 \<and>
    (Zero_tests \<in> set (sr_warnings (co_response c)) \<longleftrightarrow> rr_total (sr_result (co_response c)) = 0) \<and>
    (\<exists>data sum man files. sr_run_id (co_response c) = Generate (sw_clock w) (sw_random w) \<and>
      map_of (items (ss_store s')) (result_file (sr_run_id (co_response c))) = Some (File_node data) \<and>
      sc_marshal k (sr_result (co_response c)) = Some data \<and>
      map_of (items (ss_artifacts s')) (sr_run_id (co_response c)) = Some (Dir_node files) \<and>
      map_of files ''summary.json'' = Some sum \<and>
      sc_summary k (buildSummary (sr_run_id (co_response c)) (sr_result (co_response c)) 0) = Some sum \<and>
      map_of files ''manifest.json'' = Some man \<and>
      sc_manifest k (run_manifest w (sr_run_id (co_response c)) 0) = Some man)"
proof -
  let ?i = "Generate (sw_clock w) (sw_random w)"
  obtain reason r code ws0 l s1 where run: "complete k w q ?i reason r code ws0 l s1 = (c, s')"
    by (rule Run_complete_cases [OF assms(1)])
  obtain persisted where p: "persist k w q ?i (sr_result (co_response c)) code
        (s1\<lparr>ss_library_cache := ss_library_cache s'\<rparr>) = (0, persisted, s')"
      "sr_run_id (co_response c) = ?i" "rr_exit_code (sr_result (co_response c)) = code"
    by (rule complete_cases [OF run]) (use assms(2) in simp)
  show ?thesis using persist_zero [OF p(1)] p Run_disclosures(2) [OF assms(1)] by auto
qed

theorem exit_zero_on_disk_witness:
  "\<exists>c trace s'. Run demo_codecs demo_world demo_request demo_state = (Completed c, trace, s') \<and>
     rr_exit_code (sr_result (co_response c)) = 0 \<and> rr_total (sr_result (co_response c)) = 0"
proof -
  obtain c t s' where c: "Run demo_codecs demo_world demo_request demo_state = (Completed c, t, s')"
    "sr_exit_code (co_response c) = 0" "sr_warnings (co_response c) = [Zero_tests]" using demo_completes by blast
  show ?thesis using exit_zero_on_disk [OF c(1,2)] c by auto
qed

text \<open>
  C15. What did not happen is said. The exit code of a completed run is the one its result records,
  unless saving the result, the summary or the manifest failed, which is in the warnings and makes
  it 9. A bridge the caller forced and that was eligible, but did not run the tests, is in the
  warnings, and only then. New failures are reported exactly when a comparison was asked for and no
  warning says that the run to compare with could not be loaded.
\<close>

theorem run_says_what_did_not_happen:
  assumes "Run k w q s = (Completed c, trace, s')"
  shows "sr_exit_code (co_response c) = (if \<exists>x \<in> set (sr_warnings (co_response c)). persist_note x
       then 9 else rr_exit_code (sr_result (co_response c))) \<and>
    ((\<exists>f b. Bridge_unavailable f b \<in> set (sr_warnings (co_response c))) \<longleftrightarrow>
       sq_force_bridge q \<and> bridge_eligible q \<and> rr_backend (sr_result (co_response c)) \<noteq> backendBridge) \<and>
    (rr_new_failures (sr_result (co_response c)) \<noteq> None \<longleftrightarrow>
       sq_compare_run q \<noteq> [] \<and> (\<forall>i e. Compare_not_found i e \<notin> set (sr_warnings (co_response c))))"
  using Run_disclosures [OF assms] by (intro conjI)

theorem run_says_what_did_not_happen_witness:
  "\<exists>c trace s'. Run demo_codecs demo_world demo_request demo_state = (Completed c, trace, s') \<and>
     rr_new_failures (sr_result (co_response c)) = None"
proof -
  obtain c t s' where c: "Run demo_codecs demo_world demo_request demo_state = (Completed c, t, s')"
    using demo_completes by blast
  have "sq_compare_run demo_request = []" by (simp add: demo_request_def)
  then show ?thesis using run_says_what_did_not_happen [OF c] c by auto
qed

text \<open>
  Only a full inventory is cached. A completed run leaves the list cache alone, or it was a run
  without filter or category, not a partial rerun, that ended with exit 0 or 3, and the cache then
  holds exactly the names of this run's tests, marked as a full inventory under this run's
  identifier and platform.
\<close>

theorem only_full_runs_refresh_inventory:
  assumes "Run k w q s = (Completed c, trace, s')"
  shows "ss_list_cache s' = ss_list_cache s \<or>
    sq_filter q = [] \<and> sq_category q = [] \<and> \<not> sq_skip_write_back q \<and>
    rr_exit_code (sr_result (co_response c)) \<in> {0, 3} \<and>
    (\<exists>data. ss_list_cache s' = FileBytes data \<and> sc_cache k \<lparr>lc_schema_version = SchemaVersion,
       lc_cached_run_id = sr_run_id (co_response c), lc_cached_at = sw_now w, lc_full_inventory = True,
       lc_test_platform = cf_test_platform (sq_config q),
       lc_tests = Some (test_names (items (rr_tests (sr_result (co_response c)))))\<rparr> = Some data)"
proof -
  let ?i = "Generate (sw_clock w) (sw_random w)"
  obtain reason r code ws0 l s1 where run: "complete k w q ?i reason r code ws0 l s1 = (c, s')"
      "ss_list_cache s1 = ss_list_cache s"
    by (rule Run_complete_cases [OF assms(1)])
  obtain final persisted where p: "persist k w q ?i (sr_result (co_response c)) code
        (s1\<lparr>ss_library_cache := ss_library_cache s'\<rparr>) = (final, persisted, s')"
      "sr_run_id (co_response c) = ?i" "rr_exit_code (sr_result (co_response c)) = code"
    by (rule complete_cases [OF run(1)])
  show ?thesis using persist_cache [OF p(1)] p(2,3) run(2) unfolding list_cache_due_def by auto
qed

theorem only_full_runs_refresh_inventory_witness:
  "\<exists>c trace s'. Run demo_codecs demo_world demo_request demo_state = (Completed c, trace, s') \<and>
     (ss_list_cache s' = FileMissing \<or> (\<exists>data. ss_list_cache s' = FileBytes data))"
proof -
  obtain c t s' where c: "Run demo_codecs demo_world demo_request demo_state = (Completed c, t, s')"
    using demo_completes by blast
  have "ss_list_cache demo_state = FileMissing" by (simp add: demo_state_def)
  then show ?thesis using only_full_runs_refresh_inventory [OF c] c by auto
qed

section \<open>The statuses of a run\<close>

definition ended_once :: "status list \<Rightarrow> bool" where
  "ended_once trace \<longleftrightarrow> trace \<noteq> [] \<and> filter terminal_phase (map st_phase trace) = [st_phase (last trace)]"

definition unended :: "status list \<Rightarrow> bool" where
  "unended trace \<longleftrightarrow> filter terminal_phase (map st_phase trace) = []"

lemma ended_prefix: "unended xs \<Longrightarrow> ended_once ys \<Longrightarrow> ended_once (xs @ ys)"
  "unended xs \<Longrightarrow> unended ys \<Longrightarrow> unended (xs @ ys)" "unended []"
  by (simp_all add: ended_once_def unended_def)

lemma phases_stamped [simp]: "map st_phase (stamped i xs) = map st_phase xs"
  "stamped i [] = []" "stamped i xs = [] \<longleftrightarrow> xs = []"
  "list_all (\<lambda>st. st_run_id st = i) (stamped i xs)"
  by (simp_all add: stamped_def list_all_iff comp_def)

lemma hd_stamped: "st_phase (hd (stamped i (x # xs))) = st_phase x"
  by (simp add: stamped_def)

lemma ended_stamped [simp]: "ended_once (stamped i xs) = ended_once xs" "unended (stamped i xs) = unended xs"
proof -
  have "xs \<noteq> [] \<Longrightarrow> st_phase (last (stamped i xs)) = st_phase (last xs)" by (simp add: stamped_def last_map)
  then show "ended_once (stamped i xs) = ended_once xs" by (cases "xs = []") (simp_all add: ended_once_def)
  show "unended (stamped i xs) = unended xs" by (simp only: unended_def phases_stamped)
qed

lemma ended_opening: "ended_once xs \<Longrightarrow> ended_once (opening_status w i # xs)"
  "unended (opening_status w i # xs) = unended xs" "st_phase (opening_status w i) = PhaseCompiling"
  by (simp_all add: ended_once_def unended_def opening_status_def)

lemma cold_run_statuses:
  assumes "cold_run k w legacy q file = Inr (trace, r, code, ws, l)"
  shows "ended_once trace \<or> unended trace \<and> code = 2"
proof -
  obtain r' :: "workspace_metrics run_result" and l0 where
    e: "Execute (sc_xml k) (sc_float k) (cw_run w) (cold_options q file l0) = (trace, r', code)"
    by (rule cold_run_cases [OF assms])
  have "eo_timeout_type (cold_options q file l0) = ''total''" by (simp add: cold_options_def)
  then have "outcome_ok (trace, r', code)" unfolding e [symmetric]
    by (simp add: Execute_def executeSinglePhase_ok executeTwoPhase_ok)
  then show ?thesis by (auto simp: outcome_ok_def ended_once_def unended_def)
qed

lemma warm_tier_statuses:
  assumes "warm_tier k w q runID file = Executed sts x"
  shows "case x of Ran r code nts \<Rightarrow> ended_once sts | _ \<Rightarrow> unended sts"
proof -
  obtain progress final where t: "sts = phase_status PhaseCompiling # progress @ final"
    "filter terminal_phase (map st_phase progress) = []" "final_ok (final, x)"
    by (rule warm_tier_Executed [OF assms])
  show ?thesis
  proof (cases x)
    case (Ran r code nts)
    then obtain e where "final = [e]" "terminal_phase (st_phase e)"
      using t(3) by (auto simp: final_ok_def length_Suc_conv)
    then show ?thesis using t Ran by (simp add: ended_once_def)
  qed (use t in \<open>simp_all add: final_ok_def unended_def\<close>)
qed

text \<open>What the statuses say about the outcome.\<close>

definition statuses_ok :: "service_outcome \<Rightarrow> status list \<Rightarrow> bool" where
  "statuses_ok out trace = (case out of
       Completed c \<Rightarrow> ended_once trace \<or> unended trace \<and> rr_exit_code (sr_result (co_response c)) = 2
     | Service_error e \<Rightarrow> unended trace
     | Still_waiting \<Rightarrow> unended trace)"

lemma statuses_prefix: "unended xs \<Longrightarrow> statuses_ok out ys \<Longrightarrow> statuses_ok out (xs @ ys)"
  by (auto simp: statuses_ok_def intro: ended_prefix split: service_outcome.splits)

lemma complete_exit_code: "complete k w q i reason r code ws l s = (c, s') \<Longrightarrow> rr_exit_code (sr_result (co_response c)) = code"
  by (rule complete_cases)

lemma cold_path_statuses:
  assumes "cold_path k w q i reason s = (out, trace, s')"
  shows "statuses_ok out trace"
proof (cases "cold_run k (sw_cold w) (legacy_prepared (sw_paths w) (sw_cold w) q i (ss_library_cache s)) q
    (ResultsFilePath (sw_artifact_root w) i)")
  case (Inl f)
  then show ?thesis using assms by (auto simp: cold_path_def statuses_ok_def ended_prefix)
next
  case (Inr x)
  obtain t r code ws l where x: "x = (t, r, code, ws, l)" by (metis prod_cases5)
  obtain c s2 where c: "complete k w q i reason r code ws l s = (c, s2)" by fastforce
  have "out = Completed c" "trace = t" using assms Inr x c by (simp_all add: cold_path_def)
  then show ?thesis using cold_run_statuses Inr x complete_exit_code [OF c] by (auto simp: statuses_ok_def)
qed

lemma execute_tiers_statuses:
  assumes "execute_tiers k w q i s = (out, trace, s')"
  shows "statuses_ok out trace"
proof (cases "warm_tier k (sw_bridge w) q i (ResultsFilePath (sw_artifact_root w) i)")
  case (Executed sts x)
  note st = warm_tier_statuses [OF Executed]
  show ?thesis
  proof (cases x)
    case Fell_back
    obtain o1 t1 s1 where c: "cold_path k w q i (Some Declined) s = (o1, t1, s1)" by (metis prod_cases3)
    have "out = o1" "trace = sts @ t1" using assms Executed Fell_back c by (simp_all add: execute_tiers_def)
    then show ?thesis using statuses_prefix [OF _ cold_path_statuses [OF c]] st Fell_back by simp
  qed (use assms Executed st in \<open>auto simp: execute_tiers_def statuses_ok_def split: prod.splits\<close>)
qed (use assms cold_path_statuses in \<open>auto simp: execute_tiers_def\<close>)

lemma execute_tiers_error:
  "execute_tiers k w q i s = (Service_error e, trace, s') \<Longrightarrow> \<exists>f. e = Prepare_workspace_failed f"
  by (auto simp: execute_tiers_def cold_path_def split: warm.splits bridge_exec.splits sum.splits prod.splits)

lemma Run_shape:
  obtains (refused) e s2 where "Run k w q s = (Service_error e, [], s2)" "\<forall>f. e \<noteq> Prepare_workspace_failed f"
  | (executed) out t s1 s2 where "execute_tiers k w q (Generate (sw_clock w) (sw_random w)) s1 = (out, t, s2)"
      "Run k w q s = (out, stamped (Generate (sw_clock w) (sw_random w))
         (opening_status w (Generate (sw_clock w) (sw_random w)) # t), s2)"
proof -
  let ?i = "Generate (sw_clock w) (sw_random w)"
  obtain r1 art where pd: "PrepareRunDir (sw_artifact_faults w) ?i (ss_artifacts s) = (r1, art)" by fastforce
  obtain r2 art' where ol: "OpenRunLogs (sw_artifact_faults w) ?i art = (r2, art')" by fastforce
  obtain out t s2 where e: "execute_tiers k w q ?i (clear_cache q (s\<lparr>ss_artifacts := art'\<rparr>)) = (out, t, s2)" by (metis prod_cases3)
  show ?thesis
  proof (cases "check_request (sw_paths w) q")
    case (Some x)
    then have "Run k w q s = (Service_error x, [], s)" by (simp add: Run_def)
    moreover have "\<forall>f. x \<noteq> Prepare_workspace_failed f"
      using Some by (auto simp: check_request_def split: if_splits sum.splits)
    ultimately show ?thesis using refused by blast
  next
    case None
    show ?thesis
    proof (cases r1)
      case (Inl x)
      then show ?thesis using refused [of "Prepare_dir_failed x"] None pd by (simp add: Run_def)
    next
      case (Inr u)
      show ?thesis
      proof (cases r2)
        case (Inl x)
        then show ?thesis using refused [of "Open_logs_failed x"] None pd Inr ol by (simp add: Run_def)
      next
        case (Inr u')
        have "Run k w q s = (out, stamped ?i (opening_status w ?i # t), s2)"
          using Inr None pd \<open>r1 = Inr u\<close> ol e by (simp add: Run_def Let_def)
        then show ?thesis by (rule executed [OF e])
      qed
    qed
  qed
qed


section \<open>The end of the workspace\<close>

text \<open>One release attempt, whatever the metrics say.\<close>

definition child_effects :: "bool \<Rightarrow> lease \<Rightarrow> lease_effect list" where
  "child_effects keep l = (if child_mounted l then [Child_released keep] else [])"

lemma child_frame [simp]:
  "child_mounted (l\<lparr>le_metrics := m\<rparr>) = child_mounted l"
  "child_effects keep (l\<lparr>le_metrics := m\<rparr>) = child_effects keep l"
  by (simp_all add: child_mounted_def child_effects_def)

lemma release_attempt:
  assumes "lease_Release keep b c l = (err, effs, l1)" "\<not> le_released l"
  obtains (ok) "err = None" "le_released l1" "keep" "effs = child_effects keep l" "le_shell l1 = le_shell l"
    | (removed) "err = None" "le_released l1" "\<not> keep" "effs = child_effects keep l @ [Shell_removed]" "\<not> le_shell l1"
    | (child_failed) "err \<noteq> None" "\<not> le_released l1" "effs = []" "child_mounted l1 = child_mounted l" "le_shell l1 = le_shell l"
    | (shell_failed) "err \<noteq> None" "\<not> le_released l1" "effs = child_effects keep l" "\<not> child_mounted l1" "\<not> keep"
        "le_shell l1 = le_shell l"
  using assms
  by (cases "le_vhdx l"; cases keep; cases b; cases c)
    (auto simp: lease_Release_def vhdx_Release_def child_effects_def child_mounted_def split: if_splits)

lemma lease_Release_again: "le_released l \<Longrightarrow> lease_Release keep b c l = (None, [], l)"
  by (simp add: lease_Release_def)

lemma finish_workspace_end:
  assumes "finish_workspace w q code l0 = (ws, effs, l)" "\<not> le_released l0"
  shows "safe_release (child_mounted l0) effs \<and>
    (if sq_keep q then Shell_removed \<notin> set effs \<and> le_shell l = le_shell l0
     else Shell_removed \<in> set effs \<and> \<not> le_shell l \<or> (\<exists>e. Cleanup_failed e \<in> set ws))"
proof -
  obtain m persistent where m: "measured w q code (le_metrics l0) = (m, persistent)" by fastforce
  obtain err e1 l1 where r: "lease_Release (sq_keep q) (fst (fi_release w)) (snd (fi_release w))
      (l0\<lparr>le_metrics := m\<rparr>) = (err, e1, l1)" by (metis prod_cases3)
  have nr: "\<not> le_released (l0\<lparr>le_metrics := m\<rparr>)" using assms(2) by simp
  note safe_defs = safe_release_def child_effects_def
  from r nr show ?thesis
  proof (cases rule: release_attempt)
    case ok
    then show ?thesis using assms(1) m r by (auto simp: finish_workspace_def Let_def safe_defs)
  next
    case removed
    then show ?thesis using assms(1) m r by (auto simp: finish_workspace_def Let_def safe_defs)
  next
    case child_failed
    then obtain e where e: "err = Some e" by blast
    show ?thesis
    proof (cases "sq_keep q")
      case True
      then show ?thesis using assms(1) m r e child_failed by (auto simp: finish_workspace_def Let_def safe_defs)
    next
      case False
      let ?m2 = "((le_metrics l1)\<lparr>wm_cleanup_ms := fi_cleanup_ms w\<rparr>)
        \<lparr>wm_retained := persistent + wm_physical ((le_metrics l1)\<lparr>wm_cleanup_ms := fi_cleanup_ms w\<rparr>)\<rparr>"
      obtain x e2 l3 where d: "lease_Release False (fst (fi_deferred w)) (snd (fi_deferred w))
          (l1\<lparr>le_metrics := ?m2\<rparr>) = (x, e2, l3)" by (metis prod_cases3)
      have "\<not> le_released (l1\<lparr>le_metrics := ?m2\<rparr>)" using child_failed by simp
      note a2 = release_attempt [OF d this]
      have "ws = [Cleanup_failed e]" "effs = e1 @ e2"
        using assms(1) m r e False d by (simp_all add: finish_workspace_def Let_def)
      moreover have "safe_release (child_mounted l0) e2"
        using child_failed by (cases rule: a2) (simp_all add: safe_defs)
      ultimately show ?thesis using False child_failed by simp
    qed
  next
    case shell_failed
    then obtain e where e: "err = Some e" by blast
    let ?m2 = "((le_metrics l1)\<lparr>wm_cleanup_ms := fi_cleanup_ms w\<rparr>)
        \<lparr>wm_retained := persistent + wm_physical ((le_metrics l1)\<lparr>wm_cleanup_ms := fi_cleanup_ms w\<rparr>)\<rparr>"
    obtain x e2 l3 where d: "lease_Release False (fst (fi_deferred w)) (snd (fi_deferred w))
        (l1\<lparr>le_metrics := ?m2\<rparr>) = (x, e2, l3)" by (metis prod_cases3)
    have "\<not> le_released (l1\<lparr>le_metrics := ?m2\<rparr>)" using shell_failed by simp
    note a2 = release_attempt [OF d this]
    have "ws = [Cleanup_failed e]" "effs = e1 @ e2"
      using assms(1) m r e shell_failed d by (simp_all add: finish_workspace_def Let_def)
    moreover have "e2 = [] \<or> e2 = [Shell_removed]"
      using shell_failed by (cases rule: a2) (simp_all add: child_effects_def)
    ultimately show ?thesis using shell_failed by (auto simp: safe_defs)
  qed
qed

text \<open>
  C17. The end of a workspace. Whatever the broker and the file system answer to the release and to
  the second attempt that follows a failed one, the mounted child goes before the directory and each
  goes once. A workspace to be kept keeps its directory; any other is removed, or a warning says
  that the cleanup failed.
\<close>

theorem workspace_end:
  assumes "end_workspace w q code c (Some l0) = (ws, effs, Some l, c')" "\<not> le_released l0"
  shows "safe_release (child_mounted l0) effs \<and>
    (if sq_keep q then Shell_removed \<notin> set effs \<and> le_shell l = le_shell l0
     else Shell_removed \<in> set effs \<and> \<not> le_shell l \<or> (\<exists>e. Cleanup_failed e \<in> set ws))"
proof -
  obtain wb l1 where wb: "write_back w q code c l0 = (wb, l1, c')"
    using assms(1) by (auto simp: end_workspace_def split: prod.splits)
  obtain fin where f: "finish_workspace w q code l1 = (fin, effs, l)" "ws = wb @ fin"
    using assms(1) wb by (auto simp: end_workspace_def split: prod.splits)
  note frame = write_back_lease [OF wb]
  have "child_mounted l1 = child_mounted l0" using frame by (simp add: child_mounted_def)
  then show ?thesis using finish_workspace_end [OF f(1)] frame f(2) assms(2) by auto
qed

theorem workspace_end_witness:
  "\<exists>ws effs l. end_workspace (sw_finish demo_world) demo_request 0 empty_cache (Some sample_lease) =
       (ws, effs, Some l, empty_cache) \<and>
     safe_release (child_mounted sample_lease) effs"
proof -
  obtain wb l1 where wb: "write_back (sw_finish demo_world) demo_request 0 empty_cache sample_lease = (wb, l1, empty_cache)"
    by (simp add: write_back_def write_back_due_def sample_lease_def prepareMetrics_def backend_defs)
  obtain fin effs l where "finish_workspace (sw_finish demo_world) demo_request 0 l1 = (fin, effs, l)"
    by (metis prod_cases3)
  then have e: "end_workspace (sw_finish demo_world) demo_request 0 empty_cache (Some sample_lease) =
      (wb @ fin, effs, Some l, empty_cache)"
    using wb by (simp add: end_workspace_def)
  have "\<not> le_released sample_lease" by (simp add: sample_lease_def)
  then show ?thesis using workspace_end [OF e] e by blast
qed

end
