(* ===== verification/Cli.thy ===== *)
theory Cli
  imports RunServiceProps
begin

text \<open>
  The commands of one project, \<^verbatim>\<open>cmd/testplay\<close>: \<^verbatim>\<open>run\<close> without a scenario,
  \<^verbatim>\<open>check\<close>, \<^verbatim>\<open>init\<close>, \<^verbatim>\<open>result\<close> and the guard of
  \<^verbatim>\<open>main\<close> against the transport commands of shell completion. A command is a
  function from its flags, the configuration file and the state of the stores to what it prints
  and its exit code. Printing JSON and the wording of messages are left out: what is printed is a
  record or an error value.
\<close>

section \<open>run\<close>

record run_cmd_options =
  op_filter :: string
  op_category :: string
  op_compare_run :: string
  op_reset_shadow :: bool
  op_force_shadow :: bool
  op_clear_cache :: bool
  op_force_bridge :: bool
  op_disable_bridge :: bool
  op_workspace_backend :: string
  op_workspace_store_root :: string
  op_keep_workspace :: bool

text \<open>A flag wins over the configuration; an empty flag takes the configured value.\<close>

definition workspaceOptions :: "config \<Rightarrow> run_cmd_options \<Rightarrow> string \<times> string" where
  "workspaceOptions c opts =
     (case cf_workspace c of
        None \<Rightarrow> (op_workspace_backend opts, op_workspace_store_root opts)
      | Some w \<Rightarrow>
          (if op_workspace_backend opts = [] then ws_backend w else op_workspace_backend opts,
           if op_workspace_store_root opts = [] then ws_store_root w else op_workspace_store_root opts))"

definition request_of_flags :: "config \<Rightarrow> run_cmd_options \<Rightarrow> service_request" where
  "request_of_flags c opts =
     (case workspaceOptions c opts of (backend, root) \<Rightarrow>
        \<lparr>sq_config = c, sq_filter = op_filter opts, sq_category = op_category opts,
         sq_compare_run = op_compare_run opts, sq_reset_shadow = op_reset_shadow opts,
         sq_force_shadow = op_force_shadow opts, sq_clear_cache = op_clear_cache opts,
         sq_skip_write_back = False, sq_force_bridge = op_force_bridge opts,
         sq_disable_bridge = op_disable_bridge opts, sq_backend = backend,
         sq_keep = op_keep_workspace opts, sq_store_root = root\<rparr>)"

text \<open>What a completed run prints; an optional field is absent when it is empty.\<close>

record run_output =
  ro_run_id :: string
  ro_exit_code :: int
  ro_backend :: string
  ro_total :: int
  ro_passed :: int
  ro_failed :: int
  ro_skipped :: int
  ro_tests :: "test_case list option"
  ro_errors :: "compile_error list"
  ro_new_failures :: "test_case list option"
  ro_timeout_type :: "string option"
  ro_error :: "string option"
  ro_hint :: "string option"
  ro_metrics :: "workspace_metrics option"
  ro_warnings :: "warning list option"

definition nonempty :: "'a list \<Rightarrow> 'a list option" where
  "nonempty s = (if s = [] then None else Some s)"

definition run_output_of :: "service_response \<Rightarrow> run_output" where
  "run_output_of resp =
     (let r = sr_result resp
      in \<lparr>ro_run_id = sr_run_id resp, ro_exit_code = sr_exit_code resp, ro_backend = rr_backend r,
          ro_total = rr_total r, ro_passed = rr_passed r, ro_failed = rr_failed r,
          ro_skipped = rr_skipped r, ro_tests = rr_tests r, ro_errors = rr_errors r,
          ro_new_failures = rr_new_failures r, ro_timeout_type = nonempty (rr_timeout_type r),
          ro_error = nonempty (rr_error r), ro_hint = nonempty (rr_hint r),
          ro_metrics = rr_metrics r, ro_warnings = nonempty (sr_warnings resp)\<rparr>)"

datatype run_failure = Invalid_backend_flag | Config_refused config_error | Service_failed service_error

datatype run_printed = Run_error run_failure | Run_result run_output

text \<open>Pruning after the output is printed, with failures of its own; its results are dropped.\<close>

definition prune_runs :: "store_faults \<Rightarrow> artifact_faults \<Rightarrow> int option \<Rightarrow> service_state \<Rightarrow> service_state" where
  "prune_runs sf af maxRuns s =
     (case maxRuns of
        None \<Rightarrow> s
      | Some n \<Rightarrow>
          (if 0 < n
           then s\<lparr>ss_store := snd (Prune sf n (ss_store s)),
                  ss_artifacts := snd (Prune_artifacts af n (ss_artifacts s))\<rparr>
           else s))"

definition load_valid :: "string \<Rightarrow> string \<Rightarrow> config strict_decode file_read \<Rightarrow> config_error + config" where
  "load_valid env path file = bind_result (Config.Load path file) (Validate env True)"

text \<open>
  \<open>None\<close> in place of the output is a run whose bridge has not answered yet: the command has not
  returned.
\<close>

definition runRun ::
    "service_codecs \<Rightarrow> service_world \<Rightarrow> store_faults \<Rightarrow> artifact_faults \<Rightarrow> string \<Rightarrow> string \<Rightarrow>
     config strict_decode file_read \<Rightarrow> run_cmd_options \<Rightarrow> service_state \<Rightarrow>
     (run_printed \<times> int) option \<times> status list \<times> service_state" where
  "runRun k w sf af env path file opts s =
     (if \<not> ValidWorkspaceBackend (op_workspace_backend opts)
      then (Some (Run_error Invalid_backend_flag, 5), [], s)
      else case load_valid env path file of
          Inl e \<Rightarrow> (Some (Run_error (Config_refused e), 5), [], s)
        | Inr c \<Rightarrow>
            (case Run k w (request_of_flags c opts) s of
               (Still_waiting, trace, s') \<Rightarrow> (None, trace, s')
             | (Service_error e, trace, s') \<Rightarrow>
                 (Some (Run_error (Service_failed e),
                    if error_exit_code e \<noteq> 0 then error_exit_code e else 1), trace, s')
             | (Completed co, trace, s') \<Rightarrow>
                 (Some (Run_result (run_output_of (co_response co)), sr_exit_code (co_response co)),
                  trace, prune_runs sf af (cf_max_runs c) s')))"

section \<open>check\<close>

datatype check_printed =
    Check_refused config_error
  | Unity_not_found string
  | Project_not_found string
  | Check_ready string string

definition runCheck ::
    "(string \<Rightarrow> bool) \<Rightarrow> string \<Rightarrow> string \<Rightarrow> config strict_decode file_read \<Rightarrow> check_printed \<times> int" where
  "runCheck fileExists env path file =
     (case load_valid env path file of
        Inl e \<Rightarrow> (Check_refused e, 5)
      | Inr c \<Rightarrow>
          (if \<not> fileExists (cf_unity_path c) then (Unity_not_found (cf_unity_path c), 1)
           else if \<not> fileExists (cf_project_path c) then (Project_not_found (cf_project_path c), 1)
           else (Check_ready (cf_unity_path c) (cf_project_path c), 0)))"

section \<open>init\<close>

record init_flags =
  in_unity_path :: string
  in_project_dir :: string
  in_test_platform :: string
  in_force :: bool
  in_output_path :: string

datatype init_printed =
    Init_exists string
  | Init_bad_platform string
  | Init_not_written
  | Init_created string string string bool

text \<open>The configuration \<^verbatim>\<open>init\<close> writes, as its decoder will read it back.\<close>

definition init_config :: "string \<Rightarrow> string \<Rightarrow> string \<Rightarrow> config" where
  "init_config unityPath projectDir testPlatform =
     \<lparr>cf_schema_version = ''1'', cf_unity_path = unityPath, cf_project_path = projectDir,
      cf_timeout = \<lparr>to_compile_ms = 0, to_test_ms = 0, to_total_ms = 300000\<rparr>,
      cf_result_dir = ''.testplay/results'', cf_test_platform = testPlatform, cf_max_runs = Some 30,
      cf_bridge = None, cf_workspace = None, cf_dir = []\<rparr>"

text \<open>
  The file at the output path before and after, as its decoder reads it; \<open>torn\<close> is what a failed
  \<^verbatim>\<open>os.WriteFile\<close> leaves there. The last field of the output is the warning about an empty path.
\<close>

definition runInit ::
    "bool \<Rightarrow> config strict_decode file_read option \<Rightarrow> string \<Rightarrow> init_flags \<Rightarrow> config strict_decode file_read \<Rightarrow>
     init_printed \<times> int \<times> config strict_decode file_read" where
  "runInit fileExists torn env fl file =
     (if fileExists \<and> \<not> in_force fl then (Init_exists (in_output_path fl), 5, file)
      else
        (let unityPath = (if in_unity_path fl = [] then env else in_unity_path fl);
             testPlatform = (if in_test_platform fl = [] then ''edit_mode'' else in_test_platform fl)
         in if testPlatform \<noteq> ''edit_mode'' \<and> testPlatform \<noteq> ''play_mode''
            then (Init_bad_platform testPlatform, 5, file)
            else case torn of Some content \<Rightarrow> (Init_not_written, 1, content)
            | None \<Rightarrow> (Init_created (in_output_path fl) unityPath (in_project_dir fl) (unityPath = []), 0,
              FileBytes (Decodes (init_config unityPath (in_project_dir fl) testPlatform) False))))"

section \<open>result\<close>

datatype result_warning = Default_after_invalid config_error | Default_after_unreadable config_error

datatype 'm result_printed =
    Result_failed store_error
  | Result_runs "'m run_result list" "result_warning option"

definition runResult ::
    "store_faults \<Rightarrow> (string \<Rightarrow> 'm run_result option) \<Rightarrow> int \<Rightarrow> result_warning option \<Rightarrow> store \<Rightarrow>
     'm result_printed \<times> int" where
  "runResult flt unmarshal limit warn d =
     (case History.List flt unmarshal limit d of
        Inl e \<Rightarrow> (Result_failed e, 5)
      | Inr runs \<Rightarrow> (Result_runs runs warn, 0))"

text \<open>The result directory the command reads: the configured one, or the default with a warning.\<close>

definition result_dir :: "string \<Rightarrow> config strict_decode file_read \<Rightarrow> string \<times> result_warning option" where
  "result_dir path file =
     (case Config.Load path file of
        Inr c \<Rightarrow>
          (case Validate [] False c of
             Inr c' \<Rightarrow> (if cf_result_dir c' \<noteq> [] then cf_result_dir c' else ''.testplay/results'', None)
           | Inl e \<Rightarrow> (''.testplay/results'', Some (Default_after_invalid e)))
      | Inl e \<Rightarrow>
          (''.testplay/results'', if e = ErrConfigNotFound then None else Some (Default_after_unreadable e)))"

section \<open>The guard of main\<close>

fun isInternalCompletionInvocation :: "string list \<Rightarrow> bool" where
  "isInternalCompletionInvocation [] = False"
| "isInternalCompletionInvocation (a # args) =
     (if a = ''--config''
      then (case args of [] \<Rightarrow> False | v # rest \<Rightarrow> isInternalCompletionInvocation rest)
      else if has_prefix a ''--config='' \<or> has_prefix a ''-'' then isInternalCompletionInvocation args
      else a = ''__complete'' \<or> a = ''__completeNoDesc'')"

section \<open>What a run promises\<close>

lemma load_valid_ok: "load_valid env path file = Inr c \<Longrightarrow> config_ok True c"
  by (auto simp: load_valid_def bind_result_Inr_iff intro: Validate_config_ok)

lemma error_exit_code_range: "error_exit_code e \<in> {0, 7}"
  by (simp add: error_exit_code_def split: service_error.split)

lemma runRun_cases:
  assumes "runRun k w sf af env path file opts s = (Some (out, code), trace, s')"
  obtains (refused) f where "out = Run_error f" "code = 5" "trace = []" "s' = s"
      "f = Invalid_backend_flag \<or> (\<exists>e. f = Config_refused e)"
  | (failed) c e where "load_valid env path file = Inr c"
      "Run k w (request_of_flags c opts) s = (Service_error e, trace, s')"
      "out = Run_error (Service_failed e)" "code = (if error_exit_code e \<noteq> 0 then error_exit_code e else 1)"
  | (completed) c co s1 where "load_valid env path file = Inr c"
      "Run k w (request_of_flags c opts) s = (Completed co, trace, s1)"
      "out = Run_result (run_output_of (co_response co))" "code = sr_exit_code (co_response co)"
      "s' = prune_runs sf af (cf_max_runs c) s1"
proof (cases "load_valid env path file")
  case (Inl e)
  then show ?thesis using assms refused by (auto simp: runRun_def split: if_splits)
next
  case (Inr c)
  show ?thesis
  proof (cases "ValidWorkspaceBackend (op_workspace_backend opts)")
    case True
    obtain o' t s1 where r: "Run k w (request_of_flags c opts) s = (o', t, s1)" by (metis prod_cases3)
    show ?thesis using assms True Inr r failed completed by (cases o') (simp_all add: runRun_def)
  next
    case False
    then show ?thesis using assms refused [of Invalid_backend_flag] by (auto simp: runRun_def)
  qed
qed


section \<open>A finished run stays readable\<close>

lemma Prune_keeps_or_newer:
  assumes "dir_ok d" "0 < keep"
  shows "map_of (items (snd (Prune flt keep d))) (result_file i) = map_of (items d) (result_file i) \<or>
    nat keep \<le> card {j \<in> set (result_ids (snd (Prune flt keep d))). i < j}"
proof (cases "Prune flt keep d")
  case (Pair out d')
  show ?thesis
  proof (cases out)
    case (Inl e)
    then show ?thesis using Pair assms(2) by (auto simp: Prune_def split: if_splits prod.splits)
  next
    case (Inr nf)
    obtain old new where on: "sort (result_ids d) = old @ new"
        "length new = min (nat keep) (length (result_ids d))" "\<forall>i \<in> set old. \<forall>j \<in> set new. i < j"
        "set (result_ids d') = set new \<union> set (snd nf)"
        "\<forall>name. name \<notin> result_file ` set old \<longrightarrow> map_of (items d') name = map_of (items d) name"
      using Prune_split [OF assms, of flt "fst nf" "snd nf" d'] Pair Inr by auto
    show ?thesis
    proof (cases "result_file i \<in> result_file ` set old")
      case True
      then have i: "i \<in> set old" by (auto simp: result_file_def)
      have len: "length (result_ids d) = length old + length new" using on(1) by (metis length_append length_sort)
      have "0 < length old" using i by (cases old) simp_all
      then have "length new = nat keep" using on(2) len by (simp add: min_def split: if_splits)
      moreover have "distinct new" using on(1) distinct_result_ids [OF assms(1)] by (metis distinct_append distinct_sort)
      ultimately have "card (set new) = nat keep" by (simp add: distinct_card)
      moreover have "set new \<subseteq> {j \<in> set (result_ids d'). i < j}" using on(3,4) i by auto
      ultimately show ?thesis using Pair card_mono [of "{j \<in> set (result_ids d'). i < j}" "set new"] by simp
    qed (use on(5) Pair in simp)
  qed
qed

lemma persist_store:
  "persist k w q i r code s = (final, ws, s') \<Longrightarrow>
     ss_store s' = snd (Save (sw_store_faults w) (sc_marshal k) i r (ss_store s))"
  by (auto simp: persist_def Let_def split: prod.splits)

lemma Run_exit_zero_entry:
  assumes "Run k w q s = (Completed c, trace, s')" "sr_exit_code (co_response c) = 0" "dir_ok (ss_store s)"
  shows "dir_ok (ss_store s')" "\<exists>data. map_of (items (ss_store s')) (result_file (sr_run_id (co_response c))) =
    Some (File_node data) \<and> sc_marshal k (sr_result (co_response c)) = Some data"
proof -
  let ?i = "Generate (sw_clock w) (sw_random w)"
  obtain reason r code ws0 l s1 where run: "complete k w q ?i reason r code ws0 l s1 = (c, s')"
      "ss_store s1 = ss_store s"
    by (rule Run_complete_cases [OF assms(1)])
  obtain persisted where p: "persist k w q ?i (sr_result (co_response c)) code
        (s1\<lparr>ss_library_cache := ss_library_cache s'\<rparr>) = (0, persisted, s')" "sr_run_id (co_response c) = ?i"
    by (rule complete_cases [OF run(1)]) (use assms(2) in simp)
  show "\<exists>data. map_of (items (ss_store s')) (result_file (sr_run_id (co_response c))) = Some (File_node data) \<and>
      sc_marshal k (sr_result (co_response c)) = Some data"
    using persist_zero [OF p(1)] p(2) by auto
  have "ss_store s' = snd (Save (sw_store_faults w) (sc_marshal k) ?i (sr_result (co_response c)) (ss_store s))"
    using persist_store [OF p(1)] run(2) by simp
  then show "dir_ok (ss_store s')" using dir_ok_Save [OF assms(3)] by simp
qed

text \<open>
  A green run can be read back. When \<^verbatim>\<open>testplay run\<close> exits 0 it printed a result with exit
  code 0, and after the pruning that ends the command the history still holds that very result under
  the printed run identifier, unless as many newer results as the configuration retains are there
  (which takes a clock that went back): a run never prunes itself away to make room for older ones.
\<close>

theorem green_run_is_kept:
  assumes "runRun k w sf af env path file opts s = (Some (out, 0), trace, s')" "dir_ok (ss_store s)"
  shows "\<exists>resp c. out = Run_result (run_output_of resp) \<and> sr_exit_code resp = 0 \<and>
    load_valid env path file = Inr c \<and> dir_ok (ss_store s') \<and>
    ((\<exists>data. map_of (items (ss_store s')) (result_file (sr_run_id resp)) = Some (File_node data) \<and>
        sc_marshal k (sr_result resp) = Some data) \<or>
     (\<exists>n. cf_max_runs c = Some n \<and> 0 < n \<and>
        nat n \<le> card {j \<in> set (result_ids (ss_store s')). sr_run_id resp < j}))"
  using assms(1)
proof (cases rule: runRun_cases)
  case (completed c co s1)
  have zero: "sr_exit_code (co_response co) = 0" using completed(4) by simp
  note entry = Run_exit_zero_entry [OF completed(2) zero assms(2)]
  obtain n where n: "cf_max_runs c = Some n" using load_valid_ok [OF completed(1)] by (auto simp: config_ok_def)
  show ?thesis
  proof (cases "0 < n")
    case True
    then have st: "ss_store s' = snd (Prune sf n (ss_store s1))" using completed(5) n by (simp add: prune_runs_def)
    show ?thesis
      using Prune_keeps_or_newer [OF entry(1) True, of sf "sr_run_id (co_response co)"] entry(2)
        dir_ok_Prune [OF entry(1), of sf n] completed(1,3) zero n True
      unfolding st by (intro exI [of _ "co_response co"] exI [of _ c]) auto
  next
    case False
    then show ?thesis using completed(1,3,5) zero n entry
      by (intro exI [of _ "co_response co"] exI [of _ c]) (simp add: prune_runs_def)
  qed
next
  case (failed c e)
  then show ?thesis by (simp split: if_splits)
qed simp

text \<open>A run of the sample configuration with the bridge disabled.\<close>

definition demo_flags :: run_cmd_options where
  "demo_flags = \<lparr>op_filter = [], op_category = [], op_compare_run = [], op_reset_shadow = False,
     op_force_shadow = False, op_clear_cache = False, op_force_bridge = False, op_disable_bridge = True,
     op_workspace_backend = [], op_workspace_store_root = [], op_keep_workspace = False\<rparr>"

definition demo_config_file :: "config strict_decode file_read" where
  "demo_config_file = FileBytes (Decodes sample_config False)"

lemma demo_load_valid: "load_valid ''/opt/Unity'' ''/work/testplay.json'' demo_config_file = Inr demo_config"
  by code_simp

lemma demo_flags_request: "request_of_flags demo_config demo_flags = demo_request"
  by (simp add: request_of_flags_def workspaceOptions_def demo_flags_def demo_request_def demo_config_def
      sample_config_def)

lemma demo_runRun:
  "\<exists>resp trace s'. runRun demo_codecs demo_world no_faults (sw_artifact_faults demo_world) ''/opt/Unity''
     ''/work/testplay.json'' demo_config_file demo_flags demo_state =
       (Some (Run_result (run_output_of resp), 0), trace, s') \<and>
     sr_run_id resp = demo_id_value \<and> rr_tests (sr_result resp) = Some []"
proof -
  obtain c t s1 where c: "Run demo_codecs demo_world demo_request demo_state = (Completed c, t, s1)"
    "sr_exit_code (co_response c) = 0" "sr_run_id (co_response c) = demo_id_value"
    "rr_tests (sr_result (co_response c)) = Some []" using demo_completes by blast
  have "ValidWorkspaceBackend (op_workspace_backend demo_flags)" by code_simp
  then show ?thesis using c
    by (intro exI [of _ "co_response c"]) (simp add: runRun_def demo_load_valid demo_flags_request)
qed


theorem green_run_is_kept_witness:
  "\<exists>resp trace s'. runRun demo_codecs demo_world no_faults (sw_artifact_faults demo_world) ''/opt/Unity''
     ''/work/testplay.json'' demo_config_file demo_flags demo_state =
       (Some (Run_result (run_output_of resp), 0), trace, s') \<and> dir_ok (ss_store s')"
proof -
  obtain resp t s' where r: "runRun demo_codecs demo_world no_faults (sw_artifact_faults demo_world) ''/opt/Unity''
     ''/work/testplay.json'' demo_config_file demo_flags demo_state =
       (Some (Run_result (run_output_of resp), 0), t, s')" using demo_runRun by blast
  have "dir_ok (ss_store demo_state)" by (simp add: dir_ok_def demo_state_def)
  from green_run_is_kept [OF r this] have "dir_ok (ss_store s')" by blast
  then show ?thesis using r by blast
qed

section \<open>init and check\<close>

lemma init_config_validates:
  assumes "IsAbs d" "p = ''edit_mode'' \<or> p = ''play_mode''"
  shows "Validate env True ((init_config u d p)\<lparr>cf_dir := dir\<rparr>) =
    (if u = [] \<and> env = [] then Inl ErrUnityPathMissing
     else Inr ((init_config (if u = [] then env else u) d p)\<lparr>cf_dir := dir,
       cf_result_dir := Join [d, ''.testplay/results'']\<rparr>))"
proof -
  have d: "d \<noteq> []" "\<not> IsAbs ''.testplay/results''" using assms(1) by (auto simp: IsAbs_def has_prefix_def sep_def)
  have p: "check_platform p = Inr p" using assms(2) by (auto simp: check_platform_def)
  have anchored: "anchor_results (anchor_project ((init_config v d p)\<lparr>cf_dir := dir\<rparr>)) =
      (init_config v d p)\<lparr>cf_dir := dir, cf_result_dir := Join [d, ''.testplay/results'']\<rparr>" for v
    using d assms(1) by (simp add: anchor_project_def anchor_results_def init_config_def)
  have unity: "default_unity env True ((init_config u d p)\<lparr>cf_dir := dir\<rparr>) =
      (if u = [] \<and> env = [] then Inl ErrUnityPathMissing
       else Inr ((init_config (if u = [] then env else u) d p)\<lparr>cf_dir := dir\<rparr>))"
    by (simp add: default_unity_def init_config_def)
  have "check_timeouts (cf_timeout (init_config v d p)) = Inr (cf_timeout (init_config v d p))"
    "cf_test_platform (init_config v d p) = p" "cf_max_runs (init_config v d p) = Some 30"
    "cf_workspace (init_config v d p) = None" "check_retention (Some 30) = Inr (Some 30)" for v
    by (simp_all add: check_timeouts_def check_retention_def init_config_def)
  then show ?thesis unfolding Validate_def unity
    by (simp add: anchored p)
qed

lemma init_config_frame [simp]:
  "cf_unity_path (init_config u d p) = u" "cf_project_path (init_config u d p) = d"
  by (simp_all add: init_config_def)

text \<open>
  \<^verbatim>\<open>init\<close> writes what \<^verbatim>\<open>check\<close> accepts. After a successful \<^verbatim>\<open>testplay init\<close> in
  a directory, \<^verbatim>\<open>testplay check\<close> on the written file, wherever it lies, sees the Unity path that
  \<^verbatim>\<open>init\<close> resolved or, when that was empty, the environment's at the time of the check, and the
  directory as the project: it fails for the configuration only when both are empty, and otherwise
  exactly when the binary or the project directory does not exist.
\<close>

theorem init_then_check:
  assumes "runInit there torn env fl file = (out, 0, file')" "IsAbs (in_project_dir fl)"
  shows "\<exists>u. out = Init_created (in_output_path fl) u (in_project_dir fl) (u = []) \<and>
    u = (if in_unity_path fl = [] then env else in_unity_path fl) \<and>
    runCheck fileExists env' path file' =
      (let unity = (if u = [] then env' else u)
       in if unity = [] then (Check_refused ErrUnityPathMissing, 5)
          else if \<not> fileExists unity then (Unity_not_found unity, 1)
          else if \<not> fileExists (in_project_dir fl) then (Project_not_found (in_project_dir fl), 1)
          else (Check_ready unity (in_project_dir fl), 0))"
proof -
  let ?u = "if in_unity_path fl = [] then env else in_unity_path fl"
  let ?p = "if in_test_platform fl = [] then ''edit_mode'' else in_test_platform fl"
  have p: "?p = ''edit_mode'' \<or> ?p = ''play_mode''" and out: "out = Init_created (in_output_path fl) ?u (in_project_dir fl) (?u = [])"
    and content: "file' = FileBytes (Decodes (init_config ?u (in_project_dir fl) ?p) False)"
    using assms(1) by (auto simp: runInit_def Let_def split: if_splits option.splits)
  have "load_valid env' path file' =
      Validate env' True ((init_config ?u (in_project_dir fl) ?p)\<lparr>cf_dir := Dir (Clean path)\<rparr>)"
    unfolding content by (simp add: load_valid_def Config.Load_def init_config_def)
  note this [unfolded init_config_validates [OF assms(2) p]]
  then show ?thesis using out
    by (intro exI [of _ ?u]) (simp add: runCheck_def Let_def)
qed

theorem init_then_check_witness:
  "\<exists>file'. runInit False None [] \<lparr>in_unity_path = ''/opt/Unity'', in_project_dir = ''/work/game'',
       in_test_platform = [], in_force = False, in_output_path = ''testplay.json''\<rparr> FileMissing =
       (Init_created ''testplay.json'' ''/opt/Unity'' ''/work/game'' False, 0, file') \<and>
     runCheck (\<lambda>_. True) [] ''testplay.json'' file' = (Check_ready ''/opt/Unity'' ''/work/game'', 0)"
proof -
  let ?fl = "\<lparr>in_unity_path = ''/opt/Unity'', in_project_dir = ''/work/game'', in_test_platform = [],
    in_force = False, in_output_path = ''testplay.json''\<rparr>"
  obtain file' where r: "runInit False None [] ?fl FileMissing =
      (Init_created ''testplay.json'' ''/opt/Unity'' ''/work/game'' False, 0, file')"
    by (simp add: runInit_def Let_def)
  have "IsAbs (in_project_dir ?fl)" by (simp add: IsAbs_def has_prefix_def sep_def)
  from init_then_check [OF r this, of "\<lambda>_. True" "[]" "''testplay.json''"] r show ?thesis by auto
qed

end
