(* ===== verification/TestList.thy ===== *)
theory TestList
  imports Cli LineTail
begin

text \<open>
  \<^verbatim>\<open>testplay list\<close>, \<^verbatim>\<open>cmd/testplay/list.go\<close>: the inventory of the list cache
  when it vouches for the platform, otherwise a static scan of the C# files of the project, line by
  line. The file tree is the list of files \<^verbatim>\<open>filepath.WalkDir\<close> visits, in its order, with the
  content of a file or \<open>None\<close> when it cannot be opened.
\<close>

section \<open>The scan of a file\<close>

text \<open>The default buffer of \<^verbatim>\<open>bufio.Scanner\<close>.\<close>

definition default_token :: nat where
  "default_token = 65536"

text \<open>The field after the first \<^verbatim>\<open>class\<close>, without a brace at its end.\<close>

fun after_class :: "string list \<Rightarrow> string option" where
  "after_class (p # q # ps) =
     (if p = ''class'' then Some (trim_suffix q ''{'') else after_class (q # ps))"
| "after_class ps = None"

definition class_of_line :: "string \<Rightarrow> string \<Rightarrow> string" where
  "class_of_line className line =
     (if has_prefix line ''public class '' \<or> has_prefix line ''class ''
      then (case after_class (Prelude.fields line) of Some c \<Rightarrow> c | None \<Rightarrow> className)
      else className)"

definition test_attribute :: "string \<Rightarrow> bool" where
  "test_attribute line \<longleftrightarrow> contains line ''[Test]'' \<or> contains line ''[UnityTest]'' \<or>
     contains line ''[TestCase('' \<or> contains line ''[TestCaseSource('' \<or> contains line ''[Theory]''"

definition extractMethodName :: "string \<Rightarrow> string" where
  "extractMethodName line =
     (case index_of line ''('' of
        None \<Rightarrow> []
      | Some i \<Rightarrow> (case Prelude.fields (trim_space (take i line)) of [] \<Rightarrow> [] | parts \<Rightarrow> last parts))"

definition test_name :: "string \<Rightarrow> string \<Rightarrow> string list" where
  "test_name className line =
     (let m = extractMethodName line
      in if m = [] then [] else if className = [] then [m] else [className @ ''.'' @ m])"

text \<open>The state of the loop is the class name and \<^verbatim>\<open>nextIsTest\<close>.\<close>

record scan_state =
  sn_class :: string
  sn_next :: bool

definition scan_line :: "scan_state \<Rightarrow> string \<Rightarrow> string list \<times> scan_state" where
  "scan_line st text =
     (let line = trim_space text; st1 = st\<lparr>sn_class := class_of_line (sn_class st) line\<rparr>
      in if test_attribute line then ([], st1\<lparr>sn_next := True\<rparr>)
         else if sn_next st1 \<and> line \<noteq> []
         then (if has_prefix line ''['' then ([], st1)
               else (test_name (sn_class st1) line, st1\<lparr>sn_next := False\<rparr>))
         else ([], st1))"

fun scan_from :: "scan_state \<Rightarrow> string list \<Rightarrow> string list" where
  "scan_from st [] = []"
| "scan_from st (l # ls) = (case scan_line st l of (found, st') \<Rightarrow> found @ scan_from st' ls)"

text \<open>\<open>None\<close> is an error: of the open, or of a line that does not fit the scanner's buffer.\<close>

definition scanCSharpTestFile :: "string option \<Rightarrow> string list option" where
  "scanCSharpTestFile content =
     (case content of
        None \<Rightarrow> None
      | Some s \<Rightarrow>
          (case scan_upto default_token s of (ls, too_long) \<Rightarrow>
             if too_long then None else Some (scan_from \<lparr>sn_class = [], sn_next = False\<rparr> ls)))"

section \<open>The command\<close>

type_synonym source_tree = "(string \<times> string option) list"

definition static_scan :: "source_tree \<Rightarrow> string list" where
  "static_scan tree =
     concat (map (\<lambda>(path, content). items (scanCSharpTestFile content))
       (filter (\<lambda>(path, content). has_suffix path ''.cs'') tree))"

datatype list_printed =
    From_cache "string list" string
  | From_scan "string list"
  | List_refused config_error

text \<open>The walk's own error is nil: its callback drops every error it is given.\<close>

definition runList ::
    "(string \<Rightarrow> list_cache strict_decode) \<Rightarrow> (string \<Rightarrow> bool) \<Rightarrow> (string \<Rightarrow> string file_read) \<Rightarrow>
     (string \<Rightarrow> source_tree) \<Rightarrow> string \<Rightarrow> string \<Rightarrow> list_printed \<times> int" where
  "runList decode is_rfc3339 cache tree projectPath testPlatform =
     (case ReadForPlatform decode is_rfc3339 testPlatform (cache (CachePath projectPath)) of
        Inr c \<Rightarrow> (From_cache (items (lc_tests c)) (lc_cached_run_id c), 0)
      | Inl _ \<Rightarrow> (From_scan (static_scan (tree projectPath)), 0))"

definition runListCommand ::
    "(string \<Rightarrow> list_cache strict_decode) \<Rightarrow> (string \<Rightarrow> bool) \<Rightarrow> (string \<Rightarrow> string file_read) \<Rightarrow>
     (string \<Rightarrow> source_tree) \<Rightarrow> string \<Rightarrow> config strict_decode file_read \<Rightarrow> list_printed \<times> int" where
  "runListCommand decode is_rfc3339 cache tree path file =
     (case Config.Load path file of
        Inl e \<Rightarrow>
          (if e = ErrConfigNotFound then runList decode is_rfc3339 cache tree ''.'' []
           else (List_refused e, 5))
      | Inr c0 \<Rightarrow>
          (case Validate [] False c0 of
             Inl e \<Rightarrow> (List_refused e, 5)
           | Inr c \<Rightarrow> runList decode is_rfc3339 cache tree (cf_project_path c) (cf_test_platform c)))"

definition complete_inventory :: "list_printed \<Rightarrow> bool" where
  "complete_inventory out = (case out of From_cache _ _ \<Rightarrow> True | _ \<Rightarrow> False)"

section \<open>What the scan finds\<close>

text \<open>
  A line is skipped on the way from a test attribute to its method: it is blank, an attribute of
  another kind, or again a test attribute.
\<close>

definition skipped :: "string \<Rightarrow> bool" where
  "skipped l \<longleftrightarrow> trim_space l = [] \<or> has_prefix (trim_space l) ''['' \<or> test_attribute (trim_space l)"

definition attribute_line :: "string \<Rightarrow> bool" where
  "attribute_line l \<longleftrightarrow> test_attribute (trim_space l)"

text \<open>The method line that belongs to an attribute: the first later line that is not skipped.\<close>

definition announced :: "string list \<Rightarrow> nat \<Rightarrow> bool" where
  "announced ls j \<longleftrightarrow> j < length ls \<and> \<not> skipped (ls ! j) \<and>
     (\<exists>i < j. attribute_line (ls ! i) \<and> (\<forall>m. i < m \<and> m < j \<longrightarrow> skipped (ls ! m)))"

text \<open>The class a line belongs to: the last class declared up to it.\<close>

definition class_at :: "string list \<Rightarrow> nat \<Rightarrow> string" where
  "class_at ls j = foldl class_of_line [] (map trim_space (take (Suc j) ls))"

lemma test_attribute_nonempty: "test_attribute l \<Longrightarrow> l \<noteq> []"
  by (auto simp: test_attribute_def contains_def)

text \<open>The scan from a state, as the method lines of the rest.\<close>

definition pending :: "bool \<Rightarrow> string list \<Rightarrow> nat \<Rightarrow> bool" where
  "pending nxt ls j \<longleftrightarrow> j < length ls \<and> \<not> skipped (ls ! j) \<and>
     ((nxt \<and> (\<forall>m < j. skipped (ls ! m))) \<or>
      (\<exists>i < j. attribute_line (ls ! i) \<and> (\<forall>m. i < m \<and> m < j \<longrightarrow> skipped (ls ! m))))"

lemma pending_zero: "pending nxt (l # ls) 0 \<longleftrightarrow> nxt \<and> \<not> skipped l"
  by (auto simp: pending_def)

lemma pending_Suc:
  "pending nxt (l # ls) (Suc j) \<longleftrightarrow> pending (attribute_line l \<or> nxt \<and> skipped l) ls j"
proof -
  have attr: "(\<exists>i < Suc j. attribute_line ((l # ls) ! i) \<and> (\<forall>m. i < m \<and> m < Suc j \<longrightarrow> skipped ((l # ls) ! m))) \<longleftrightarrow>
      attribute_line l \<and> (\<forall>m < j. skipped (ls ! m)) \<or>
      (\<exists>i < j. attribute_line (ls ! i) \<and> (\<forall>m. i < m \<and> m < j \<longrightarrow> skipped (ls ! m)))"
  proof -
    have split_zero: "(\<forall>m. Q m) \<longleftrightarrow> Q 0 \<and> (\<forall>m. Q (Suc m))" for Q :: "nat \<Rightarrow> bool"
      by (metis not0_implies_Suc)
    have zero: "(\<forall>m. 0 < m \<and> m < Suc j \<longrightarrow> skipped ((l # ls) ! m)) \<longleftrightarrow> (\<forall>m < j. skipped (ls ! m))"
      by (subst split_zero) simp
    have suc: "(\<forall>m. Suc i < m \<and> m < Suc j \<longrightarrow> skipped ((l # ls) ! m)) \<longleftrightarrow>
        (\<forall>m. i < m \<and> m < j \<longrightarrow> skipped (ls ! m))" for i
      by (subst split_zero) simp
    show ?thesis by (simp only: Ex_less_Suc2 nth_Cons_0 nth_Cons_Suc zero suc)
  qed
  have first: "(\<forall>m < Suc j. skipped ((l # ls) ! m)) \<longleftrightarrow> skipped l \<and> (\<forall>m < j. skipped (ls ! m))"
    by (auto simp: less_Suc_eq_0_disj)
  show ?thesis unfolding pending_def attr first by auto
qed

lemma not_skipped: "\<not> skipped l \<Longrightarrow> \<not> test_attribute (trim_space l) \<and> trim_space l \<noteq> [] \<and> \<not> has_prefix (trim_space l) ''[''"
  by (simp add: skipped_def)

lemma scan_line_step:
  "scan_line st l = (if sn_next st \<and> \<not> skipped l
      then test_name (class_of_line (sn_class st) (trim_space l)) (trim_space l) else [],
    \<lparr>sn_class = class_of_line (sn_class st) (trim_space l),
     sn_next = (attribute_line l \<or> sn_next st \<and> skipped l)\<rparr>)"
  by (cases st) (auto simp: scan_line_def skipped_def attribute_line_def Let_def)

definition found_from :: "scan_state \<Rightarrow> string list \<Rightarrow> string list" where
  "found_from st ls =
     concat (map (\<lambda>j. test_name (foldl class_of_line (sn_class st) (map trim_space (take (Suc j) ls))) (trim_space (ls ! j)))
       (filter (pending (sn_next st) ls) [0..<length ls]))"

lemma found_from_Cons:
  "found_from st (l # ls) = fst (scan_line st l) @ found_from (snd (scan_line st l)) ls"
proof -
  have "[0..<length (l # ls)] = 0 # map Suc [0..<length ls]" by (simp add: upt_conv_Cons map_Suc_upt del: upt_Suc)
  then show ?thesis
    by (simp add: found_from_def filter_map o_def pending_zero pending_Suc scan_line_step del: upt_Suc)
qed

lemma scan_from_found: "scan_from st ls = found_from st ls"
proof (induction ls arbitrary: st)
  case Nil
  then show ?case by (simp add: found_from_def)
next
  case (Cons l ls)
  then show ?case by (simp only: scan_from.simps found_from_Cons) (simp split: prod.split)
qed

text \<open>
  The static scan is its specification. For a file all of whose lines fit the scanner, the names
  found are those of the method lines, in order: the first line after a test attribute that is
  neither blank nor an attribute, named after the last class declared up to it and the last word
  before its first parenthesis. A file with one longer line contributes nothing.
\<close>

theorem scan_finds_announced:
  "scanCSharpTestFile (Some s) =
     (case scan_upto default_token s of (ls, too_long) \<Rightarrow>
        if too_long then None
        else Some (concat (map (\<lambda>j. test_name (class_at ls j) (trim_space (ls ! j)))
          (filter (announced ls) [0..<length ls]))))"
proof -
  have "pending False ls = announced ls" for ls by (rule ext) (simp add: pending_def announced_def)
  then show ?thesis
    by (simp add: scanCSharpTestFile_def scan_from_found found_from_def class_at_def split: prod.split)
qed

text \<open>
  An attribute and its method on one line: the scan looks for the method on the lines after it, so
  it misses the test and reports the next method instead.
\<close>

lemma one_line_test_misreported:
  "scan_from \<lparr>sn_class = [], sn_next = False\<rparr>
     [''class Suite {'', ''  [Test] public void Adds() {}'', ''  void Helper() {}'', ''}''] = [''Suite.Helper'']"
  by code_simp

section \<open>list after run\<close>

lemma Validate_frame:
  assumes "Validate env q c0 = Inr c"
  shows "cf_project_path c = cf_project_path (anchor_project c0)"
    "check_platform (cf_test_platform c0) = Inr (cf_test_platform c)"
proof -
  obtain c1 where c1: "default_unity env q c0 = Inr c1"
    using assms by (auto simp: Validate_def bind_result_Inr_iff)
  have frame: "cf_project_path (anchor_project c1) = cf_project_path (anchor_project c0)"
    "cf_test_platform c1 = cf_test_platform c0"
    using c1 by (auto simp: default_unity_def anchor_project_def Let_def split: if_splits)
  show "cf_project_path c = cf_project_path (anchor_project c0)"
    "check_platform (cf_test_platform c0) = Inr (cf_test_platform c)"
    using assms c1 frame by (auto simp: Validate_def bind_result_Inr_iff Let_def split: option.splits)
qed

lemma load_valid_list:
  assumes "load_valid env path file = Inr c"
  obtains c0 c' where "Config.Load path file = Inr c0" "Validate [] False c0 = Inr c'"
    "cf_project_path c' = cf_project_path c" "cf_test_platform c' = cf_test_platform c"
proof -
  obtain c0 where c0: "Config.Load path file = Inr c0" "Validate env True c0 = Inr c"
    using assms by (auto simp: load_valid_def bind_result_Inr_iff)
  then have "is_ok (Validate env True c0)" by simp
  then have "is_ok (Validate [] False c0)" unfolding Validate_accepts by simp
  then obtain c' where c': "Validate [] False c0 = Inr c'" by (auto simp: is_ok_iff)
  show ?thesis using that [OF c0(1) c'] Validate_frame [OF c0(2)] Validate_frame [OF c'] by simp
qed

lemma persist_cache_due:
  assumes "persist k w q i r code s = (final, ws, s')" "list_cache_due q code"
  shows "ss_list_cache s' = snd (Write (sw_cache_fails w) (sc_cache k) (sw_now w) i (items (rr_tests r))
    \<lparr>md_full_inventory = True, md_test_platform = cf_test_platform (sq_config q)\<rparr> (ss_list_cache s))"
  using assms by (auto simp: persist_def Let_def split: prod.splits)

lemma Generate_nonempty: "Generate t b \<noteq> []"
  by (cases b) (simp add: Generate_def)

text \<open>The inventory a full run writes.\<close>

definition run_inventory :: "service_world \<Rightarrow> run_output \<Rightarrow> config \<Rightarrow> list_cache" where
  "run_inventory w out c =
     \<lparr>lc_schema_version = SchemaVersion, lc_cached_run_id = ro_run_id out, lc_cached_at = sw_now w,
      lc_full_inventory = True, lc_test_platform = cf_test_platform c,
      lc_tests = Some (test_names (items (ro_tests out)))\<rparr>"

text \<open>
  \<^verbatim>\<open>list\<close> after a full \<^verbatim>\<open>run\<close>. When \<^verbatim>\<open>testplay run\<close> without filter and category
  has printed a result with exit code 0 or 3, and the list cache could be written, \<^verbatim>\<open>testplay list\<close>
  with the same configuration answers from the cache: a complete inventory, exactly the names of the
  tests of that run, under its run identifier. Hypotheses on \<^verbatim>\<open>encoding/json\<close> and the clock:
  the inventory of the run can be encoded, what is encoded decodes to itself, and the time stamp is
  RFC 3339.
\<close>

theorem list_after_full_run:
  assumes "runRun k w sf af env path file opts s = (Some (Run_result out, code), trace, s')"
    "op_filter opts = []" "op_category opts = []" "code \<in> {0, 3}" "\<not> sw_cache_fails w"
    "faithful_codec (sc_cache k) decode" "is_rfc3339 (sw_now w)"
    "\<forall>c. load_valid env path file = Inr c \<longrightarrow> sc_cache k (run_inventory w out c) \<noteq> None \<and>
       cache (CachePath (cf_project_path c)) = ss_list_cache s'"
  shows "runListCommand decode is_rfc3339 cache tree path file =
    (From_cache (test_names (items (ro_tests out))) (ro_run_id out), 0)"
  using assms(1)
proof (cases rule: runRun_cases)
  case (completed c co s1)
  let ?q = "request_of_flags c opts" and ?i = "Generate (sw_clock w) (sw_random w)"
  let ?r = "sr_result (co_response co)"
  have out: "out = run_output_of (co_response co)" using completed(3) by simp
  obtain reason r code' ws0 l s2 where run: "complete k w ?q ?i reason r code' ws0 l s2 = (co, s1)"
    by (rule Run_complete_cases [OF completed(2)])
  obtain persisted where p: "persist k w ?q ?i ?r code' (s2\<lparr>ss_library_cache := ss_library_cache s1\<rparr>) =
        (code, persisted, s1)" "sr_run_id (co_response co) = ?i"
    by (rule complete_cases [OF run]) (use completed(4) in simp)
  have "code' = code" using persist_code [OF p(1)] assms(4) by (auto split: if_splits)
  then have due: "list_cache_due ?q code'" using assms(2-4)
    by (auto simp: list_cache_due_def request_of_flags_def workspaceOptions_def split: option.split)
  have ok: "validTestPlatform (cf_test_platform c)" using load_valid_ok [OF completed(1)]
    by (simp add: config_ok_def validTestPlatform_def)
  have q: "sq_config ?q = c" by (simp add: request_of_flags_def split: prod.split)
  let ?c = "run_inventory w out c"
  have inv: "?c = \<lparr>lc_schema_version = SchemaVersion, lc_cached_run_id = ?i, lc_cached_at = sw_now w,
      lc_full_inventory = True, lc_test_platform = cf_test_platform c,
      lc_tests = Some (test_names (items (rr_tests ?r)))\<rparr>"
    using p(2) by (simp add: run_inventory_def out run_output_of_def Let_def)
  obtain data where data: "sc_cache k ?c = Some data" using assms(8) completed(1) by blast
  then have decoded: "decode data = Decodes ?c False" using assms(6) unfolding faithful_codec_def by blast
  have "ss_list_cache s1 = FileBytes data"
    using persist_cache_due [OF p(1) due] data assms(5) ok q Generate_nonempty by (simp add: Write_def inv)
  then have content: "cache (CachePath (cf_project_path c)) = FileBytes data"
    using assms(8) completed(1,5) by (simp add: prune_runs_def split: option.split)
  obtain c0 c' where c': "Config.Load path file = Inr c0" "Validate [] False c0 = Inr c'"
      "cf_project_path c' = cf_project_path c" "cf_test_platform c' = cf_test_platform c"
    by (rule load_valid_list [OF completed(1)])
  have "ReadForPlatform decode is_rfc3339 (cf_test_platform c) (FileBytes data) = Inr ?c"
    using ok decoded assms(7) Generate_nonempty by (simp add: ReadForPlatform_def Read_def require_def inv)
  moreover have "lc_tests ?c = Some (test_names (items (ro_tests out)))" "lc_cached_run_id ?c = ro_run_id out"
    by (simp_all add: run_inventory_def)
  ultimately show ?thesis using c' content by (simp add: runListCommand_def runList_def)
qed simp_all

definition demo_decode :: "string \<Rightarrow> list_cache strict_decode" where
  "demo_decode s = (if s = ''c'' then Decodes demo_cache False else DecodeFails)"

theorem list_after_full_run_witness:
  "\<exists>cache. runListCommand demo_decode (\<lambda>t. t = []) cache (\<lambda>_. []) ''/work/testplay.json'' demo_config_file =
     (From_cache [] demo_id_value, 0)"
proof -
  obtain resp t s' where r: "runRun demo_codecs demo_world no_faults (sw_artifact_faults demo_world) ''/opt/Unity''
     ''/work/testplay.json'' demo_config_file demo_flags demo_state =
       (Some (Run_result (run_output_of resp), 0), t, s')"
    "sr_run_id resp = demo_id_value" "rr_tests (sr_result resp) = Some []" using demo_runRun by blast
  have out: "ro_run_id (run_output_of resp) = demo_id_value" "ro_tests (run_output_of resp) = Some []"
    using r by (simp_all add: run_output_of_def Let_def)
  have inv: "run_inventory demo_world (run_output_of resp) demo_config = demo_cache"
    by (simp add: run_inventory_def out demo_cache_def demo_world_def demo_config_def test_names_def)
  have "faithful_codec (sc_cache demo_codecs) demo_decode"
    by (simp add: faithful_codec_def demo_codecs_def demo_decode_def)
  moreover have "\<not> sw_cache_fails demo_world" "sw_now demo_world = []" by (simp_all add: demo_world_def)
  moreover have "sc_cache demo_codecs demo_cache \<noteq> None" by (simp add: demo_codecs_def)
  moreover have "op_filter demo_flags = []" "op_category demo_flags = []" by (simp_all add: demo_flags_def)
  ultimately have "runListCommand demo_decode (\<lambda>t. t = []) (\<lambda>_. ss_list_cache s') (\<lambda>_. []) ''/work/testplay.json''
      demo_config_file = (From_cache (test_names (items (ro_tests (run_output_of resp)))) (ro_run_id (run_output_of resp)), 0)"
    by (intro list_after_full_run [OF r(1)]) (simp_all add: demo_load_valid inv)
  then show ?thesis using out by (auto simp: test_names_def)
qed

end
