(* ===== verification/Capability.thy ===== *)
theory Capability
  imports Cli BridgeExec
begin

text \<open>
  \<^verbatim>\<open>testplay capability compile\<close> and \<^verbatim>\<open>warm-test\<close>,
  \<^verbatim>\<open>cmd/testplay/capability.go\<close>: one request to an exact, owned warm editor, with no fall-back
  to a cold Unity. The handler is composed of the configuration, the artifact store, the strict probe
  and the bridge client of the other theories. Messages are values of a datatype.
\<close>

section \<open>What goes in and what is printed\<close>

record capability_options =
  ca_kind :: string
  ca_session :: string
  ca_editor_pid :: int
  ca_workspace_id :: string
  ca_no_fallback :: bool
  ca_filter :: string
  ca_category :: string

datatype capability_message =
    No_message
  | Strict_probe_failed capability_failure
  | Client_failed bridge_error
  | Became_indeterminate ctx_state
  | Compilation_failed
  | Not_executed string
  | Execution_indeterminate
  | Unknown_outcome string
  | Compile_ran_tests
  | No_durable_results
  | Results_unreadable
  | Results_unparseable
  | Zero_tests_executed
  | Warm_tests_failed

record capability_result =
  cr_capability :: string
  cr_run_id :: string
  cr_artifact_root :: string
  cr_exit_code :: int
  cr_backend :: string
  cr_protocol_version :: int
  cr_workspace_id :: string
  cr_editor_pid :: int
  cr_session_id :: string
  cr_compile_errors :: int
  cr_compile_details :: "compile_error list"
  cr_total :: int
  cr_passed :: int
  cr_failed :: int
  cr_skipped :: int
  cr_fallback_used :: bool
  cr_cleanup_state :: string
  cr_error :: capability_message

datatype capability_refusal =
    Bad_kind | Relative_config | Fallback_not_refused | Identity_missing | Filter_on_compile
  | Capability_config config_error | No_run_directory artifact_error

datatype capability_printed = Capability_refused capability_refusal | Capability_done capability_result

text \<open>The surroundings of a call: file system, clock, the editor's side of the bridge, codecs.\<close>

record capability_world =
  kw_cwd :: string
  kw_env :: string
  kw_file :: "config strict_decode file_read"
  kw_clock :: clock_time
  kw_random :: "8 word \<times> 8 word \<times> 8 word \<times> 8 word"
  kw_started :: string
  kw_finished :: string
  kw_faults :: artifact_faults
  kw_lstat :: "string \<Rightarrow> lstat_result"
  kw_probe :: probe_world
  kw_version_file :: "string option"
  kw_now :: int
  kw_codecs :: codecs
  kw_run :: run_world
  kw_ctx :: ctx_state
  kw_xml :: "string option"
  kw_unmarshal :: "string \<Rightarrow> string + xml_test_run"
  kw_float :: "string \<Rightarrow> float64 \<times> bool"
  kw_summary :: "capability_result \<Rightarrow> string option"
  kw_manifest :: "manifest \<Rightarrow> string option"

text \<open>\<^verbatim>\<open>filepath.Abs\<close>.\<close>

definition Abs :: "string \<Rightarrow> string \<Rightarrow> string" where
  "Abs cwd p = (if IsAbs p then Clean p else Join [cwd, p])"

section \<open>The handler\<close>

definition check_capability :: "string \<Rightarrow> capability_options \<Rightarrow> capability_refusal option" where
  "check_capability configPath opts =
     (if ca_kind opts \<noteq> CapabilityCompile \<and> ca_kind opts \<noteq> CapabilityWarmTest then Some Bad_kind
      else if \<not> IsAbs configPath then Some Relative_config
      else if \<not> ca_no_fallback opts then Some Fallback_not_refused
      else if ca_workspace_id opts = [] \<or> ca_session opts = [] \<or> ca_editor_pid opts \<le> 0
      then Some Identity_missing
      else if ca_kind opts = CapabilityCompile \<and> (ca_filter opts \<noteq> [] \<or> ca_category opts \<noteq> [])
      then Some Filter_on_compile
      else None)"

text \<open>The result before the probe: it names the identity the caller required.\<close>

definition opening_result :: "capability_options \<Rightarrow> string \<Rightarrow> string \<Rightarrow> capability_result" where
  "opening_result opts runID artifactRoot =
     \<lparr>cr_capability = ca_kind opts, cr_run_id = runID, cr_artifact_root = artifactRoot, cr_exit_code = 6,
      cr_backend = ''bridge'', cr_protocol_version = ProtocolVersion, cr_workspace_id = ca_workspace_id opts,
      cr_editor_pid = ca_editor_pid opts, cr_session_id = ca_session opts, cr_compile_errors = 0,
      cr_compile_details = [], cr_total = 0, cr_passed = 0, cr_failed = 0, cr_skipped = 0,
      cr_fallback_used = False, cr_cleanup_state = ''released'', cr_error = No_message\<rparr>"

definition capability_manifest ::
    "capability_world \<Rightarrow> string \<Rightarrow> string \<Rightarrow> int \<Rightarrow> manifest" where
  "capability_manifest w root runID code =
     \<lparr>mf_schema_version = ''1'', mf_run_id = runID, mf_artifact_root = RunDir root runID,
      mf_results_xml = ResultsFilePath root runID, mf_stdout_log = StdoutFilePath root runID,
      mf_stderr_log = StderrFilePath root runID, mf_started_at = kw_started w,
      mf_finished_at = kw_finished w, mf_exit_code = code\<rparr>"

text \<open>Code and message into the result; summary and manifest are saved, their failures ignored.\<close>

definition finish ::
    "capability_world \<Rightarrow> string \<Rightarrow> capability_result \<Rightarrow> int \<Rightarrow> capability_message \<Rightarrow> root_dir \<Rightarrow>
     capability_printed \<times> int \<times> root_dir" where
  "finish w root r code message art =
     (let runID = cr_run_id r; r' = r\<lparr>cr_exit_code := code, cr_error := message\<rparr>;
          art1 = snd (SaveSummary (kw_faults w) (kw_summary w) runID r' art);
          art2 = snd (SaveManifest (kw_faults w) (kw_manifest w) runID (capability_manifest w root runID code) art1)
      in (Capability_done r', code, art2))"

definition client_error_code :: "ctx_state \<Rightarrow> bridge_error \<Rightarrow> int \<times> capability_message" where
  "client_error_code ctx e =
     (case e of
        Indeterminate _ \<Rightarrow> (9, Client_failed e)
      | _ \<Rightarrow> (if ctx_err ctx \<noteq> None then (9, Became_indeterminate ctx) else (6, Client_failed e)))"

definition read_results ::
    "capability_world \<Rightarrow> capability_result \<Rightarrow> capability_result \<times> int \<times> capability_message" where
  "read_results w r =
     (case kw_xml w of
        None \<Rightarrow> (r, 9, Results_unreadable)
      | Some data \<Rightarrow>
          (case Parse (kw_float w) (case kw_unmarshal w data of Inl _ \<Rightarrow> None | Inr x \<Rightarrow> Some x) of
             None \<Rightarrow> (r, 9, Results_unparseable)
           | Some p \<Rightarrow>
               (let r' = r\<lparr>cr_total := nr_total p, cr_passed := nr_passed p, cr_failed := nr_failed p,
                    cr_skipped := nr_skipped p\<rparr>
                in if nr_total p < 1 then (r', 6, Zero_tests_executed)
                   else if 0 < nr_failed p then (r', 3, Warm_tests_failed)
                   else (r', 0, No_message))))"

definition judge_outcome ::
    "capability_world \<Rightarrow> string \<Rightarrow> run_outcome \<Rightarrow> capability_result \<Rightarrow>
     capability_result \<times> int \<times> capability_message" where
  "judge_outcome w kind out r =
     (let o' = ou_outcome out
      in if o' = OutcomeCompileFailed
         then (r\<lparr>cr_compile_errors := int (length (ou_compile_errors out)),
                 cr_compile_details := ou_compile_errors out\<rparr>, 2, Compilation_failed)
         else if o' = OutcomeBuildFailed \<or> o' = OutcomeBusy \<or> o' = OutcomeRejected then (r, 6, Not_executed o')
         else if o' = OutcomeIndeterminate then (r, 9, Execution_indeterminate)
         else if o' \<noteq> OutcomeCompleted then (r, 6, Unknown_outcome o')
         else if kind = CapabilityCompile
         then (if ou_results_xml_written out then (r, 6, Compile_ran_tests) else (r, 0, No_message))
         else if \<not> ou_results_xml_written out then (r, 9, No_durable_results)
         else read_results w r)"

definition capability_request :: "config \<Rightarrow> capability_options \<Rightarrow> string \<Rightarrow> string \<Rightarrow> run_request" where
  "capability_request c opts runID resultsPath =
     \<lparr>rn_run_id = runID, rn_capability_kind = ca_kind opts, rn_test_platform = cf_test_platform c,
      rn_filter = ca_filter opts, rn_category = ca_category opts, rn_results_xml = resultsPath,
      rn_idle_deadline_ms = to_total_ms (cf_timeout c)\<rparr>"

definition settle ::
    "capability_world \<Rightarrow> string \<Rightarrow> string \<Rightarrow> capability_result \<Rightarrow> client_result \<Rightarrow> root_dir \<Rightarrow>
     (capability_printed \<times> int \<times> root_dir) option" where
  "settle w kind root r res art =
     (case res of
        Finished out \<Rightarrow>
          (case judge_outcome w kind out r of (r', code, message) \<Rightarrow> Some (finish w root r' code message art))
      | Failed e \<Rightarrow>
          (case client_error_code (kw_ctx w) e of (code, message) \<Rightarrow> Some (finish w root r code message art))
      | Still_polling \<Rightarrow> None)"

text \<open>The strict probe and, when it accepts, one run of the client.\<close>

definition capability_run ::
    "capability_world \<Rightarrow> config \<Rightarrow> capability_options \<Rightarrow> string \<Rightarrow> string \<Rightarrow> root_dir \<Rightarrow>
     (capability_printed \<times> int \<times> root_dir) option \<times> request_file option" where
  "capability_run w c opts root runID art =
     (let r0 = opening_result opts runID (RunDir root runID)
      in case ProbeCapability (kw_lstat w) (kw_probe w) (Abs (kw_cwd w) (cf_project_path c)) (cf_project_path c)
           (ExpectedUnityVersion (cf_unity_path c) (kw_version_file w))
           \<lparr>cq_workspace_id = ca_workspace_id opts, cq_session_id = ca_session opts,
            cq_editor_pid = ca_editor_pid opts\<rparr> (kw_now w) 0 of
         (_, Some f) \<Rightarrow> (Some (finish w root r0 6 (Strict_probe_failed f) art), None)
       | (None, None) \<Rightarrow> (None, None)
       | (Some h, None) \<Rightarrow>
           (let r = r0\<lparr>cr_protocol_version := hs_protocol_version h, cr_workspace_id := hs_workspace_id h,
                cr_editor_pid := hs_editor_pid h, cr_session_id := hs_session_id h\<rparr>
            in case Client_Run (kw_codecs w) (NewClientForHandshake (cf_project_path c) (Some h)) (kw_run w)
                 (capability_request c opts runID (ResultsFilePath root runID)) of
              (published, _, _, res) \<Rightarrow> (settle w (ca_kind opts) root r res art, published)))"

text \<open>
  Printed value, exit code and artifact root (\<open>None\<close> while the client still polls), and the request
  published to the editor, if any.
\<close>

definition runCapability ::
    "capability_world \<Rightarrow> string \<Rightarrow> capability_options \<Rightarrow> root_dir \<Rightarrow>
     (capability_printed \<times> int \<times> root_dir) option \<times> request_file option" where
  "runCapability w configPath opts art =
     (case check_capability configPath opts of
        Some f \<Rightarrow> (Some (Capability_refused f, 5, art), None)
      | None \<Rightarrow>
          (case load_valid (kw_env w) configPath (kw_file w) of
             Inl e \<Rightarrow> (Some (Capability_refused (Capability_config e), 5, art), None)
           | Inr c \<Rightarrow>
               (let runID = Generate (kw_clock w) (kw_random w);
                    root = NewStore (kw_cwd w) (Join [cf_project_path c, ''.testplay'', ''runs''])
                in case PrepareRunDir (kw_faults w) runID art of
                   (Inl e, art1) \<Rightarrow> (Some (Capability_refused (No_run_directory e), 6, art1), None)
                 | (Inr _, art1) \<Rightarrow>
                     capability_run w c opts root runID (snd (SaveRawLogs (kw_faults w) runID [] [] art1)))))"

section \<open>Properties\<close>

lemma ProbeCapability_exact:
  assumes "ProbeCapability lstat pw root p v req now sw = (h, None)"
  shows "\<exists>hs. h = Some hs \<and> hs_protocol_version hs = ProtocolVersion \<and> hs_workspace_id hs = cq_workspace_id req \<and>
     hs_session_id hs = cq_session_id req \<and> hs_editor_pid hs = cq_editor_pid req"
  using assms by (auto simp: ProbeCapability_def split: if_splits prod.splits option.splits)

lemma finish_done:
  "finish w root r code message art = (p, code', art') \<Longrightarrow>
     p = Capability_done (r\<lparr>cr_exit_code := code, cr_error := message\<rparr>) \<and> code' = code"
  by (auto simp: finish_def Let_def)

text \<open>The identity every document of the call carries.\<close>

definition bound_to :: "capability_options \<Rightarrow> client \<Rightarrow> bool" where
  "bound_to opts cl \<longleftrightarrow> cl_protocol cl = ProtocolVersion \<and> cl_workspace_id cl = ca_workspace_id opts \<and>
     cl_session_id cl = ca_session opts \<and> cl_editor_pid cl = ca_editor_pid opts"

lemma opening_same:
  "(opening_result opts i a)\<lparr>cr_protocol_version := ProtocolVersion, cr_workspace_id := ca_workspace_id opts,
     cr_editor_pid := ca_editor_pid opts, cr_session_id := ca_session opts\<rparr> = opening_result opts i a"
  by (simp add: opening_result_def)

lemma capability_run_cases:
  assumes "capability_run w c opts root runID art = (Some (out, code, art'), published)"
  obtains (refused) f where "published = None" "code = 6"
      "out = Capability_done ((opening_result opts runID (RunDir root runID))\<lparr>cr_exit_code := 6, cr_error := Strict_probe_failed f\<rparr>)"
  | (finished) cl r marker sts o' r' message where "bound_to opts cl"
      "r = opening_result opts runID (RunDir root runID)"
      "Client_Run (kw_codecs w) cl (kw_run w) (capability_request c opts runID (ResultsFilePath root runID)) =
         (published, marker, sts, Finished o')"
      "judge_outcome w (ca_kind opts) o' r = (r', code, message)"
      "out = Capability_done (r'\<lparr>cr_exit_code := code, cr_error := message\<rparr>)"
  | (failed) cl marker sts e message where "bound_to opts cl"
      "Client_Run (kw_codecs w) cl (kw_run w) (capability_request c opts runID (ResultsFilePath root runID)) =
         (published, marker, sts, Failed e)"
      "client_error_code (kw_ctx w) e = (code, message)" "\<exists>r. out = Capability_done r"
proof -
  let ?r0 = "opening_result opts runID (RunDir root runID)"
  let ?req = "\<lparr>cq_workspace_id = ca_workspace_id opts, cq_session_id = ca_session opts,
      cq_editor_pid = ca_editor_pid opts\<rparr>"
  let ?rq = "capability_request c opts runID (ResultsFilePath root runID)"
  obtain h f where pr: "ProbeCapability (kw_lstat w) (kw_probe w) (Abs (kw_cwd w) (cf_project_path c)) (cf_project_path c)
      (ExpectedUnityVersion (cf_unity_path c) (kw_version_file w)) ?req (kw_now w) 0 = (h, f)" by fastforce
  show ?thesis
  proof (cases f)
    case (Some f')
    then have "finish w root ?r0 6 (Strict_probe_failed f') art = (out, code, art')" "published = None"
      using assms pr by (cases h; simp add: capability_run_def Let_def)+
    then show ?thesis using refused finish_done by blast
  next
    case None
    obtain hs where hs: "h = Some hs" "hs_protocol_version hs = ProtocolVersion" "hs_workspace_id hs = ca_workspace_id opts"
        "hs_session_id hs = ca_session opts" "hs_editor_pid hs = ca_editor_pid opts"
      using ProbeCapability_exact pr None by fastforce
    let ?cl = "NewClientForHandshake (cf_project_path c) (Some hs)"
    have bound: "bound_to opts ?cl" using hs by (simp add: bound_to_def NewClientForHandshake_def)
    obtain pub marker sts res where run: "Client_Run (kw_codecs w) ?cl (kw_run w) ?rq = (pub, marker, sts, res)"
      by (metis prod_cases4)
    have *: "settle w (ca_kind opts) root ?r0 res art = Some (out, code, art')" "published = pub"
      using assms run by (simp_all add: capability_run_def Let_def pr None hs opening_same)
    show ?thesis
    proof (cases res)
      case (Finished o')
      obtain r' code' message where j: "judge_outcome w (ca_kind opts) o' ?r0 = (r', code', message)"
        by (metis prod_cases3)
      then have "finish w root r' code' message art = (out, code, art')" using *(1) Finished by (simp add: settle_def)
      then show ?thesis using finished [OF bound refl] run Finished j finish_done *(2) by blast
    next
      case (Failed e)
      obtain code' message where j: "client_error_code (kw_ctx w) e = (code', message)" by fastforce
      then have "finish w root ?r0 code' message art = (out, code, art')" using *(1) Failed by (simp add: settle_def)
      then show ?thesis using failed [OF bound] run Failed j finish_done *(2) by blast
    next
      case Still_polling
      then show ?thesis using * by (simp add: settle_def)
    qed
  qed
qed

lemma runCapability_cases:
  assumes "runCapability w configPath opts art = (Some (out, code, art'), published)"
  obtains (refused) f where "out = Capability_refused f" "code = 5" "art' = art" "published = None"
  | (no_directory) e where "out = Capability_refused (No_run_directory e)" "code = 6" "published = None"
  | (ran) c root art1 where "check_capability configPath opts = None"
      "load_valid (kw_env w) configPath (kw_file w) = Inr c"
      "capability_run w c opts root (Generate (kw_clock w) (kw_random w)) art1 = (Some (out, code, art'), published)"
proof (cases "check_capability configPath opts")
  case (Some f)
  then show ?thesis using assms refused [of f] by (auto simp: runCapability_def)
next
  case None
  show ?thesis
  proof (cases "load_valid (kw_env w) configPath (kw_file w)")
    case (Inl e)
    then show ?thesis using assms None refused [of "Capability_config e"] by (auto simp: runCapability_def)
  next
    case (Inr c)
    obtain p art1 where p: "PrepareRunDir (kw_faults w) (Generate (kw_clock w) (kw_random w)) art = (p, art1)"
      by fastforce
    show ?thesis
    proof (cases p)
      case (Inl e)
      then show ?thesis using assms None Inr p no_directory [of e] by (auto simp: runCapability_def)
    next
      case p': (Inr u)
      then show ?thesis using assms None Inr p ran [OF None Inr] by (auto simp: runCapability_def Let_def)
    qed
  qed
qed

lemma read_results_zero:
  "read_results w r = (r', 0, message) \<Longrightarrow> \<exists>xml x. kw_xml w = Some xml \<and> kw_unmarshal w xml = Inr x \<and>
     1 \<le> xr_total x \<and> xr_failed x \<le> 0 \<and> message = No_message \<and>
     r' = r\<lparr>cr_total := xr_total x, cr_passed := xr_passed x, cr_failed := xr_failed x, cr_skipped := xr_skipped x\<rparr>"
  by (auto simp: read_results_def Parse_def Let_def split: option.splits sum.splits if_splits)

lemma judge_outcome_zero:
  assumes "judge_outcome w kind out r = (r', 0, message)"
  shows "ou_outcome out = OutcomeCompleted \<and> message = No_message \<and>
    (if kind = CapabilityCompile then \<not> ou_results_xml_written out \<and> r' = r
     else ou_results_xml_written out \<and> read_results w r = (r', 0, message))"
  using assms read_results_zero [of w r r' message]
  by (auto simp: judge_outcome_def Let_def split: if_splits)

lemma judge_outcome_code:
  "judge_outcome w kind out r = (r', code, message) \<Longrightarrow> code \<in> {0, 2, 3, 6, 9}"
  by (auto simp: judge_outcome_def read_results_def Let_def split: if_splits option.splits)

lemma client_error_code_range: "client_error_code ctx e = (code, message) \<Longrightarrow> code \<in> {6, 9}"
  by (auto simp: client_error_code_def split: bridge_error.splits if_splits)

text \<open>
  C40. A capability succeeds only by its own editor. Exit 0 means: the request published names the
  required workspace, session and editor process, protocol 3 and the capability; the outcome is that
  of a response read from the runtime directory that carries the run identifier and that same
  identity, and says completed; a compile ran no tests; a warm test wrote a results file that parses
  with at least one test and no failure, whose counts are printed. The printed identity is the
  required one and no fall-back was used.
\<close>

theorem capability_exit_zero:
  assumes "runCapability w configPath opts art = (Some (out, 0, art'), published)"
  shows "\<exists>r rq v data resp. out = Capability_done r \<and> published = Some rq \<and>
    cr_exit_code r = 0 \<and> \<not> cr_fallback_used r \<and> cr_workspace_id r = ca_workspace_id opts \<and>
    cr_session_id r = ca_session opts \<and> cr_editor_pid r = ca_editor_pid opts \<and>
    rq_run_id rq = cr_run_id r \<and> rq_protocol_version rq = ProtocolVersion \<and> rq_workspace_id rq = ca_workspace_id opts \<and>
    rq_session_id rq = ca_session opts \<and> rq_editor_pid rq = ca_editor_pid opts \<and> rq_capability_kind rq = ca_kind opts \<and>
    v \<in> set (rw_views (kw_run w)) \<and> pv_response v = Some data \<and> cd_response (kw_codecs w) data = Some resp \<and>
    rs_run_id resp = cr_run_id r \<and> rs_protocol_version resp = ProtocolVersion \<and>
    rs_workspace_id resp = ca_workspace_id opts \<and> rs_session_id resp = ca_session opts \<and>
    rs_editor_pid resp = ca_editor_pid opts \<and> rs_capability_kind resp = ca_kind opts \<and>
    rs_outcome resp = OutcomeCompleted \<and>
    (if ca_kind opts = CapabilityCompile then \<not> rs_results_xml_written resp
     else rs_results_xml_written resp \<and> (\<exists>xml x. kw_xml w = Some xml \<and> kw_unmarshal w xml = Inr x \<and>
       1 \<le> xr_total x \<and> xr_failed x \<le> 0 \<and> cr_total r = xr_total x \<and> cr_passed r = xr_passed x \<and>
       cr_skipped r = xr_skipped x))"
  using assms
proof (cases rule: runCapability_cases)
  case (ran c root art1)
  let ?i = "Generate (kw_clock w) (kw_random w)"
  from ran(3) show ?thesis
  proof (cases rule: capability_run_cases)
    case (finished cl r marker sts o' r' message)
    let ?rq = "capability_request c opts ?i (ResultsFilePath root ?i)"
    from Client_Run_finished [OF finished(3)] obtain v data resp where
      resp: "v \<in> set (rw_views (kw_run w))" "pv_response v = Some data" "cd_response (kw_codecs w) data = Some resp"
        "own_response cl ?rq resp" "o' = finishOutcome (kw_codecs w) resp (pv_sidecar v)"
      and pub: "published = Some (request_of cl ?rq)" by blast
    have outc: "ou_outcome o' = rs_outcome resp" "ou_results_xml_written o' = rs_results_xml_written resp"
      using resp(5) by (simp_all add: finishOutcome_def)
    have j: "judge_outcome w (ca_kind opts) o' r = (r', 0, message)" by (rule finished(4))
    have fixed: "cr_fallback_used r' = False \<and> cr_workspace_id r' = ca_workspace_id opts \<and>
        cr_session_id r' = ca_session opts \<and> cr_editor_pid r' = ca_editor_pid opts \<and> cr_run_id r' = ?i"
      using judge_outcome_zero [OF j] read_results_zero [of w r r' message] finished(2)
      by (auto simp: opening_result_def split: if_splits)
    show ?thesis
      using judge_outcome_zero [OF j] read_results_zero [of w r r' message] fixed finished(1,5) resp pub outc
      by (intro exI [of _ "r'\<lparr>cr_exit_code := 0, cr_error := message\<rparr>"] exI [of _ "request_of cl ?rq"]
          exI [of _ v] exI [of _ data] exI [of _ resp])
        (auto simp: own_response_def bound_to_def request_of_def capability_request_def split: if_splits)
  next
    case (failed cl marker sts e message)
    then show ?thesis using client_error_code_range by fastforce
  qed simp
qed simp_all

text \<open>
  A capability is settled by its own editor or is indeterminate. The exit code is one of 0, 2, 3,
  5, 6 and 9, and never 0, 2 or 3 without a published request. Once the request is published, any
  exit code but 9 was decided by a document of the required editor that the client read: its response
  to this run, or its tombstone saying that the execution had not started. The end of the context,
  a foreign document or a tombstone of a possible execution never gives a definite code.
\<close>

theorem capability_settled_by_editor:
  assumes "runCapability w configPath opts art = (Some (out, code, art'), published)"
    "\<forall>v \<in> set (rw_views (kw_run w)). pv_done v \<noteq> None \<longrightarrow> ctx_err (kw_ctx w) \<noteq> None"
  shows "code \<in> {0, 2, 3, 5, 6, 9} \<and>
    (case published of
       None \<Rightarrow> code \<in> {5, 6, 9}
     | Some rq \<Rightarrow> code = 9 \<or> (\<exists>cl. bound_to opts cl \<and> (\<exists>v \<in> set (rw_views (kw_run w)).
         (\<exists>resp. readResponse (kw_codecs w) cl (rq_run_id rq) (ca_kind opts) (pv_response v) = Some resp) \<or>
         (\<exists>t. readTombstone (kw_codecs w) cl (rq_run_id rq) (pv_tombstone v) = Some t \<and>
            ts_execution_state t = ExecutionStateNotStarted))))"
  using assms(1)
proof (cases rule: runCapability_cases)
  case (ran c root art1)
  let ?i = "Generate (kw_clock w) (kw_random w)"
  let ?rq = "capability_request c opts ?i (ResultsFilePath root ?i)"
  have rq: "rn_run_id ?rq = ?i" "rn_capability_kind ?rq = ca_kind opts" by (simp_all add: capability_request_def)
  from ran(3) show ?thesis
  proof (cases rule: capability_run_cases)
    case (finished cl r marker sts o' r' message)
    from Client_Run_finished [OF finished(3)] have pub: "published = Some (request_of cl ?rq)" by blast
    obtain cancel where "poll_run (kw_codecs w) cl ?rq 0 (rw_views (kw_run w)) = (sts, Finished o', cancel)"
      using Client_Run_published finished(3) pub by blast
    from poll_run_finished [OF this] show ?thesis
      using judge_outcome_code [OF finished(4)] finished(1) pub rq by (auto simp: request_of_def)
  next
    case (failed cl marker sts e message)
    note code = client_error_code_range [OF failed(3)]
    show ?thesis
    proof (cases published)
      case None
      then show ?thesis using code by auto
    next
      case (Some rq')
      obtain cancel where p: "poll_run (kw_codecs w) cl ?rq 0 (rw_views (kw_run w)) = (sts, Failed e, cancel)"
        using Client_Run_published failed(2) Some by blast
      have rq': "rq' = request_of cl ?rq"
        using failed(2) Some by (auto simp: Client_Run_def split: option.splits if_splits prod.splits)
      from poll_run_failed [OF p] show ?thesis
      proof (elim disjE exE conjE bexE)
        fix re v
        assume "e = Bridge_ctx re" "v \<in> set (rw_views (kw_run w))" "pv_done v = Some re"
        then have "code = 9" using assms(2) failed(3) by (auto simp: client_error_code_def)
        then show ?thesis using Some by simp
      next
        fix v t
        assume t: "v \<in> set (rw_views (kw_run w))" "e = tombstone_error t"
          "readTombstone (kw_codecs w) cl (rn_run_id ?rq) (pv_tombstone v) = Some t"
        show ?thesis
        proof (cases "ts_execution_state t = ExecutionStateNotStarted")
          case True
          then show ?thesis using t rq rq' Some failed(1) code by (auto simp: request_of_def)
        next
          case False
          then have "code = 9" using t(2) failed(3) by (simp add: tombstone_error_def client_error_code_def)
          then show ?thesis using Some by simp
        qed
      qed
    qed
  qed auto
qed auto

section \<open>A successful compile\<close>

definition demo_editor :: handshake where
  "demo_editor = \<lparr>hs_schema_version = ''1'', hs_protocol_version = 3, hs_project_path = ''/work/game'',
     hs_project_path_real = ''/work/game'', hs_unity_version = [], hs_editor_pid = 42, hs_workspace_id = ''w1'',
     hs_session_id = ''s1'', hs_updated_at = ''now'', hs_editor_state = ''idle'', hs_active_run_id = []\<rparr>"

definition demo_response :: response_file where
  "demo_response = (response_from ''s1'' OutcomeCompleted)\<lparr>rs_run_id := demo_id_value,
     rs_capability_kind := ''compile'', rs_results_xml_written := False\<rparr>"

definition demo_capability_world :: capability_world where
  "demo_capability_world = \<lparr>kw_cwd = ''/work'', kw_env = ''/opt/Unity'', kw_file = demo_config_file,
     kw_clock = \<lparr>year = 2026, month = 1, day = 2, hour = 3, minute = 4, second = 5\<rparr>,
     kw_random = (0, 1, 2, 255), kw_started = [], kw_finished = [],
     kw_faults = \<lparr>af_mkdir = False, af_write = (\<lambda>_. False), af_list = False, af_remove = (\<lambda>_. None)\<rparr>,
     kw_lstat = (\<lambda>_. Lstat_absent),
     kw_probe = \<lparr>pw_handshake = Some ''h'', pw_decode = (\<lambda>_. Some demo_editor), pw_eval_symlinks = (\<lambda>_. None),
       pw_parse_time = (\<lambda>_. Some 0)\<rparr>,
     kw_version_file = None, kw_now = 0,
     kw_codecs = sample_codecs\<lparr>cd_response := (\<lambda>s. if s = ''done'' then Some demo_response else None)\<rparr>,
     kw_run = sample_world [view_of [] (Some ''done'')], kw_ctx = Alive, kw_xml = None,
     kw_unmarshal = (\<lambda>_. Inl []), kw_float = (\<lambda>_. (0, True)), kw_summary = (\<lambda>_. Some ''s''),
     kw_manifest = (\<lambda>_. Some ''m'')\<rparr>"

definition demo_capability :: capability_options where
  "demo_capability = \<lparr>ca_kind = ''compile'', ca_session = ''s1'', ca_editor_pid = 42, ca_workspace_id = ''w1'',
     ca_no_fallback = True, ca_filter = [], ca_category = []\<rparr>"

lemma demo_capability_check: "check_capability ''/work/testplay.json'' demo_capability = None"
  by code_simp

lemma demo_capability_path: "validateCapabilityBridgePath (\<lambda>_. Lstat_absent) ''/work/game''"
  by code_simp

lemma demo_capability_probed:
  "Probe \<lparr>pw_handshake = Some ''h'', pw_decode = (\<lambda>_. Some demo_editor), pw_eval_symlinks = (\<lambda>_. None),
     pw_parse_time = (\<lambda>_. Some 0)\<rparr> ''/work/game'' v 0 0 = (Some demo_editor, None)"
proof -
  have "samePath (\<lambda>_. None) ''/work/game'' ''/work/game''" by code_simp
  then show ?thesis
    by (simp add: Probe_def demo_editor_def SupportedProtocol_def ProtocolVersion_def EditorStateIdle_def
        time_sub_def min_int64_def max_int64_def DefaultStaleWindow_def Let_def)
qed

lemma demo_capability_probe:
  "ProbeCapability (kw_lstat demo_capability_world) (kw_probe demo_capability_world)
     (Abs (kw_cwd demo_capability_world) ''/work/game'') ''/work/game'' v
     \<lparr>cq_workspace_id = ''w1'', cq_session_id = ''s1'', cq_editor_pid = 42\<rparr> (kw_now demo_capability_world) 0 =
   (Some demo_editor, None)"
proof -
  have "Abs ''/work'' ''/work/game'' = ''/work/game''" by code_simp
  then show ?thesis
    using demo_capability_path demo_capability_probed
    by (simp add: ProbeCapability_def demo_capability_world_def) (simp add: demo_editor_def ProtocolVersion_def)
qed

lemma demo_capability_client:
  assumes "rn_run_id req = demo_id_value" "rn_capability_kind req = ''compile''"
  shows "Client_Run (kw_codecs demo_capability_world) (NewClientForHandshake p (Some demo_editor))
    (kw_run demo_capability_world) req =
    (Some (request_of (NewClientForHandshake p (Some demo_editor)) req), None,
     fst (drainProgress (kw_codecs demo_capability_world) (Some []) 0),
     Finished (finishOutcome (kw_codecs demo_capability_world) demo_response None))"
  using assms
  by (simp add: Client_Run_def demo_capability_world_def sample_world_def view_of_def NewClientForHandshake_def
      demo_editor_def SupportedProtocol_def ProtocolVersion_def CapabilityCompile_def readResponse_def
      demo_response_def response_from_def split: prod.split)

lemma demo_capability_runs:
  "\<exists>r art rq. runCapability demo_capability_world ''/work/testplay.json'' demo_capability None =
     (Some (Capability_done r, 0, art), Some rq)"
proof -
  have world: "kw_env demo_capability_world = ''/opt/Unity''" "kw_file demo_capability_world = demo_config_file"
    "Generate (kw_clock demo_capability_world) (kw_random demo_capability_world) = demo_id_value"
    "af_mkdir (kw_faults demo_capability_world) = False"
    using demo_id by (simp_all add: demo_capability_world_def demo_world_def demo_id_value_def)
  have opts: "ca_kind demo_capability = ''compile''" "ca_session demo_capability = ''s1''"
    "ca_workspace_id demo_capability = ''w1''" "ca_editor_pid demo_capability = 42"
    by (simp_all add: demo_capability_def)
  have project: "cf_project_path demo_config = ''/work/game''" by (simp add: demo_config_def)
  have judged: "judge_outcome w ''compile'' (finishOutcome cd demo_response None) r = (r, 0, No_message)" for w cd r
    by (simp add: judge_outcome_def finishOutcome_def demo_response_def response_from_def outcome_defs
        CapabilityCompile_def)
  have request: "rn_run_id (capability_request c demo_capability i x) = i"
    "rn_capability_kind (capability_request c demo_capability i x) = ''compile''" for c i x
    by (simp_all add: capability_request_def opts)
  have "\<exists>art' rq. capability_run demo_capability_world demo_config demo_capability root demo_id_value art =
      (Some (Capability_done ((opening_result demo_capability demo_id_value (RunDir root demo_id_value))
         \<lparr>cr_exit_code := 0, cr_error := No_message\<rparr>), 0, art'), Some rq)" for root art
    using opening_same [of demo_capability demo_id_value "RunDir root demo_id_value"]
    by (simp add: capability_run_def opts project demo_capability_probe demo_capability_client request
        settle_def judged finish_def Let_def) (simp add: demo_editor_def ProtocolVersion_def opening_result_def opts)
  then show ?thesis
    by (simp add: runCapability_def demo_capability_check world demo_load_valid PrepareRunDir_def Let_def) blast
qed

theorem capability_exit_zero_witness:
  "\<exists>r art rq. runCapability demo_capability_world ''/work/testplay.json'' demo_capability None =
     (Some (Capability_done r, 0, art), Some rq) \<and> cr_session_id r = ''s1'' \<and> rq_run_id rq = cr_run_id r"
proof -
  obtain r art rq where r: "runCapability demo_capability_world ''/work/testplay.json'' demo_capability None =
      (Some (Capability_done r, 0, art), Some rq)" using demo_capability_runs by blast
  have "ca_session demo_capability = ''s1''" by (simp add: demo_capability_def)
  then show ?thesis using capability_exit_zero [OF r] r by auto
qed

theorem capability_settled_by_editor_witness:
  "\<exists>cl. bound_to demo_capability cl \<and> cl_session_id cl = ''s1''"
proof -
  obtain r art rq where r: "runCapability demo_capability_world ''/work/testplay.json'' demo_capability None =
      (Some (Capability_done r, 0, art), Some rq)" using demo_capability_runs by blast
  have "\<forall>v \<in> set (rw_views (kw_run demo_capability_world)). pv_done v \<noteq> None \<longrightarrow> ctx_err (kw_ctx demo_capability_world) \<noteq> None"
    by (simp add: demo_capability_world_def sample_world_def view_of_def)
  from capability_settled_by_editor [OF r this] show ?thesis by (auto simp: bound_to_def demo_capability_def)
qed

end
