(* ===== verification/ScenarioRun.thy ===== *)
theory ScenarioRun
  imports Cli ScenarioRunner
begin

text \<open>
  \<^verbatim>\<open>testplay run --scenario\<close>: \<^verbatim>\<open>runScenario\<close> of
  \<^verbatim>\<open>cmd/testplay/run.go\<close>, with \<^verbatim>\<open>project_identity.go\<close> and
  \<^verbatim>\<open>scenario_ipc.go\<close>. The scenario file and every configuration are checked before anything
  starts; then the orchestrator of \<open>ScenarioRunner\<close> drives one run of \<open>RunService\<close> per instance, on
  the request built here. The maps from roles are association lists in the order of the instances.
\<close>

section \<open>Project identity\<close>

text \<open>
  \<^verbatim>\<open>projectFileInfo\<close> is the parameter \<open>identity\<close>: the volume and file identifiers of an
  existing directory, \<open>None\<close> when they cannot be obtained; \<^verbatim>\<open>os.SameFile\<close> is their equality.
\<close>

definition sameProjectPath :: "(string \<Rightarrow> 'i option) \<Rightarrow> string \<Rightarrow> string \<Rightarrow> bool \<times> bool" where
  "sameProjectPath identity a b =
     (case (identity a, identity b) of (Some x, Some y) \<Rightarrow> (x = y, True) | _ \<Rightarrow> (False, False))"

definition identities :: "(string \<Rightarrow> 'i option) \<Rightarrow> (string \<times> config option) list \<Rightarrow> (string \<times> 'i) list" where
  "identities identity configs =
     List.map_filter (\<lambda>(role, c). case c of None \<Rightarrow> None
       | Some c \<Rightarrow> map_option (Pair role) (identity (cf_project_path c))) configs"

definition unproven :: "(string \<Rightarrow> 'i option) \<Rightarrow> (string \<times> config option) list \<Rightarrow> string list" where
  "unproven identity configs =
     map fst (filter (\<lambda>(role, c). case c of None \<Rightarrow> True
       | Some c \<Rightarrow> identity (cf_project_path c) = None) configs)"

definition twins :: "(string \<times> 'i) list \<Rightarrow> string list" where
  "twins ids = map fst (filter (\<lambda>(role, x). \<exists>(other, y) \<in> set ids. role \<noteq> other \<and> x = y) ids)"

definition sharedProjectRoles :: "(string \<Rightarrow> 'i option) \<Rightarrow> (string \<times> config option) list \<Rightarrow> string \<Rightarrow> bool" where
  "sharedProjectRoles identity configs role \<longleftrightarrow>
     role \<in> set (unproven identity configs) \<or> role \<in> set (twins (identities identity configs))"

section \<open>Before anything starts\<close>

datatype scenario_refusal =
    Scenario_file_refused spec_error
  | Compare_run_with_scenario
  | Instance_config_refused config_error
  | Phases_refused spec_error

fun load_configs ::
    "string \<Rightarrow> (string \<Rightarrow> config strict_decode file_read) \<Rightarrow> scenario_file \<Rightarrow> instance_spec list \<Rightarrow>
     config_error + (string \<times> config) list" where
  "load_configs env files spec [] = Inr []"
| "load_configs env files spec (i # is) =
     bind_result (load_valid env (ConfigPath spec i) (files (ConfigPath spec i))) (\<lambda>c.
     bind_result (load_configs env files spec is) (\<lambda>cs. Inr ((is_role i, c) # cs)))"

text \<open>The sum of the totals in \<^verbatim>\<open>int64\<close>, and the deadline it gives.\<close>

definition total_ms :: "(string \<times> config) list \<Rightarrow> int" where
  "total_ms configs = foldl (\<lambda>t (role, c). wrap64 (t + to_total_ms (cf_timeout c))) 0 configs"

definition scenario_deadline :: "(string \<times> config) list \<Rightarrow> int" where
  "scenario_deadline configs = duration_of_ms (total_ms configs)"

definition instance_deadline :: "config \<Rightarrow> int" where
  "instance_deadline c = duration_of_ms (to_total_ms (cf_timeout c))"

definition two_phase_roles :: "(string \<times> config) list \<Rightarrow> string \<Rightarrow> bool" where
  "two_phase_roles configs role = (case map_of configs role of None \<Rightarrow> False | Some c \<Rightarrow> twoPhaseRequested c)"

text \<open>The bus lies under the project of the first instance.\<close>

definition bus_dir :: "config \<Rightarrow> string \<Rightarrow> string" where
  "bus_dir first scenarioRunID = Join [cf_project_path first, ''.testplay'', ''ipc'', scenarioRunID]"

definition bus_path :: "(string \<Rightarrow> bool) \<Rightarrow> (string \<Rightarrow> string option) \<Rightarrow> (string \<Rightarrow> bool) \<Rightarrow> config \<Rightarrow> string \<Rightarrow> string" where
  "bus_path mkdir_ok abs_of touch_ok first scenarioRunID =
     (let dir = bus_dir first scenarioRunID; path = Join [dir, ''bus.ndjson''];
          bus = (case abs_of path of Some p \<Rightarrow> p | None \<Rightarrow> path)
      in if mkdir_ok dir \<and> touch_ok bus then bus else [])"

section \<open>The run of an instance\<close>

definition instance_request ::
    "(string \<Rightarrow> bool) \<Rightarrow> bool \<Rightarrow> run_cmd_options \<Rightarrow> config \<Rightarrow> instance_spec \<Rightarrow> service_request" where
  "instance_request shared clear opts c i =
     (case workspaceOptions c opts of (backend, root) \<Rightarrow>
        \<lparr>sq_config = c, sq_filter = op_filter opts, sq_category = op_category opts,
         sq_compare_run = is_compare_run i, sq_reset_shadow = op_reset_shadow opts,
         sq_force_shadow = (op_force_shadow opts \<or> shared (is_role i)),
         sq_clear_cache = (clear \<or> op_clear_cache opts), sq_skip_write_back = True,
         sq_force_bridge = False, sq_disable_bridge = True, sq_backend = backend,
         sq_keep = op_keep_workspace opts, sq_store_root = root\<rparr>)"

text \<open>The environment of the instance: a value the user gave for the bus wins.\<close>

definition instance_env :: "string \<Rightarrow> instance_spec \<Rightarrow> string \<rightharpoonup> string" where
  "instance_env bus i =
     (let env = map_of (is_env i)
      in if bus = [] \<or> env ''TESTPLAY_IPC_BUS'' \<noteq> None then env else env(''TESTPLAY_IPC_BUS'' \<mapsto> bus))"

text \<open>What the runner of an instance gives the orchestrator: exit code and infrastructure error.\<close>

definition returned :: "(service_error \<Rightarrow> string) \<Rightarrow> service_outcome \<Rightarrow> (int \<times> string option) option" where
  "returned text_of out =
     (case out of
        Service_error e \<Rightarrow> Some (error_exit_code e, Some (text_of e))
      | Completed c \<Rightarrow> Some (sr_exit_code (co_response c), None)
      | Still_waiting \<Rightarrow> None)"

section \<open>The output\<close>

record 'p ipc_summary =
  pm_sent_count :: nat
  pm_received_count :: nat
  pm_last_sent :: "'p message option"
  pm_last_received :: "'p message option"

definition ipcMessagesFromEvents :: "'p read_event list \<Rightarrow> 'p message list" where
  "ipcMessagesFromEvents events = map re_msg events"

definition summary_step :: "'p ipc_summary \<Rightarrow> 'p read_event \<Rightarrow> 'p ipc_summary" where
  "summary_step s ev =
     (case re_direction ev of
        Send \<Rightarrow> s\<lparr>pm_sent_count := Suc (pm_sent_count s), pm_last_sent := Some (re_msg ev)\<rparr>
      | Recv \<Rightarrow> s\<lparr>pm_received_count := Suc (pm_received_count s), pm_last_received := Some (re_msg ev)\<rparr>)"

definition ipcSummaryFromEvents :: "'p read_event list \<Rightarrow> 'p ipc_summary" where
  "ipcSummaryFromEvents events = foldl summary_step
     \<lparr>pm_sent_count = 0, pm_received_count = 0, pm_last_sent = None, pm_last_received = None\<rparr> events"

text \<open>The entries appended to the event log of an instance.\<close>

definition ipc_log_event :: "'p read_event \<Rightarrow> event" where
  "ipc_log_event ev =
     \<lparr>ev_event = (case re_direction ev of Send \<Rightarrow> ''ipc_send'' | Recv \<Rightarrow> ''ipc_recv''), ev_run_id = [],
      ev_phase = [], ev_timestamp = m_ts (re_msg ev), ev_reason = [], ev_exit_code = None,
      ev_ipc_seq = Some (m_seq (re_msg ev)), ev_ipc_kind = m_kind (re_msg ev),
      ev_ipc_peer = (case re_direction ev of Send \<Rightarrow> m_to (re_msg ev) | Recv \<Rightarrow> m_from (re_msg ev))\<rparr>"

fun append_ipc_events ::
    "(nat \<Rightarrow> bool \<times> string) \<Rightarrow> 'p read_event list \<Rightarrow> event_log \<Rightarrow> event_log" where
  "append_ipc_events io [] l = l"
| "append_ipc_events io (ev # evs) l =
     append_ipc_events io evs (snd (EventLog_Append io (ipc_log_event ev) l))"

definition appendIpcEventsToLog ::
    "bool \<Rightarrow> (nat \<Rightarrow> bool \<times> string) \<Rightarrow> 'p read_event list \<Rightarrow> event_log \<Rightarrow> event_log" where
  "appendIpcEventsToLog exists io events l = (if exists then append_ipc_events io events l else l)"

text \<open>The output of one instance; \<open>resp\<close> is the response of its run, when it had one with a result.\<close>

datatype 'p instance_output =
    Instance_error string int string
  | Instance_code string int
  | Instance_result string run_output "('p message list \<times> 'p ipc_summary) option"

definition instance_output :: "'p instance_result \<Rightarrow> service_response option \<Rightarrow> 'p instance_output" where
  "instance_output r resp =
     (case ir_err r of
        Some text \<Rightarrow> Instance_error (ir_role r) (if ir_code r = 0 then 1 else ir_code r) text
      | None \<Rightarrow>
          (case resp of
             None \<Rightarrow> Instance_code (ir_role r) (ir_code r)
           | Some resp \<Rightarrow> Instance_result (ir_role r) (run_output_of resp)
               (if ir_ipc r = [] then None
                else Some (ipcMessagesFromEvents (ir_ipc r), ipcSummaryFromEvents (ir_ipc r)))))"

record 'p scenario_output =
  so_scenario_run_id :: string
  so_exit_code :: int
  so_instances :: "'p instance_output list"
  so_orchestrator_errors :: "orchestrator_error list option"

datatype 'p scenario_printed = Scenario_refused scenario_refusal | Scenario_done "'p scenario_output"

text \<open>
  The pruning at the end: result store, artifact root, bus root and the number to keep, each pair of
  result store and artifact root once, with the number of its first instance.
\<close>

definition prune_entry :: "config \<Rightarrow> (string \<times> string \<times> string \<times> int) option" where
  "prune_entry c =
     (case cf_max_runs c of
        None \<Rightarrow> None
      | Some n \<Rightarrow>
          (if n \<le> 0 then None
           else Some (cf_result_dir c, Join [cf_project_path c, ''.testplay'', ''runs''],
             Join [cf_project_path c, ''.testplay'', ''ipc''], n)))"

fun prune_plan :: "string list \<Rightarrow> config option list \<Rightarrow> (string \<times> string \<times> string \<times> int) list" where
  "prune_plan seen [] = []"
| "prune_plan seen (c # cs) =
     (case Option.bind c prune_entry of
        None \<Rightarrow> prune_plan seen cs
      | Some (results, root, ipc, n) \<Rightarrow>
          (let key = results @ ''|'' @ root
           in if key \<in> set seen then prune_plan seen cs
              else (results, root, ipc, n) # prune_plan (key # seen) cs))"

section \<open>The command\<close>

text \<open>What the checks before the start give: the scenario and the configurations.\<close>

definition prepare_scenario ::
    "string \<Rightarrow> string \<Rightarrow> scenario_file option file_read \<Rightarrow> (string \<Rightarrow> config strict_decode file_read) \<Rightarrow>
     run_cmd_options \<Rightarrow> scenario_refusal + scenario_file \<times> (string \<times> config) list" where
  "prepare_scenario env specPath specFile files opts =
     (case Load_scenario specPath specFile of
        Inl e \<Rightarrow> Inl (Scenario_file_refused e)
      | Inr spec \<Rightarrow>
          (if op_compare_run opts \<noteq> [] then Inl Compare_run_with_scenario
           else case load_configs env files spec (sf_instances spec) of
               Inl e \<Rightarrow> Inl (Instance_config_refused e)
             | Inr configs \<Rightarrow>
                 (case ValidateSignalPhases (two_phase_roles configs) spec of
                    Inl e \<Rightarrow> Inl (Phases_refused e)
                  | Inr _ \<Rightarrow> Inr (spec, configs))))"

text \<open>
  The whole command on a sequence of events of the orchestrator and the responses of the runs;
  \<open>None\<close> when the sequence is not a complete run. The last component is the pruning.
\<close>

definition runScenario ::
    "string \<Rightarrow> string \<Rightarrow> scenario_file option file_read \<Rightarrow> (string \<Rightarrow> config strict_decode file_read) \<Rightarrow>
     run_cmd_options \<Rightarrow> string \<Rightarrow> 'p run_event list \<Rightarrow> (nat \<Rightarrow> service_response option) \<Rightarrow>
     ('p scenario_printed \<times> int \<times> (string \<times> string \<times> string \<times> int) list) option" where
  "runScenario env specPath specFile files opts scenarioRunID es responses =
     (case prepare_scenario env specPath specFile files opts of
        Inl f \<Rightarrow> Some (Scenario_refused f, 5, [])
      | Inr (spec, configs) \<Rightarrow>
          (case RunScenario spec es of
             None \<Rightarrow> None
           | Some (code, results, errs) \<Rightarrow>
               Some (Scenario_done \<lparr>so_scenario_run_id = scenarioRunID, so_exit_code = code,
                   so_instances = map (\<lambda>(r, n). instance_output r (responses n)) (zip results [0..<length results]),
                   so_orchestrator_errors = nonempty errs\<rparr>, code,
                 prune_plan [] (map (\<lambda>i. map_of configs (is_role i)) (sf_instances spec)))))"

section \<open>A forced workspace is used\<close>

lemma cold_run_forced:
  assumes "cold_run k w legacy q file = Inr (trace, r, code, ws, l)" "use_workspace w q"
  shows "rr_backend r = backendShadow"
proof -
  obtain l0 where l0: "prepare_workspace w legacy q = Inr l0"
    using assms(1) by (auto simp: cold_run_def bind_result_Inr_iff)
  then have some: "l0 \<noteq> None" using assms(2) by (auto simp: prepare_workspace_def map_sum_def split: sum.splits)
  obtain t c and r' :: result where e: "Execute (sc_xml k) (sc_float k) (cw_run w) (cold_options q file l0) = (t, r', c)"
    by (metis prod_cases3)
  then have "r = r'\<lparr>rr_backend := backendShadow\<rparr>" using assms(1) l0 some by (auto simp: cold_run_def)
  then show ?thesis by simp
qed

lemma Run_forced_shadow:
  assumes "Run k w q s = (Completed c, trace, s')" "sq_force_shadow q"
  shows "rr_backend (sr_result (co_response c)) = backendShadow"
proof -
  let ?i = "Generate (sw_clock w) (sw_random w)"
  obtain s1 t where "execute_tiers k w q ?i s1 = (Completed c, t, s')" by (rule Run_Completed [OF assms(1)])
  then show ?thesis
  proof (cases rule: execute_tiers_cases)
    case (bridge r code nts)
    have "bridge_eligible q" by (rule warm_tier_Executed [OF bridge(1)])
    then show ?thesis using assms(2) by (simp add: bridge_eligible_def)
  next
    case (cold reason sts t')
    obtain r code ws l where c: "cold_run k (sw_cold w) (legacy_prepared (sw_paths w) (sw_cold w) q ?i
        (ss_library_cache s1)) q (ResultsFilePath (sw_artifact_root w) ?i) = Inr (t', r, code, ws, l)"
      "complete k w q ?i reason r code ws l s1 = (c, s')"
      by (rule cold_path_cases [OF cold(1)])
    have "use_workspace (sw_cold w) q" using assms(2) by (simp add: use_workspace_def)
    note forced = cold_run_forced [OF c(1) this]
    show ?thesis by (rule complete_cases [OF c(2)]) (simp add: forced)
  qed
qed

section \<open>Projects shared by instances\<close>

lemma instance_request_force [simp]:
  "sq_force_shadow (instance_request shared clear opts c i) \<longleftrightarrow> op_force_shadow opts \<or> shared (is_role i)"
  "sq_config (instance_request shared clear opts c i) = c"
  by (simp_all add: instance_request_def split: prod.split)

lemma load_configs_map:
  "load_configs env files spec is = Inr configs \<Longrightarrow> map fst configs = map is_role is"
  by (induction "is" arbitrary: configs) (auto simp: bind_result_Inr_iff)

lemma load_configs_nth:
  "load_configs env files spec is = Inr configs \<Longrightarrow> i < length is \<Longrightarrow>
     load_valid env (ConfigPath spec (is ! i)) (files (ConfigPath spec (is ! i))) = Inr (snd (configs ! i))"
  by (induction "is" arbitrary: configs i) (auto simp: bind_result_Inr_iff nth_Cons' split: nat.split)

definition known_configs :: "(string \<times> config) list \<Rightarrow> (string \<times> config option) list" where
  "known_configs = map (apsnd Some)"

lemma shared_or_distinct:
  assumes "(a, c) \<in> set configs" "(b, d) \<in> set configs" "a \<noteq> b"
    "\<not> sharedProjectRoles identity (known_configs configs) a"
    "\<not> sharedProjectRoles identity (known_configs configs) b"
  shows "\<exists>x y. identity (cf_project_path c) = Some x \<and> identity (cf_project_path d) = Some y \<and> x \<noteq> y"
proof -
  let ?cs = "known_configs configs"
  have mem: "(a, Some c) \<in> set ?cs" "(b, Some d) \<in> set ?cs" using assms(1,2) by (force simp: known_configs_def)+
  have "a \<notin> set (unproven identity ?cs)" "b \<notin> set (unproven identity ?cs)"
    using assms(4,5) by (simp_all add: sharedProjectRoles_def)
  then obtain x y where xy: "identity (cf_project_path c) = Some x" "identity (cf_project_path d) = Some y"
    using mem by (force simp: unproven_def image_iff)
  have ids: "(a, x) \<in> set (identities identity ?cs)" "(b, y) \<in> set (identities identity ?cs)"
    using mem xy by (force simp: identities_def List.map_filter_def)+
  have "x \<noteq> y"
  proof
    assume "x = y"
    then have "a \<in> set (twins (identities identity ?cs))" using ids assms(3) by (force simp: twins_def)
    then show False using assms(4) by (simp add: sharedProjectRoles_def)
  qed
  then show ?thesis using xy by blast
qed

lemma prepare_scenario_cases:
  assumes "prepare_scenario env specPath specFile files opts = Inr (spec, configs)"
  shows "Load_scenario specPath specFile = Inr spec" "op_compare_run opts = []"
    "load_configs env files spec (sf_instances spec) = Inr configs"
    "ValidateSignalPhases (two_phase_roles configs) spec = Inr ()"
  using assms by (auto simp: prepare_scenario_def split: sum.splits if_splits)

lemma prepared_roles:
  assumes "prepare_scenario env specPath specFile files opts = Inr (spec, configs)"
  shows "map fst configs = role_list (sf_instances spec)" "distinct (map fst configs)"
  using load_configs_map [OF prepare_scenario_cases(3) [OF assms]] Load_acyclic [OF prepare_scenario_cases(1) [OF assms]]
  by (simp_all add: role_list_def)

text \<open>
  Two instances never run Unity in the same project. Of a scenario that starts, take the completed
  runs of two instances, whatever happened around them: if neither used a workspace of its own, then
  the identities of both project directories are known and different. Projects that are the same
  directory under different names, or whose identity cannot be obtained, are isolated.
\<close>

theorem unshadowed_projects_distinct:
  assumes "prepare_scenario env specPath specFile files opts = Inr (spec, configs)"
    "i < length (sf_instances spec)" "j < length (sf_instances spec)" "i \<noteq> j"
    "shared = sharedProjectRoles identity (known_configs configs)"
    "Run k w (instance_request shared clear opts (snd (configs ! i)) (sf_instances spec ! i)) s = (Completed c, trace, s')"
    "Run k w2 (instance_request shared clear opts (snd (configs ! j)) (sf_instances spec ! j)) s2 = (Completed c2, trace2, s2')"
    "rr_backend (sr_result (co_response c)) \<noteq> backendShadow" "rr_backend (sr_result (co_response c2)) \<noteq> backendShadow"
  shows "\<exists>x y. identity (cf_project_path (snd (configs ! i))) = Some x \<and>
    identity (cf_project_path (snd (configs ! j))) = Some y \<and> x \<noteq> y"
proof -
  note roles = prepared_roles [OF assms(1)]
  have len: "length configs = length (sf_instances spec)" using roles(1) by (metis length_map role_list_def)
  have fst: "fst (configs ! m) = is_role (sf_instances spec ! m)" if "m < length (sf_instances spec)" for m
    using that len roles(1) by (metis nth_map role_list_def)
  have ne: "fst (configs ! i) \<noteq> fst (configs ! j)"
    using roles(2) assms(2-4) len by (metis distinct_conv_nth length_map nth_map)
  have free: "\<not> shared (is_role (sf_instances spec ! i))" "\<not> shared (is_role (sf_instances spec ! j))"
    using Run_forced_shadow [OF assms(6)] Run_forced_shadow [OF assms(7)] assms(8,9)
    by auto
  have mem: "(fst (configs ! m), snd (configs ! m)) \<in> set configs" if "m < length (sf_instances spec)" for m
    using that len by simp
  show ?thesis
    by (rule shared_or_distinct [OF mem [OF assms(2)] mem [OF assms(3)] ne])
      (use free fst assms(2,3,5) in simp_all)
qed

section \<open>Deadlines\<close>

lemma total_ms_exact:
  assumes "\<forall>(r, c) \<in> set configs. 0 \<le> to_total_ms (cf_timeout c)" "0 \<le> t"
    "t + sum_list (map (\<lambda>(r, c). to_total_ms (cf_timeout c)) configs) \<le> max_int64"
  shows "foldl (\<lambda>t (role, c). wrap64 (t + to_total_ms (cf_timeout c))) t configs =
    t + sum_list (map (\<lambda>(r, c). to_total_ms (cf_timeout c)) configs)"
  using assms
proof (induction configs arbitrary: t)
  case (Cons rc configs)
  obtain r c where rc: "rc = (r, c)" by fastforce
  have "0 \<le> sum_list (map (\<lambda>(r, c). to_total_ms (cf_timeout c)) configs)"
    using Cons.prems(1) by (auto intro!: sum_list_nonneg)
  then have "wrap64 (t + to_total_ms (cf_timeout c)) = t + to_total_ms (cf_timeout c)"
    using Cons.prems rc by (intro wrap64_id) (simp_all add: min_int64_def)
  then show ?case using Cons.IH [of "t + to_total_ms (cf_timeout c)"] Cons.prems rc by (simp add: add.assoc)
qed simp

lemma load_configs_ok:
  "load_configs env files spec is = Inr configs \<Longrightarrow> (r, c) \<in> set configs \<Longrightarrow> config_ok True c"
  by (induction "is" arbitrary: configs) (auto simp: bind_result_Inr_iff dest: load_valid_ok)


text \<open>Two deadlines that are fine on their own and whose sum is already in the past.\<close>

lemma scenario_deadline_wraps:
  "(let c = demo_config\<lparr>cf_timeout := \<lparr>to_compile_ms = 0, to_test_ms = 0, to_total_ms = 5000000000000\<rparr>\<rparr>
    in 0 < instance_deadline c \<and> scenario_deadline [(''a'', c), (''b'', c)] < 0)"
  by (simp add: scenario_deadline_def instance_deadline_def total_ms_def duration_of_ms_def wrap64_def)

section \<open>The exit code of a scenario\<close>

text \<open>
  The events of a scenario are faithful when every return of an instance is what some run of the
  service on that instance's request returned.
\<close>

definition faithful_returns ::
    "service_codecs \<Rightarrow> (service_error \<Rightarrow> string) \<Rightarrow> (string \<Rightarrow> bool) \<Rightarrow> bool \<Rightarrow> run_cmd_options \<Rightarrow>
     scenario_file \<Rightarrow> (string \<times> config) list \<Rightarrow> 'p run_event list \<Rightarrow> bool" where
  "faithful_returns k text_of shared clear opts spec configs es \<longleftrightarrow>
     (\<forall>i code err ipc. Return i code err ipc \<in> set es \<longrightarrow>
       (\<exists>w s. returned text_of (fst (Run k w (instance_request shared clear opts (snd (configs ! i))
          (sf_instances spec ! i)) s)) = Some (code, err)))"

definition finished_by :: "'p run_event set \<Rightarrow> 'p run_state \<Rightarrow> bool" where
  "finished_by E s \<longleftrightarrow> (\<forall>i < length (gs_state s). \<forall>r. gs_state s ! i = Finished r \<longrightarrow>
     Return i (ir_code r) (ir_err r) (ir_ipc r) \<in> E)"

lemma nth_update_at: "j < length xs \<Longrightarrow> xs[i := x] ! j = (if i = j then x else xs ! j)"
  by simp

lemma finished_by_perform:
  "e \<in> E \<Longrightarrow> perform spec e s = Some s' \<Longrightarrow> finished_by E s \<Longrightarrow> finished_by E s'"
  by (cases e) (auto simp: perform_def finished_by_def nth_update_at Let_def split: if_splits option.splits)

lemma perform_all_finished:
  assumes "perform_all spec es (initial spec) = Some s"
  shows "finished_by (set es) s"
  by (rule orchestrator.steps_keep [OF _ sound_initial assms, where Q = "\<lambda>e. e \<in> set es"])
    (erule (2) finished_by_perform, auto simp: finished_by_def initial_def)

lemma returned_zero: "returned text_of out = Some (0, None) \<Longrightarrow> \<exists>c. out = Completed c \<and> sr_exit_code (co_response c) = 0"
  by (cases out) (simp_all add: returned_def)


section \<open>Message summaries\<close>

text \<open>The summary of an instance counts each direction and keeps the last message of each.\<close>

lemma ipcSummary_snoc: "ipcSummaryFromEvents (events @ [ev]) = summary_step (ipcSummaryFromEvents events) ev"
  by (simp add: ipcSummaryFromEvents_def)

definition last_message :: "direction \<Rightarrow> 'p read_event list \<Rightarrow> 'p message option" where
  "last_message d events = map_option re_msg (find (\<lambda>e. re_direction e = d) (rev events))"

lemma ipcSummary_exact:
  "ipcSummaryFromEvents events =
     \<lparr>pm_sent_count = length (filter (\<lambda>e. re_direction e = Send) events),
      pm_received_count = length (filter (\<lambda>e. re_direction e = Recv) events),
      pm_last_sent = last_message Send events, pm_last_received = last_message Recv events\<rparr>"
proof (induction events rule: rev_induct)
  case Nil
  then show ?case by (simp add: ipcSummaryFromEvents_def last_message_def)
next
  case (snoc ev events)
  then show ?case by (cases "re_direction ev") (simp_all add: ipcSummary_snoc summary_step_def last_message_def)
qed

section \<open>A scenario of two instances\<close>

definition demo_files :: "string \<Rightarrow> config strict_decode file_read" where
  "demo_files p = FileBytes (Decodes (sample_config\<lparr>cf_project_path :=
     (if p = ''/s/host.json'' then ''/work/a'' else ''/work/b'')\<rparr>) False)"

definition demo_config_in :: "string \<Rightarrow> config" where
  "demo_config_in p = demo_config\<lparr>cf_project_path := p, cf_result_dir := p @ ''/.testplay/results'', cf_dir := ''/s''\<rparr>"

definition demo_configs :: "(string \<times> config) list" where
  "demo_configs = [(''host'', demo_config_in ''/work/a''), (''client'', demo_config_in ''/work/b'')]"

lemma demo_load_configs:
  "load_configs ''/opt/Unity'' demo_files pair_scenario (sf_instances pair_scenario) = Inr demo_configs"
  by code_simp

lemma demo_prepared:
  "prepare_scenario ''/opt/Unity'' ''/s/scenario.json'' (FileBytes (Some sample_scenario)) demo_files demo_flags =
     Inr (pair_scenario, demo_configs)"
proof -
  have "ValidateSignalPhases (two_phase_roles demo_configs) pair_scenario = Inr ()" by code_simp
  moreover have "op_compare_run demo_flags = []" by (simp add: demo_flags_def)
  ultimately show ?thesis
    using sample_Load demo_load_configs by (simp add: prepare_scenario_def flip: pair_scenario_def)
qed

definition demo_identity :: "string \<Rightarrow> nat option" where
  "demo_identity p = Some (if p = ''/work/a'' then 1 else 2)"

definition demo_shared :: "string \<Rightarrow> bool" where
  "demo_shared = sharedProjectRoles demo_identity (known_configs demo_configs)"

lemma demo_not_shared: "\<not> demo_shared ''host''" "\<not> demo_shared ''client''"
  unfolding demo_shared_def by code_simp+

lemma demo_instances_plain:
  "i < 2 \<Longrightarrow> plain_request (instance_request demo_shared False demo_flags (snd (demo_configs ! i)) (sf_instances pair_scenario ! i))"
proof -
  have "plain_request (instance_request (\<lambda>_. False) False demo_flags (snd (demo_configs ! 0)) (sf_instances pair_scenario ! 0))"
    "plain_request (instance_request (\<lambda>_. False) False demo_flags (snd (demo_configs ! 1)) (sf_instances pair_scenario ! 1))"
    by code_simp+
  moreover have "is_role (sf_instances pair_scenario ! 0) = ''host''" "is_role (sf_instances pair_scenario ! 1) = ''client''"
    by (simp_all add: pair_scenario_def sample_scenario_def sample_host_def Scenario.sample_client_def)
  then have "instance_request demo_shared False demo_flags c (sf_instances pair_scenario ! 0) =
      instance_request (\<lambda>_. False) False demo_flags c (sf_instances pair_scenario ! 0)"
    "instance_request demo_shared False demo_flags c (sf_instances pair_scenario ! 1) =
      instance_request (\<lambda>_. False) False demo_flags c (sf_instances pair_scenario ! 1)" for c
    using demo_not_shared by (simp_all add: instance_request_def)
  ultimately show "i < 2 \<Longrightarrow> ?thesis" by (auto simp: less_2_cases_iff)
qed

theorem unshadowed_projects_distinct_witness:
  "\<exists>x y. demo_identity ''/work/a'' = Some x \<and> demo_identity ''/work/b'' = Some y \<and> x \<noteq> y"
proof -
  let ?q = "\<lambda>i. instance_request demo_shared False demo_flags (snd (demo_configs ! i)) (sf_instances pair_scenario ! i)"
  obtain c t s' where c: "Run demo_codecs demo_world (?q 0) demo_state = (Completed c, t, s')"
    "rr_backend (sr_result (co_response c)) = backendProcess"
    using plain_completes [OF demo_instances_plain [of 0]] by force
  obtain c2 t2 s2 where c2: "Run demo_codecs demo_world (?q 1) demo_state = (Completed c2, t2, s2)"
    "rr_backend (sr_result (co_response c2)) = backendProcess"
    using plain_completes [OF demo_instances_plain [of 1]] by force
  have "backendProcess \<noteq> backendShadow" by (simp add: backendProcess_def backendShadow_def)
  moreover have "length (sf_instances pair_scenario) = 2" by (simp add: pair_scenario_def sample_scenario_def)
  ultimately show ?thesis
    using unshadowed_projects_distinct [OF demo_prepared _ _ _ demo_shared_def c(1) c2(1)] c(2) c2(2)
    by (simp add: demo_configs_def demo_config_in_def)
qed


definition demo_scenario_events :: "string run_event list" where
  "demo_scenario_events = [Start 0, Signal 0, Return 0 0 None [], Start 1, Return 1 0 None []]"

lemma demo_RunScenario:
  "RunScenario pair_scenario demo_scenario_events = Some (0, [\<lparr>ir_role = ''host'', ir_code = 0, ir_err = None, ir_ipc = []\<rparr>,
     \<lparr>ir_role = ''client'', ir_code = 0, ir_err = None, ir_ipc = []\<rparr>], [])"
  by code_simp


end
