(* ===== verification/VhdxStore.thy ===== *)
theory VhdxStore
  imports GoPath Retention
begin

text \<open>
  The store of the VHDX workspace broker, \<^verbatim>\<open>internal/vhdxworkspace/store.go\<close> with the names of
  \<^verbatim>\<open>paths.go\<close> and the documents of \<^verbatim>\<open>types.go\<close>: published parents, pending parent
  builds, lease journals, records of retained children, the quarantine, and the disk files of the
  children. A directory is an association list of names; a document is present and readable
  (\<open>Some\<close>) or not (\<open>None\<close>). Disk images, identities and digests are opaque values.
\<close>

section \<open>Names\<close>

definition is_alnum :: "char \<Rightarrow> bool" where
  "is_alnum c \<longleftrightarrow> is_digit c \<or> (65 \<le> byte_of c \<and> byte_of c \<le> 90) \<or> (97 \<le> byte_of c \<and> byte_of c \<le> 122)"

lemma is_alnum_code [code]:
  "is_alnum c \<longleftrightarrow> c \<in> set ''0123456789ABCDEFGHIJKLMNOPQRSTUVWXYZabcdefghijklmnopqrstuvwxyz''"
  unfolding mem_bytes is_alnum_def is_digit_def by (simp add: byte_of_def) presburger

text \<open>\<^verbatim>\<open>identifierPattern\<close> and \<^verbatim>\<open>digestPattern\<close>.\<close>

definition valid_identifier :: "string \<Rightarrow> bool" where
  "valid_identifier s \<longleftrightarrow> s \<noteq> [] \<and> length s \<le> 128 \<and> is_alnum (hd s) \<and>
     list_all (\<lambda>c. is_alnum c \<or> c \<in> set ''._-'') s"

definition valid_digest :: "string \<Rightarrow> bool" where
  "valid_digest s \<longleftrightarrow> length s = 64 \<and> list_all is_lower_hex s"

record paths =
  pa_root :: string
  pa_user_root :: string
  pa_parents :: string
  pa_pending :: string
  pa_children :: string
  pa_leases :: string
  pa_retained :: string
  pa_quarantine :: string
  pa_receipts :: string

definition NewPaths :: "string \<Rightarrow> string \<Rightarrow> paths option" where
  "NewPaths root userSID =
     (if \<not> IsAbs root \<or> trim_space userSID = [] \<or> list_ex (\<lambda>c. c = sep \<or> c = CHR 0x5C) userSID then None
      else let clean = Clean root; user = Join [clean, userSID]
           in Some \<lparr>pa_root = clean, pa_user_root = user, pa_parents = Join [user, ''parents''],
             pa_pending = Join [user, ''pending''], pa_children = Join [user, ''children''],
             pa_leases = Join [user, ''leases''], pa_retained = Join [user, ''retained''],
             pa_quarantine = Join [user, ''quarantine''], pa_receipts = Join [user, ''receipts'']\<rparr>)"

definition parent_vhdx :: "paths \<Rightarrow> string \<Rightarrow> string" where
  "parent_vhdx p key = Join [pa_parents p, key, ''parent.vhdx'']"

definition staging_vhdx :: "paths \<Rightarrow> string \<Rightarrow> string" where
  "staging_vhdx p key = Join [pa_pending p, key, ''parent.staging.vhdx'']"

definition Child :: "paths \<Rightarrow> string \<Rightarrow> string option" where
  "Child p leaseID = (if valid_identifier leaseID then Some (Join [pa_children p, leaseID @ ''.vhdx'']) else None)"

text \<open>A journal or record is the file \<^verbatim>\<open><id>.json\<close>.\<close>

definition doc_file :: "string \<Rightarrow> string" where
  "doc_file i = i @ ''.json''"

section \<open>Documents\<close>

definition ParentSchemaVersion :: int where "ParentSchemaVersion = 2"
definition ProtocolSchemaVersion :: int where "ProtocolSchemaVersion = 2"
definition Provider :: string where "Provider = ''vhdx-differencing''"
definition completeContents :: string where "completeContents = ''testplay-vhdx-parent-v2'' @ [newline]"

definition ParentStatusMissing :: string where "ParentStatusMissing = ''missing''"
definition ParentStatusPending :: string where "ParentStatusPending = ''pending''"
definition ParentStatusValid :: string where "ParentStatusValid = ''valid''"
definition ParentStatusCorrupt :: string where "ParentStatusCorrupt = ''corrupt''"

lemmas parent_status_defs = ParentStatusMissing_def ParentStatusPending_def ParentStatusValid_def
  ParentStatusCorrupt_def

record compat_key =
  ck_schema :: int
  ck_digest :: string
  ck_library :: string
  ck_provider :: string
  ck_filesystem :: string
  ck_virtual :: int
  ck_block :: int
  ck_sector :: int
  ck_local :: string

record parent_metadata =
  pm_schema :: int
  pm_provider :: string
  pm_key :: compat_key
  pm_source :: string
  pm_token :: string
  pm_created :: int
  pm_last_used :: int
  pm_path :: string
  pm_identity :: string
  pm_write_time :: int
  pm_volume :: string
  pm_virtual :: int
  pm_block :: int
  pm_sector :: int
  pm_logical :: int
  pm_allocated :: int
  pm_sha256 :: string
  pm_immutable :: bool

record pending =
  pe_transaction :: string
  pe_user :: string
  pe_token :: string
  pe_key :: compat_key
  pe_source :: string
  pe_staging :: string
  pe_mount :: string
  pe_created :: int
  pe_updated :: int
  pe_client_pid :: int

record journal =
  lj_schema :: int
  lj_id :: string
  lj_run :: string
  lj_user :: string
  lj_token :: string
  lj_parent_key :: string
  lj_parent_path :: string
  lj_child_path :: string
  lj_workspace_id :: string
  lj_workspace_path :: string
  lj_mount :: string
  lj_state :: string
  lj_boot :: string
  lj_client_pid :: int
  lj_unity_pid :: int
  lj_retained :: bool
  lj_created :: int
  lj_updated :: int
  lj_identity :: string
  lj_physical :: string
  lj_volume :: string
  lj_recovery_at :: "int option"
  lj_recovery_error :: string

record retained_record =
  re_schema :: int
  re_run :: string
  re_lease :: string
  re_token :: string
  re_parent_key :: string
  re_child_path :: string
  re_created :: int

section \<open>The store\<close>

text \<open>
  A published parent directory: the \<^verbatim>\<open>COMPLETE\<close> marker, the metadata, and the disk image with
  its allocated size. A pending directory: its document, whether the staging image is there and how
  large it is, and whether it holds anything else.
\<close>

record parent_dir =
  pd_complete :: "string option"
  pd_metadata :: "parent_metadata option"
  pd_vhdx :: "int option"

record pending_dir =
  pn_doc :: "pending option"
  pn_staging :: "int option"
  pn_extra :: bool

record store =
  vs_paths :: paths
  vs_parents :: "(string \<times> parent_dir) list"
  vs_pending :: "(string \<times> pending_dir) list"
  vs_leases :: "(string \<times> journal option) list"
  vs_retained :: "(string \<times> retained_record option) list"
  vs_quarantine :: "(string \<times> int) list"
  vs_children :: "(string \<times> int) list"

datatype commit_fault = Mkdir_fails | Rename_fails | Publish_fails bool

text \<open>
  The answers of the machine to one request: the clock, random identifiers, and which operation of
  the file system fails. A failing publication after the rename is rolled back, successfully or not.
\<close>

record answers =
  an_now :: int
  an_transaction :: "string option"
  an_token :: string
  an_layout_fails :: bool
  an_pending_fails :: bool
  an_commit_fault :: "commit_fault option"
  an_lease_write_fails :: "string \<Rightarrow> bool"
  an_lease_remove_fails :: bool
  an_retained_write_fails :: bool
  an_retained_remove_fails :: bool
  an_touch_fails :: bool
  an_remove_parent_fails :: "string \<Rightarrow> bool"
  an_measure_fails :: bool

datatype store_error = Invalid_input | Parent_conflict | Storage_unavailable | Ownership_mismatch | Io_error

section \<open>Parents\<close>

record resolution =
  ro_status :: string
  ro_path :: string
  ro_metadata :: "parent_metadata option"

definition metadata_ok :: "store \<Rightarrow> string \<Rightarrow> parent_metadata \<Rightarrow> bool" where
  "metadata_ok s key m \<longleftrightarrow> pm_schema m = ParentSchemaVersion \<and> pm_provider m = Provider \<and>
     ck_digest (pm_key m) = key \<and> pm_immutable m \<and> Clean (pm_path m) = Clean (parent_vhdx (vs_paths s) key)"

definition ResolveParent :: "store \<Rightarrow> compat_key \<Rightarrow> resolution option" where
  "ResolveParent s key =
     (if ck_schema key \<noteq> ParentSchemaVersion \<or> \<not> valid_digest (ck_digest key) then None
      else let path = parent_vhdx (vs_paths s) (ck_digest key);
               corrupt = (\<lambda>m. Some \<lparr>ro_status = ParentStatusCorrupt, ro_path = path, ro_metadata = m\<rparr>)
           in case map_of (vs_parents s) (ck_digest key) of
                None \<Rightarrow> Some \<lparr>ro_status = ParentStatusMissing, ro_path = path, ro_metadata = None\<rparr>
              | Some d \<Rightarrow>
                  (if pd_complete d \<noteq> Some completeContents then corrupt None
                   else case pd_metadata d of
                       None \<Rightarrow> corrupt None
                     | Some m \<Rightarrow>
                         (if \<not> metadata_ok s (ck_digest key) m then corrupt (Some m)
                          else if pd_vhdx d = None then corrupt (Some m)
                          else Some \<lparr>ro_status = ParentStatusValid, ro_path = path, ro_metadata = Some m\<rparr>)))"

text \<open>A parent that resolves as valid.\<close>

definition valid_parent :: "store \<Rightarrow> string \<Rightarrow> parent_metadata option" where
  "valid_parent s key =
     (case map_of (vs_parents s) key of
        None \<Rightarrow> None
      | Some d \<Rightarrow>
          (case pd_metadata d of
             None \<Rightarrow> None
           | Some m \<Rightarrow> if pd_complete d = Some completeContents \<and> metadata_ok s key m \<and> pd_vhdx d \<noteq> None
               then Some m else None))"

definition key_of :: "string \<Rightarrow> compat_key" where
  "key_of digest = \<lparr>ck_schema = ParentSchemaVersion, ck_digest = digest, ck_library = [], ck_provider = [],
     ck_filesystem = [], ck_virtual = 0, ck_block = 0, ck_sector = 0, ck_local = []\<rparr>"

definition ReadPending :: "store \<Rightarrow> string \<Rightarrow> pending option" where
  "ReadPending s digest =
     (if \<not> valid_digest digest then None
      else case map_of (vs_pending s) digest of
          None \<Rightarrow> None
        | Some d \<Rightarrow>
            (case pn_doc d of
               None \<Rightarrow> None
             | Some p \<Rightarrow> if ck_digest (pe_key p) = digest \<and> pe_staging p = staging_vhdx (vs_paths s) digest
                 then Some p else None))"

definition BeginParent ::
    "answers \<Rightarrow> string \<Rightarrow> compat_key \<Rightarrow> string \<Rightarrow> string \<Rightarrow> int \<Rightarrow> store \<Rightarrow> (store_error + pending) \<times> store" where
  "BeginParent a userSID key src mount clientPID s =
     (if an_layout_fails a then (Inl Io_error, s)
      else case ResolveParent s key of
          None \<Rightarrow> (Inl Invalid_input, s)
        | Some r \<Rightarrow>
            (if ro_status r = ParentStatusValid then (Inl Parent_conflict, s)
             else case an_transaction a of
                 None \<Rightarrow> (Inl Io_error, s)
               | Some txn \<Rightarrow>
                   (if map_of (vs_pending s) (ck_digest key) \<noteq> None then (Inl Parent_conflict, s)
                    else if an_pending_fails a then (Inl Io_error, s)
                    else let p = \<lparr>pe_transaction = txn, pe_user = userSID, pe_token = an_token a, pe_key = key,
                               pe_source = src, pe_staging = staging_vhdx (vs_paths s) (ck_digest key),
                               pe_mount = mount, pe_created = an_now a, pe_updated = an_now a,
                               pe_client_pid = clientPID\<rparr>
                         in (Inr p, s\<lparr>vs_pending := put (ck_digest key)
                              \<lparr>pn_doc = Some p, pn_staging = None, pn_extra = False\<rparr> (vs_pending s)\<rparr>))))"

text \<open>
  \<^verbatim>\<open>CommitParent\<close>. The directory is made first, then the staging image is renamed into it and
  the documents are written; a failing rename returns at once, later failures are rolled back. Here
  is what becomes of the parent's directory (\<open>None\<close> when it does not stay).
\<close>

definition empty_parent :: parent_dir where
  "empty_parent = \<lparr>pd_complete = None, pd_metadata = None, pd_vhdx = None\<rparr>"

definition published_metadata :: "answers \<Rightarrow> string \<Rightarrow> parent_metadata \<Rightarrow> parent_metadata" where
  "published_metadata a path m = m\<lparr>pm_schema := ParentSchemaVersion, pm_provider := Provider, pm_path := path,
     pm_immutable := True, pm_created := an_now a, pm_last_used := an_now a\<rparr>"

definition publish ::
    "answers \<Rightarrow> string \<Rightarrow> parent_metadata \<Rightarrow> int option \<Rightarrow> (store_error + parent_metadata) \<times> parent_dir option" where
  "publish a path m staging =
     (case staging of
        None \<Rightarrow> (Inl Io_error, Some empty_parent)
      | Some n \<Rightarrow>
          (case an_commit_fault a of
             None \<Rightarrow> (Inr (published_metadata a path m), Some \<lparr>pd_complete = Some completeContents,
               pd_metadata = Some (published_metadata a path m), pd_vhdx = Some n\<rparr>)
           | Some (Publish_fails rolled_back) \<Rightarrow>
               (Inl Io_error, if rolled_back then None else Some (empty_parent\<lparr>pd_vhdx := Some n\<rparr>))
           | Some _ \<Rightarrow> (Inl Io_error, Some empty_parent)))"

text \<open>The pending directory afterwards: gone, without its image when a roll-back failed, or as it was.\<close>

definition pending_after ::
    "(store_error + parent_metadata) \<Rightarrow> parent_dir option \<Rightarrow> string \<Rightarrow> (string \<times> pending_dir) list \<Rightarrow>
     (string \<times> pending_dir) list" where
  "pending_after x after key ps =
     (case map_of ps key of
        None \<Rightarrow> ps
      | Some d \<Rightarrow>
          (case x of
             Inr _ \<Rightarrow> (if pn_extra d then put key (d\<lparr>pn_doc := None, pn_staging := None\<rparr>) ps else remove_entry key ps)
           | Inl _ \<Rightarrow>
               (case after of
                  None \<Rightarrow> ps
                | Some pd \<Rightarrow> if pd_vhdx pd = None then ps else put key (d\<lparr>pn_staging := None\<rparr>) ps)))"

definition staged :: "store \<Rightarrow> string \<Rightarrow> int option" where
  "staged s key = (case map_of (vs_pending s) key of None \<Rightarrow> None | Some d \<Rightarrow> pn_staging d)"

definition parents_after :: "parent_dir option \<Rightarrow> string \<Rightarrow> (string \<times> parent_dir) list \<Rightarrow> (string \<times> parent_dir) list" where
  "parents_after after key ps = (case after of None \<Rightarrow> ps | Some d \<Rightarrow> put key d ps)"

definition CommitParent ::
    "answers \<Rightarrow> pending \<Rightarrow> parent_metadata \<Rightarrow> store \<Rightarrow> (store_error + parent_metadata) \<times> store" where
  "CommitParent a p m s =
     (let key = ck_digest (pe_key p) in
      if pm_token m \<noteq> pe_token p \<or> ck_digest (pm_key m) \<noteq> key then (Inl Ownership_mismatch, s)
      else case ReadPending s key of
          None \<Rightarrow> (Inl Ownership_mismatch, s)
        | Some actual \<Rightarrow>
            (if pe_transaction actual \<noteq> pe_transaction p \<or> pe_token actual \<noteq> pe_token p
             then (Inl Ownership_mismatch, s)
             else if an_commit_fault a = Some Mkdir_fails \<or> map_of (vs_parents s) key \<noteq> None
             then (Inl Io_error, s)
             else case publish a (parent_vhdx (vs_paths s) key) m (staged s key) of
                 (x, after) \<Rightarrow> (x, s\<lparr>vs_parents := parents_after after key (vs_parents s),
                     vs_pending := pending_after x after key (vs_pending s)\<rparr>)))"

definition AbortParent_store :: "answers \<Rightarrow> pending \<Rightarrow> store \<Rightarrow> store_error option \<times> store" where
  "AbortParent_store a p s =
     (let key = ck_digest (pe_key p) in
      case ReadPending s key of
        None \<Rightarrow> (Some Io_error, s)
      | Some actual \<Rightarrow>
          (if pe_transaction actual \<noteq> pe_transaction p \<or> pe_token actual \<noteq> pe_token p
           then (Some Ownership_mismatch, s)
           else case map_of (vs_pending s) key of
               None \<Rightarrow> (Some Io_error, s)
             | Some d \<Rightarrow>
                 (if pn_staging d \<noteq> None \<or> pn_extra d then (Some Ownership_mismatch, s)
                  else if an_pending_fails a then (Some Io_error, s)
                  else (None, s\<lparr>vs_pending := remove_entry key (vs_pending s)\<rparr>))))"

text \<open>
  \<^verbatim>\<open>RecoverPending\<close>: stale builds of dead clients are dropped when nothing was staged and
  moved to the quarantine otherwise; everything else is preserved. The answer \<open>rename_fails\<close> is per
  key. A failing removal ends the recovery.
\<close>

fun RecoverPending ::
    "int \<Rightarrow> int \<Rightarrow> (int \<Rightarrow> bool) \<Rightarrow> (string \<Rightarrow> bool) \<Rightarrow> (string \<Rightarrow> bool) \<Rightarrow> string list \<Rightarrow> store \<Rightarrow>
     bool \<times> nat \<times> nat \<times> store" where
  "RecoverPending now grace alive remove_fails rename_fails [] s = (True, 0, 0, s)"
| "RecoverPending now grace alive remove_fails rename_fails (key # keys) s =
     (let preserve = (case RecoverPending now grace alive remove_fails rename_fails keys s of
            (ok, pre, qua, s') \<Rightarrow> (ok, Suc pre, qua, s'))
      in if \<not> valid_digest key then RecoverPending now grace alive remove_fails rename_fails keys s
         else case (ReadPending s key, map_of (vs_pending s) key) of
             (Some p, Some d) \<Rightarrow>
               (if now - grace < pe_updated p \<or> alive (pe_client_pid p) then preserve
                else case pn_staging d of
                    None \<Rightarrow>
                      (if remove_fails key then (False, 0, 0, s)
                       else if pn_extra d then (False, 0, 0, s\<lparr>vs_pending := put key (d\<lparr>pn_doc := None\<rparr>) (vs_pending s)\<rparr>)
                       else RecoverPending now grace alive remove_fails rename_fails keys
                         (s\<lparr>vs_pending := remove_entry key (vs_pending s)\<rparr>))
                  | Some n \<Rightarrow>
                      (let destination = pe_transaction p @ ''-parent''
                       in if map_of (vs_quarantine s) destination \<noteq> None \<or> rename_fails key then preserve
                          else (case RecoverPending now grace alive remove_fails rename_fails keys
                              (s\<lparr>vs_pending := remove_entry key (vs_pending s),
                                vs_quarantine := put destination n (vs_quarantine s)\<rparr>) of
                             (ok, pre, qua, s') \<Rightarrow> (ok, pre, Suc qua, s'))))
           | _ \<Rightarrow> preserve)"

section \<open>Leases\<close>

definition WriteLease :: "answers \<Rightarrow> journal \<Rightarrow> store \<Rightarrow> bool \<times> store" where
  "WriteLease a j s =
     (if an_layout_fails a \<or> \<not> valid_identifier (lj_id j) \<or> an_lease_write_fails a (lj_state j) then (False, s)
      else (True, s\<lparr>vs_leases := put (doc_file (lj_id j)) (Some (j\<lparr>lj_schema := ProtocolSchemaVersion,
              lj_updated := an_now a, lj_created := (if lj_created j = 0 then an_now a else lj_created j)\<rparr>))
            (vs_leases s)\<rparr>))"

definition ReadLease :: "store \<Rightarrow> string \<Rightarrow> journal option" where
  "ReadLease s leaseID =
     (if \<not> valid_identifier leaseID then None
      else case map_of (vs_leases s) (doc_file leaseID) of
          Some (Some j) \<Rightarrow> (if lj_id j = leaseID \<and> lj_schema j = ProtocolSchemaVersion then Some j else None)
        | _ \<Rightarrow> None)"

definition lease_names :: "store \<Rightarrow> string list" where
  "lease_names s = map (\<lambda>n. trim_suffix n ''.json'') (filter (\<lambda>n. has_suffix n ''.json'') (map fst (vs_leases s)))"

definition ListLeases :: "store \<Rightarrow> journal list" where
  "ListLeases s = concat (map (\<lambda>i. case ReadLease s i of None \<Rightarrow> [] | Some j \<Rightarrow> [j]) (lease_names s))"

definition RemoveLease :: "answers \<Rightarrow> journal \<Rightarrow> store \<Rightarrow> bool \<times> store" where
  "RemoveLease a j s =
     (case ReadLease s (lj_id j) of
        None \<Rightarrow> (False, s)
      | Some actual \<Rightarrow>
          (if lj_token actual \<noteq> lj_token j \<or> lj_child_path actual \<noteq> lj_child_path j \<or>
              lj_parent_key actual \<noteq> lj_parent_key j \<or> an_lease_remove_fails a
           then (False, s)
           else (True, s\<lparr>vs_leases := remove_entry (doc_file (lj_id j)) (vs_leases s)\<rparr>)))"

definition ReadRetained :: "store \<Rightarrow> string \<Rightarrow> retained_record option" where
  "ReadRetained s runID =
     (if \<not> valid_identifier runID then None
      else case map_of (vs_retained s) (doc_file runID) of
          Some (Some r) \<Rightarrow> (if re_schema r = ProtocolSchemaVersion \<and> re_run r = runID then Some r else None)
        | _ \<Rightarrow> None)"

text \<open>The record is written exclusively: an existing one is an error.\<close>

definition WriteRetained :: "answers \<Rightarrow> journal \<Rightarrow> store \<Rightarrow> bool \<times> store" where
  "WriteRetained a j s =
     (if \<not> valid_identifier (lj_run j) \<or> an_retained_write_fails a \<or>
         map_of (vs_retained s) (doc_file (lj_run j)) \<noteq> None
      then (False, s)
      else (True, s\<lparr>vs_retained := put (doc_file (lj_run j)) (Some \<lparr>re_schema = ProtocolSchemaVersion,
          re_run = lj_run j, re_lease = lj_id j, re_token = lj_token j, re_parent_key = lj_parent_key j,
          re_child_path = lj_child_path j, re_created = an_now a\<rparr>) (vs_retained s)\<rparr>))"

definition RemoveRetained :: "answers \<Rightarrow> retained_record \<Rightarrow> store \<Rightarrow> bool \<times> store" where
  "RemoveRetained a r s =
     (case ReadRetained s (re_run r) of
        None \<Rightarrow> (False, s)
      | Some actual \<Rightarrow>
          (if re_lease actual \<noteq> re_lease r \<or> re_token actual \<noteq> re_token r \<or>
              re_child_path actual \<noteq> re_child_path r \<or> an_retained_remove_fails a
           then (False, s)
           else (True, s\<lparr>vs_retained := remove_entry (doc_file (re_run r)) (vs_retained s)\<rparr>)))"

section \<open>Protection and collection\<close>

text \<open>
  The identifier of a directory entry, its extension compared without regard to case, as
  \<^verbatim>\<open>ProtectedParentKeys\<close> reads it; unknown entries have none.
\<close>

definition entry_id :: "string \<Rightarrow> string option" where
  "entry_id name = (if has_suffix (to_lower name) ''.json'' then Some (take (length name - 5) name) else None)"

definition lease_key :: "store \<Rightarrow> string \<Rightarrow> string option" where
  "lease_key s name =
     (case entry_id name of
        None \<Rightarrow> None
      | Some i \<Rightarrow> (case ReadLease s i of
            None \<Rightarrow> None | Some j \<Rightarrow> if valid_digest (lj_parent_key j) then Some (lj_parent_key j) else None))"

definition pending_key :: "store \<Rightarrow> string \<Rightarrow> string option" where
  "pending_key s name = (case ReadPending s name of None \<Rightarrow> None | Some p \<Rightarrow> Some (ck_digest (pe_key p)))"

definition retained_key :: "store \<Rightarrow> string \<Rightarrow> string option" where
  "retained_key s name =
     (case entry_id name of
        None \<Rightarrow> None
      | Some i \<Rightarrow> (case ReadRetained s i of
            None \<Rightarrow> None | Some r \<Rightarrow> if valid_digest (re_parent_key r) then Some (re_parent_key r) else None))"

fun all_some :: "'a option list \<Rightarrow> 'a list option" where
  "all_some [] = Some []"
| "all_some (None # xs) = None"
| "all_some (Some x # xs) = map_option (Cons x) (all_some xs)"

text \<open>\<open>None\<close> is the error: any entry that is not understood blocks the collection.\<close>

definition ProtectedParentKeys :: "store \<Rightarrow> string list option" where
  "ProtectedParentKeys s =
     (case all_some (map (lease_key s) (map fst (vs_leases s)) @
        map (pending_key s) (map fst (vs_pending s)) @ map (retained_key s) (map fst (vs_retained s))) of
        None \<Rightarrow> None
      | Some keys \<Rightarrow> if vs_quarantine s \<noteq> [] then None else Some keys)"

text \<open>Oldest use first; the order of parents with the same time of last use is that of the directory.\<close>

definition ListParents :: "store \<Rightarrow> parent_metadata list" where
  "ListParents s = sort_key pm_last_used (concat (map (\<lambda>(name, d).
     if valid_digest name then (case pd_metadata d of None \<Rightarrow> [] | Some m \<Rightarrow> [m]) else []) (vs_parents s)))"

definition TouchParent :: "answers \<Rightarrow> parent_metadata \<Rightarrow> store \<Rightarrow> bool \<times> store" where
  "TouchParent a m s =
     (case ResolveParent s (pm_key m) of
        None \<Rightarrow> (False, s)
      | Some r \<Rightarrow>
          (if ro_status r \<noteq> ParentStatusValid then (False, s)
           else case (ro_metadata r, map_of (vs_parents s) (ck_digest (pm_key m))) of
               (Some m', Some d) \<Rightarrow>
                 (if pm_token m' \<noteq> pm_token m \<or> pm_identity m' \<noteq> pm_identity m \<or> an_touch_fails a then (False, s)
                  else (True, s\<lparr>vs_parents := put (ck_digest (pm_key m))
                     (d\<lparr>pd_metadata := Some (m'\<lparr>pm_last_used := an_now a\<rparr>)\<rparr>) (vs_parents s)\<rparr>))
             | _ \<Rightarrow> (False, s)))"

definition RemoveParentIfUnused ::
    "answers \<Rightarrow> string \<Rightarrow> string list \<Rightarrow> store \<Rightarrow> (store_error + int) \<times> store" where
  "RemoveParentIfUnused a key active s =
     (if key \<in> set active then (Inl Parent_conflict, s)
      else if \<not> valid_digest key then (Inl Invalid_input, s)
      else case ResolveParent s (key_of key) of
          None \<Rightarrow> (Inl Ownership_mismatch, s)
        | Some r \<Rightarrow>
            (case ro_metadata r of
               None \<Rightarrow> (Inl Ownership_mismatch, s)
             | Some m \<Rightarrow>
                 (if ro_status r \<noteq> ParentStatusValid then (Inl Ownership_mismatch, s)
                  else if an_remove_parent_fails a key then (Inl Io_error, s)
                  else (Inr (pm_allocated m), s\<lparr>vs_parents := remove_entry key (vs_parents s)\<rparr>))))"

section \<open>Status\<close>

record capacity =
  cp_quota :: int
  cp_allocated :: int
  cp_reclaimable :: int
  cp_host_free :: int
  cp_host_floor :: int
  cp_reserve :: int

record store_status =
  vt_parent_count :: nat
  vt_active :: nat
  vt_retained :: nat
  vt_pending :: nat
  vt_quarantined :: nat
  vt_parent_allocated :: int
  vt_active_allocated :: int
  vt_retained_allocated :: int
  vt_quarantine_allocated :: int
  vt_manual_recovery :: bool
  vt_capacity :: capacity

definition child_allocated :: "store \<Rightarrow> journal \<Rightarrow> int" where
  "child_allocated s j = (case map_of (vs_children s) (lj_child_path j) of None \<Rightarrow> 0 | Some n \<Rightarrow> n)"

datatype lease_class = Quarantined_lease | Retained_lease | Active_lease | Released_lease

definition lease_class :: "journal option \<Rightarrow> lease_class" where
  "lease_class d =
     (case d of
        None \<Rightarrow> Quarantined_lease
      | Some j \<Rightarrow> (if lj_state j = ''quarantined'' then Quarantined_lease
          else if lj_retained j then Retained_lease
          else if lj_state j \<noteq> ''released'' then Active_lease else Released_lease))"

definition class_count :: "store \<Rightarrow> lease_class \<Rightarrow> nat" where
  "class_count s c = length (filter (\<lambda>(n, d). has_suffix n ''.json'' \<and> lease_class d = c) (vs_leases s))"

definition class_bytes :: "store \<Rightarrow> lease_class \<Rightarrow> int" where
  "class_bytes s c = sum_list (map (\<lambda>(n, d). case d of None \<Rightarrow> 0
     | Some j \<Rightarrow> if has_suffix n ''.json'' \<and> lease_class d = c then child_allocated s j else 0) (vs_leases s))"

text \<open>All disk images under the user's root: parents, staged ones, children, and the quarantine.\<close>

definition allocatedVHDXBytes :: "store \<Rightarrow> int" where
  "allocatedVHDXBytes s =
     sum_list (map (\<lambda>(n, d). case pd_vhdx d of None \<Rightarrow> 0 | Some b \<Rightarrow> b) (vs_parents s)) +
     sum_list (map (\<lambda>(n, d). case pn_staging d of None \<Rightarrow> 0 | Some b \<Rightarrow> b) (vs_pending s)) +
     sum_list (map snd (vs_children s)) + sum_list (map snd (vs_quarantine s))"

definition Status_store :: "answers \<Rightarrow> int \<Rightarrow> int \<Rightarrow> int \<Rightarrow> store \<Rightarrow> store_status option" where
  "Status_store a hostFree quota host_floor s =
     (if an_measure_fails a then None
      else let quarantined = length (vs_quarantine s) + class_count s Quarantined_lease
           in Some \<lparr>vt_parent_count = length (vs_parents s), vt_active = class_count s Active_lease,
             vt_retained = class_count s Retained_lease, vt_pending = length (vs_pending s),
             vt_quarantined = quarantined,
             vt_parent_allocated = sum_list (map (\<lambda>m. case map_of (vs_parents s) (ck_digest (pm_key m)) of
               None \<Rightarrow> 0 | Some d \<Rightarrow> (case pd_vhdx d of None \<Rightarrow> 0 | Some b \<Rightarrow> b)) (ListParents s)),
             vt_active_allocated = class_bytes s Active_lease,
             vt_retained_allocated = class_bytes s Retained_lease,
             vt_quarantine_allocated = class_bytes s Quarantined_lease + sum_list (map snd (vs_quarantine s)),
             vt_manual_recovery = (0 < quarantined),
             vt_capacity = \<lparr>cp_quota = quota, cp_allocated = allocatedVHDXBytes s, cp_reclaimable = 0,
               cp_host_free = hostFree, cp_host_floor = host_floor, cp_reserve = 0\<rparr>\<rparr>)"

end
