(* ===== verification/VhdxBroker.thy ===== *)
theory VhdxBroker
  imports VhdxStore
begin

text \<open>
  The VHDX workspace broker, \<^verbatim>\<open>internal/vhdxworkspace/broker.go\<close> over the store of
  \<^verbatim>\<open>VhdxStore\<close>: one request at a time, its handler, the cache of responses by request
  identifier, capacity admission with collection of parents, and recovery after a restart. The disk
  operations of the platform (\<^verbatim>\<open>Native\<close>) and the file system answer as data.
\<close>

section \<open>Requests and responses\<close>

record broker_config =
  bc_store_root :: string
  bc_workspace_root :: string
  bc_user :: string
  bc_quota :: int
  bc_floor :: int
  bc_reserve :: int
  bc_ttl :: int

text \<open>\<^verbatim>\<open>NewBroker\<close>: defaults for zero values, no negative limits. Times are in seconds.\<close>

definition NewBroker_config :: "broker_config \<Rightarrow> broker_config option" where
  "NewBroker_config c =
     (if \<not> IsAbs (bc_store_root c) \<or> \<not> IsAbs (bc_workspace_root c) \<or> trim_space (bc_user c) = [] then None
      else let c1 = c\<lparr>bc_quota := (if bc_quota c = 0 then 32 * 2 ^ 30 else bc_quota c),
                 bc_floor := (if bc_floor c = 0 then 20 * 2 ^ 30 else bc_floor c),
                 bc_reserve := (if bc_reserve c = 0 then 2 * 2 ^ 30 else bc_reserve c),
                 bc_ttl := (if bc_ttl c = 0 then 30 * 24 * 3600 else bc_ttl c)\<rparr>
           in if bc_quota c1 < 0 \<or> bc_floor c1 < 0 \<or> bc_reserve c1 < 0 then None
              else if NewPaths (bc_store_root c1) (bc_user c1) = None then None else Some c1)"

datatype operation =
    Hello | Begin_parent | Commit_parent | Abort_parent | Acquire | Heartbeat | Release
  | Attach_retained | Remove_retained | Status_op | Admit | Gc | Unknown_operation

record request =
  rq_schema :: int
  rq_operation :: operation
  rq_id :: string
  rq_user :: string
  rq_run :: string
  rq_workspace_id :: string
  rq_workspace_root :: string
  rq_parent_key :: "compat_key option"
  rq_source :: "string option"
  rq_lease :: string
  rq_transaction :: string
  rq_client_pid :: int
  rq_unity_pid :: int
  rq_retain :: bool
  rq_dry_run :: bool
  rq_quota :: int
  rq_floor :: int

record lease_info =
  li_id :: string
  li_run :: string
  li_parent_key :: string
  li_mount :: string
  li_state :: string
  li_retained :: bool
  li_physical :: string
  li_volume :: string

record parent_build =
  pb_transaction :: string
  pb_parent_key :: string
  pb_mount :: string
  pb_state :: string

record response =
  rp_request :: string
  rp_ok :: bool
  rp_error :: "string option"
  rp_parent :: "parent_metadata option"
  rp_build :: "parent_build option"
  rp_lease :: "lease_info option"
  rp_status :: "store_status option"
  rp_capacity :: "capacity option"

definition ok_response :: "request \<Rightarrow> response" where
  "ok_response q = \<lparr>rp_request = rq_id q, rp_ok = True, rp_error = None, rp_parent = None, rp_build = None,
     rp_lease = None, rp_status = None, rp_capacity = None\<rparr>"

definition fail :: "request \<Rightarrow> string \<Rightarrow> response" where
  "fail q code = (ok_response q)\<lparr>rp_ok := False, rp_error := Some code\<rparr>"

section \<open>State\<close>

text \<open>
  A mounted child as the platform reports it; a workspace directory below the workspace root: whether
  it is a real directory, the owner marker in it (absent, unreadable, or its content), and whether it
  holds a link.
\<close>

record session =
  cs_info :: lease_info
  cs_identity :: string

record owner =
  ow_schema :: int
  ow_provider :: string
  ow_lease :: string
  ow_run :: string
  ow_workspace :: string
  ow_path :: string
  ow_mount :: string
  ow_token :: string

record workspace_dir =
  wd_real :: bool
  wd_owner :: "owner option option"
  wd_links :: bool

record broker =
  br_config :: broker_config
  br_store :: store
  br_workspaces :: "(string \<times> workspace_dir) list"
  br_building :: "(string \<times> pending) list"
  br_children :: "(string \<times> session) list"
  br_requests :: "(string \<times> response) list"

record parent_evidence =
  ev_identity :: string
  ev_write_time :: int
  ev_volume :: string
  ev_logical :: int
  ev_allocated :: int
  ev_sha256 :: string

text \<open>
  What the platform and the file system answer during one request. \<open>na_child_file\<close> is the disk image
  at the child's path after the attempt to acquire it.
\<close>

record native =
  na_io :: answers
  na_available :: bool
  na_verify :: bool
  na_host_free :: "int option"
  na_begin :: "int option"
  na_finalize :: "parent_evidence option"
  na_abort :: bool
  na_lease_id :: "string option"
  na_transitions :: "(string \<times> string \<times> string) list"
  na_acquire :: "session option"
  na_child_file :: "int option"
  na_attach :: "session option"
  na_release :: bool
  na_usage :: "int option"
  na_boot :: string
  na_alive :: "int \<Rightarrow> bool"
  na_root_real :: bool
  na_mount_exists :: bool
  na_owner_fails :: bool
  na_workspace_fails :: bool
  na_error :: string

definition samePath :: "string \<Rightarrow> string \<Rightarrow> bool" where
  "samePath l r \<longleftrightarrow> equal_fold (Clean l) (Clean r)"

definition with_store :: "broker \<Rightarrow> store \<Rightarrow> broker" where
  "with_store b s = b\<lparr>br_store := s\<rparr>"

definition write_lease :: "native \<Rightarrow> journal \<Rightarrow> broker \<Rightarrow> bool \<times> broker" where
  "write_lease w j b = (case WriteLease (na_io w) j (br_store b) of (ok, s) \<Rightarrow> (ok, b\<lparr>br_store := s\<rparr>))"

definition remove_lease :: "native \<Rightarrow> journal \<Rightarrow> broker \<Rightarrow> bool \<times> broker" where
  "remove_lease w j b = (case RemoveLease (na_io w) j (br_store b) of (ok, s) \<Rightarrow> (ok, b\<lparr>br_store := s\<rparr>))"

section \<open>Workspaces\<close>

definition workspaceMount :: "broker_config \<Rightarrow> string \<Rightarrow> (string \<times> string) option" where
  "workspaceMount c wid =
     (if \<not> valid_identifier wid then None
      else let workspace = Join [bc_workspace_root c, wid]
           in case Rel (bc_workspace_root c) workspace of
                None \<Rightarrow> None
              | Some rel \<Rightarrow> if rel = ''.'' \<or> has_prefix rel (''..'' @ [sep]) then None
                  else Some (workspace, Join [workspace, ''Library'']))"

definition real_workspace :: "native \<Rightarrow> broker \<Rightarrow> string \<Rightarrow> bool" where
  "real_workspace w b wid \<longleftrightarrow> na_root_real w \<and>
     (case map_of (br_workspaces b) wid of None \<Rightarrow> False | Some d \<Rightarrow> wd_real d)"

definition validateWorkspaceMount :: "native \<Rightarrow> broker \<Rightarrow> string \<Rightarrow> string \<Rightarrow> bool" where
  "validateWorkspaceMount w b wid mount \<longleftrightarrow>
     (case workspaceMount (br_config b) wid of
        None \<Rightarrow> False
      | Some (_, expected) \<Rightarrow> samePath expected mount \<and> real_workspace w b wid \<and> \<not> na_mount_exists w)"

definition owner_of :: "journal \<Rightarrow> string \<Rightarrow> string \<Rightarrow> owner" where
  "owner_of j workspace mount = \<lparr>ow_schema = 1, ow_provider = Provider, ow_lease = lj_id j, ow_run = lj_run j,
     ow_workspace = lj_workspace_id j, ow_path = workspace, ow_mount = mount, ow_token = lj_token j\<rparr>"

text \<open>The marker is written exclusively.\<close>

definition writeWorkspaceOwner :: "native \<Rightarrow> journal \<Rightarrow> broker \<Rightarrow> bool \<times> broker" where
  "writeWorkspaceOwner w j b =
     (case workspaceMount (br_config b) (lj_workspace_id j) of
        None \<Rightarrow> (False, b)
      | Some (workspace, mount) \<Rightarrow>
          (if \<not> samePath workspace (lj_workspace_path j) \<or> \<not> samePath mount (lj_mount j) \<or>
              \<not> validateWorkspaceMount w b (lj_workspace_id j) (lj_mount j)
           then (False, b)
           else case map_of (br_workspaces b) (lj_workspace_id j) of
               None \<Rightarrow> (False, b)
             | Some d \<Rightarrow>
                 (if wd_owner d \<noteq> None \<or> na_owner_fails w then (False, b)
                  else (True, b\<lparr>br_workspaces := put (lj_workspace_id j)
                     (d\<lparr>wd_owner := Some (Some (owner_of j workspace mount))\<rparr>) (br_workspaces b)\<rparr>))))"

datatype marker = No_workspace | Marker | Bad_marker

definition readWorkspaceOwner :: "native \<Rightarrow> broker \<Rightarrow> journal \<Rightarrow> marker" where
  "readWorkspaceOwner w b j =
     (if lj_workspace_id j = [] \<or> lj_workspace_path j = [] then No_workspace
      else case workspaceMount (br_config b) (lj_workspace_id j) of
          None \<Rightarrow> Bad_marker
        | Some (workspace, mount) \<Rightarrow>
            (if \<not> samePath workspace (lj_workspace_path j) \<or> \<not> samePath mount (lj_mount j) \<or>
                \<not> real_workspace w b (lj_workspace_id j)
             then Bad_marker
             else case map_of (br_workspaces b) (lj_workspace_id j) of
                 None \<Rightarrow> Bad_marker
               | Some d \<Rightarrow>
                   (case wd_owner d of
                      Some (Some ow) \<Rightarrow>
                        (if ow_schema ow \<noteq> 1 \<or> ow_provider ow \<noteq> Provider \<or> ow_lease ow \<noteq> lj_id j \<or>
                            ow_run ow \<noteq> lj_run j \<or> ow_workspace ow \<noteq> lj_workspace_id j \<or>
                            \<not> samePath (ow_path ow) workspace \<or> \<not> samePath (ow_mount ow) mount \<or>
                            ow_token ow \<noteq> lj_token j
                         then Bad_marker else Marker)
                    | _ \<Rightarrow> Bad_marker)))"

definition removeWorkspaceOwner :: "native \<Rightarrow> journal \<Rightarrow> broker \<Rightarrow> broker" where
  "removeWorkspaceOwner w j b =
     (if readWorkspaceOwner w b j = Marker \<and> \<not> na_workspace_fails w then
        (case map_of (br_workspaces b) (lj_workspace_id j) of
           None \<Rightarrow> b
         | Some d \<Rightarrow> b\<lparr>br_workspaces := put (lj_workspace_id j) (d\<lparr>wd_owner := None\<rparr>) (br_workspaces b)\<rparr>)
      else b)"

definition cleanupOwnedWorkspace :: "native \<Rightarrow> journal \<Rightarrow> broker \<Rightarrow> bool \<times> broker" where
  "cleanupOwnedWorkspace w j b =
     (if lj_workspace_id j = [] \<or> lj_workspace_path j = [] then (True, b)
      else case map_of (br_workspaces b) (lj_workspace_id j) of
          None \<Rightarrow> (True, b)
        | Some d \<Rightarrow>
            (if readWorkspaceOwner w b j \<noteq> Marker \<or> wd_links d \<or> na_workspace_fails w then (False, b)
             else (True, b\<lparr>br_workspaces := remove_entry (lj_workspace_id j) (br_workspaces b)\<rparr>)))"

section \<open>Capacity\<close>

text \<open>
  The collection loop over the parents, oldest use first: what is in use or recently used is skipped,
  and the loop ends as soon as the projected sizes fit. The result is an error, if any, or whether
  the sizes fit.
\<close>

definition fits :: "capacity \<Rightarrow> int \<Rightarrow> bool" where
  "fits c allocated \<longleftrightarrow> allocated + cp_reserve c \<le> cp_quota c \<and> cp_host_floor c \<le> cp_host_free c - cp_reserve c"

fun collect_parents ::
    "answers \<Rightarrow> int \<Rightarrow> string list \<Rightarrow> bool \<Rightarrow> parent_metadata list \<Rightarrow> int \<Rightarrow> capacity \<Rightarrow> store \<Rightarrow>
     (store_error + bool) \<times> capacity \<times> store" where
  "collect_parents a horizon active dry [] projected c s = (Inr False, c, s)"
| "collect_parents a horizon active dry (m # ms) projected c s =
     (if ck_digest (pm_key m) \<in> set active \<or> horizon < pm_last_used m
      then collect_parents a horizon active dry ms projected c s
      else let c1 = c\<lparr>cp_reclaimable := cp_reclaimable c + pm_allocated m\<rparr>; p1 = projected - pm_allocated m
           in if dry then collect_parents a horizon active dry ms p1 c1 s
              else case RemoveParentIfUnused a (ck_digest (pm_key m)) active s of
                  (Inl e, s1) \<Rightarrow> (Inl e, c1, s1)
                | (Inr n, s1) \<Rightarrow>
                    (let c2 = c1\<lparr>cp_allocated := cp_allocated c1 - n\<rparr>
                     in if fits c2 p1 then (Inr True, c2, s1)
                        else collect_parents a horizon active dry ms p1 c2 s1))"

definition active_keys :: "broker \<Rightarrow> string list" where
  "active_keys b = map (\<lambda>(i, c). li_parent_key (cs_info c)) (br_children b)"

definition ensureCapacityWithLimits ::
    "native \<Rightarrow> int \<Rightarrow> bool \<Rightarrow> int \<Rightarrow> int \<Rightarrow> broker \<Rightarrow> (store_error + capacity) \<times> broker" where
  "ensureCapacityWithLimits w workers dry requestedQuota requestedFloor b =
     (case na_host_free w of
        None \<Rightarrow> (Inl Io_error, b)
      | Some hostFree \<Rightarrow>
          (let quota = (if 0 < requestedQuota \<and> requestedQuota < bc_quota (br_config b)
                 then requestedQuota else bc_quota (br_config b));
               hfloor = (if bc_floor (br_config b) < requestedFloor then requestedFloor else bc_floor (br_config b))
           in case Status_store (na_io w) hostFree quota hfloor (br_store b) of
                None \<Rightarrow> (Inl Io_error, b)
              | Some st \<Rightarrow>
                  (let c = (vt_capacity st)\<lparr>cp_reserve := workers * bc_reserve (br_config b)\<rparr>
                   in if fits c (cp_allocated c) \<and> \<not> dry then (Inr c, b)
                      else case ProtectedParentKeys (br_store b) of
                          None \<Rightarrow> (Inl Ownership_mismatch, b)
                        | Some keys \<Rightarrow>
                            (case collect_parents (na_io w) (an_now (na_io w) - bc_ttl (br_config b))
                                (active_keys b @ keys) dry (ListParents (br_store b)) (cp_allocated c) c (br_store b) of
                               (Inl e, c', s) \<Rightarrow> (Inl e, b\<lparr>br_store := s\<rparr>)
                             | (Inr done, c', s) \<Rightarrow>
                                 (if done \<or> dry then (Inr c', b\<lparr>br_store := s\<rparr>)
                                  else (Inl Storage_unavailable, b\<lparr>br_store := s\<rparr>))))))"

section \<open>Parent builds\<close>

text \<open>A new build: its pending directory, then the platform creates and mounts the staging image.\<close>

definition begin_build ::
    "native \<Rightarrow> request \<Rightarrow> compat_key \<Rightarrow> string \<Rightarrow> string \<Rightarrow> broker \<Rightarrow> response \<times> broker" where
  "begin_build w q key src mount b =
     (case BeginParent (na_io w) (bc_user (br_config b)) key src mount (rq_client_pid q) (br_store b) of
        (Inl e, s) \<Rightarrow>
          (if e = Parent_conflict
           then ((ok_response q)\<lparr>rp_build := Some \<lparr>pb_transaction = [], pb_parent_key = ck_digest key,
               pb_mount = [], pb_state = ''waiting''\<rparr>\<rparr>, b\<lparr>br_store := s\<rparr>)
           else (fail q ''parent-conflict'', b\<lparr>br_store := s\<rparr>))
      | (Inr p, s) \<Rightarrow>
          (case na_begin w of
             None \<Rightarrow> (fail q ''parent-create-failed'',
               b\<lparr>br_store := snd (AbortParent_store (na_io w) p s)\<rparr>)
           | Some bytes \<Rightarrow>
               ((ok_response q)\<lparr>rp_build := Some \<lparr>pb_transaction = pe_transaction p,
                  pb_parent_key = ck_digest (pe_key p), pb_mount = pe_mount p, pb_state = ''mounted''\<rparr>\<rparr>,
                b\<lparr>br_store := s\<lparr>vs_pending := put (ck_digest key)
                    \<lparr>pn_doc = Some p, pn_staging = Some bytes, pn_extra = False\<rparr> (vs_pending s)\<rparr>,
                  br_building := put (pe_transaction p) p (br_building b)\<rparr>)))"

definition beginParent :: "native \<Rightarrow> request \<Rightarrow> broker \<Rightarrow> response \<times> broker" where
  "beginParent w q b =
     (case (rq_parent_key q, rq_source q) of
        (Some key, Some src) \<Rightarrow>
          (case ResolveParent (br_store b) key of
             None \<Rightarrow> (fail q ''parent-resolve-failed'', b)
           | Some r \<Rightarrow>
               (if ro_status r = ParentStatusValid then
                  (if \<not> na_verify w then (fail q ''parent-corrupt'', b)
                   else ((ok_response q)\<lparr>rp_parent := ro_metadata r\<rparr>,
                     (case ro_metadata r of None \<Rightarrow> b
                      | Some m \<Rightarrow> b\<lparr>br_store := snd (TouchParent (na_io w) m (br_store b))\<rparr>)))
                else if ro_status r \<noteq> ParentStatusMissing then (fail q ''parent-corrupt'', b)
                else case workspaceMount (br_config b) (rq_workspace_id q) of
                    None \<Rightarrow> (fail q ''invalid-workspace'', b)
                  | Some (workspace, mount) \<Rightarrow>
                      (if \<not> validateWorkspaceMount w b (rq_workspace_id q) mount then (fail q ''invalid-workspace'', b)
                       else begin_build w q key src mount b)))
      | _ \<Rightarrow> (fail q ''invalid-request'', b))"

definition metadata_of :: "pending \<Rightarrow> parent_evidence \<Rightarrow> parent_metadata" where
  "metadata_of p ev = \<lparr>pm_schema = 0, pm_provider = [], pm_key = pe_key p, pm_source = pe_source p, pm_token = pe_token p,
     pm_created = 0, pm_last_used = 0, pm_path = [], pm_identity = ev_identity ev, pm_write_time = ev_write_time ev,
     pm_volume = ev_volume ev, pm_virtual = ck_virtual (pe_key p), pm_block = ck_block (pe_key p),
     pm_sector = ck_sector (pe_key p), pm_logical = ev_logical ev, pm_allocated = ev_allocated ev,
     pm_sha256 = ev_sha256 ev, pm_immutable = False\<rparr>"

definition commitParent :: "native \<Rightarrow> request \<Rightarrow> broker \<Rightarrow> response \<times> broker" where
  "commitParent w q b =
     (case map_of (br_building b) (rq_transaction q) of
        None \<Rightarrow> (fail q ''parent-transaction-not-found'', b)
      | Some p \<Rightarrow>
          (case na_finalize w of
             None \<Rightarrow> (fail q ''parent-verification-failed'', b)
           | Some ev \<Rightarrow>
               (case CommitParent (na_io w) p (metadata_of p ev) (br_store b) of
                  (Inl e, s) \<Rightarrow> (fail q ''parent-commit-failed'', b\<lparr>br_store := s\<rparr>)
                | (Inr m, s) \<Rightarrow> ((ok_response q)\<lparr>rp_parent := Some m\<rparr>,
                    b\<lparr>br_store := s, br_building := remove_entry (rq_transaction q) (br_building b)\<rparr>))))"

text \<open>A successful abort of the platform removes the staged image.\<close>

definition unstage :: "pending \<Rightarrow> store \<Rightarrow> store" where
  "unstage p s = (case map_of (vs_pending s) (ck_digest (pe_key p)) of None \<Rightarrow> s
     | Some d \<Rightarrow> s\<lparr>vs_pending := put (ck_digest (pe_key p)) (d\<lparr>pn_staging := None\<rparr>) (vs_pending s)\<rparr>)"

definition abortParent :: "native \<Rightarrow> request \<Rightarrow> broker \<Rightarrow> response \<times> broker" where
  "abortParent w q b =
     (case map_of (br_building b) (rq_transaction q) of
        None \<Rightarrow> (fail q ''parent-transaction-not-found'', b)
      | Some p \<Rightarrow>
          (if \<not> na_abort w then (fail q ''parent-abort-uncertain'', b)
           else case AbortParent_store (na_io w) p (unstage p (br_store b)) of
               (Some e, s) \<Rightarrow> (fail q ''parent-abort-failed'', b\<lparr>br_store := s\<rparr>)
             | (None, s) \<Rightarrow> (ok_response q,
                 b\<lparr>br_store := s, br_building := remove_entry (rq_transaction q) (br_building b)\<rparr>)))"

section \<open>Leases\<close>

definition child_image :: "string \<Rightarrow> int option \<Rightarrow> broker \<Rightarrow> broker" where
  "child_image path img b = b\<lparr>br_store := (br_store b)\<lparr>vs_children :=
     (case img of None \<Rightarrow> remove_entry path (vs_children (br_store b))
      | Some n \<Rightarrow> put path n (vs_children (br_store b)))\<rparr>\<rparr>"

text \<open>The journal of a new lease, and the states the platform reports while it creates the child.\<close>

definition new_journal ::
    "native \<Rightarrow> request \<Rightarrow> broker \<Rightarrow> string \<Rightarrow> parent_metadata \<Rightarrow> compat_key \<Rightarrow> string \<Rightarrow> string \<Rightarrow> journal" where
  "new_journal w q b leaseID m key workspace mount =
     \<lparr>lj_schema = 0, lj_id = leaseID, lj_run = rq_run q, lj_user = bc_user (br_config b),
      lj_token = an_token (na_io w), lj_parent_key = ck_digest key, lj_parent_path = pm_path m,
      lj_child_path = (case Child (vs_paths (br_store b)) leaseID of None \<Rightarrow> [] | Some c \<Rightarrow> c),
      lj_workspace_id = rq_workspace_id q, lj_workspace_path = workspace, lj_mount = mount,
      lj_state = ''requested'', lj_boot = na_boot w, lj_client_pid = rq_client_pid q, lj_unity_pid = 0,
      lj_retained = False, lj_created = an_now (na_io w), lj_updated = an_now (na_io w), lj_identity = [],
      lj_physical = [], lj_volume = [], lj_recovery_at = None, lj_recovery_error = []\<rparr>"

fun transitions :: "native \<Rightarrow> (string \<times> string \<times> string) list \<Rightarrow> journal \<Rightarrow> broker \<Rightarrow> journal \<times> broker" where
  "transitions w [] j b = (j, b)"
| "transitions w ((st, physical, volume) # ts) j b =
     (let j1 = j\<lparr>lj_state := st, lj_physical := (if physical = [] then lj_physical j else physical),
            lj_volume := (if volume = [] then lj_volume j else volume)\<rparr>
      in transitions w ts j1 (snd (write_lease w j1 b)))"

definition acquire_failed :: "native \<Rightarrow> request \<Rightarrow> journal \<Rightarrow> broker \<Rightarrow> response \<times> broker" where
  "acquire_failed w q j b =
     (fail q ''child-acquire-failed'',
      if map_of (vs_children (br_store b)) (lj_child_path j) = None
      then snd (remove_lease w j (removeWorkspaceOwner w j b))
      else snd (write_lease w (j\<lparr>lj_state := ''quarantined''\<rparr>) b))"

definition acquire_ready :: "native \<Rightarrow> request \<Rightarrow> journal \<Rightarrow> parent_metadata \<Rightarrow> session \<Rightarrow> broker \<Rightarrow> response \<times> broker" where
  "acquire_ready w q j m cs b =
     (let j1 = j\<lparr>lj_state := ''ready'', lj_identity := cs_identity cs, lj_physical := li_physical (cs_info cs),
            lj_volume := li_volume (cs_info cs)\<rparr>
      in case write_lease w j1 b of
           (False, b1) \<Rightarrow> (fail q ''journal-write-failed'', snd (cleanupOwnedWorkspace w j1
             (if na_release w then child_image (lj_child_path j1) None b1 else b1)))
         | (True, b1) \<Rightarrow>
             (case ensureCapacityWithLimits w 0 False 0 0 (b1\<lparr>br_children := put (lj_id j) cs (br_children b1)\<rparr>) of
                (c, b2) \<Rightarrow> ((ok_response q)\<lparr>rp_parent := Some m, rp_lease := Some (cs_info cs),
                   rp_capacity := (case c of Inl _ \<Rightarrow> None | Inr c \<Rightarrow> Some c)\<rparr>, b2)))"

definition acquire_native :: "native \<Rightarrow> request \<Rightarrow> journal \<Rightarrow> parent_metadata \<Rightarrow> broker \<Rightarrow> response \<times> broker" where
  "acquire_native w q j m b =
     (case transitions w (na_transitions w) j b of (j1, b1) \<Rightarrow>
       (let b2 = child_image (lj_child_path j) (na_child_file w) b1
        in case na_acquire w of
             None \<Rightarrow> acquire_failed w q j1 b2
           | Some cs \<Rightarrow> acquire_ready w q j1 m cs b2))"

definition acquire_admitted :: "native \<Rightarrow> request \<Rightarrow> compat_key \<Rightarrow> parent_metadata \<Rightarrow> broker \<Rightarrow> response \<times> broker" where
  "acquire_admitted w q key m b =
     (case na_lease_id w of
        None \<Rightarrow> (fail q ''lease-create-failed'', b)
      | Some leaseID \<Rightarrow>
          (case workspaceMount (br_config b) (rq_workspace_id q) of
             None \<Rightarrow> (fail q ''invalid-workspace'', b)
           | Some (workspace, mount) \<Rightarrow>
               (if \<not> validateWorkspaceMount w b (rq_workspace_id q) mount then (fail q ''invalid-workspace'', b)
                else let j = new_journal w q b leaseID m key workspace mount
                     in case write_lease w j b of
                          (False, b1) \<Rightarrow> (fail q ''journal-write-failed'', b1)
                        | (True, b1) \<Rightarrow>
                            (case writeWorkspaceOwner w j b1 of
                               (False, b2) \<Rightarrow> (fail q ''workspace-owner-write-failed'', snd (remove_lease w j b2))
                             | (True, b2) \<Rightarrow> acquire_native w q j m b2))))"

definition acquire :: "native \<Rightarrow> request \<Rightarrow> broker \<Rightarrow> response \<times> broker" where
  "acquire w q b =
     (case rq_parent_key q of
        None \<Rightarrow> (fail q ''invalid-request'', b)
      | Some key \<Rightarrow>
          (if \<not> valid_identifier (rq_run q) then (fail q ''invalid-request'', b)
           else case ResolveParent (br_store b) key of
               None \<Rightarrow> (fail q ''parent-unavailable'', b)
             | Some r \<Rightarrow>
                 (case ro_metadata r of
                    None \<Rightarrow> (fail q ''parent-unavailable'', b)
                  | Some m \<Rightarrow>
                      (if ro_status r \<noteq> ParentStatusValid then (fail q ''parent-unavailable'', b)
                       else if \<not> na_verify w then (fail q ''parent-corrupt'', b)
                       else case ensureCapacityWithLimits w 1 False (rq_quota q) (rq_floor q)
                           (b\<lparr>br_store := snd (TouchParent (na_io w) m (br_store b))\<rparr>) of
                           (Inl e, b1) \<Rightarrow> (fail q ''storage-capacity-unavailable'', b1)
                         | (Inr c, b1) \<Rightarrow> acquire_admitted w q key m b1))))"

definition heartbeat :: "native \<Rightarrow> request \<Rightarrow> broker \<Rightarrow> response \<times> broker" where
  "heartbeat w q b =
     (case ReadLease (br_store b) (rq_lease q) of
        None \<Rightarrow> (fail q ''lease-not-found'', b)
      | Some j \<Rightarrow>
          (if lj_token j = [] \<or> lj_state j \<noteq> ''ready'' then (fail q ''lease-not-ready'', b)
           else case write_lease w (j\<lparr>lj_client_pid := rq_client_pid q,
               lj_boot := (if lj_boot j = [] then na_boot w else lj_boot j),
               lj_unity_pid := (if rq_unity_pid q \<noteq> 0 then rq_unity_pid q else lj_unity_pid j)\<rparr>) b of
               (False, b1) \<Rightarrow> (fail q ''journal-write-failed'', b1)
             | (True, b1) \<Rightarrow>
                 (case map_of (br_children b1) (rq_lease q) of
                    None \<Rightarrow> (fail q ''lease-not-active'', b1)
                  | Some cs \<Rightarrow> ((ok_response q)\<lparr>rp_lease := Some (cs_info cs)\<rparr>, b1))))"

definition released_lease :: "bool \<Rightarrow> session \<Rightarrow> lease_info" where
  "released_lease retain cs = (cs_info cs)\<lparr>li_state := ''released'', li_retained := retain\<rparr>"

definition quarantine :: "native \<Rightarrow> journal \<Rightarrow> broker \<Rightarrow> broker" where
  "quarantine w j b = snd (write_lease w (j\<lparr>lj_state := ''quarantined''\<rparr>) b)"

text \<open>What follows the release of the disk: the record of a retained child, or the removal of the rest.\<close>

definition release_recorded :: "native \<Rightarrow> request \<Rightarrow> journal \<Rightarrow> broker \<Rightarrow> string option \<times> broker" where
  "release_recorded w q j b =
     (if rq_retain q then
        (case write_lease w j b of
           (False, b1) \<Rightarrow> (Some ''journal-write-failed'', b1)
         | (True, b1) \<Rightarrow>
             (case WriteRetained (na_io w) j (br_store b1) of
                (False, s) \<Rightarrow> (Some ''retained-record-failed'', b1\<lparr>br_store := s\<rparr>)
              | (True, s) \<Rightarrow> (None, b1\<lparr>br_store := s\<rparr>)))
      else
        (case cleanupOwnedWorkspace w j b of
           (False, b1) \<Rightarrow> (Some ''workspace-cleanup-failed'', quarantine w j b1)
         | (True, b1) \<Rightarrow>
             (case remove_lease w j b1 of
                (False, b2) \<Rightarrow> (Some ''journal-remove-failed'', b2)
              | (True, b2) \<Rightarrow> (None, b2))))"

definition release :: "native \<Rightarrow> request \<Rightarrow> broker \<Rightarrow> response \<times> broker" where
  "release w q b =
     (case (map_of (br_children b) (rq_lease q), ReadLease (br_store b) (rq_lease q)) of
        (Some cs, Some j0) \<Rightarrow>
          (let j = j0\<lparr>lj_state := ''releasing'', lj_retained := rq_retain q\<rparr>
           in case write_lease w j b of
                (False, b1) \<Rightarrow> (fail q ''journal-write-failed'', b1)
              | (True, b1) \<Rightarrow>
                  (if \<not> na_release w then (fail q ''child-release-failed'', quarantine w j b1)
                   else let b2 = (if rq_retain q then b1 else child_image (lj_child_path j) None b1)
                        in case release_recorded w q (j\<lparr>lj_state := ''released''\<rparr>) b2 of
                             (Some code, b3) \<Rightarrow> (fail q code, b3)
                           | (None, b3) \<Rightarrow>
                               (case ensureCapacityWithLimits w 0 False 0 0
                                    (b3\<lparr>br_children := remove_entry (rq_lease q) (br_children b3)\<rparr>) of
                                  (c, b4) \<Rightarrow> ((ok_response q)\<lparr>rp_lease := Some (released_lease (rq_retain q) cs),
                                     rp_capacity := (case c of Inl _ \<Rightarrow> None | Inr c \<Rightarrow> Some c)\<rparr>, b4))))
      | _ \<Rightarrow> (fail q ''lease-not-found'', b))"

section \<open>Retained children\<close>

text \<open>The record of a run and the journal it names, when they agree.\<close>

definition retained_pair :: "store \<Rightarrow> string \<Rightarrow> string + retained_record \<times> journal" where
  "retained_pair s runID =
     (case ReadRetained s runID of
        None \<Rightarrow> Inl ''retained-not-found''
      | Some r \<Rightarrow>
          (case ReadLease s (re_lease r) of
             None \<Rightarrow> Inl ''retained-identity-mismatch''
           | Some j \<Rightarrow>
               (if \<not> lj_retained j \<or> lj_token j \<noteq> re_token r \<or> lj_child_path j \<noteq> re_child_path r
                then Inl ''retained-identity-mismatch'' else Inr (r, j))))"

definition retained_parent :: "native \<Rightarrow> store \<Rightarrow> string \<Rightarrow> string option" where
  "retained_parent w s key =
     (case ResolveParent s (key_of key) of
        None \<Rightarrow> Some ''parent-unavailable''
      | Some r \<Rightarrow>
          (if ro_status r \<noteq> ParentStatusValid \<or> ro_metadata r = None then Some ''parent-unavailable''
           else if \<not> na_verify w then Some ''parent-corrupt'' else None))"

definition attachRetained :: "native \<Rightarrow> request \<Rightarrow> broker \<Rightarrow> response \<times> broker" where
  "attachRetained w q b =
     (case retained_pair (br_store b) (rq_run q) of
        Inl code \<Rightarrow> (fail q code, b)
      | Inr (r, j0) \<Rightarrow>
          (if map_of (br_children b) (re_lease r) \<noteq> None then (fail q ''lease-conflict'', b)
           else case retained_parent w (br_store b) (re_parent_key r) of
               Some code \<Rightarrow> (fail q code, b)
             | None \<Rightarrow>
                 (case workspaceMount (br_config b) (rq_workspace_id q) of
                    None \<Rightarrow> (fail q ''invalid-workspace'', b)
                  | Some (workspace, mount) \<Rightarrow>
                      (if \<not> validateWorkspaceMount w b (rq_workspace_id q) mount then (fail q ''invalid-workspace'', b)
                       else case na_attach w of
                           None \<Rightarrow> (fail q ''retained-attach-failed'', b)
                         | Some cs \<Rightarrow>
                             (case write_lease w (j0\<lparr>lj_mount := mount, lj_state := ''ready''\<rparr>) b of
                                (False, b1) \<Rightarrow> (fail q ''journal-write-failed'', b1)
                              | (True, b1) \<Rightarrow> ((ok_response q)\<lparr>rp_lease := Some (cs_info cs)\<rparr>,
                                  b1\<lparr>br_children := put (re_lease r) cs (br_children b1)\<rparr>))))))"

text \<open>The session to release: the mounted one, or the child attached for it.\<close>

definition retained_session :: "native \<Rightarrow> retained_record \<Rightarrow> broker \<Rightarrow> string + session" where
  "retained_session w r b =
     (case map_of (br_children b) (re_lease r) of
        Some cs \<Rightarrow> Inr cs
      | None \<Rightarrow>
          (case retained_parent w (br_store b) (re_parent_key r) of
             Some code \<Rightarrow> Inl code
           | None \<Rightarrow> (case na_attach w of None \<Rightarrow> Inl ''retained-attach-failed'' | Some cs \<Rightarrow> Inr cs)))"

definition removeRetained :: "native \<Rightarrow> request \<Rightarrow> broker \<Rightarrow> response \<times> broker" where
  "removeRetained w q b =
     (case retained_pair (br_store b) (rq_run q) of
        Inl code \<Rightarrow> (fail q code, b)
      | Inr (r, j) \<Rightarrow>
          (case retained_session w r b of
             Inl code \<Rightarrow> (fail q code, b)
           | Inr cs \<Rightarrow>
               (if \<not> na_release w then (fail q ''retained-release-failed'', b)
                else case cleanupOwnedWorkspace w j (child_image (lj_child_path j) None b) of
                    (False, b1) \<Rightarrow> (fail q ''workspace-cleanup-failed'', quarantine w j b1)
                  | (True, b1) \<Rightarrow>
                      (case remove_lease w j b1 of
                         (False, b2) \<Rightarrow> (fail q ''journal-remove-failed'', b2)
                       | (True, b2) \<Rightarrow>
                           (case RemoveRetained (na_io w) r (br_store b2) of
                              (False, s) \<Rightarrow> (fail q ''retained-record-remove-failed'', b2\<lparr>br_store := s\<rparr>)
                            | (True, s) \<Rightarrow> ((ok_response q)\<lparr>rp_lease := Some (released_lease False cs)\<rparr>,
                                b2\<lparr>br_store := s, br_children := remove_entry (re_lease r) (br_children b2)\<rparr>))))))"

section \<open>Status, collection, dispatch\<close>

definition broker_status :: "native \<Rightarrow> request \<Rightarrow> broker \<Rightarrow> response" where
  "broker_status w q b =
     (case na_host_free w of
        None \<Rightarrow> fail q ''status-failed''
      | Some free \<Rightarrow>
          (case Status_store (na_io w) free (bc_quota (br_config b)) (bc_floor (br_config b)) (br_store b) of
             None \<Rightarrow> fail q ''status-failed''
           | Some st \<Rightarrow>
               (case ProtectedParentKeys (br_store b) of
                  None \<Rightarrow> (ok_response q)\<lparr>rp_status := Some (st\<lparr>vt_manual_recovery := True\<rparr>)\<rparr>
                | Some keys \<Rightarrow>
                    (let reclaimable = sum_list (map pm_allocated (filter
                       (\<lambda>m. ck_digest (pm_key m) \<notin> set (active_keys b @ keys) \<and>
                         pm_last_used m \<le> an_now (na_io w) - bc_ttl (br_config b)) (ListParents (br_store b))))
                     in (ok_response q)\<lparr>rp_status := Some (st\<lparr>vt_capacity := (vt_capacity st)
                          \<lparr>cp_reclaimable := cp_reclaimable (vt_capacity st) + reclaimable\<rparr>\<rparr>)\<rparr>))))"

definition admit :: "native \<Rightarrow> request \<Rightarrow> broker \<Rightarrow> response \<times> broker" where
  "admit w q b =
     (case ensureCapacityWithLimits w 1 False (rq_quota q) (rq_floor q) b of
        (Inl e, b1) \<Rightarrow> (fail q ''storage-capacity-unavailable'', b1)
      | (Inr c, b1) \<Rightarrow> ((ok_response q)\<lparr>rp_capacity := Some c\<rparr>, b1))"

definition gc :: "native \<Rightarrow> request \<Rightarrow> broker \<Rightarrow> response \<times> broker" where
  "gc w q b =
     (case ensureCapacityWithLimits w 0 (rq_dry_run q) 0 0 b of
        (Inl e, b1) \<Rightarrow> (fail q ''gc-failed'', b1)
      | (Inr c, b1) \<Rightarrow> ((ok_response q)\<lparr>rp_capacity := Some c\<rparr>, b1))"

definition dispatch :: "native \<Rightarrow> request \<Rightarrow> broker \<Rightarrow> response \<times> broker" where
  "dispatch w q b =
     (case rq_operation q of
        Hello \<Rightarrow> (ok_response q, b)
      | Begin_parent \<Rightarrow> beginParent w q b
      | Commit_parent \<Rightarrow> commitParent w q b
      | Abort_parent \<Rightarrow> abortParent w q b
      | Acquire \<Rightarrow> acquire w q b
      | Heartbeat \<Rightarrow> heartbeat w q b
      | Release \<Rightarrow> release w q b
      | Attach_retained \<Rightarrow> attachRetained w q b
      | Remove_retained \<Rightarrow> removeRetained w q b
      | Status_op \<Rightarrow> (broker_status w q b, b)
      | Admit \<Rightarrow> admit w q b
      | Gc \<Rightarrow> gc w q b
      | Unknown_operation \<Rightarrow> (fail q ''unknown-operation'', b))"

definition handleLocked :: "native \<Rightarrow> string \<Rightarrow> request \<Rightarrow> broker \<Rightarrow> response \<times> broker" where
  "handleLocked w caller q b =
     (if rq_schema q \<noteq> ProtocolSchemaVersion then (fail q ''unsupported-schema'', b)
      else if \<not> valid_identifier (rq_id q) then (fail q ''invalid-request'', b)
      else if \<not> equal_fold caller (bc_user (br_config b)) \<or>
          (rq_user q \<noteq> [] \<and> \<not> equal_fold (rq_user q) caller) then (fail q ''unauthorized-client'', b)
      else if rq_workspace_root q \<noteq> [] then (fail q ''invalid-request'', b)
      else if rq_workspace_id q \<noteq> [] \<and> \<not> valid_identifier (rq_workspace_id q) then (fail q ''invalid-workspace'', b)
      else if rq_operation q \<noteq> Hello \<and> \<not> na_available w then (fail q ''broker-unavailable'', b)
      else if rq_operation q \<noteq> Hello \<and> an_layout_fails (na_io w) then (fail q ''store-invalid'', b)
      else dispatch w q b)"

text \<open>A request identifier that was answered gets the same answer again.\<close>

definition Handle :: "native \<Rightarrow> string \<Rightarrow> request \<Rightarrow> broker \<Rightarrow> response \<times> broker" where
  "Handle w caller q b =
     (if rq_id q = [] then handleLocked w caller q b
      else case map_of (br_requests b) (rq_id q) of
          Some r \<Rightarrow> (r, b)
        | None \<Rightarrow>
            (case handleLocked w caller q b of
               (r, b1) \<Rightarrow> (r, b1\<lparr>br_requests := put (rq_id q) r (br_requests b1)\<rparr>)))"

section \<open>Recovery\<close>

text \<open>
  \<^verbatim>\<open>Recover\<close>, one journal: preserved, released, quarantined, or an error that ends the
  recovery.
\<close>

datatype recovered = Preserved | Released_child | Quarantined_child | Recovery_failed

definition boot_matches :: "native \<Rightarrow> journal \<Rightarrow> bool" where
  "boot_matches w j \<longleftrightarrow> lj_boot j = [] \<or> na_boot w = [] \<or> lj_boot j = na_boot w"

definition quarantine_because :: "native \<Rightarrow> journal \<Rightarrow> broker \<Rightarrow> broker" where
  "quarantine_because w j b = quarantine w (j\<lparr>lj_recovery_error := na_error w\<rparr>) b"

text \<open>
  A child whose image is gone (\<open>vanished\<close>) and one that was just released end alike, except that
  only the second records why it went to the quarantine.
\<close>

definition recover_finish :: "native \<Rightarrow> bool \<Rightarrow> journal \<Rightarrow> broker \<Rightarrow> recovered \<times> broker" where
  "recover_finish w vanished j b =
     (case cleanupOwnedWorkspace w j b of
        (False, b1) \<Rightarrow> (Quarantined_child, (if vanished then quarantine w j b1 else quarantine_because w j b1))
      | (True, b1) \<Rightarrow>
          (case remove_lease w j b1 of
             (False, b2) \<Rightarrow> (Recovery_failed, b2)
           | (True, b2) \<Rightarrow> (Released_child, b2)))"

definition recover_release :: "native \<Rightarrow> journal \<Rightarrow> broker \<Rightarrow> recovered \<times> broker" where
  "recover_release w j b =
     (if \<not> na_release w then (Quarantined_child, quarantine_because w j b)
      else case recover_finish w False j (child_image (lj_child_path j) None b) of
          (Released_child, b1) \<Rightarrow> (Released_child, b1\<lparr>br_children := remove_entry (lj_id j) (br_children b1)\<rparr>)
        | x \<Rightarrow> x)"

definition recover_one :: "native \<Rightarrow> int \<Rightarrow> journal \<Rightarrow> broker \<Rightarrow> recovered \<times> broker" where
  "recover_one w grace j b =
     (if lj_retained j then (Preserved, b)
      else if boot_matches w j \<and> (na_alive w (lj_client_pid j) \<or> na_alive w (lj_unity_pid j) \<or>
          an_now (na_io w) - grace < lj_updated j) then (Preserved, b)
      else if map_of (vs_children (br_store b)) (lj_child_path j) = None then recover_finish w True j b
      else if retained_parent w (br_store b) (lj_parent_key j) = Some ''parent-unavailable''
      then (Quarantined_child, quarantine w j b)
      else if retained_parent w (br_store b) (lj_parent_key j) \<noteq> None
      then (Quarantined_child, quarantine_because w j b)
      else case map_of (br_children b) (lj_id j) of
          Some cs \<Rightarrow> recover_release w j b
        | None \<Rightarrow>
            (let j1 = j\<lparr>lj_state := ''recovering'', lj_recovery_at := Some (an_now (na_io w)), lj_recovery_error := []\<rparr>
             in case write_lease w j1 b of
                  (False, b1) \<Rightarrow> (Recovery_failed, b1)
                | (True, b1) \<Rightarrow>
                    (case na_attach w of
                       None \<Rightarrow> (Quarantined_child, quarantine_because w j1 b1)
                     | Some cs \<Rightarrow> recover_release w j1 b1)))"

fun recover_all :: "(string \<Rightarrow> native) \<Rightarrow> int \<Rightarrow> journal list \<Rightarrow> broker \<Rightarrow> (string \<times> recovered) list \<times> broker" where
  "recover_all ws grace [] b = ([], b)"
| "recover_all ws grace (j # js) b =
     (case recover_one (ws (lj_id j)) grace j b of
        (Recovery_failed, b1) \<Rightarrow> ([(lj_id j, Recovery_failed)], b1)
      | (x, b1) \<Rightarrow> (case recover_all ws grace js b1 of (xs, b2) \<Rightarrow> ((lj_id j, x) # xs, b2)))"

text \<open>The whole recovery: pending builds, then the journals.\<close>

definition Recover ::
    "native \<Rightarrow> (string \<Rightarrow> bool) \<Rightarrow> (string \<Rightarrow> bool) \<Rightarrow> (string \<Rightarrow> native) \<Rightarrow> int \<Rightarrow> broker \<Rightarrow>
     bool \<times> (string \<times> recovered) list \<times> broker" where
  "Recover w remove_fails rename_fails ws grace0 b =
     (if an_layout_fails (na_io w) then (False, [], b)
      else let grace = (if grace0 \<le> 0 then 30 else grace0); journals = ListLeases (br_store b)
           in case RecoverPending (an_now (na_io w)) grace (na_alive w) remove_fails rename_fails
                (map fst (vs_pending (br_store b))) (br_store b) of
                (False, _, _, s) \<Rightarrow> (False, [], b\<lparr>br_store := s\<rparr>)
              | (True, _, _, s) \<Rightarrow>
                  (case recover_all ws grace journals (b\<lparr>br_store := s\<rparr>) of
                     (xs, b1) \<Rightarrow> (list_all (\<lambda>(i, x). x \<noteq> Recovery_failed) xs, xs, b1)))"

end
