(* ===== verification/VhdxInvariant.thy ===== *)
theory VhdxInvariant
  imports VhdxBroker
begin

text \<open>
  The invariant of the broker's store: parents are stored under their own key, the parent of every
  lease is there and valid, and every child image has its lease. Here are the operations of the store
  that keep it, before the handlers use them.
\<close>

section \<open>The store invariant\<close>

definition parents_wf :: "store \<Rightarrow> bool" where
  "parents_wf s \<longleftrightarrow> distinct (map fst (vs_parents s)) \<and>
     (\<forall>n d m. map_of (vs_parents s) n = Some d \<and> pd_metadata d = Some m \<longrightarrow>
       ck_digest (pm_key m) = n \<and> ck_schema (pm_key m) = ParentSchemaVersion)"

definition leases_backed :: "store \<Rightarrow> bool" where
  "leases_backed s \<longleftrightarrow> (\<forall>i j. ReadLease s i = Some j \<longrightarrow>
     valid_parent s (lj_parent_key j) \<noteq> None \<and> Child (vs_paths s) i = Some (lj_child_path j))"

definition images_leased :: "store \<Rightarrow> bool" where
  "images_leased s \<longleftrightarrow> (\<forall>p. map_of (vs_children s) p \<noteq> None \<longrightarrow>
     (\<exists>i j. ReadLease s i = Some j \<and> lj_child_path j = p))"

lemma images_leasedD:
  "images_leased s \<Longrightarrow> map_of (vs_children s) p \<noteq> None \<Longrightarrow> \<exists>i j. ReadLease s i = Some j \<and> lj_child_path j = p"
  unfolding images_leased_def by blast

definition store_inv :: "store \<Rightarrow> bool" where
  "store_inv s \<longleftrightarrow> parents_wf s \<and> leases_backed s \<and> images_leased s"

definition good_journal :: "store \<Rightarrow> journal \<Rightarrow> bool" where
  "good_journal s j \<longleftrightarrow> valid_parent s (lj_parent_key j) \<noteq> None \<and>
     Child (vs_paths s) (lj_id j) = Some (lj_child_path j)"

lemma doc_file_inject [simp]: "doc_file i = doc_file k \<longleftrightarrow> i = k"
  by (simp add: doc_file_def)

lemma ReadLease_cong: "vs_leases s' = vs_leases s \<Longrightarrow> ReadLease s' = ReadLease s"
  by (simp add: ReadLease_def fun_eq_iff)

lemma valid_parent_cong:
  "map_of (vs_parents s') k = map_of (vs_parents s) k \<Longrightarrow> vs_paths s' = vs_paths s \<Longrightarrow>
     valid_parent s' k = valid_parent s k"
proof -
  assume same: "map_of (vs_parents s') k = map_of (vs_parents s) k" "vs_paths s' = vs_paths s"
  then have "metadata_ok s' k = metadata_ok s k" by (simp add: metadata_ok_def fun_eq_iff)
  then show ?thesis using same by (simp add: valid_parent_def split: option.split)
qed

lemma ReadLease_id: "ReadLease s i = Some j \<Longrightarrow> lj_id j = i"
  by (auto simp: ReadLease_def split: if_splits option.splits)

lemma store_inv_good: "store_inv s \<Longrightarrow> ReadLease s i = Some j \<Longrightarrow> good_journal s j"
  using ReadLease_id by (auto simp: store_inv_def leases_backed_def good_journal_def)

text \<open>Operations on parents, pending builds and records keep the invariant when leased parents stay valid.\<close>

lemma store_inv_parents:
  assumes "store_inv s" "vs_paths s' = vs_paths s" "vs_leases s' = vs_leases s" "vs_children s' = vs_children s"
    "parents_wf s'" "\<And>i j. ReadLease s i = Some j \<Longrightarrow> valid_parent s (lj_parent_key j) \<noteq> None \<Longrightarrow>
       valid_parent s' (lj_parent_key j) \<noteq> None"
  shows "store_inv s'"
  using assms ReadLease_cong [of s' s] by (auto simp: store_inv_def leases_backed_def images_leased_def)

lemma store_inv_same:
  assumes "store_inv s" "vs_paths s' = vs_paths s" "vs_leases s' = vs_leases s" "vs_children s' = vs_children s"
    "vs_parents s' = vs_parents s"
  shows "store_inv s'"
proof (rule store_inv_parents [OF assms(1-4)])
  show "parents_wf s'" using assms by (auto simp: store_inv_def parents_wf_def)
  show "valid_parent s' k \<noteq> None" if "valid_parent s k \<noteq> None" for k
    using that valid_parent_cong [of s' k s] assms by simp
qed

lemma good_journal_cong:
  "vs_paths s' = vs_paths s \<Longrightarrow> vs_parents s' = vs_parents s \<Longrightarrow> good_journal s' j = good_journal s j"
  using valid_parent_cong [of s' "lj_parent_key j" s] by (simp add: good_journal_def)

text \<open>What the operations leave alone.\<close>

lemma WriteLease_frame:
  assumes "WriteLease a j s = (ok, s')"
  shows "vs_paths s' = vs_paths s \<and> vs_parents s' = vs_parents s \<and> vs_children s' = vs_children s \<and>
    vs_pending s' = vs_pending s \<and> vs_retained s' = vs_retained s \<and> vs_quarantine s' = vs_quarantine s"
  using assms by (auto simp: WriteLease_def split: if_splits)

lemma ReadLease_WriteLease:
  assumes "WriteLease a j s = (True, s')"
  shows "ReadLease s' i = (if i = lj_id j then Some (j\<lparr>lj_schema := ProtocolSchemaVersion,
      lj_updated := an_now a, lj_created := (if lj_created j = 0 then an_now a else lj_created j)\<rparr>)
    else ReadLease s i)"
  using assms by (auto simp: WriteLease_def ReadLease_def split: if_splits)

lemma WriteLease_failed: "WriteLease a j s = (False, s') \<Longrightarrow> s' = s"
  by (auto simp: WriteLease_def split: if_splits)

lemma store_inv_WriteLease:
  assumes "store_inv s" "good_journal s j" "WriteLease a j s = (ok, s')"
  shows "store_inv s' \<and> good_journal s' j' = good_journal s j'"
proof (cases ok)
  case False
  then show ?thesis using assms WriteLease_failed by metis
next
  case True
  note frame = WriteLease_frame [OF assms(3)]
  have "WriteLease a j s = (True, s')" using assms(3) True by simp
  note rl = ReadLease_WriteLease [OF this]
  have v: "valid_parent s' k = valid_parent s k" for k using frame by (intro valid_parent_cong) simp_all
  have "leases_backed s'" unfolding leases_backed_def
  proof (intro allI impI)
    fix i k assume "ReadLease s' i = Some k"
    then show "valid_parent s' (lj_parent_key k) \<noteq> None \<and> Child (vs_paths s') i = Some (lj_child_path k)"
      using rl [of i] v frame assms(1,2) by (auto simp: store_inv_def leases_backed_def good_journal_def split: if_splits)
  qed
  moreover have "images_leased s'"
  proof -
    have "\<exists>i k. ReadLease s' i = Some k \<and> lj_child_path k = p" if "map_of (vs_children s') p \<noteq> None" for p
    proof -
      have "map_of (vs_children s) p \<noteq> None" "images_leased s"
        using that frame assms(1) by (simp_all add: store_inv_def)
      then obtain i k where k: "ReadLease s i = Some k" "lj_child_path k = p" using images_leasedD by blast
      show ?thesis
      proof (cases "i = lj_id j")
        case True
        have "Child (vs_paths s) i = Some (lj_child_path k)"
          using assms(1) k(1) by (auto simp: store_inv_def leases_backed_def)
        then have "lj_child_path j = p" using True assms(2) k(2) by (simp add: good_journal_def)
        moreover obtain j1 where "ReadLease s' (lj_id j) = Some j1" "lj_child_path j1 = lj_child_path j"
          using rl by simp
        ultimately show ?thesis by blast
      next
        case False
        then show ?thesis using rl k by metis
      qed
    qed
    then show ?thesis by (simp add: images_leased_def)
  qed
  moreover have "parents_wf s'" using assms(1) frame by (simp add: store_inv_def parents_wf_def)
  ultimately show ?thesis using good_journal_cong [of s' s j'] frame by (simp add: store_inv_def)
qed

lemma RemoveLease_frame:
  assumes "RemoveLease a j s = (ok, s')"
  shows "vs_paths s' = vs_paths s \<and> vs_parents s' = vs_parents s \<and> vs_children s' = vs_children s \<and>
    vs_pending s' = vs_pending s \<and> vs_retained s' = vs_retained s \<and> vs_quarantine s' = vs_quarantine s"
  using assms by (auto simp: RemoveLease_def split: if_splits option.splits)

lemma ReadLease_RemoveLease:
  assumes "RemoveLease a j s = (ok, s')"
  shows "ReadLease s' i = (if ok \<and> i = lj_id j then None else ReadLease s i)"
  using assms by (auto simp: RemoveLease_def ReadLease_def split: if_splits option.splits)

lemma RemoveLease_path:
  "RemoveLease a j s = (True, s') \<Longrightarrow> \<exists>k. ReadLease s (lj_id j) = Some k \<and> lj_child_path k = lj_child_path j"
  by (auto simp: RemoveLease_def split: if_splits option.splits)

lemma store_inv_RemoveLease:
  assumes "store_inv s" "RemoveLease a j s = (ok, s')" "map_of (vs_children s) (lj_child_path j) = None"
  shows "store_inv s' \<and> good_journal s' j' = good_journal s j'"
proof -
  note frame = RemoveLease_frame [OF assms(2)]
  note rl = ReadLease_RemoveLease [OF assms(2)]
  have v: "valid_parent s' k = valid_parent s k" for k using frame by (intro valid_parent_cong) simp_all
  have "leases_backed s'" unfolding leases_backed_def
  proof (intro allI impI)
    fix i k assume "ReadLease s' i = Some k"
    then have "ReadLease s i = Some k" using rl by (simp split: if_splits)
    then show "valid_parent s' (lj_parent_key k) \<noteq> None \<and> Child (vs_paths s') i = Some (lj_child_path k)"
      using v frame assms(1) by (simp add: store_inv_def leases_backed_def)
  qed
  moreover have "images_leased s'"
  proof -
    have "\<exists>i k. ReadLease s' i = Some k \<and> lj_child_path k = p" if p: "map_of (vs_children s') p \<noteq> None" for p
    proof -
      have "map_of (vs_children s) p \<noteq> None" "images_leased s"
        using p frame assms(1) by (simp_all add: store_inv_def)
      then obtain i k where k: "ReadLease s i = Some k" "lj_child_path k = p" using images_leasedD by blast
      have "\<not> (ok \<and> i = lj_id j)"
      proof
        assume "ok \<and> i = lj_id j"
        then have "RemoveLease a j s = (True, s')" "ReadLease s (lj_id j) = Some k" using assms(2) k(1) by simp_all
        then have "lj_child_path k = lj_child_path j" using RemoveLease_path [of a j s s'] by simp
        then show False using p k(2) assms(3) frame by simp
      qed
      then show ?thesis using rl k by metis
    qed
    then show ?thesis by (simp add: images_leased_def)
  qed
  moreover have "parents_wf s'" using assms(1) frame by (simp add: store_inv_def parents_wf_def)
  ultimately show ?thesis using good_journal_cong [of s' s j'] frame by (simp add: store_inv_def)
qed

section \<open>Operations on parents\<close>

definition keeps_valid :: "store \<Rightarrow> store \<Rightarrow> bool" where
  "keeps_valid s s' \<longleftrightarrow> (\<forall>k. valid_parent s k \<noteq> None \<longrightarrow> valid_parent s' k \<noteq> None)"

definition only_parents :: "store \<Rightarrow> store \<Rightarrow> bool" where
  "only_parents s s' \<longleftrightarrow> vs_paths s' = vs_paths s \<and> vs_leases s' = vs_leases s \<and> vs_children s' = vs_children s"

lemma only_parents_refl [simp]: "only_parents s s" "keeps_valid s s"
  by (simp_all add: only_parents_def keeps_valid_def)

lemma store_inv_put:
  assumes "store_inv s" "only_parents s s'" "vs_parents s' = put n d (vs_parents s)"
    "\<And>m. pd_metadata d = Some m \<Longrightarrow> ck_digest (pm_key m) = n \<and> ck_schema (pm_key m) = ParentSchemaVersion"
    "valid_parent s n \<noteq> None \<Longrightarrow> valid_parent s' n \<noteq> None"
  shows "store_inv s' \<and> keeps_valid s s'"
proof -
  have k: "keeps_valid s s'" unfolding keeps_valid_def
  proof (intro allI impI)
    fix k assume "valid_parent s k \<noteq> None"
    then show "valid_parent s' k \<noteq> None"
      using assms(2,3,5) valid_parent_cong [of s' k s] by (cases "k = n") (simp_all add: only_parents_def)
  qed
  have "parents_wf s'" using assms(1,3,4) distinct_put [of "vs_parents s" n d]
    by (auto simp: store_inv_def parents_wf_def split: if_splits)
  then show ?thesis using store_inv_parents [OF assms(1), of s'] assms(2) k
    by (simp add: only_parents_def keeps_valid_def)
qed

lemma valid_parent_put:
  "vs_parents s' = put n d (vs_parents s) \<Longrightarrow> pd_complete d = Some completeContents \<Longrightarrow> pd_metadata d = Some m \<Longrightarrow>
     metadata_ok s' n m \<Longrightarrow> pd_vhdx d \<noteq> None \<Longrightarrow> valid_parent s' n = Some m"
  by (simp add: valid_parent_def)

lemma ResolveParent_valid:
  assumes "ResolveParent s key = Some r" "ro_status r = ParentStatusValid"
  shows "\<exists>m d. ro_metadata r = Some m \<and> map_of (vs_parents s) (ck_digest key) = Some d \<and> pd_metadata d = Some m \<and>
    pd_complete d = Some completeContents \<and> pd_vhdx d \<noteq> None \<and> metadata_ok s (ck_digest key) m \<and>
    valid_parent s (ck_digest key) = Some m"
  using assms by (auto simp: ResolveParent_def Let_def valid_parent_def parent_status_defs
      split: if_splits option.splits)

lemma TouchParent_inv:
  assumes "store_inv s" "TouchParent a m s = (ok, s')"
  shows "store_inv s' \<and> only_parents s s' \<and> keeps_valid s s'"
proof (cases "s' = s")
  case True
  then show ?thesis using assms by simp
next
  case False
  let ?n = "ck_digest (pm_key m)"
  obtain r where r: "ResolveParent s (pm_key m) = Some r" "ro_status r = ParentStatusValid"
    using assms(2) False by (auto simp: TouchParent_def split: option.splits if_splits)
  obtain m' d where m': "ro_metadata r = Some m'" "map_of (vs_parents s) ?n = Some d" "pd_metadata d = Some m'"
    "pd_complete d = Some completeContents" "pd_vhdx d \<noteq> None" "metadata_ok s ?n m'"
    using ResolveParent_valid [OF r] by blast
  let ?d = "d\<lparr>pd_metadata := Some (m'\<lparr>pm_last_used := an_now a\<rparr>)\<rparr>"
  have s': "s' = s\<lparr>vs_parents := put ?n ?d (vs_parents s)\<rparr>"
    using assms(2) False r m' by (auto simp: TouchParent_def split: if_splits)
  have key: "ck_digest (pm_key m') = ?n \<and> ck_schema (pm_key m') = ParentSchemaVersion"
    using assms(1) m'(2,3) by (simp add: store_inv_def parents_wf_def)
  have op: "only_parents s s'" using s' by (simp add: only_parents_def)
  have "valid_parent s' ?n = Some (m'\<lparr>pm_last_used := an_now a\<rparr>)"
    by (rule valid_parent_put [of s' ?n ?d s]) (use s' m' in \<open>auto simp: metadata_ok_def\<close>)
  then show ?thesis using store_inv_put [OF assms(1) op, of ?n ?d] s' op key by simp
qed

text \<open>Pending builds, records and the quarantine are not part of the invariant.\<close>

lemma BeginParent_frame: "BeginParent a u key src mount pid s = (x, s') \<Longrightarrow>
    only_parents s s' \<and> vs_parents s' = vs_parents s"
  by (auto simp: BeginParent_def only_parents_def Let_def split: if_splits option.splits)

lemma AbortParent_frame: "AbortParent_store a p s = (x, s') \<Longrightarrow> only_parents s s' \<and> vs_parents s' = vs_parents s"
  by (auto simp: AbortParent_store_def only_parents_def Let_def split: if_splits option.splits)

lemma WriteRetained_frame: "WriteRetained a j s = (x, s') \<Longrightarrow> only_parents s s' \<and> vs_parents s' = vs_parents s"
  by (auto simp: WriteRetained_def only_parents_def split: if_splits)

lemma RemoveRetained_frame: "RemoveRetained a r s = (x, s') \<Longrightarrow> only_parents s s' \<and> vs_parents s' = vs_parents s"
  by (auto simp: RemoveRetained_def only_parents_def split: if_splits option.splits)

lemma store_inv_only:
  "store_inv s \<Longrightarrow> only_parents s s' \<Longrightarrow> vs_parents s' = vs_parents s \<Longrightarrow> store_inv s'"
  using store_inv_same [of s s'] by (simp add: only_parents_def)

lemma publish_simps [simp]:
  "pd_metadata empty_parent = None" "pm_key (published_metadata a path m) = pm_key m"
  by (simp_all add: empty_parent_def published_metadata_def)

lemma publish_metadata:
  assumes "publish a path m staging = (x, Some d)" "pd_metadata d = Some m'"
  shows "pm_key m' = pm_key m"
proof (cases staging)
  case None
  then have "d = empty_parent" using assms(1) by (simp add: publish_def)
  then show ?thesis using assms(2) by simp
next
  case (Some n)
  show ?thesis
  proof (cases "an_commit_fault a")
    case None
    then have "m' = published_metadata a path m" using assms Some by (simp add: publish_def) (metis option.inject parent_dir.select_convs(2))
    then show ?thesis by simp
  next
    case (Some f)
    then have "pd_metadata d = None" using assms(1) \<open>staging = Some n\<close>
      by (cases f) (auto simp: publish_def split: if_split_asm)
    then show ?thesis using assms(2) by simp
  qed
qed

lemma CommitParent_shape:
  assumes "CommitParent a p m s = (x, s')"
  defines "n \<equiv> ck_digest (pe_key p)"
  obtains (refused) "s' = s"
  | (published) after where "publish a (parent_vhdx (vs_paths s) n) m (staged s n) = (x, after)"
      "s' = s\<lparr>vs_parents := parents_after after n (vs_parents s), vs_pending := pending_after x after n (vs_pending s)\<rparr>"
      "map_of (vs_parents s) n = None" "ck_digest (pm_key m) = n"
proof (cases "s' = s")
  case False
  obtain y after where pub: "publish a (parent_vhdx (vs_paths s) n) m (staged s n) = (y, after)" by fastforce
  have "x = y \<and> s' = s\<lparr>vs_parents := parents_after after n (vs_parents s),
      vs_pending := pending_after x after n (vs_pending s)\<rparr> \<and> map_of (vs_parents s) n = None \<and> ck_digest (pm_key m) = n"
    using assms(1) False pub unfolding CommitParent_def Let_def n_def
    by (clarsimp split: if_split_asm option.split_asm)
  then show ?thesis using published pub by blast
qed (rule refused)

lemma CommitParent_inv:
  assumes "store_inv s" "CommitParent a p m s = (x, s')" "ck_schema (pm_key m) = ParentSchemaVersion"
  shows "store_inv s'"
  using assms(2)
proof (cases rule: CommitParent_shape)
  case refused
  then show ?thesis using assms(1) by simp
next
  case (published after)
  let ?n = "ck_digest (pe_key p)"
  have op: "only_parents s s'" using published(2) by (simp add: only_parents_def)
  show ?thesis
  proof (cases after)
    case None
    then show ?thesis using store_inv_only [OF assms(1) op] published(2) by (simp add: parents_after_def)
  next
    case (Some d)
    have "valid_parent s ?n = None" using published(3) by (simp add: valid_parent_def)
    moreover have "ck_digest (pm_key m') = ?n \<and> ck_schema (pm_key m') = ParentSchemaVersion"
      if "pd_metadata d = Some m'" for m'
      using publish_metadata [OF published(1) [unfolded Some] that] published(4) assms(3) by simp
    ultimately show ?thesis using store_inv_put [OF assms(1) op, of ?n d] published(2) Some
      by (simp add: parents_after_def)
  qed
qed

end
