(* ===== verification/VhdxBrokerProps.thy ===== *)
theory VhdxBrokerProps
  imports VhdxInvariant Machine
begin

text \<open>
  What the broker guarantees: every request and the recovery keep the store invariant, a collection
  removes only parents nothing refers to, one effect per request identifier, and what becomes of a
  retained child that is attached again.
\<close>

section \<open>Collection\<close>

lemma ReadLease_entry: "ReadLease s i = Some j \<Longrightarrow> doc_file i \<in> set (map fst (vs_leases s))"
  by (auto simp: ReadLease_def image_iff dest!: map_of_SomeD split: if_split_asm option.split_asm) force

lemma to_lower_json: "to_lower ''.json'' = ''.json''"
  by code_simp

lemma entry_id_doc [simp]: "entry_id (doc_file i) = Some i"
  using to_lower_json by (simp add: entry_id_def doc_file_def to_lower_def has_suffix_append)

lemma all_some_mem: "all_some xs = Some ys \<Longrightarrow> Some y \<in> set xs \<Longrightarrow> y \<in> set ys"
  by (induction xs arbitrary: ys rule: all_some.induct) auto

lemma all_some_None: "all_some xs = Some ys \<Longrightarrow> None \<notin> set xs"
  by (induction xs arbitrary: ys rule: all_some.induct) auto

lemma leased_protected:
  assumes "ProtectedParentKeys s = Some keys" "ReadLease s i = Some j"
  shows "lj_parent_key j \<in> set keys"
proof -
  obtain l where l: "all_some (map (lease_key s) (map fst (vs_leases s)) @ l) = Some keys"
    using assms(1) by (auto simp: ProtectedParentKeys_def split: option.splits if_splits)
  have mem: "lease_key s (doc_file i) \<in> set (map (lease_key s) (map fst (vs_leases s)))"
    using ReadLease_entry [OF assms(2)] by (simp only: set_map imageI)
  have "lease_key s (doc_file i) \<noteq> None" using all_some_None [OF l] mem by (metis UnI1 set_append)
  then have "lease_key s (doc_file i) = Some (lj_parent_key j)"
    using assms(2) by (simp add: lease_key_def split: if_splits)
  then show ?thesis using all_some_mem [OF l] mem by (metis UnI1 set_append)
qed

lemma protected_keys:
  assumes "ProtectedParentKeys s = Some keys"
  shows "all_some (map (lease_key s) (map fst (vs_leases s)) @
     map (pending_key s) (map fst (vs_pending s)) @ map (retained_key s) (map fst (vs_retained s))) = Some keys"
  using assms by (auto simp: ProtectedParentKeys_def split: option.splits if_splits)

lemma pending_protected:
  assumes "ProtectedParentKeys s = Some keys" "ReadPending s k = Some p"
  shows "k \<in> set keys"
proof -
  have "k \<in> set (map fst (vs_pending s))" "ck_digest (pe_key p) = k"
    using assms(2) by (auto simp: ReadPending_def image_iff dest!: map_of_SomeD split: if_split_asm option.split_asm) force+
  then have "Some k \<in> set (map (pending_key s) (map fst (vs_pending s)))"
    using assms(2) by (force simp: pending_key_def)
  then show ?thesis using all_some_mem [OF protected_keys [OF assms(1)], of k] by simp
qed

lemma ReadRetained_entry: "ReadRetained s n = Some r \<Longrightarrow> doc_file n \<in> set (map fst (vs_retained s))"
  by (auto simp: ReadRetained_def image_iff dest!: map_of_SomeD split: if_split_asm option.split_asm) force

lemma retained_protected:
  assumes "ProtectedParentKeys s = Some keys" "ReadRetained s n = Some r"
  shows "re_parent_key r \<in> set keys"
proof -
  note l = protected_keys [OF assms(1)]
  have mem: "retained_key s (doc_file n) \<in> set (map (retained_key s) (map fst (vs_retained s)))"
    using ReadRetained_entry [OF assms(2)] by (simp only: set_map imageI)
  then have "retained_key s (doc_file n) \<noteq> None" using all_some_None [OF l] by (metis UnI2 set_append)
  then have "retained_key s (doc_file n) = Some (re_parent_key r)"
    using assms(2) by (simp add: retained_key_def split: if_splits)
  then show ?thesis using all_some_mem [OF l] mem by (metis UnI2 set_append)
qed

lemma RemoveParent_frame:
  assumes "RemoveParentIfUnused a key active s = (r, s')"
  shows "only_parents s s' \<and> (s' = s \<or> key \<notin> set active \<and> vs_parents s' = remove_entry key (vs_parents s))"
  using assms by (auto simp: RemoveParentIfUnused_def only_parents_def split: if_split_asm option.split_asm)

lemma parents_wf_remove: "parents_wf s \<Longrightarrow> vs_parents s' = remove_entry n (vs_parents s) \<Longrightarrow> parents_wf s'"
  using distinct_remove_entry [of "vs_parents s" n] by (auto simp: parents_wf_def split: if_splits)

text \<open>Which parents a collection can take away.\<close>

definition collectable :: "int \<Rightarrow> string list \<Rightarrow> parent_metadata list \<Rightarrow> string \<Rightarrow> bool" where
  "collectable horizon active ms k \<longleftrightarrow>
     k \<notin> set active \<and> (\<exists>m \<in> set ms. ck_digest (pm_key m) = k \<and> pm_last_used m \<le> horizon)"

text \<open>From one store to another only parents are gone, and only those that satisfy a condition.\<close>

definition shrunk :: "(string \<Rightarrow> bool) \<Rightarrow> store \<Rightarrow> store \<Rightarrow> bool" where
  "shrunk P s s' \<longleftrightarrow> only_parents s s' \<and> parents_wf s' \<and>
     (\<forall>k. map_of (vs_parents s') k = map_of (vs_parents s) k \<or> map_of (vs_parents s') k = None \<and> P k)"

lemma shrunk_refl: "parents_wf s \<Longrightarrow> shrunk P s s"
  by (simp add: shrunk_def)

lemma shrunk_trans: "shrunk P s s1 \<Longrightarrow> shrunk P s1 s2 \<Longrightarrow> shrunk P s s2"
  unfolding shrunk_def only_parents_def by metis

lemma shrunk_weaken: "shrunk P s s' \<Longrightarrow> (\<And>k. P k \<Longrightarrow> Q k) \<Longrightarrow> shrunk Q s s'"
  unfolding shrunk_def by blast

lemma RemoveParent_shrunk:
  assumes "RemoveParentIfUnused a key active s = (r, s')" "parents_wf s" "P key"
  shows "shrunk P s s'"
proof (cases "s' = s")
  case True
  then show ?thesis using shrunk_refl assms(2) by simp
next
  case False
  then have "only_parents s s'" "vs_parents s' = remove_entry key (vs_parents s)"
    using RemoveParent_frame [OF assms(1)] by simp_all
  then show ?thesis using assms(2,3) parents_wf_remove by (simp add: shrunk_def)
qed

lemma collect_parents_frame:
  assumes "collect_parents a horizon active dry ms projected c s = (r, c', s')" "parents_wf s"
  shows "shrunk (\<lambda>k. \<not> dry \<and> collectable horizon active ms k) s s'"
  using assms
proof (induction ms arbitrary: projected c s)
  case Nil
  then show ?case by (simp add: shrunk_refl)
next
  case (Cons m ms)
  let ?k = "ck_digest (pm_key m)" and ?P = "\<lambda>ms k. \<not> dry \<and> collectable horizon active ms k"
  have weaker: "shrunk (?P ms) t t' \<Longrightarrow> shrunk (?P (m # ms)) t t'" for t t'
    by (erule shrunk_weaken) (auto simp: collectable_def)
  show ?case
  proof (cases "?k \<in> set active \<or> horizon < pm_last_used m")
    case True
    then have "collect_parents a horizon active dry ms projected c s = (r, c', s')" using Cons.prems(1) by simp
    from weaker [OF Cons.IH [OF this Cons.prems(2)]] show ?thesis .
  next
    case False
    then have here: "collectable horizon active (m # ms) ?k" by (auto simp: collectable_def)
    let ?c = "c\<lparr>cp_reclaimable := cp_reclaimable c + pm_allocated m\<rparr>"
    show ?thesis
    proof (cases dry)
      case True
      then have "collect_parents a horizon active dry ms (projected - pm_allocated m) ?c s = (r, c', s')"
        using Cons.prems(1) False by (simp add: Let_def)
      from weaker [OF Cons.IH [OF this Cons.prems(2)]] show ?thesis .
    next
      case nodry: False
      obtain x s1 where rm: "RemoveParentIfUnused a ?k active s = (x, s1)" by fastforce
      have first: "shrunk (?P (m # ms)) s s1"
        using RemoveParent_shrunk [OF rm Cons.prems(2)] here nodry by simp
      show ?thesis
      proof (cases "s' = s1")
        case True
        then show ?thesis using first by simp
      next
        case other: False
        then obtain c2 where "collect_parents a horizon active dry ms (projected - pm_allocated m) c2 s1 = (r, c', s')"
          using Cons.prems(1) False nodry rm by (auto simp: Let_def split: sum.split_asm if_split_asm)
        then have "shrunk (?P ms) s1 s'" using Cons.IH first by (simp add: shrunk_def)
        then show ?thesis using shrunk_trans first weaker by blast
      qed
    qed
  qed
qed

text \<open>A collection that ends without room and without an error has taken everything it could.\<close>

lemma collect_parents_all:
  assumes "collect_parents a horizon active False ms projected c s = (Inr False, c', s')" "parents_wf s"
    "collectable horizon active ms k"
  shows "map_of (vs_parents s') k = None"
  using assms
proof (induction ms arbitrary: projected c s)
  case Nil
  then show ?case by (simp add: collectable_def)
next
  case (Cons m ms)
  let ?k = "ck_digest (pm_key m)"
  show ?case
  proof (cases "?k \<in> set active \<or> horizon < pm_last_used m")
    case True
    then have "collect_parents a horizon active False ms projected c s = (Inr False, c', s')"
      "collectable horizon active ms k" using Cons.prems by (auto simp: collectable_def)
    then show ?thesis using Cons.IH Cons.prems(2) by blast
  next
    case False
    obtain x s1 where rm: "RemoveParentIfUnused a ?k active s = (x, s1)" by fastforce
    have wf: "parents_wf s1"
      using RemoveParent_shrunk [OF rm Cons.prems(2), of "\<lambda>_. True"] by (simp add: shrunk_def)
    obtain n c2 where x: "x = Inr n"
      and rest: "collect_parents a horizon active False ms (projected - pm_allocated m) c2 s1 = (Inr False, c', s')"
      using Cons.prems(1) False rm by (auto simp: Let_def split: sum.split_asm if_split_asm)
    show ?thesis
    proof (cases "collectable horizon active ms k")
      case True
      then show ?thesis using Cons.IH [OF rest wf] by blast
    next
      case other: False
      then have "k = ?k" using Cons.prems(3) by (auto simp: collectable_def)
      then have "map_of (vs_parents s1) k = None"
        using rm x by (auto simp: RemoveParentIfUnused_def split: if_split_asm option.split_asm)
      then show ?thesis using collect_parents_frame [OF rest wf] unfolding shrunk_def by metis
    qed
  qed
qed

lemma collect_parents_dry: "collect_parents a horizon active True ms projected c s = (r, c', s') \<Longrightarrow> s' = s"
  by (induction ms arbitrary: projected c) (auto simp: Let_def split: if_split_asm)

text \<open>With too little free space on the host no collection is ever enough.\<close>

lemma collect_parents_floor:
  assumes "collect_parents a horizon active dry ms projected c s = (r, c', s')"
    "cp_host_free c - cp_reserve c < cp_host_floor c"
  shows "r \<noteq> Inr True"
  using assms
proof (induction ms arbitrary: projected c s)
  case Nil
  then show ?case by auto
next
  case (Cons m ms)
  obtain x s1 where rm: "RemoveParentIfUnused a (ck_digest (pm_key m)) active s = (x, s1)" by fastforce
  show ?case
  proof (cases "ck_digest (pm_key m) \<in> set active \<or> horizon < pm_last_used m")
    case True
    then show ?thesis using Cons by (auto split: if_split_asm)
  next
    case False
    then show ?thesis
      using Cons.prems rm Cons.IH by (cases dry; cases x) (auto simp: Let_def fits_def)
  qed
qed

definition removable :: "native \<Rightarrow> bool \<Rightarrow> broker \<Rightarrow> string \<Rightarrow> bool" where
  "removable w dry b k \<longleftrightarrow> \<not> dry \<and> (case ProtectedParentKeys (br_store b) of None \<Rightarrow> False
     | Some keys \<Rightarrow> collectable (an_now (na_io w) - bc_ttl (br_config b)) (active_keys b @ keys)
         (ListParents (br_store b)) k)"

text \<open>
  The admission: what it collects is nothing a lease or an open child refers to, it changes nothing
  but parents, a dry run changes nothing.
\<close>

lemma ensureCapacity_frame:
  assumes "ensureCapacityWithLimits w n dry quota low b = (r, b')" "parents_wf (br_store b)"
  shows "\<exists>s. b' = b\<lparr>br_store := s\<rparr> \<and> shrunk (removable w dry b) (br_store b) s"
proof (cases "b' = b")
  case True
  then show ?thesis using shrunk_refl [OF assms(2)] by (intro exI [of _ "br_store b"]) simp
next
  case False
  obtain keys proj c x c' s where k: "ProtectedParentKeys (br_store b) = Some keys"
    and coll: "collect_parents (na_io w) (an_now (na_io w) - bc_ttl (br_config b)) (active_keys b @ keys) dry
      (ListParents (br_store b)) proj c (br_store b) = (x, c', s)" and b': "b' = b\<lparr>br_store := s\<rparr>"
    using assms(1) False unfolding ensureCapacityWithLimits_def Let_def
    by (clarsimp split: option.split_asm if_split_asm prod.split_asm sum.split_asm)
  have "shrunk (removable w dry b) (br_store b) s"
    using collect_parents_frame [OF coll assms(2)] by (rule shrunk_weaken) (simp add: removable_def k)
  then show ?thesis using b' by blast
qed

section \<open>What the broker keeps\<close>

definition broker_inv :: "broker \<Rightarrow> bool" where
  "broker_inv b \<longleftrightarrow> store_inv (br_store b) \<and> 0 < bc_ttl (br_config b) \<and>
     (\<forall>t p. map_of (br_building b) t = Some p \<longrightarrow> ck_schema (pe_key p) = ParentSchemaVersion)"

text \<open>One broker after another: same configuration, the invariant kept, and so are the good journals.\<close>

definition evolves :: "broker \<Rightarrow> broker \<Rightarrow> bool" where
  "evolves b b' \<longleftrightarrow> broker_inv b' \<and> br_config b' = br_config b \<and>
     (\<forall>j. good_journal (br_store b) j \<longrightarrow> good_journal (br_store b') j)"

lemma evolves_refl [intro]: "broker_inv b \<Longrightarrow> evolves b b"
  by (simp add: evolves_def)

lemma evolves_trans: "evolves b b1 \<Longrightarrow> evolves b1 b2 \<Longrightarrow> evolves b b2"
  by (simp add: evolves_def)

lemma evolvesD: "evolves b b' \<Longrightarrow> broker_inv b'" "evolves b b' \<Longrightarrow> good_journal (br_store b) j \<Longrightarrow> good_journal (br_store b') j"
  by (simp_all add: evolves_def)

lemma broker_inv_good: "broker_inv b \<Longrightarrow> ReadLease (br_store b) i = Some j \<Longrightarrow> good_journal (br_store b) j"
  using store_inv_good by (simp add: broker_inv_def)

lemma good_journal_update [simp]:
  "good_journal s (j\<lparr>lj_state := st\<rparr>) = good_journal s j"
  "good_journal s (j\<lparr>lj_retained := r\<rparr>) = good_journal s j"
  "good_journal s (j\<lparr>lj_mount := m\<rparr>) = good_journal s j"
  "good_journal s (j\<lparr>lj_client_pid := n\<rparr>) = good_journal s j"
  "good_journal s (j\<lparr>lj_boot := t\<rparr>) = good_journal s j"
  "good_journal s (j\<lparr>lj_unity_pid := n\<rparr>) = good_journal s j"
  "good_journal s (j\<lparr>lj_identity := t\<rparr>) = good_journal s j"
  "good_journal s (j\<lparr>lj_physical := t\<rparr>) = good_journal s j"
  "good_journal s (j\<lparr>lj_volume := t\<rparr>) = good_journal s j"
  "good_journal s (j\<lparr>lj_recovery_at := a\<rparr>) = good_journal s j"
  "good_journal s (j\<lparr>lj_recovery_error := t\<rparr>) = good_journal s j"
  by (simp_all add: good_journal_def)

text \<open>Fields the invariant does not read.\<close>

lemma evolves_fields:
  "broker_inv b \<Longrightarrow> br_store b' = br_store b \<Longrightarrow> br_config b' = br_config b \<Longrightarrow>
     br_building b' = br_building b \<Longrightarrow> evolves b b'"
  by (simp add: evolves_def broker_inv_def)

lemma evolves_store:
  "broker_inv b \<Longrightarrow> store_inv s \<Longrightarrow> (\<And>j. good_journal (br_store b) j \<Longrightarrow> good_journal s j) \<Longrightarrow>
     evolves b (b\<lparr>br_store := s\<rparr>)"
  by (simp add: evolves_def broker_inv_def)

lemma evolves_parents:
  "broker_inv b \<Longrightarrow> store_inv s \<Longrightarrow> only_parents (br_store b) s \<Longrightarrow> keeps_valid (br_store b) s \<Longrightarrow>
     evolves b (b\<lparr>br_store := s\<rparr>)"
  by (rule evolves_store) (auto simp: good_journal_def only_parents_def keeps_valid_def)

lemma evolves_only:
  assumes "broker_inv b" "only_parents (br_store b) s" "vs_parents s = vs_parents (br_store b)"
  shows "evolves b (b\<lparr>br_store := s\<rparr>)"
proof (rule evolves_store [OF assms(1)])
  show "store_inv s" using store_inv_only [OF _ assms(2,3)] assms(1) by (simp add: broker_inv_def)
  show "good_journal s j" if "good_journal (br_store b) j" for j
    using that good_journal_cong [of s "br_store b" j] assms(2,3) by (simp add: only_parents_def)
qed

lemma write_lease_evolves:
  assumes "broker_inv b" "good_journal (br_store b) j" "write_lease w j b = (ok, b')"
  shows "evolves b b'"
proof -
  obtain s where s: "WriteLease (na_io w) j (br_store b) = (ok, s)" "b' = b\<lparr>br_store := s\<rparr>"
    using assms(3) by (auto simp: write_lease_def split: prod.splits)
  show ?thesis unfolding s(2)
    using store_inv_WriteLease [OF _ assms(2) s(1)] assms(1)
    by (intro evolves_store) (simp_all add: broker_inv_def)
qed

lemma snd_write_lease_evolves:
  "broker_inv b \<Longrightarrow> good_journal (br_store b) j \<Longrightarrow> evolves b (snd (write_lease w j b))"
  using write_lease_evolves by (metis prod.collapse)

lemma remove_lease_evolves:
  assumes "broker_inv b" "map_of (vs_children (br_store b)) (lj_child_path j) = None" "remove_lease w j b = (ok, b')"
  shows "evolves b b'"
proof -
  obtain s where s: "RemoveLease (na_io w) j (br_store b) = (ok, s)" "b' = b\<lparr>br_store := s\<rparr>"
    using assms(3) by (auto simp: remove_lease_def split: prod.splits)
  show ?thesis unfolding s(2)
    using store_inv_RemoveLease [OF _ s(1) assms(2)] assms(1)
    by (intro evolves_store) (simp_all add: broker_inv_def)
qed

lemma snd_remove_lease_evolves:
  "broker_inv b \<Longrightarrow> map_of (vs_children (br_store b)) (lj_child_path j) = None \<Longrightarrow> evolves b (snd (remove_lease w j b))"
  using remove_lease_evolves by (metis prod.collapse)

text \<open>An image may appear at the path of a lease, and disappear anywhere.\<close>

definition leased :: "store \<Rightarrow> journal \<Rightarrow> bool" where
  "leased s j \<longleftrightarrow> (\<exists>k. ReadLease s (lj_id j) = Some k \<and> lj_child_path k = lj_child_path j)"

lemma child_image_evolves:
  assumes "broker_inv b" "img = None \<or> leased (br_store b) j"
  shows "evolves b (child_image (lj_child_path j) img b)"
  unfolding child_image_def
proof (rule evolves_store [OF assms(1)])
  let ?s = "(br_store b)\<lparr>vs_children := (case img of None \<Rightarrow> remove_entry (lj_child_path j) (vs_children (br_store b))
      | Some n \<Rightarrow> put (lj_child_path j) n (vs_children (br_store b)))\<rparr>"
  have rl: "ReadLease ?s = ReadLease (br_store b)" by (rule ReadLease_cong) simp
  have vp: "valid_parent ?s k = valid_parent (br_store b) k" for k by (rule valid_parent_cong) simp_all
  have "images_leased ?s" unfolding images_leased_def rl
  proof (intro allI impI)
    fix p assume p: "map_of (vs_children ?s) p \<noteq> None"
    show "\<exists>i k. ReadLease (br_store b) i = Some k \<and> lj_child_path k = p"
    proof (cases "map_of (vs_children (br_store b)) p")
      case None
      then have "p = lj_child_path j" "img \<noteq> None" using p by (auto split: option.splits if_splits)
      then show ?thesis using assms(2) by (auto simp: leased_def)
    next
      case Some
      then show ?thesis using assms(1) images_leasedD by (simp add: broker_inv_def store_inv_def)
    qed
  qed
  then show "store_inv ?s" using assms(1)
    by (simp add: broker_inv_def store_inv_def leases_backed_def parents_wf_def rl vp)
  show "good_journal ?s k" if "good_journal (br_store b) k" for k
    using that good_journal_cong [of ?s "br_store b" k] by simp
qed

lemma child_image_none [simp]:
  "map_of (vs_children (br_store (child_image p None b))) p = None"
  by (simp add: child_image_def)

lemma cleanup_frame:
  "cleanupOwnedWorkspace w j b = (ok, b') \<Longrightarrow>
     br_store b' = br_store b \<and> br_config b' = br_config b \<and> br_building b' = br_building b \<and> br_children b' = br_children b"
  by (auto simp: cleanupOwnedWorkspace_def split: if_split_asm option.split_asm)

lemma cleanup_evolves: "broker_inv b \<Longrightarrow> cleanupOwnedWorkspace w j b = (ok, b') \<Longrightarrow> evolves b b'"
  using cleanup_frame by (intro evolves_fields) auto

lemma snd_cleanup_evolves: "broker_inv b \<Longrightarrow> evolves b (snd (cleanupOwnedWorkspace w j b))"
  using cleanup_evolves by (metis prod.collapse)

lemma owner_frame:
  "br_store (removeWorkspaceOwner w j b) = br_store b \<and> br_config (removeWorkspaceOwner w j b) = br_config b \<and>
     br_building (removeWorkspaceOwner w j b) = br_building b"
  by (simp add: removeWorkspaceOwner_def split: option.split)

lemma writeOwner_frame:
  "writeWorkspaceOwner w j b = (ok, b') \<Longrightarrow>
     br_store b' = br_store b \<and> br_config b' = br_config b \<and> br_building b' = br_building b"
  by (auto simp: writeWorkspaceOwner_def split: if_split_asm option.split_asm prod.split_asm)

lemma quarantine_evolves: "broker_inv b \<Longrightarrow> good_journal (br_store b) j \<Longrightarrow> evolves b (quarantine w j b)"
  unfolding quarantine_def by (intro snd_write_lease_evolves) simp_all

text \<open>A collection spares the parent of every lease, and a parent used just now.\<close>

lemma removable_not_leased:
  assumes "removable w dry b k" "ReadLease (br_store b) i = Some j"
  shows "lj_parent_key j \<noteq> k"
  using assms(1) leased_protected [OF _ assms(2)] by (auto simp: removable_def collectable_def split: option.split_asm)

lemma shrunk_valid:
  assumes "shrunk P s s'" "valid_parent s k \<noteq> None" "\<not> P k"
  shows "valid_parent s' k \<noteq> None"
proof -
  have "map_of (vs_parents s') k = map_of (vs_parents s) k" "vs_paths s' = vs_paths s"
    using assms by (auto simp: shrunk_def only_parents_def)
  then show ?thesis using valid_parent_cong [of s' k s] assms(2) by simp
qed

lemma ensureCapacity_inv:
  assumes "broker_inv b" "ensureCapacityWithLimits w n dry quota low b = (r, b')"
  shows "broker_inv b' \<and> br_config b' = br_config b \<and> br_children b' = br_children b \<and>
    (\<forall>k. valid_parent (br_store b) k \<noteq> None \<longrightarrow> \<not> removable w dry b k \<longrightarrow> valid_parent (br_store b') k \<noteq> None)"
proof -
  have "parents_wf (br_store b)" using assms(1) by (simp add: broker_inv_def store_inv_def)
  from ensureCapacity_frame [OF assms(2) this] obtain s where
    s: "b' = b\<lparr>br_store := s\<rparr>" "shrunk (removable w dry b) (br_store b) s" by blast
  have "store_inv s"
  proof (rule store_inv_parents)
    show "store_inv (br_store b)" using assms(1) by (simp add: broker_inv_def)
    show "vs_paths s = vs_paths (br_store b)" "vs_leases s = vs_leases (br_store b)"
      "vs_children s = vs_children (br_store b)" "parents_wf s"
      using s(2) by (simp_all add: shrunk_def only_parents_def)
    show "valid_parent s (lj_parent_key j) \<noteq> None"
      if "ReadLease (br_store b) i = Some j" "valid_parent (br_store b) (lj_parent_key j) \<noteq> None" for i j
      using shrunk_valid [OF s(2) that(2)] removable_not_leased [OF _ that(1)] by blast
  qed
  then show ?thesis using s(1) assms(1) shrunk_valid [OF s(2)] by (simp add: broker_inv_def)
qed

text \<open>Each handler.\<close>

lemma transitions_evolves:
  assumes "transitions w ts j b = (j', b')" "broker_inv b" "good_journal (br_store b) j" "leased (br_store b) j"
  shows "evolves b b' \<and> good_journal (br_store b') j' \<and> leased (br_store b') j' \<and>
    lj_id j' = lj_id j \<and> lj_child_path j' = lj_child_path j"
  using assms
proof (induction ts arbitrary: j b)
  case Nil
  then show ?case by auto
next
  case (Cons t ts)
  obtain st ph vol where t: "t = (st, ph, vol)" by (cases t)
  let ?j = "j\<lparr>lj_state := st, lj_physical := (if ph = [] then lj_physical j else ph),
    lj_volume := (if vol = [] then lj_volume j else vol)\<rparr>"
  obtain ok b1 where w1: "write_lease w ?j b = (ok, b1)" by fastforce
  have good: "good_journal (br_store b) ?j" using Cons.prems(3) by simp
  have ev: "evolves b b1" using write_lease_evolves [OF Cons.prems(2) good w1] .
  have "leased (br_store b1) ?j"
  proof (cases ok)
    case True
    then obtain s where "WriteLease (na_io w) ?j (br_store b) = (True, s)" "br_store b1 = s"
      using w1 by (auto simp: write_lease_def split: prod.splits)
    then show ?thesis using ReadLease_WriteLease [of "na_io w" ?j "br_store b" s] by (simp add: leased_def)
  next
    case False
    then have "br_store b1 = br_store b"
      using w1 WriteLease_failed by (auto simp: write_lease_def split: prod.splits)
    then show ?thesis using Cons.prems(4) by (simp add: leased_def)
  qed
  then have "evolves b1 b' \<and> good_journal (br_store b') j' \<and> leased (br_store b') j' \<and>
      lj_id j' = lj_id ?j \<and> lj_child_path j' = lj_child_path ?j"
    using Cons.IH [of ?j b1] Cons.prems(1) w1 t ev good evolvesD by (simp add: Let_def)
  then show ?case using ev evolves_trans by auto
qed

lemma ListParents_mem:
  assumes "m \<in> set (ListParents s)" "parents_wf s"
  shows "\<exists>d. map_of (vs_parents s) (ck_digest (pm_key m)) = Some d \<and> pd_metadata d = Some m"
proof -
  obtain e where e: "e \<in> set (vs_parents s)" "m \<in> set (case e of (name, d) \<Rightarrow>
      if valid_digest name then (case pd_metadata d of None \<Rightarrow> [] | Some m \<Rightarrow> [m]) else [])"
    using assms(1) unfolding ListParents_def set_sort set_concat set_map by blast
  obtain n d where nd: "e = (n, d)" by (cases e)
  have d: "pd_metadata d = Some m" using e(2) nd by (cases "pd_metadata d"; cases "valid_digest n") simp_all
  have at: "map_of (vs_parents s) n = Some d" using nd e(1) assms(2) by (simp add: parents_wf_def)
  have "ck_digest (pm_key m) = n" using at d assms(2) by (simp add: parents_wf_def)
  then show ?thesis using at d by simp
qed

lemma fresh_not_removable:
  assumes "parents_wf (br_store b)" "map_of (vs_parents (br_store b)) k = Some d" "pd_metadata d = Some m"
    "pm_last_used m = an_now (na_io w)" "0 < bc_ttl (br_config b)"
  shows "\<not> removable w dry b k"
proof
  assume "removable w dry b k"
  then obtain m' where m': "m' \<in> set (ListParents (br_store b))" "ck_digest (pm_key m') = k"
    "pm_last_used m' \<le> an_now (na_io w) - bc_ttl (br_config b)"
    by (auto simp: removable_def collectable_def split: option.split_asm)
  then have "m' = m" using ListParents_mem [OF m'(1) assms(1)] assms(2,3) by simp
  then show False using m'(3) assms(4,5) by simp
qed

lemma ResolveParent_cong:
  assumes "ck_schema key' = ck_schema key" "ck_digest key' = ck_digest key"
  shows "ResolveParent s key' = ResolveParent s key"
  unfolding ResolveParent_def assms ..

lemma Touch_resolved:
  assumes "store_inv s" "ResolveParent s key = Some r" "ro_status r = ParentStatusValid" "ro_metadata r = Some m"
    "\<not> an_touch_fails a" "TouchParent a m s = (ok, s')"
  shows "ok \<and> valid_parent s' (ck_digest key) \<noteq> None \<and>
    (\<exists>d m'. map_of (vs_parents s') (ck_digest key) = Some d \<and> pd_metadata d = Some m' \<and> pm_last_used m' = an_now a)"
proof -
  obtain d where d: "map_of (vs_parents s) (ck_digest key) = Some d" "pd_metadata d = Some m"
      "metadata_ok s (ck_digest key) m" "valid_parent s (ck_digest key) = Some m"
    using ResolveParent_valid [OF assms(2,3)] assms(4) by auto
  have k: "ck_digest (pm_key m) = ck_digest key" "ck_schema (pm_key m) = ParentSchemaVersion"
    using assms(1) d by (auto simp: store_inv_def parents_wf_def)
  have "ck_schema key = ParentSchemaVersion" using assms(2) by (simp add: ResolveParent_def split: if_splits)
  then have "ResolveParent s (pm_key m) = Some r"
    using assms(2) k ResolveParent_cong [of "pm_key m" key s] by simp
  then have "ok \<and> s' = s\<lparr>vs_parents := put (ck_digest key) (d\<lparr>pd_metadata := Some (m\<lparr>pm_last_used := an_now a\<rparr>)\<rparr>) (vs_parents s)\<rparr>"
    using assms(3-6) d k by (auto simp: TouchParent_def)
  then show ?thesis using d TouchParent_inv [OF assms(1,6)] by (auto simp: keeps_valid_def)
qed

lemma acquire_failed_inv:
  assumes "broker_inv b" "good_journal (br_store b) j"
  shows "broker_inv (snd (acquire_failed w q j b))"
proof (cases "map_of (vs_children (br_store b)) (lj_child_path j) = None")
  case True
  let ?b = "removeWorkspaceOwner w j b"
  have "evolves b ?b" by (rule evolves_fields [OF assms(1)]) (use owner_frame [of w j b] in auto)
  then have "broker_inv ?b" using evolvesD by blast
  then have "broker_inv (snd (remove_lease w j ?b))"
    using True owner_frame [of w j b] by (intro evolvesD(1) [OF snd_remove_lease_evolves]) simp_all
  then show ?thesis using True by (simp add: acquire_failed_def)
next
  case False
  then show ?thesis using evolvesD(1) [OF snd_write_lease_evolves [OF assms(1), of "j\<lparr>lj_state := ''quarantined''\<rparr>" w]] assms(2)
    by (auto simp: acquire_failed_def)
qed

lemma acquire_ready_inv:
  assumes "broker_inv b" "good_journal (br_store b) j"
  shows "broker_inv (snd (acquire_ready w q j m cs b))"
proof -
  let ?j = "j\<lparr>lj_state := ''ready'', lj_identity := cs_identity cs, lj_physical := li_physical (cs_info cs),
      lj_volume := li_volume (cs_info cs)\<rparr>"
  obtain ok b1 where w1: "write_lease w ?j b = (ok, b1)" by fastforce
  have inv1: "broker_inv b1" using write_lease_evolves [OF assms(1) _ w1] assms(2) evolvesD(1) by simp
  show ?thesis
  proof (cases ok)
    case True
    let ?b = "b1\<lparr>br_children := put (lj_id j) cs (br_children b1)\<rparr>"
    have "broker_inv ?b" using evolvesD(1) [OF evolves_fields [OF inv1, of ?b]] by simp
    moreover obtain c b2 where "ensureCapacityWithLimits w 0 False 0 0 ?b = (c, b2)" by fastforce
    ultimately show ?thesis using ensureCapacity_inv [of ?b w 0 False 0 0 c b2] w1 True
      by (simp add: acquire_ready_def Let_def)
  next
    case False
    let ?b = "if na_release w then child_image (lj_child_path j) None b1 else b1"
    have "broker_inv ?b" using child_image_evolves [OF inv1, of None j] evolvesD(1) inv1 by simp
    then have "broker_inv (snd (cleanupOwnedWorkspace w ?j ?b))" using snd_cleanup_evolves evolvesD(1) by blast
    then show ?thesis using w1 False by (auto simp: acquire_ready_def Let_def split: if_split_asm)
  qed
qed

lemma write_lease_children: "write_lease w j b = (ok, b') \<Longrightarrow>
    vs_children (br_store b') = vs_children (br_store b) \<and> br_children b' = br_children b"
  using WriteLease_frame by (auto simp: write_lease_def split: prod.splits)

lemma remove_lease_children: "remove_lease w j b = (ok, b') \<Longrightarrow>
    vs_children (br_store b') = vs_children (br_store b) \<and> br_children b' = br_children b"
  using RemoveLease_frame by (auto simp: remove_lease_def split: prod.splits)

lemma leased_written:
  assumes "write_lease w j b = (True, b')"
  shows "leased (br_store b') j"
proof -
  obtain s where "WriteLease (na_io w) j (br_store b) = (True, s)" "br_store b' = s"
    using assms by (auto simp: write_lease_def split: prod.splits)
  then show ?thesis using ReadLease_WriteLease [of "na_io w" j "br_store b" s] by (simp add: leased_def)
qed

lemma acquire_native_inv:
  assumes "broker_inv b" "good_journal (br_store b) j" "leased (br_store b) j"
  shows "broker_inv (snd (acquire_native w q j m b))"
proof -
  obtain j1 b1 where t: "transitions w (na_transitions w) j b = (j1, b1)" by fastforce
  note tr = transitions_evolves [OF t assms]
  let ?b = "child_image (lj_child_path j) (na_child_file w) b1"
  have "broker_inv b1" using tr evolvesD(1) by blast
  then have "evolves b1 ?b" using child_image_evolves [of b1 "na_child_file w" j1] tr by simp
  then have "broker_inv ?b" "good_journal (br_store ?b) j1" using tr evolvesD by blast+
  then show ?thesis using t acquire_failed_inv acquire_ready_inv
    by (simp add: acquire_native_def Let_def split: option.split)
qed

lemma new_journal_good:
  assumes "valid_parent (br_store b) (ck_digest key) \<noteq> None" "valid_identifier i"
  shows "good_journal (br_store b) (new_journal w q b i m key workspace mount)"
  using assms by (simp add: good_journal_def new_journal_def Child_def)

lemma write_lease_valid: "write_lease w j b = (True, b') \<Longrightarrow> valid_identifier (lj_id j)"
  by (auto simp: write_lease_def WriteLease_def split: prod.splits if_splits)

lemma write_lease_refused: "write_lease w j b = (False, b') \<Longrightarrow> b' = b"
  using WriteLease_failed by (fastforce simp: write_lease_def split: prod.splits)

text \<open>The random identifier of a new lease is not the name of an image that is there.\<close>

definition fresh_lease :: "native \<Rightarrow> broker \<Rightarrow> bool" where
  "fresh_lease w b \<longleftrightarrow> (case na_lease_id w of None \<Rightarrow> True
     | Some i \<Rightarrow> (case Child (vs_paths (br_store b)) i of None \<Rightarrow> True
         | Some p \<Rightarrow> map_of (vs_children (br_store b)) p = None))"

lemma fresh_lease_cong:
  assumes "vs_paths (br_store b1) = vs_paths (br_store b)" "vs_children (br_store b1) = vs_children (br_store b)"
    "fresh_lease w b"
  shows "fresh_lease w b1"
  using assms(3) unfolding fresh_lease_def assms(1,2) .

lemma acquire_admitted_inv:
  assumes "broker_inv b" "valid_parent (br_store b) (ck_digest key) \<noteq> None" "fresh_lease w b"
  shows "broker_inv (snd (acquire_admitted w q key m b))"
proof -
  have "broker_inv (snd (let j = new_journal w q b i m key workspace mount
     in case write_lease w j b of
          (False, b1) \<Rightarrow> (fail q ''journal-write-failed'', b1)
        | (True, b1) \<Rightarrow>
            (case writeWorkspaceOwner w j b1 of
               (False, b2) \<Rightarrow> (fail q ''workspace-owner-write-failed'', snd (remove_lease w j b2))
             | (True, b2) \<Rightarrow> acquire_native w q j m b2)))" (is "broker_inv (snd ?x)")
    if i: "na_lease_id w = Some i" for i workspace mount
  proof -
    let ?j = "new_journal w q b i m key workspace mount"
    obtain ok b1 where w1: "write_lease w ?j b = (ok, b1)" by fastforce
    show ?thesis
    proof (cases ok)
      case False
      then show ?thesis using w1 write_lease_refused assms(1) by auto
    next
      case True
      then have id: "valid_identifier i" using write_lease_valid [of w ?j b b1] w1 by (simp add: new_journal_def)
      note good = new_journal_good [OF assms(2) id, of w q m workspace mount]
      have ev: "evolves b b1" using write_lease_evolves [OF assms(1) good w1] .
      have ls: "leased (br_store b1) ?j" using leased_written w1 True by simp
      obtain ok2 b2 where w2: "writeWorkspaceOwner w ?j b1 = (ok2, b2)" by fastforce
      note f2 = writeOwner_frame [OF w2]
      have inv2: "broker_inv b2" using evolvesD(1) [OF evolves_fields [of b1 b2]] ev evolvesD(1) f2 by simp
      have g2: "good_journal (br_store b2) ?j" using evolvesD(2) [OF ev good] f2 by simp
      have "map_of (vs_children (br_store b1)) (lj_child_path ?j) = None"
        using write_lease_children [OF w1] assms(3) i id
        by (simp add: fresh_lease_def new_journal_def Child_def)
      then have "broker_inv (snd (remove_lease w ?j b2))"
        using f2 by (intro evolvesD(1) [OF snd_remove_lease_evolves [OF inv2]]) simp
      moreover have "broker_inv (snd (acquire_native w q ?j m b2))"
        using acquire_native_inv [OF inv2 g2] ls f2 by simp
      ultimately show ?thesis using w1 w2 True by (cases ok2) (simp_all add: Let_def)
    qed
  qed
  then show ?thesis using assms(1) by (simp add: acquire_admitted_def split: option.split prod.split)
qed

lemma acquire_inv:
  assumes "broker_inv b" "fresh_lease w b" "\<not> an_touch_fails (na_io w)"
  shows "broker_inv (snd (acquire w q b))"
proof -
  have "broker_inv (snd (case ensureCapacityWithLimits w 1 False (rq_quota q) (rq_floor q)
        (b\<lparr>br_store := snd (TouchParent (na_io w) m (br_store b))\<rparr>) of
        (Inl e, b1) \<Rightarrow> (fail q ''storage-capacity-unavailable'', b1)
      | (Inr c, b1) \<Rightarrow> acquire_admitted w q key m b1))"
    if r: "ResolveParent (br_store b) key = Some r" "ro_status r = ParentStatusValid" "ro_metadata r = Some m" for key r m
  proof -
    obtain ok s where t: "TouchParent (na_io w) m (br_store b) = (ok, s)" by fastforce
    let ?b = "b\<lparr>br_store := s\<rparr>"
    have si: "store_inv (br_store b)" using assms(1) by (simp add: broker_inv_def)
    note touched = Touch_resolved [OF si r assms(3) t] and frame = TouchParent_inv [OF si t]
    have inv: "broker_inv ?b" using evolvesD(1) [OF evolves_parents [OF assms(1)]] frame by simp
    obtain x b1 where e: "ensureCapacityWithLimits w 1 False (rq_quota q) (rq_floor q) ?b = (x, b1)" by fastforce
    note cap = ensureCapacity_inv [OF inv e]
    have wf: "parents_wf (br_store ?b)" "0 < bc_ttl (br_config ?b)" using inv by (simp_all add: broker_inv_def store_inv_def)
    obtain d m' where dm: "map_of (vs_parents (br_store ?b)) (ck_digest key) = Some d" "pd_metadata d = Some m'"
      "pm_last_used m' = an_now (na_io w)" using touched by auto
    have nr: "\<not> removable w False ?b (ck_digest key)" using fresh_not_removable [OF wf(1) dm wf(2)] .
    have v: "valid_parent (br_store b1) (ck_digest key) \<noteq> None" using cap touched nr by simp
    have "parents_wf (br_store ?b)" using inv by (simp add: broker_inv_def store_inv_def)
    then obtain s1 where "b1 = ?b\<lparr>br_store := s1\<rparr>" "only_parents s s1"
      using ensureCapacity_frame [OF e] by (auto simp: shrunk_def)
    then have "fresh_lease w b1"
      using assms(2) frame by (intro fresh_lease_cong [of b1 b w]) (simp_all add: only_parents_def)
    then show ?thesis using t e cap acquire_admitted_inv [of b1 key w q m] v by (simp split: sum.split)
  qed
  then show ?thesis using assms(1) by (simp add: acquire_def split: option.split)
qed

lemma heartbeat_inv:
  assumes "broker_inv b"
  shows "broker_inv (snd (heartbeat w q b))"
proof (cases "ReadLease (br_store b) (rq_lease q)")
  case None
  then show ?thesis using assms by (simp add: heartbeat_def)
next
  case (Some j)
  let ?j = "j\<lparr>lj_client_pid := rq_client_pid q, lj_boot := (if lj_boot j = [] then na_boot w else lj_boot j),
      lj_unity_pid := (if rq_unity_pid q \<noteq> 0 then rq_unity_pid q else lj_unity_pid j)\<rparr>"
  obtain ok b1 where w1: "write_lease w ?j b = (ok, b1)" by fastforce
  have "good_journal (br_store b) ?j" using broker_inv_good [OF assms Some] by simp
  then have "broker_inv b1" using write_lease_evolves [OF assms _ w1] evolvesD(1) by blast
  moreover have "snd (heartbeat w q b) = b \<or> snd (heartbeat w q b) = b1"
    unfolding heartbeat_def Some option.case w1 prod.case by (cases ok) (simp_all split: option.split)
  ultimately show ?thesis using assms by auto
qed

text \<open>What ends a lease whose image is gone: its workspace, then its journal.\<close>

lemma release_recorded_inv:
  assumes "broker_inv b" "good_journal (br_store b) j"
    "rq_retain q \<or> map_of (vs_children (br_store b)) (lj_child_path j) = None"
  shows "broker_inv (snd (release_recorded w q j b))"
proof (cases "rq_retain q")
  case True
  obtain ok b1 where w1: "write_lease w j b = (ok, b1)" by fastforce
  have inv1: "broker_inv b1" using write_lease_evolves [OF assms(1,2) w1] evolvesD(1) by simp
  obtain ok2 s where r: "WriteRetained (na_io w) j (br_store b1) = (ok2, s)" by fastforce
  have "broker_inv (b1\<lparr>br_store := s\<rparr>)"
    using evolvesD(1) [OF evolves_only [OF inv1]] WriteRetained_frame [OF r] by simp
  then show ?thesis using True w1 r inv1 by (cases ok; cases ok2) (simp_all add: release_recorded_def)
next
  case False
  obtain ok b1 where c: "cleanupOwnedWorkspace w j b = (ok, b1)" by fastforce
  note ev = cleanup_evolves [OF assms(1) c] and f = cleanup_frame [OF c]
  have inv1: "broker_inv b1" using ev evolvesD(1) by blast
  obtain ok2 b2 where r: "remove_lease w j b1 = (ok2, b2)" by fastforce
  have "broker_inv b2" using remove_lease_evolves [OF inv1 _ r] assms(3) False f evolvesD(1) by simp
  moreover have "broker_inv (quarantine w j b1)"
    by (rule evolvesD(1) [OF quarantine_evolves [OF inv1 evolvesD(2) [OF ev assms(2)]]])
  ultimately show ?thesis using False c r by (cases ok; cases ok2) (simp_all add: release_recorded_def)
qed

lemma release_inv:
  assumes "broker_inv b"
  shows "broker_inv (snd (release w q b))"
proof (cases "map_of (br_children b) (rq_lease q)")
  case None
  then show ?thesis using assms by (simp add: release_def)
next
  case cs: (Some cs)
  show ?thesis
  proof (cases "ReadLease (br_store b) (rq_lease q)")
    case None
    then show ?thesis using assms cs by (simp add: release_def)
  next
    case j0: (Some j0)
    let ?j = "j0\<lparr>lj_state := ''releasing'', lj_retained := rq_retain q\<rparr>"
    let ?q = "?j\<lparr>lj_state := ''released''\<rparr>"
    obtain ok b1 where w1: "write_lease w ?j b = (ok, b1)" by fastforce
    have g: "good_journal (br_store b) ?j" using broker_inv_good [OF assms j0] by simp
    have inv1: "broker_inv b1" and g1: "good_journal (br_store b1) ?j"
      using evolvesD [OF write_lease_evolves [OF assms g w1]] g by blast+
    define b2 where "b2 = (if rq_retain q then b1 else child_image (lj_child_path j0) None b1)"
    have "evolves b1 b2" using child_image_evolves [OF inv1, of None j0] inv1 by (auto simp: b2_def)
    then have inv2: "broker_inv b2" and g2: "good_journal (br_store b2) ?j" using evolvesD g1 by blast+
    obtain x b3 where r: "release_recorded w q ?q b2 = (x, b3)" by fastforce
    have "broker_inv (snd (release_recorded w q ?q b2))"
      using g2 by (intro release_recorded_inv [OF inv2]) (simp_all add: b2_def)
    then have inv3: "broker_inv b3" using r by simp
    let ?b3 = "b3\<lparr>br_children := remove_entry (rq_lease q) (br_children b3)\<rparr>"
    have inv3': "broker_inv ?b3" using evolvesD(1) [OF evolves_fields [OF inv3, of ?b3]] by simp
    obtain c b4 where e: "ensureCapacityWithLimits w 0 False 0 0 ?b3 = (c, b4)" by fastforce
    have inv4: "broker_inv b4" using ensureCapacity_inv [OF inv3' e] by simp
    have q: "broker_inv (quarantine w ?j b1)" using quarantine_evolves [OF inv1 g1] evolvesD(1) by blast
    have "snd (release w q b) \<in> {b1, quarantine w ?j b1, b3, b4}"
      unfolding release_def cs j0 prod.case option.case Let_def w1
      using r e by (cases ok; cases "na_release w"; cases x; cases "rq_retain q") (simp_all add: b2_def)
    then show ?thesis using inv1 inv3 inv4 q by auto
  qed
qed

lemma retained_pair_lease: "retained_pair s runID = Inr (r, j) \<Longrightarrow> ReadLease s (re_lease r) = Some j"
  by (auto simp: retained_pair_def split: option.split_asm if_split_asm)

lemma attachRetained_inv:
  assumes "broker_inv b"
  shows "broker_inv (snd (attachRetained w q b))"
proof (cases "retained_pair (br_store b) (rq_run q)")
  case (Inl code)
  then show ?thesis using assms by (simp add: attachRetained_def)
next
  case (Inr p)
  obtain r j where p: "retained_pair (br_store b) (rq_run q) = Inr (r, j)" using Inr by (cases p) simp
  show ?thesis
  proof (cases "workspaceMount (br_config b) (rq_workspace_id q)")
    case None
    then show ?thesis using assms p by (simp add: attachRetained_def split: option.split)
  next
    case (Some wm)
    obtain workspace mount where wm: "wm = (workspace, mount)" by (cases wm)
    let ?j = "j\<lparr>lj_mount := mount, lj_state := ''ready''\<rparr>"
    obtain ok b1 where w1: "write_lease w ?j b = (ok, b1)" by fastforce
    have "good_journal (br_store b) ?j" using broker_inv_good [OF assms retained_pair_lease [OF p]] by simp
    then have inv1: "broker_inv b1" using evolvesD(1) write_lease_evolves [OF assms _ w1] by blast
    have inv2: "broker_inv (b1\<lparr>br_children := cs\<rparr>)" for cs
      using evolvesD(1) [OF evolves_fields [OF inv1, of "b1\<lparr>br_children := cs\<rparr>"]] by simp
    have "snd (attachRetained w q b) = b \<or> snd (attachRetained w q b) = b1 \<or>
        (\<exists>cs. snd (attachRetained w q b) = b1\<lparr>br_children := cs\<rparr>)"
      unfolding attachRetained_def p Some wm prod.case sum.case option.case w1
      by (cases "map_of (br_children b) (re_lease r)"; cases "retained_parent w (br_store b) (re_parent_key r)";
          cases "validateWorkspaceMount w b (rq_workspace_id q) mount"; cases "na_attach w"; cases ok) auto
    then show ?thesis using assms inv1 inv2 by auto
  qed
qed

lemma removeRetained_inv:
  assumes "broker_inv b"
  shows "broker_inv (snd (removeRetained w q b))"
proof (cases "retained_pair (br_store b) (rq_run q)")
  case (Inl code)
  then show ?thesis using assms by (simp add: removeRetained_def)
next
  case (Inr p)
  obtain r j where p: "retained_pair (br_store b) (rq_run q) = Inr (r, j)" using Inr by (cases p) simp
  have g: "good_journal (br_store b) j" using broker_inv_good [OF assms retained_pair_lease [OF p]] .
  let ?b = "child_image (lj_child_path j) None b"
  have ev: "evolves b ?b" using child_image_evolves [OF assms, of None j] by simp
  note inv0 = evolvesD(1) [OF ev] and g0 = evolvesD(2) [OF ev g]
  obtain ok b1 where c: "cleanupOwnedWorkspace w j ?b = (ok, b1)" by fastforce
  note ev1 = cleanup_evolves [OF inv0 c] and f1 = cleanup_frame [OF c]
  note inv1 = evolvesD(1) [OF ev1]
  have q: "broker_inv (quarantine w j b1)"
    by (rule evolvesD(1) [OF quarantine_evolves [OF inv1 evolvesD(2) [OF ev1 g0]]])
  obtain ok2 b2 where rm: "remove_lease w j b1 = (ok2, b2)" by fastforce
  have none: "map_of (vs_children (br_store b1)) (lj_child_path j) = None" using f1 by simp
  have inv2: "broker_inv b2" by (rule evolvesD(1) [OF remove_lease_evolves [OF inv1 none rm]])
  obtain ok3 s where rr: "RemoveRetained (na_io w) r (br_store b2) = (ok3, s)" by fastforce
  have inv3: "broker_inv (b2\<lparr>br_store := s\<rparr>)"
    using evolvesD(1) [OF evolves_only [OF inv2]] RemoveRetained_frame [OF rr] by simp
  let ?b4 = "b2\<lparr>br_store := s, br_children := remove_entry (re_lease r) (br_children b2)\<rparr>"
  have inv4: "broker_inv ?b4" using evolvesD(1) [OF evolves_fields [OF inv3, of ?b4]] by simp
  have "P (snd (removeRetained w q b))"
    if "P b" "P (quarantine w j b1)" "P b2" "P (b2\<lparr>br_store := s\<rparr>)" "P ?b4" for P
    unfolding removeRetained_def p prod.case sum.case using that c rm rr
    by (cases "retained_session w r b"; cases "na_release w"; cases ok; cases ok2; cases ok3) simp_all
  from this [OF assms q inv2 inv3 inv4] show ?thesis .
qed

lemma begin_build_inv:
  assumes "broker_inv b"
  shows "broker_inv (snd (begin_build w q key src mount b))"
proof -
  obtain x s where bp: "BeginParent (na_io w) (bc_user (br_config b)) key src mount (rq_client_pid q) (br_store b) = (x, s)"
    by fastforce
  have f: "only_parents (br_store b) s" "vs_parents s = vs_parents (br_store b)" using BeginParent_frame [OF bp] by simp_all
  have inv: "broker_inv (b\<lparr>br_store := s\<rparr>)" using evolvesD(1) [OF evolves_only [OF assms f]] .
  show ?thesis
  proof (cases x)
    case (Inl e)
    then show ?thesis using bp inv by (simp add: begin_build_def)
  next
    case (Inr p)
    have "ck_schema (pe_key p) = ParentSchemaVersion" using bp Inr
      by (auto simp: BeginParent_def ResolveParent_def Let_def split: if_split_asm option.split_asm)
    moreover have "broker_inv (b\<lparr>br_store := s\<lparr>vs_pending := ps\<rparr>\<rparr>)" for ps
      using evolvesD(1) [OF evolves_only [OF assms]] f by (simp add: only_parents_def)
    ultimately have "broker_inv (b\<lparr>br_store := s\<lparr>vs_pending := ps\<rparr>, br_building := put t p (br_building b)\<rparr>)" for ps t
      by (auto simp: broker_inv_def)
    moreover obtain y s1 where ab: "AbortParent_store (na_io w) p s = (y, s1)" by fastforce
    moreover from ab have "only_parents (br_store b) s1" "vs_parents s1 = vs_parents (br_store b)"
      using AbortParent_frame [OF ab] f by (simp_all add: only_parents_def)
    then have "broker_inv (b\<lparr>br_store := s1\<rparr>)" using evolvesD(1) [OF evolves_only [OF assms]] by blast
    ultimately show ?thesis using bp Inr by (cases "na_begin w") (simp_all add: begin_build_def)
  qed
qed

lemma beginParent_inv:
  assumes "broker_inv b"
  shows "broker_inv (snd (beginParent w q b))"
proof -
  have si: "store_inv (br_store b)" using assms by (simp add: broker_inv_def)
  have "broker_inv (b\<lparr>br_store := snd (TouchParent (na_io w) m (br_store b))\<rparr>)" for m
  proof -
    obtain ok s where t: "TouchParent (na_io w) m (br_store b) = (ok, s)" by fastforce
    then show ?thesis using TouchParent_inv [OF si t] evolvesD(1) [OF evolves_parents [OF assms]] by simp
  qed
  then show ?thesis
    using assms begin_build_inv by (simp add: beginParent_def split: option.split prod.split)
qed

lemma commitParent_inv:
  assumes "broker_inv b"
  shows "broker_inv (snd (commitParent w q b))"
proof -
  have "broker_inv (b\<lparr>br_store := s\<rparr>) \<and> broker_inv (b\<lparr>br_store := s, br_building := remove_entry t (br_building b)\<rparr>)"
    if p: "map_of (br_building b) t = Some p" and c: "CommitParent (na_io w) p (metadata_of p ev) (br_store b) = (x, s)" for t p ev x s
  proof -
    have "ck_schema (pm_key (metadata_of p ev)) = ParentSchemaVersion"
      using assms p by (simp add: broker_inv_def metadata_of_def)
    then have "store_inv s" using CommitParent_inv [OF _ c] assms by (simp add: broker_inv_def)
    then show ?thesis using assms by (auto simp: broker_inv_def)
  qed
  then show ?thesis using assms by (simp add: commitParent_def split: option.split prod.split sum.split)
qed

lemma abortParent_inv:
  assumes "broker_inv b"
  shows "broker_inv (snd (abortParent w q b))"
proof -
  have "broker_inv (b\<lparr>br_store := s\<rparr>) \<and> broker_inv (b\<lparr>br_store := s, br_building := remove_entry t (br_building b)\<rparr>)"
    if a: "AbortParent_store (na_io w) p (unstage p (br_store b)) = (x, s)" for t p x s
  proof -
    have "only_parents (br_store b) (unstage p (br_store b)) \<and> vs_parents (unstage p (br_store b)) = vs_parents (br_store b)"
      by (simp add: unstage_def only_parents_def split: option.split)
    then have "only_parents (br_store b) s" "vs_parents s = vs_parents (br_store b)"
      using AbortParent_frame [OF a] by (simp_all add: only_parents_def)
    then have "broker_inv (b\<lparr>br_store := s\<rparr>)" using evolvesD(1) [OF evolves_only [OF assms]] by blast
    then show ?thesis by (auto simp: broker_inv_def)
  qed
  then show ?thesis using assms by (simp add: abortParent_def split: option.split prod.split)
qed

lemma dispatch_inv:
  assumes "broker_inv b" "fresh_lease w b" "\<not> an_touch_fails (na_io w)"
  shows "broker_inv (snd (dispatch w q b))"
proof -
  have e: "broker_inv b1" if "ensureCapacityWithLimits w n dry x y b = (c, b1)" for n dry x y c b1
    using ensureCapacity_inv [OF assms(1) that] by simp
  have "broker_inv (snd (admit w q b))" "broker_inv (snd (gc w q b))"
    using e by (auto simp: admit_def gc_def split: prod.split sum.split)
  then show ?thesis
    using assms beginParent_inv commitParent_inv abortParent_inv acquire_inv heartbeat_inv release_inv
      attachRetained_inv removeRetained_inv by (simp add: dispatch_def split: operation.split)
qed

lemma Handle_inv:
  assumes "broker_inv b" "fresh_lease w b" "\<not> an_touch_fails (na_io w)"
  shows "broker_inv (snd (Handle w caller q b))"
proof -
  have l: "broker_inv (snd (handleLocked w caller q b))"
    using assms dispatch_inv by (simp add: handleLocked_def)
  have "broker_inv (b1\<lparr>br_requests := rs\<rparr>)" if "broker_inv b1" for b1 rs
    using that by (simp add: broker_inv_def)
  then show ?thesis using l assms(1) by (auto simp: Handle_def split: option.split prod.split)
qed

text \<open>Recovery.\<close>

lemma quarantine_because_evolves:
  "broker_inv b \<Longrightarrow> good_journal (br_store b) j \<Longrightarrow> evolves b (quarantine_because w j b)"
  unfolding quarantine_because_def by (intro quarantine_evolves) simp_all

lemma recover_finish_evolves:
  assumes "broker_inv b" "good_journal (br_store b) j" "map_of (vs_children (br_store b)) (lj_child_path j) = None"
  shows "evolves b (snd (recover_finish w vanished j b))"
proof -
  obtain ok b1 where c: "cleanupOwnedWorkspace w j b = (ok, b1)" by fastforce
  note ev = cleanup_evolves [OF assms(1) c] and f = cleanup_frame [OF c]
  note inv1 = evolvesD(1) [OF ev] and g1 = evolvesD(2) [OF ev assms(2)]
  obtain ok2 b2 where r: "remove_lease w j b1 = (ok2, b2)" by fastforce
  have none: "map_of (vs_children (br_store b1)) (lj_child_path j) = None" using f assms(3) by simp
  have "evolves b (quarantine w j b1)" by (rule evolves_trans [OF ev quarantine_evolves [OF inv1 g1]])
  moreover have "evolves b (quarantine_because w j b1)"
    by (rule evolves_trans [OF ev quarantine_because_evolves [OF inv1 g1]])
  moreover have "evolves b b2" by (rule evolves_trans [OF ev remove_lease_evolves [OF inv1 none r]])
  ultimately show ?thesis using c r by (cases ok; cases ok2; cases vanished) (simp_all add: recover_finish_def)
qed

lemma recover_release_evolves:
  assumes "broker_inv b" "good_journal (br_store b) j"
  shows "evolves b (snd (recover_release w j b))"
proof (cases "na_release w")
  case False
  then show ?thesis using quarantine_because_evolves [OF assms] by (simp add: recover_release_def)
next
  case True
  let ?b = "child_image (lj_child_path j) None b"
  have ev: "evolves b ?b" using child_image_evolves [OF assms(1), of None j] by simp
  obtain x b1 where r: "recover_finish w False j ?b = (x, b1)" by fastforce
  have "evolves ?b (snd (recover_finish w False j ?b))"
    by (rule recover_finish_evolves [OF evolvesD(1) [OF ev] evolvesD(2) [OF ev assms(2)]]) simp
  then have ev1: "evolves b b1" using evolves_trans [OF ev] r by simp
  have "evolves b1 (b1\<lparr>br_children := cs\<rparr>)" for cs
    by (rule evolves_fields [OF evolvesD(1) [OF ev1]]) simp_all
  then have "evolves b (b1\<lparr>br_children := cs\<rparr>)" for cs by (rule evolves_trans [OF ev1])
  then show ?thesis using r True ev1 by (cases x) (simp_all add: recover_release_def)
qed

lemma recover_one_evolves:
  assumes "broker_inv b" "good_journal (br_store b) j"
  shows "evolves b (snd (recover_one w grace j b))"
proof -
  let ?j = "j\<lparr>lj_state := ''recovering'', lj_recovery_at := Some (an_now (na_io w)), lj_recovery_error := []\<rparr>"
  obtain ok b1 where w1: "write_lease w ?j b = (ok, b1)" by fastforce
  have g: "good_journal (br_store b) ?j" using assms(2) by simp
  note ev = write_lease_evolves [OF assms(1) g w1]
  note inv1 = evolvesD(1) [OF ev] and g1 = evolvesD(2) [OF ev g]
  have "evolves b (quarantine_because w ?j b1)" by (rule evolves_trans [OF ev quarantine_because_evolves [OF inv1 g1]])
  moreover have "evolves b (snd (recover_release w ?j b1))"
    by (rule evolves_trans [OF ev recover_release_evolves [OF inv1 g1]])
  ultimately have "evolves b (snd (case write_lease w ?j b of
                  (False, b1) \<Rightarrow> (Recovery_failed, b1)
                | (True, b1) \<Rightarrow>
                    (case na_attach w of
                       None \<Rightarrow> (Quarantined_child, quarantine_because w ?j b1)
                     | Some cs \<Rightarrow> recover_release w ?j b1)))"
    using w1 ev by (cases ok; cases "na_attach w") simp_all
  then show ?thesis
    using evolves_refl [OF assms(1)] recover_finish_evolves [OF assms, of w True] quarantine_evolves [OF assms]
      quarantine_because_evolves [OF assms] recover_release_evolves [OF assms]
    by (cases "map_of (br_children b) (lj_id j)") (simp_all add: recover_one_def Let_def)
qed

lemma recover_all_evolves:
  "broker_inv b \<Longrightarrow> (\<forall>j \<in> set js. good_journal (br_store b) j) \<Longrightarrow> evolves b (snd (recover_all ws grace js b))"
proof (induction js arbitrary: b)
  case Nil
  then show ?case by auto
next
  case (Cons j js)
  obtain x b1 where r: "recover_one (ws (lj_id j)) grace j b = (x, b1)" by fastforce
  have ev: "evolves b b1" using recover_one_evolves [of b j "ws (lj_id j)" grace] Cons.prems r by simp
  have "evolves b1 (snd (recover_all ws grace js b1))"
    by (rule Cons.IH [OF evolvesD(1) [OF ev]]) (use Cons.prems evolvesD(2) [OF ev] in simp)
  then have "evolves b (snd (recover_all ws grace js b1))" by (rule evolves_trans [OF ev])
  then show ?case using r ev by (cases x) (auto split: prod.split)
qed

definition untouched :: "store \<Rightarrow> store \<Rightarrow> bool" where
  "untouched s s' \<longleftrightarrow> only_parents s s' \<and> vs_parents s' = vs_parents s"

lemma untouched_refl [simp]: "untouched s s"
  by (simp add: untouched_def)

lemma untouched_trans: "untouched s s1 \<Longrightarrow> untouched s1 s2 \<Longrightarrow> untouched s s2"
  by (simp add: untouched_def only_parents_def)

lemma untouched_pending [simp]:
  "untouched s (s\<lparr>vs_pending := ps\<rparr>)" "untouched s (s\<lparr>vs_pending := ps, vs_quarantine := qs\<rparr>)"
  by (simp_all add: untouched_def only_parents_def)

lemma RecoverPending_frame: "untouched s (snd (snd (snd (RecoverPending now grace alive rm rn keys s))))"
proof (induction keys arbitrary: s)
  case Nil
  then show ?case by simp
next
  case (Cons key keys)
  let ?R = "\<lambda>s. snd (snd (snd (RecoverPending now grace alive rm rn keys s)))"
  have "snd (snd (snd (RecoverPending now grace alive rm rn (key # keys) s))) = s \<or>
      (\<exists>ps. snd (snd (snd (RecoverPending now grace alive rm rn (key # keys) s))) = s\<lparr>vs_pending := ps\<rparr>) \<or>
      (\<exists>t. untouched s t \<and> snd (snd (snd (RecoverPending now grace alive rm rn (key # keys) s))) = ?R t)"
  proof (cases "ReadPending s key")
    case None
    then have "snd (snd (snd (RecoverPending now grace alive rm rn (key # keys) s))) = ?R s"
      by (simp add: Let_def split: prod.split)
    then show ?thesis by (intro disjI2) (metis untouched_refl)
  next
    case p: (Some p)
    then obtain d where d: "map_of (vs_pending s) key = Some d"
      by (auto simp: ReadPending_def split: if_split_asm option.split_asm)
    show ?thesis
    proof (cases "\<not> valid_digest key \<or> now - grace < pe_updated p \<or> alive (pe_client_pid p)")
      case True
      then have "snd (snd (snd (RecoverPending now grace alive rm rn (key # keys) s))) = ?R s"
        using p d by (auto simp: Let_def split: prod.split)
      then show ?thesis by (intro disjI2) (metis untouched_refl)
    next
      case False
      show ?thesis
      proof (cases "pn_staging d")
        case None
        have "snd (snd (snd (RecoverPending now grace alive rm rn (key # keys) s))) =
            (if rm key then s else if pn_extra d then s\<lparr>vs_pending := put key (d\<lparr>pn_doc := None\<rparr>) (vs_pending s)\<rparr>
             else ?R (s\<lparr>vs_pending := remove_entry key (vs_pending s)\<rparr>))"
          using None False p d by (simp add: Let_def)
        then show ?thesis by (metis untouched_pending(1))
      next
        case (Some n)
        let ?to = "pe_transaction p @ ''-parent''"
        let ?t = "s\<lparr>vs_pending := remove_entry key (vs_pending s), vs_quarantine := put ?to n (vs_quarantine s)\<rparr>"
        have "snd (snd (snd (RecoverPending now grace alive rm rn (key # keys) s))) =
            (if map_of (vs_quarantine s) ?to \<noteq> None \<or> rn key then ?R s else ?R ?t)"
          using False p d Some by (simp add: Let_def split: prod.split)
        then show ?thesis by (intro disjI2) (metis untouched_refl untouched_pending(2))
      qed
    qed
  qed
  then show ?case
  proof (elim disjE exE conjE)
    fix t assume "untouched s t" "snd (snd (snd (RecoverPending now grace alive rm rn (key # keys) s))) = ?R t"
    then show ?case using untouched_trans Cons.IH by (simp only:)
  qed (simp_all only: untouched_refl untouched_pending)
qed

lemma ListLeases_mem: "j \<in> set (ListLeases s) \<Longrightarrow> \<exists>i. ReadLease s i = Some j"
  by (auto simp: ListLeases_def split: option.split_asm)

lemma Recover_inv:
  assumes "broker_inv b"
  shows "broker_inv (snd (snd (Recover w rm rn ws grace0 b)))"
proof -
  define grace where "grace = (if grace0 \<le> 0 then 30 else grace0)"
  obtain ok x y s where r: "RecoverPending (an_now (na_io w)) grace (na_alive w) rm rn
      (map fst (vs_pending (br_store b))) (br_store b) = (ok, x, y, s)" by (metis prod_cases4)
  have "untouched (br_store b) s"
    using RecoverPending_frame [of "br_store b" "an_now (na_io w)" grace "na_alive w" rm rn
      "map fst (vs_pending (br_store b))"] r by simp
  then have ev: "evolves b (b\<lparr>br_store := s\<rparr>)" using evolves_only [OF assms] by (simp add: untouched_def)
  have good: "\<forall>j \<in> set (ListLeases (br_store b)). good_journal (br_store (b\<lparr>br_store := s\<rparr>)) j"
    using ListLeases_mem broker_inv_good [OF assms] evolvesD(2) [OF ev] by blast
  obtain xs b1 where a: "recover_all ws grace (ListLeases (br_store b)) (b\<lparr>br_store := s\<rparr>) = (xs, b1)" by fastforce
  have "broker_inv b1" using evolvesD(1) [OF recover_all_evolves [OF evolvesD(1) [OF ev] good]] a by (metis snd_conv)
  moreover have "snd (snd (Recover w rm rn ws grace0 b)) \<in> {b, b\<lparr>br_store := s\<rparr>, b1}"
    using r a by (cases ok) (simp_all add: Recover_def Let_def grace_def [symmetric])
  ultimately show ?thesis using assms evolvesD(1) [OF ev] by auto
qed

section \<open>The broker as a machine\<close>

text \<open>
  Requests, recoveries, restarts, which lose what is only in memory, and what clients do to the
  workspace directories. A request is possible when its random lease identifier is new and the time of
  last use of a parent can be written.
\<close>

datatype broker_event =
    Serve native string request
  | Recovery native "string \<Rightarrow> bool" "string \<Rightarrow> bool" "string \<Rightarrow> native" int
  | Broker_restarts
  | Workspace_changes "(string \<times> workspace_dir) list"

definition broker_step :: "broker_event \<Rightarrow> broker \<Rightarrow> broker option" where
  "broker_step e b =
     (case e of
        Serve w caller q \<Rightarrow>
          (if fresh_lease w b \<and> \<not> an_touch_fails (na_io w) then Some (snd (Handle w caller q b)) else None)
      | Recovery w rm rn ws grace \<Rightarrow> Some (snd (snd (Recover w rm rn ws grace b)))
      | Broker_restarts \<Rightarrow> Some (b\<lparr>br_building := [], br_children := [], br_requests := []\<rparr>)
      | Workspace_changes ws \<Rightarrow> Some (b\<lparr>br_workspaces := ws\<rparr>))"

fun broker_steps :: "broker_event list \<Rightarrow> broker \<Rightarrow> broker option" where
  "broker_steps [] b = Some b"
| "broker_steps (e # es) b = (case broker_step e b of None \<Rightarrow> None | Some b1 \<Rightarrow> broker_steps es b1)"

lemma broker_step_inv: "broker_inv b \<Longrightarrow> broker_step e b = Some b' \<Longrightarrow> broker_inv b'"
proof (cases e)
  case (Serve w caller q)
  assume "broker_inv b" "broker_step e b = Some b'"
  then show ?thesis using Serve Handle_inv [of b w caller q] by (simp add: broker_step_def split: if_split_asm)
next
  case (Recovery w rm rn ws grace)
  assume "broker_inv b" "broker_step e b = Some b'"
  then show ?thesis using Recovery Recover_inv [of b w rm rn ws grace] by (simp add: broker_step_def)
next
  case Broker_restarts
  assume "broker_inv b" "broker_step e b = Some b'"
  then show ?thesis using Broker_restarts by (auto simp: broker_step_def broker_inv_def)
next
  case (Workspace_changes ws)
  assume "broker_inv b" "broker_step e b = Some b'"
  then show ?thesis using Workspace_changes by (auto simp: broker_step_def broker_inv_def)
qed

interpretation broker_machine: machine broker_step broker_steps broker_inv
  by unfold_locales (simp_all add: broker_step_inv)

end
