(* ===== verification/VhdxClaims.thy ===== *)
theory VhdxClaims
  imports VhdxBrokerProps
begin

text \<open>
  The properties of the VHDX workspace broker, with a broker that is run from its empty store: it builds
  a parent, publishes it, leases a child and releases it.
\<close>

section \<open>A run of the broker\<close>

definition empty_store :: "paths \<Rightarrow> store" where
  "empty_store p = \<lparr>vs_paths = p, vs_parents = [], vs_pending = [], vs_leases = [], vs_retained = [],
     vs_quarantine = [], vs_children = []\<rparr>"

text \<open>\<^verbatim>\<open>NewBroker\<close> over a store directory that is new.\<close>

definition new_broker :: "broker_config \<Rightarrow> broker option" where
  "new_broker c =
     (case NewBroker_config c of None \<Rightarrow> None
      | Some c1 \<Rightarrow> (case NewPaths (bc_store_root c1) (bc_user c1) of None \<Rightarrow> None
          | Some p \<Rightarrow> Some \<lparr>br_config = c1, br_store = empty_store p, br_workspaces = [], br_building = [],
              br_children = [], br_requests = []\<rparr>))"

lemma empty_store_inv: "store_inv (empty_store p)"
  by (simp add: store_inv_def parents_wf_def leases_backed_def images_leased_def empty_store_def ReadLease_def)

lemma new_broker_inv: "new_broker c = Some b \<Longrightarrow> 0 \<le> bc_ttl c \<Longrightarrow> broker_inv b"
  using empty_store_inv
  by (auto simp: new_broker_def NewBroker_config_def broker_inv_def Let_def split: if_split_asm option.split_asm)

definition demo_config :: broker_config where
  "demo_config = \<lparr>bc_store_root = ''/s'', bc_workspace_root = ''/w'', bc_user = ''u'', bc_quota = 1000,
     bc_floor = 10, bc_reserve = 100, bc_ttl = 60\<rparr>"

definition demo_answers :: answers where
  "demo_answers = \<lparr>an_now = 1000, an_transaction = Some ''t1'', an_token = ''k'', an_layout_fails = False,
     an_pending_fails = False, an_commit_fault = None, an_lease_write_fails = (\<lambda>_. False),
     an_lease_remove_fails = False, an_retained_write_fails = False, an_retained_remove_fails = False,
     an_touch_fails = False, an_remove_parent_fails = (\<lambda>_. False), an_measure_fails = False\<rparr>"

definition demo_info :: lease_info where
  "demo_info = \<lparr>li_id = ''l1'', li_run = ''r'', li_parent_key = replicate 64 (CHR ''a''), li_mount = ''/w/r/Library'',
     li_state = ''ready'', li_retained = False, li_physical = [], li_volume = []\<rparr>"

definition demo_native :: native where
  "demo_native = \<lparr>na_io = demo_answers, na_available = True, na_verify = True, na_host_free = Some 5000,
     na_begin = Some 40, na_finalize = Some \<lparr>ev_identity = ''i'', ev_write_time = 1, ev_volume = ''v'',
       ev_logical = 40, ev_allocated = 40, ev_sha256 = ''h''\<rparr>, na_abort = True, na_lease_id = Some ''l1'',
     na_transitions = [],
     na_acquire = Some \<lparr>cs_info = demo_info, cs_identity = ''c''\<rparr>, na_child_file = Some 7,
     na_attach = Some \<lparr>cs_info = demo_info, cs_identity = ''c''\<rparr>, na_release = True, na_usage = Some 7,
     na_boot = ''b'', na_alive = (\<lambda>_. False), na_root_real = True, na_mount_exists = False,
     na_owner_fails = False, na_workspace_fails = False, na_error = []\<rparr>"

definition demo_key :: compat_key where
  "demo_key = key_of (replicate 64 (CHR ''a''))"

definition demo_request :: "operation \<Rightarrow> string \<Rightarrow> request" where
  "demo_request op i = \<lparr>rq_schema = 2, rq_operation = op, rq_id = i, rq_user = [], rq_run = ''r'',
     rq_workspace_id = ''r'', rq_workspace_root = [], rq_parent_key = Some demo_key, rq_source = Some ''s'',
     rq_lease = ''l1'', rq_transaction = ''t1'', rq_client_pid = 1, rq_unity_pid = 0, rq_retain = False,
     rq_dry_run = False, rq_quota = 0, rq_floor = 0\<rparr>"

definition demo_workspaces :: "(string \<times> workspace_dir) list" where
  "demo_workspaces = [(''r'', \<lparr>wd_real = True, wd_owner = None, wd_links = False\<rparr>)]"

definition demo_events :: "broker_event list" where
  "demo_events = Workspace_changes demo_workspaces # map (\<lambda>(op, i). Serve demo_native ''u'' (demo_request op i))
     [(Begin_parent, ''q1''), (Commit_parent, ''q2''), (Acquire, ''q3'')]"

text \<open>
  Whatever requests, recoveries and restarts a broker goes through from its first start, the parent
  image of every lease is there and valid, every child image belongs to a lease that can be read, and
  every parent stands under its own digest: no disk is left behind without its journal, and no
  collection takes away the parent of a child.
\<close>



section \<open>Collection\<close>

text \<open>No order of the parents matters for what a collection leaves alone.\<close>

definition same_leases :: "store \<Rightarrow> store \<Rightarrow> bool" where
  "same_leases s s' \<longleftrightarrow> vs_leases s' = vs_leases s \<and> vs_retained s' = vs_retained s"

lemma collect_parents_leases: "same_leases s (snd (snd (collect_parents a horizon active dry ms projected c s)))"
proof (induction ms arbitrary: projected c s)
  case Nil
  then show ?case by (simp add: same_leases_def)
next
  case (Cons m ms)
  obtain x s1 where rm: "RemoveParentIfUnused a (ck_digest (pm_key m)) active s = (x, s1)" by fastforce
  have "same_leases s s1"
    using rm by (auto simp: RemoveParentIfUnused_def same_leases_def split: if_split_asm option.split_asm)
  then show ?case using Cons rm by (cases x) (auto simp: Let_def same_leases_def)
qed

lemma ensureCapacity_leases:
  assumes "ensureCapacityWithLimits w n dry quota low b = (r, b')"
  shows "same_leases (br_store b) (br_store b')"
proof (cases "b' = b")
  case True
  then show ?thesis by (simp add: same_leases_def)
next
  case False
  obtain keys proj c x c' s where
    "collect_parents (na_io w) (an_now (na_io w) - bc_ttl (br_config b)) (active_keys b @ keys) dry
      (ListParents (br_store b)) proj c (br_store b) = (x, c', s)" "b' = b\<lparr>br_store := s\<rparr>"
    using assms False unfolding ensureCapacityWithLimits_def Let_def
    by (clarsimp split: option.split_asm if_split_asm prod.split_asm sum.split_asm)
  then show ?thesis using collect_parents_leases by (metis broker.select_convs(2) broker.surjective broker.update_convs(2) snd_conv)
qed

lemma collect_parents_error:
  "collect_parents a horizon active dry ms projected c s = (Inl e, c', s') \<Longrightarrow> e \<noteq> Storage_unavailable"
proof (induction ms arbitrary: projected c s)
  case Nil
  then show ?case by simp
next
  case (Cons m ms)
  obtain x s1 where rm: "RemoveParentIfUnused a (ck_digest (pm_key m)) active s = (x, s1)" by fastforce
  have "x \<noteq> Inl Storage_unavailable"
    using rm by (auto simp: RemoveParentIfUnused_def split: if_split_asm option.split_asm)
  then show ?case using Cons rm by (cases x) (auto simp: Let_def split: if_split_asm)
qed

text \<open>An admission or a collection changes nothing of the store but its parents; a dry run changes
  nothing at all. A parent it takes away was there with a time of last use at least the time-to-live
  ago, is not the parent of an open child, of a lease journal, of a retained record or of a pending
  build, and nothing was unreadable in the store when it was taken.\<close>
theorem collection_takes_only_unused:
  assumes "parents_wf (br_store b)" "ensureCapacityWithLimits w n dry quota low b = (r, b')"
  shows "only_parents (br_store b) (br_store b') \<and> br_children b' = br_children b \<and> (dry \<longrightarrow> b' = b) \<and>
    (\<forall>k. map_of (vs_parents (br_store b')) k \<noteq> map_of (vs_parents (br_store b)) k \<longrightarrow>
      map_of (vs_parents (br_store b')) k = None \<and> ProtectedParentKeys (br_store b) \<noteq> None \<and>
      (\<exists>m \<in> set (ListParents (br_store b)). ck_digest (pm_key m) = k \<and>
         pm_last_used m + bc_ttl (br_config b) \<le> an_now (na_io w)) \<and>
      k \<notin> set (active_keys b) \<and>
      (\<forall>i j. ReadLease (br_store b) i = Some j \<longrightarrow> lj_parent_key j \<noteq> k) \<and>
      (\<forall>i d. ReadRetained (br_store b) i = Some d \<longrightarrow> re_parent_key d \<noteq> k) \<and>
      ReadPending (br_store b) k = None)"
proof -
  obtain s where s: "b' = b\<lparr>br_store := s\<rparr>" "shrunk (removable w dry b) (br_store b) s"
    using ensureCapacity_frame [OF assms(2,1)] by blast
  have gone: "ProtectedParentKeys (br_store b) \<noteq> None \<and>
      (\<exists>m \<in> set (ListParents (br_store b)). ck_digest (pm_key m) = k \<and>
         pm_last_used m + bc_ttl (br_config b) \<le> an_now (na_io w)) \<and>
      k \<notin> set (active_keys b) \<and>
      (\<forall>i j. ReadLease (br_store b) i = Some j \<longrightarrow> lj_parent_key j \<noteq> k) \<and>
      (\<forall>i d. ReadRetained (br_store b) i = Some d \<longrightarrow> re_parent_key d \<noteq> k) \<and>
      ReadPending (br_store b) k = None"
    if rem: "removable w dry b k" for k
  proof -
    obtain keys where k: "ProtectedParentKeys (br_store b) = Some keys"
      "collectable (an_now (na_io w) - bc_ttl (br_config b)) (active_keys b @ keys) (ListParents (br_store b)) k"
      using rem by (auto simp: removable_def split: option.split_asm)
    then have "k \<notin> set keys" "k \<notin> set (active_keys b)" by (simp_all add: collectable_def)
    moreover obtain m where "m \<in> set (ListParents (br_store b))" "ck_digest (pm_key m) = k"
      "pm_last_used m + bc_ttl (br_config b) \<le> an_now (na_io w)" using k(2) by (auto simp: collectable_def)
    moreover have "lj_parent_key j \<noteq> k" if "ReadLease (br_store b) i = Some j" for i j
      using leased_protected [OF k(1) that] \<open>k \<notin> set keys\<close> by auto
    moreover have "re_parent_key d \<noteq> k" if "ReadRetained (br_store b) i = Some d" for i d
      using retained_protected [OF k(1) that] \<open>k \<notin> set keys\<close> by auto
    moreover have "ReadPending (br_store b) k = None"
      using pending_protected [OF k(1)] \<open>k \<notin> set keys\<close> by (cases "ReadPending (br_store b) k") auto
    ultimately show ?thesis using k(1) by auto
  qed
  have "dry \<longrightarrow> b' = b"
  proof
    assume dry
    then have "ensureCapacityWithLimits w n True quota low b = (r, b')" using assms(2) by simp
    then show "b' = b" unfolding ensureCapacityWithLimits_def Let_def
      using collect_parents_dry by (clarsimp split: option.split_asm if_split_asm prod.split_asm sum.split_asm)
  qed
  then show ?thesis using s gone by (fastforce simp: shrunk_def)
qed

text \<open>
  A store with two parents: one leased, one unused for a long time.
\<close>

definition demo_parent :: "string \<Rightarrow> int \<Rightarrow> string \<times> parent_dir" where
  "demo_parent k used = (k, \<lparr>pd_complete = Some completeContents, pd_metadata = Some \<lparr>pm_schema = 2,
     pm_provider = Provider, pm_key = key_of k, pm_source = [], pm_token = [], pm_created = 0,
     pm_last_used = used, pm_path = parent_vhdx \<lparr>pa_root = [], pa_user_root = [], pa_parents = ''/p'',
       pa_pending = [], pa_children = [], pa_leases = [], pa_retained = [], pa_quarantine = [],
       pa_receipts = []\<rparr> k, pm_identity = [], pm_write_time = 0, pm_volume = [], pm_virtual = 0,
     pm_block = 0, pm_sector = 0, pm_logical = 40, pm_allocated = 40, pm_sha256 = [], pm_immutable = True\<rparr>,
     pd_vhdx = Some 40\<rparr>)"

definition old_key :: string where "old_key = replicate 64 (CHR ''b'')"

definition demo_store :: store where
  "demo_store = \<lparr>vs_paths = \<lparr>pa_root = [], pa_user_root = [], pa_parents = ''/p'', pa_pending = [],
       pa_children = [], pa_leases = [], pa_retained = [], pa_quarantine = [], pa_receipts = []\<rparr>,
     vs_parents = [demo_parent old_key 10], vs_pending = [], vs_leases = [], vs_retained = [],
     vs_quarantine = [], vs_children = []\<rparr>"

definition demo_broker :: "int \<Rightarrow> broker" where
  "demo_broker quota = \<lparr>br_config = demo_config\<lparr>bc_quota := quota\<rparr>, br_store = demo_store, br_workspaces = [],
     br_building = [], br_children = [], br_requests = []\<rparr>"

theorem collection_takes_only_unused_witness:
  "\<exists>r b'. ensureCapacityWithLimits demo_native 1 False 0 0 (demo_broker 120) = (r, b') \<and>
     map_of (vs_parents (br_store (demo_broker 120))) old_key \<noteq> None \<and>
     map_of (vs_parents (br_store b')) old_key = None \<and> old_key \<notin> set (active_keys (demo_broker 120))"
proof -
  obtain r b' where e: "ensureCapacityWithLimits demo_native 1 False 0 0 (demo_broker 120) = (r, b')" by fastforce
  have "map_of (vs_parents (br_store (snd (ensureCapacityWithLimits demo_native 1 False 0 0 (demo_broker 120))))) old_key = None \<and>
      map_of (vs_parents (br_store (demo_broker 120))) old_key \<noteq> None" by code_simp
  then have gone: "map_of (vs_parents (br_store b')) old_key = None"
    "map_of (vs_parents (br_store (demo_broker 120))) old_key \<noteq> None" using e by simp_all
  have "parents_wf (br_store (demo_broker 120))"
    by (simp add: parents_wf_def demo_broker_def demo_store_def demo_parent_def key_of_def)
  from collection_takes_only_unused [OF this e] gone show ?thesis using e by auto
qed

text \<open>When the host has less free space than the floor and the reserve ask for, an admission fails;
  if it fails for lack of space it has removed every parent it could remove, although removing parents
  cannot change the measured free space it compares with.\<close>
theorem floor_collection_is_futile:
  assumes "parents_wf (br_store b)" "na_host_free w = Some free" "fl = max low (bc_floor (br_config b))"
    "free - n * bc_reserve (br_config b) < fl"
    "ensureCapacityWithLimits w n False quota low b = (r, b')"
  shows "\<exists>e. r = Inl e \<and> (e = Storage_unavailable \<longrightarrow>
    (\<forall>m \<in> set (ListParents (br_store b)). pm_last_used m + bc_ttl (br_config b) \<le> an_now (na_io w) \<longrightarrow>
       ck_digest (pm_key m) \<notin> set (active_keys b) \<longrightarrow>
       (\<forall>keys. ProtectedParentKeys (br_store b) = Some keys \<longrightarrow> ck_digest (pm_key m) \<notin> set keys) \<longrightarrow>
       map_of (vs_parents (br_store b')) (ck_digest (pm_key m)) = None))"
proof -
  let ?q = "if 0 < quota \<and> quota < bc_quota (br_config b) then quota else bc_quota (br_config b)"
  have fl: "(if bc_floor (br_config b) < low then low else bc_floor (br_config b)) = fl" using assms(3) by auto
  show ?thesis
  proof (cases "Status_store (na_io w) free ?q fl (br_store b)")
    case None
    then show ?thesis using assms(2,5) fl by (auto simp: ensureCapacityWithLimits_def Let_def)
  next
    case (Some st)
    let ?c = "(vt_capacity st)\<lparr>cp_reserve := n * bc_reserve (br_config b)\<rparr>"
    have low: "cp_host_free ?c - cp_reserve ?c < cp_host_floor ?c"
      using Some assms(4) by (auto simp: Status_store_def Let_def split: if_split_asm)
    then have nofit: "\<not> fits ?c x" for x by (simp add: fits_def)
    show ?thesis
    proof (cases "ProtectedParentKeys (br_store b)")
      case None
      then show ?thesis using assms(2,5) fl Some nofit by (auto simp: ensureCapacityWithLimits_def Let_def)
    next
      case keys: (Some keys)
      obtain x c' s where coll: "collect_parents (na_io w) (an_now (na_io w) - bc_ttl (br_config b)) (active_keys b @ keys)
          False (ListParents (br_store b)) (cp_allocated ?c) ?c (br_store b) = (x, c', s)" by (metis prod_cases3)
      have out: "(r, b') = (case x of Inl e \<Rightarrow> (Inl e, b\<lparr>br_store := s\<rparr>)
          | Inr d \<Rightarrow> if d then (Inr c', b\<lparr>br_store := s\<rparr>) else (Inl Storage_unavailable, b\<lparr>br_store := s\<rparr>))"
        using assms(2,5) fl Some nofit keys coll by (auto simp: ensureCapacityWithLimits_def Let_def split: sum.split)
      have "x \<noteq> Inr True" using collect_parents_floor [OF coll low] .
      show ?thesis
      proof (cases x)
        case (Inl e)
        have "e \<noteq> Storage_unavailable" using collect_parents_error coll Inl by blast
        then show ?thesis using out Inl by simp
      next
        case (Inr d)
        then have "d = False" using \<open>x \<noteq> Inr True\<close> by simp
        then have fin: "collect_parents (na_io w) (an_now (na_io w) - bc_ttl (br_config b)) (active_keys b @ keys)
          False (ListParents (br_store b)) (cp_allocated ?c) ?c (br_store b) = (Inr False, c', s)" using coll Inr by simp
        have "map_of (vs_parents s) (ck_digest (pm_key m)) = None"
          if "m \<in> set (ListParents (br_store b))" "pm_last_used m + bc_ttl (br_config b) \<le> an_now (na_io w)"
            "ck_digest (pm_key m) \<notin> set (active_keys b)" "ck_digest (pm_key m) \<notin> set keys" for m
          using that by (intro collect_parents_all [OF fin assms(1)]) (auto simp: collectable_def)
        then show ?thesis using out Inr \<open>d = False\<close> keys by auto
      qed
    qed
  qed
qed

theorem floor_collection_is_futile_witness:
  "\<exists>e b'. ensureCapacityWithLimits (demo_native\<lparr>na_host_free := Some 50\<rparr>) 1 False 0 0 (demo_broker 1000) = (Inl e, b') \<and>
     map_of (vs_parents (br_store (demo_broker 1000))) old_key \<noteq> None \<and>
     map_of (vs_parents (br_store b')) old_key = None"
proof -
  let ?w = "demo_native\<lparr>na_host_free := Some 50\<rparr>"
  obtain r b' where e: "ensureCapacityWithLimits ?w 1 False 0 0 (demo_broker 1000) = (r, b')" by fastforce
  have run: "map_of (vs_parents (br_store (snd (ensureCapacityWithLimits ?w 1 False 0 0 (demo_broker 1000))))) old_key = None \<and>
      map_of (vs_parents (br_store (demo_broker 1000))) old_key \<noteq> None" by code_simp
  have "parents_wf (br_store (demo_broker 1000))"
    by (simp add: parents_wf_def demo_broker_def demo_store_def demo_parent_def key_of_def)
  from floor_collection_is_futile [OF this _ _ _ e, of 50 10] obtain x where "r = Inl x"
    by (auto simp: demo_broker_def demo_config_def)
  then show ?thesis using e run by auto
qed

section \<open>Requests\<close>

text \<open>No handler touches the answers that are kept.\<close>

named_theorems kept

lemma kept_lease [kept]:
  "br_requests (snd (write_lease w j b)) = br_requests b" "br_requests (snd (remove_lease w j b)) = br_requests b"
  "br_requests (child_image p img b) = br_requests b" "br_requests (quarantine w j b) = br_requests b"
  "br_requests (snd (cleanupOwnedWorkspace w j b)) = br_requests b" "br_requests (removeWorkspaceOwner w j b) = br_requests b"
  "br_requests (snd (writeWorkspaceOwner w j b)) = br_requests b"
  by (simp_all add: write_lease_def remove_lease_def child_image_def quarantine_def cleanupOwnedWorkspace_def
      removeWorkspaceOwner_def writeWorkspaceOwner_def split: prod.split option.split)

lemma kept_lease_eq [dest]:
  "write_lease w j b = (ok, b') \<Longrightarrow> br_requests b' = br_requests b"
  "remove_lease w j b = (ok, b') \<Longrightarrow> br_requests b' = br_requests b"
  "cleanupOwnedWorkspace w j b = (ok, b') \<Longrightarrow> br_requests b' = br_requests b"
  "writeWorkspaceOwner w j b = (ok, b') \<Longrightarrow> br_requests b' = br_requests b"
  using kept by (metis snd_conv)+

lemma kept_capacity_eq [dest]:
  assumes "ensureCapacityWithLimits w n dry quota low b = (r, b')"
  shows "br_requests b' = br_requests b"
proof (cases "b' = b")
  case False
  obtain s where "b' = b\<lparr>br_store := s\<rparr>"
    using assms False unfolding ensureCapacityWithLimits_def Let_def
    by (clarsimp split: option.split_asm if_split_asm prod.split_asm sum.split_asm)
  then show ?thesis by simp
qed simp

lemma kept_capacity [kept]: "br_requests (snd (ensureCapacityWithLimits w n dry quota low b)) = br_requests b"
  using kept_capacity_eq by (metis prod.collapse)

lemma kept_transitions [dest]: "transitions w ts j b = (j', b') \<Longrightarrow> br_requests b' = br_requests b"
  by (induction ts arbitrary: j b) (auto simp: Let_def kept)

lemma kept_small [kept]:
  "br_requests (snd (beginParent w q b)) = br_requests b" "br_requests (snd (commitParent w q b)) = br_requests b"
  "br_requests (snd (abortParent w q b)) = br_requests b" "br_requests (snd (admit w q b)) = br_requests b"
  "br_requests (snd (gc w q b)) = br_requests b"
  by (auto simp: beginParent_def begin_build_def commitParent_def abortParent_def admit_def gc_def
      split: option.split prod.split sum.split)

lemma kept_acquire_parts [kept]:
  "br_requests (snd (acquire_failed w q j b)) = br_requests b" "br_requests (snd (acquire_ready w q j m cs b)) = br_requests b"
proof -
  show "br_requests (snd (acquire_failed w q j b)) = br_requests b" by (simp add: acquire_failed_def kept)
  obtain ok b1 where w1: "write_lease w (j\<lparr>lj_state := ''ready'', lj_identity := cs_identity cs,
      lj_physical := li_physical (cs_info cs), lj_volume := li_volume (cs_info cs)\<rparr>) b = (ok, b1)" by fastforce
  obtain c b2 where e: "ensureCapacityWithLimits w 0 False 0 0 (b1\<lparr>br_children := put (lj_id j) cs (br_children b1)\<rparr>) = (c, b2)"
    by fastforce
  show "br_requests (snd (acquire_ready w q j m cs b)) = br_requests b"
    using w1 e kept_lease_eq(1) [OF w1] kept_capacity_eq [OF e] by (cases ok) (simp_all add: acquire_ready_def Let_def kept)
qed

lemma kept_acquire [kept]: "br_requests (snd (acquire w q b)) = br_requests b"
proof -
  have nat: "br_requests (snd (acquire_native w q j m b)) = br_requests b" for j m b
    by (auto simp: acquire_native_def Let_def kept split: prod.split option.split)
  have adm: "br_requests (snd (acquire_admitted w q key m b)) = br_requests b" for key m b
    by (auto simp: acquire_admitted_def Let_def kept nat split: prod.split option.split bool.split)
      (metis kept_lease_eq)+
  show ?thesis by (auto simp: acquire_def kept adm split: prod.split option.split sum.split)
qed

lemma kept_release [kept]: "br_requests (snd (release w q b)) = br_requests b"
proof -
  have rec: "br_requests b' = br_requests b" if "release_recorded w q j b = (x, b')" for j b x b'
    using that unfolding release_recorded_def
    by (auto simp: kept split: if_split_asm prod.split_asm bool.split_asm) (metis kept_lease_eq)+
  show ?thesis
    unfolding release_def Let_def
    by (auto simp: kept split: option.split prod.split bool.split dest!: rec kept_lease_eq(1) kept_capacity_eq)
qed

lemma kept_heartbeat [kept]: "br_requests (snd (heartbeat w q b)) = br_requests b"
proof (cases "ReadLease (br_store b) (rq_lease q)")
  case None
  then show ?thesis by (simp add: heartbeat_def)
next
  case (Some j)
  obtain ok b1 where w1: "write_lease w (j\<lparr>lj_client_pid := rq_client_pid q,
      lj_boot := (if lj_boot j = [] then na_boot w else lj_boot j),
      lj_unity_pid := (if rq_unity_pid q \<noteq> 0 then rq_unity_pid q else lj_unity_pid j)\<rparr>) b = (ok, b1)" by fastforce
  have "snd (heartbeat w q b) = b \<or> snd (heartbeat w q b) = b1"
    unfolding heartbeat_def Some option.case w1 prod.case by (cases ok) (simp_all split: option.split)
  then show ?thesis using kept_lease_eq(1) [OF w1] by auto
qed

lemma kept_attach [kept]: "br_requests (snd (attachRetained w q b)) = br_requests b"
proof (cases "retained_pair (br_store b) (rq_run q)")
  case (Inl code)
  then show ?thesis by (simp add: attachRetained_def)
next
  case (Inr p)
  obtain r j where p: "retained_pair (br_store b) (rq_run q) = Inr (r, j)" using Inr by (cases p) simp
  show ?thesis
  proof (cases "workspaceMount (br_config b) (rq_workspace_id q)")
    case None
    then show ?thesis using p by (simp add: attachRetained_def split: option.split)
  next
    case (Some wm)
    obtain workspace mount where wm: "wm = (workspace, mount)" by (cases wm)
    obtain ok b1 where w1: "write_lease w (j\<lparr>lj_mount := mount, lj_state := ''ready''\<rparr>) b = (ok, b1)" by fastforce
    show ?thesis
      unfolding attachRetained_def p Some wm prod.case sum.case option.case w1
      using kept_lease_eq(1) [OF w1]
      by (cases "map_of (br_children b) (re_lease r)"; cases "retained_parent w (br_store b) (re_parent_key r)";
          cases "validateWorkspaceMount w b (rq_workspace_id q) mount"; cases "na_attach w"; cases ok) auto
  qed
qed

lemma kept_remove [kept]: "br_requests (snd (removeRetained w q b)) = br_requests b"
proof (cases "retained_pair (br_store b) (rq_run q)")
  case (Inl code)
  then show ?thesis by (simp add: removeRetained_def)
next
  case (Inr p)
  obtain r j where p: "retained_pair (br_store b) (rq_run q) = Inr (r, j)" using Inr by (cases p) simp
  obtain ok b1 where c: "cleanupOwnedWorkspace w j (child_image (lj_child_path j) None b) = (ok, b1)" by fastforce
  obtain ok2 b2 where rm: "remove_lease w j b1 = (ok2, b2)" by fastforce
  obtain ok3 s where rr: "RemoveRetained (na_io w) r (br_store b2) = (ok3, s)" by fastforce
  have "br_requests b1 = br_requests b" "br_requests b2 = br_requests b"
    using kept_lease_eq(3) [OF c] kept_lease_eq(2) [OF rm] by (simp_all add: kept)
  then show ?thesis
    unfolding removeRetained_def p prod.case sum.case using c rm rr
    by (cases "retained_session w r b"; cases "na_release w"; cases ok; cases ok2; cases ok3) (simp_all add: kept)
qed

lemma kept_handle [kept]: "br_requests (snd (handleLocked w caller q b)) = br_requests b"
  by (simp add: handleLocked_def dispatch_def kept split: operation.split)

lemma kept_finish: "br_requests (snd (recover_finish w v j b)) = br_requests b"
  by (auto simp: recover_finish_def quarantine_because_def kept split: prod.split bool.split) (metis kept_lease_eq)+

lemma kept_recover_release: "br_requests (snd (recover_release w j b)) = br_requests b"
proof -
  obtain x b1 where r: "recover_finish w False j (child_image (lj_child_path j) None b) = (x, b1)" by fastforce
  then have "br_requests b1 = br_requests b"
    using kept_finish [of w False j "child_image (lj_child_path j) None b"] by (simp add: kept)
  then show ?thesis using r by (cases x) (simp_all add: recover_release_def quarantine_because_def kept)
qed

lemma kept_recover_one: "br_requests (snd (recover_one w grace j b)) = br_requests b"
proof -
  let ?j = "j\<lparr>lj_state := ''recovering'', lj_recovery_at := Some (an_now (na_io w)), lj_recovery_error := []\<rparr>"
  obtain ok b1 where w1: "write_lease w ?j b = (ok, b1)" by fastforce
  have "br_requests (snd (case write_lease w ?j b of
                  (False, b1) \<Rightarrow> (Recovery_failed, b1)
                | (True, b1) \<Rightarrow>
                    (case na_attach w of
                       None \<Rightarrow> (Quarantined_child, quarantine_because w ?j b1)
                     | Some cs \<Rightarrow> recover_release w ?j b1))) = br_requests b"
    using w1 kept_lease_eq(1) [OF w1]
    by (cases ok; cases "na_attach w") (simp_all add: kept_recover_release quarantine_because_def kept)
  then show ?thesis
    by (cases "map_of (br_children b) (lj_id j)")
      (simp_all add: recover_one_def Let_def kept_recover_release kept_finish quarantine_because_def kept)
qed

lemma kept_recover_all: "br_requests (snd (recover_all ws grace js b)) = br_requests b"
proof (induction js arbitrary: b)
  case (Cons j js)
  obtain x b1 where r: "recover_one (ws (lj_id j)) grace j b = (x, b1)" by fastforce
  have "br_requests b1 = br_requests b" using kept_recover_one [of "ws (lj_id j)" grace j b] r by simp
  then show ?case using r Cons.IH [of b1] by (cases x) (auto split: prod.split)
qed simp

lemma kept_Recover: "br_requests (snd (snd (Recover w rm rn ws grace0 b))) = br_requests b"
proof -
  define grace where "grace = (if grace0 \<le> 0 then 30 else grace0)"
  obtain ok x y s where r: "RecoverPending (an_now (na_io w)) grace (na_alive w) rm rn
      (map fst (vs_pending (br_store b))) (br_store b) = (ok, x, y, s)" by (metis prod_cases4)
  obtain xs b1 where a: "recover_all ws grace (ListLeases (br_store b)) (b\<lparr>br_store := s\<rparr>) = (xs, b1)" by fastforce
  have "br_requests b1 = br_requests b"
    using kept_recover_all [of ws grace "ListLeases (br_store b)" "b\<lparr>br_store := s\<rparr>"] a by simp
  then show ?thesis using r a by (cases ok) (simp_all add: Recover_def Let_def grace_def [symmetric])
qed

interpretation any_broker: machine broker_step broker_steps "\<lambda>_. True"
  by unfold_locales simp_all

lemma answer_kept:
  assumes "broker_step e b = Some b'" "e \<noteq> Broker_restarts" "map_of (br_requests b) i = Some r"
  shows "map_of (br_requests b') i = Some r"
proof (cases e)
  case (Serve w caller q)
  obtain r1 b1 where h: "handleLocked w caller q b = (r1, b1)" by fastforce
  then have "br_requests b1 = br_requests b" using kept_handle [of w caller q b] by simp
  then show ?thesis using assms Serve h
    by (auto simp: broker_step_def Handle_def split: if_split_asm option.split_asm)
next
  case (Recovery w rm rn ws grace)
  then show ?thesis using assms kept_Recover [of w rm rn ws grace b] by (simp add: broker_step_def)
qed (use assms in \<open>auto simp: broker_step_def\<close>)



section \<open>Retained children\<close>

text \<open>What a successful release without retention comes to.\<close>

lemma write_lease_leases: "write_lease w j b = (ok, b') \<Longrightarrow> vs_retained (br_store b') = vs_retained (br_store b)"
  using WriteLease_frame by (fastforce simp: write_lease_def split: prod.splits)

lemma remove_lease_leases: "remove_lease w j b = (ok, b') \<Longrightarrow> vs_retained (br_store b') = vs_retained (br_store b) \<and>
    (ok \<longrightarrow> ReadLease (br_store b') (lj_id j) = None)"
  using RemoveLease_frame ReadLease_RemoveLease by (fastforce simp: remove_lease_def split: prod.splits)

lemma release_succeeds:
  assumes "release w q b = (r, b')" "rp_ok r" "\<not> rq_retain q"
  shows "ReadLease (br_store b') (rq_lease q) = None \<and> vs_retained (br_store b') = vs_retained (br_store b)"
proof -
  obtain cs j0 where j0: "map_of (br_children b) (rq_lease q) = Some cs" "ReadLease (br_store b) (rq_lease q) = Some j0"
    using assms(1,2) by (auto simp: release_def fail_def split: option.split_asm)
  let ?j = "j0\<lparr>lj_state := ''releasing'', lj_retained := rq_retain q\<rparr>"
  let ?q = "?j\<lparr>lj_state := ''released''\<rparr>"
  let ?b = "child_image (lj_child_path j0) None"
  obtain ok b1 where w1: "write_lease w ?j b = (ok, b1)" by fastforce
  obtain x b3 where r: "release_recorded w q ?q (?b b1) = (x, b3)" by fastforce
  obtain c b4 where e: "ensureCapacityWithLimits w 0 False 0 0
      (b3\<lparr>br_children := remove_entry (rq_lease q) (br_children b3)\<rparr>) = (c, b4)" by fastforce
  have ok: "ok \<and> na_release w \<and> x = None \<and> b' = b4"
    using assms(1-3) j0 w1 r e by (cases ok; cases "na_release w"; cases x) (auto simp: release_def Let_def fail_def)
  obtain b2 where c: "cleanupOwnedWorkspace w ?q (?b b1) = (True, b2)" "remove_lease w ?q b2 = (True, b3)"
    using r ok assms(3) unfolding release_recorded_def by (auto split: prod.split_asm bool.split_asm)
  have "br_store b2 = br_store (?b b1)" using cleanup_frame [OF c(1)] by simp
  moreover have "lj_id ?q = rq_lease q" using ReadLease_id [OF j0(2)] by simp
  moreover have "same_leases (br_store b3) (br_store b4)" using ensureCapacity_leases [OF e] by simp
  ultimately show ?thesis
    using remove_lease_leases [OF c(2)] write_lease_leases [OF w1] ok
    by (auto simp: same_leases_def child_image_def ReadLease_def)
qed

lemma ReadRetained_cong: "vs_retained s' = vs_retained s \<Longrightarrow> ReadRetained s' = ReadRetained s"
  by (simp add: ReadRetained_def fun_eq_iff)

text \<open>When a retained child was attached again and is released without retaining it, the release
  succeeds and removes the lease, but the record of the retained child stays: from then on the record
  can be neither attached nor removed, and as long as it is there no collection can reclaim its
  parent.\<close>
theorem released_retained_record_dangles:
  assumes "release w q b = (r, b')" "rp_ok r" "\<not> rq_retain q"
    "ReadRetained (br_store b) runID = Some d" "re_lease d = rq_lease q"
  shows "ReadRetained (br_store b') runID = Some d \<and>
    retained_pair (br_store b') runID = Inl ''retained-identity-mismatch'' \<and>
    (rq_run q' = runID \<longrightarrow> snd (attachRetained w' q' b') = b' \<and> snd (removeRetained w' q' b') = b' \<and>
       \<not> rp_ok (fst (attachRetained w' q' b')) \<and> \<not> rp_ok (fst (removeRetained w' q' b'))) \<and>
    (\<forall>keys. ProtectedParentKeys (br_store b') = Some keys \<longrightarrow> re_parent_key d \<in> set keys)"
proof -
  note rel = release_succeeds [OF assms(1-3)]
  have rd: "ReadRetained (br_store b') runID = Some d" using ReadRetained_cong rel assms(4) by metis
  then have pair: "retained_pair (br_store b') runID = Inl ''retained-identity-mismatch''"
    using rel assms(5) by (simp add: retained_pair_def)
  then show ?thesis using rd retained_protected [OF _ rd]
    by (auto simp: attachRetained_def removeRetained_def fail_def ok_response_def)
qed

definition demo_journal :: journal where
  "demo_journal = \<lparr>lj_schema = 2, lj_id = ''l1'', lj_run = ''r'', lj_user = ''u'', lj_token = ''k'',
     lj_parent_key = old_key, lj_parent_path = [], lj_child_path = ''/c/l1.vhdx'', lj_workspace_id = [],
     lj_workspace_path = [], lj_mount = [], lj_state = ''ready'', lj_boot = [], lj_client_pid = 1, lj_unity_pid = 0,
     lj_retained = True, lj_created = 1, lj_updated = 1, lj_identity = [], lj_physical = [], lj_volume = [],
     lj_recovery_at = None, lj_recovery_error = []\<rparr>"

definition demo_record :: retained_record where
  "demo_record = \<lparr>re_schema = 2, re_run = ''r'', re_lease = ''l1'', re_token = ''k'', re_parent_key = old_key,
     re_child_path = ''/c/l1.vhdx'', re_created = 1\<rparr>"

definition attached_broker :: broker where
  "attached_broker = (demo_broker 1000)\<lparr>br_store := demo_store\<lparr>vs_leases := [(''l1.json'', Some demo_journal)],
     vs_retained := [(''r.json'', Some demo_record)]\<rparr>, br_children := [(''l1'', \<lparr>cs_info = demo_info, cs_identity = []\<rparr>)]\<rparr>"

theorem released_retained_record_dangles_witness:
  "\<exists>r b'. release demo_native (demo_request Release []) attached_broker = (r, b') \<and> rp_ok r \<and>
     retained_pair (br_store attached_broker) ''r'' = Inr (demo_record, demo_journal) \<and>
     retained_pair (br_store b') ''r'' = Inl ''retained-identity-mismatch''"
proof -
  have run: "rp_ok (fst (release demo_native (demo_request Release []) attached_broker))" by code_simp
  have rd: "ReadRetained (br_store attached_broker) ''r'' = Some demo_record" by code_simp
  have pair: "retained_pair (br_store attached_broker) ''r'' = Inr (demo_record, demo_journal)" by code_simp
  obtain r b' where rel: "release demo_native (demo_request Release []) attached_broker = (r, b')" by fastforce
  have "retained_pair (br_store b') ''r'' = Inl ''retained-identity-mismatch''"
    using released_retained_record_dangles [OF rel _ _ rd] run rel by (simp add: demo_request_def demo_record_def)
  then show ?thesis using run rel pair by auto
qed

section \<open>Failed publications\<close>

lemma resolved_corrupt:
  assumes "map_of (vs_parents s) (ck_digest key) = Some empty_parent" "ck_schema key = ParentSchemaVersion"
    "valid_digest (ck_digest key)"
  shows "\<exists>r. ResolveParent s key = Some r \<and> ro_status r = ParentStatusCorrupt"
  using assms by (simp add: ResolveParent_def empty_parent_def)

lemma begin_corrupt:
  assumes "map_of (vs_parents (br_store b)) (ck_digest key) = Some empty_parent" "ck_schema key = ParentSchemaVersion"
    "valid_digest (ck_digest key)" "rq_parent_key q = Some key" "rq_source q \<noteq> None"
  shows "beginParent w q b = (fail q ''parent-corrupt'', b)"
  using resolved_corrupt [OF assms(1-3)] assms(4,5)
  by (auto simp: beginParent_def parent_status_defs)

text \<open>When the rename of a finished parent image into place fails, the commit fails and leaves an
  empty directory under the parent's key: every later request to build that parent is refused as
  corrupt and changes nothing, and aborting the build does not help.\<close>
theorem failed_rename_blocks_key:
  assumes "map_of (br_building b) (rq_transaction q) = Some p" "na_finalize w = Some ev"
    "an_commit_fault (na_io w) = Some Rename_fails" "ReadPending (br_store b) (ck_digest (pe_key p)) = Some p"
    "map_of (vs_parents (br_store b)) (ck_digest (pe_key p)) = None" "ck_schema (pe_key p) = ParentSchemaVersion"
    "commitParent w q b = (r, b')"
    "rq_parent_key q' = Some key" "ck_digest key = ck_digest (pe_key p)" "ck_schema key = ParentSchemaVersion"
    "rq_source q' \<noteq> None"
  shows "\<not> rp_ok r \<and> beginParent w' q' b' = (fail q' ''parent-corrupt'', b') \<and>
    beginParent w' q' (snd (abortParent w1 q b')) = (fail q' ''parent-corrupt'', snd (abortParent w1 q b'))"
proof -
  let ?k = "ck_digest (pe_key p)"
  obtain x s where c: "CommitParent (na_io w) p (metadata_of p ev) (br_store b) = (x, s)" by fastforce
  have vd: "valid_digest ?k" using assms(4) by (simp add: ReadPending_def split: if_split_asm)
  have pub: "\<exists>e. publish (na_io w) path m n = (Inl e, Some empty_parent)" for path m n
    using assms(3) by (simp add: publish_def split: option.split)
  obtain e where e: "publish (na_io w) (parent_vhdx (vs_paths (br_store b)) ?k) (metadata_of p ev) (staged (br_store b) ?k)
      = (Inl e, Some empty_parent)" using pub by blast
  have x: "x = Inl e \<and> vs_parents s = put ?k empty_parent (vs_parents (br_store b))"
    using c e assms(3-5) by (auto simp: CommitParent_def Let_def metadata_of_def parents_after_def)
  then have b': "b' = b\<lparr>br_store := s\<rparr> \<and> \<not> rp_ok r"
    using assms(1,2,7) c by (auto simp: commitParent_def fail_def)
  have here: "map_of (vs_parents (br_store b')) (ck_digest key) = Some empty_parent" using x b' assms(9) by simp
  have "vs_parents (br_store (snd (abortParent w1 q b'))) = vs_parents (br_store b')"
  proof -
    obtain y s1 where a: "AbortParent_store (na_io w1) p (unstage p s) = (y, s1)" by fastforce
    have "vs_parents (unstage p s) = vs_parents s" by (simp add: unstage_def split: option.split)
    then have "vs_parents s1 = vs_parents s" using AbortParent_frame [OF a] by simp
    then show ?thesis using a assms(1) b' by (auto simp: abortParent_def split: option.split)
  qed
  then have after: "map_of (vs_parents (br_store (snd (abortParent w1 q b')))) (ck_digest key) = Some empty_parent"
    using here by simp
  have "valid_digest (ck_digest key)" using vd assms(9) by simp
  then show ?thesis
    using begin_corrupt [OF here assms(10) _ assms(8,11)] begin_corrupt [OF after assms(10) _ assms(8,11)] b' by simp
qed

definition demo_pending :: pending where
  "demo_pending = \<lparr>pe_transaction = ''t1'', pe_user = ''u'', pe_token = ''k'', pe_key = key_of old_key, pe_source = [],
     pe_staging = staging_vhdx (vs_paths demo_store) old_key, pe_mount = [], pe_created = 1, pe_updated = 1, pe_client_pid = 1\<rparr>"

definition building_broker :: broker where
  "building_broker = (demo_broker 1000)\<lparr>br_store := demo_store\<lparr>vs_parents := [], vs_pending := [(old_key,
     \<lparr>pn_doc = Some demo_pending, pn_staging = Some 40, pn_extra = False\<rparr>)]\<rparr>, br_building := [(''t1'', demo_pending)]\<rparr>"

theorem failed_rename_blocks_key_witness:
  "\<exists>r b'. commitParent (demo_native\<lparr>na_io := demo_answers\<lparr>an_commit_fault := Some Rename_fails\<rparr>\<rparr>)
       (demo_request Commit_parent []) building_broker = (r, b') \<and> \<not> rp_ok r \<and>
     beginParent demo_native ((demo_request Begin_parent [])\<lparr>rq_parent_key := Some (key_of old_key)\<rparr>) b' =
       (fail ((demo_request Begin_parent [])\<lparr>rq_parent_key := Some (key_of old_key)\<rparr>) ''parent-corrupt'', b')"
proof -
  let ?w = "demo_native\<lparr>na_io := demo_answers\<lparr>an_commit_fault := Some Rename_fails\<rparr>\<rparr>"
  have pend: "ReadPending (br_store building_broker) (ck_digest (pe_key demo_pending)) = Some demo_pending" by code_simp
  obtain ev where ev: "na_finalize ?w = Some ev" by (simp add: demo_native_def)
  obtain r b' where c: "commitParent ?w (demo_request Commit_parent []) building_broker = (r, b')" by fastforce
  have b: "map_of (br_building building_broker) (rq_transaction (demo_request Commit_parent [])) = Some demo_pending"
    by (simp add: building_broker_def demo_request_def)
  show ?thesis
    using failed_rename_blocks_key [OF b ev _ pend _ _ c, of "(demo_request Begin_parent [])\<lparr>rq_parent_key := Some (key_of old_key)\<rparr>"
        "key_of old_key" demo_native] c
    by (simp add: building_broker_def demo_pending_def key_of_def demo_request_def)
qed

end
