(* ===== verification/TreeDigest.thy ===== *)
theory TreeDigest
  imports GoPath Retention
begin

text \<open>
  What the caches of Unity Libraries are keyed by: \<^verbatim>\<open>internal/libraryimage/key.go\<close> and
  \<^verbatim>\<open>internal/vhdxworkspace/key.go\<close>. A directory is a tree of names; the walk, the order
  and the bytes that are hashed are those of the code, the hash function itself
  (\<^verbatim>\<open>sha256\<close> in hexadecimal) and \<^verbatim>\<open>json.Marshal\<close> are parameters.
\<close>

section \<open>Trees and their walk\<close>

text \<open>
  The first string of a node is its mode, as \<^verbatim>\<open>FileMode.String\<close> prints it. The content of a file
  is \<open>None\<close> when it cannot be read; \<open>Sealed\<close> is a directory that cannot be listed.
\<close>

datatype tree =
    Regular string "string option"
  | Symlink string string
  | Directory string "(string \<times> tree) list"
  | Sealed string

datatype tree_error = Tree_missing | Tree_unreadable | Link_refused

definition below :: "string \<Rightarrow> string \<Rightarrow> string" where
  "below p n = (if p = [] then n else p @ [sep] @ n)"

text \<open>\<^verbatim>\<open>filepath.WalkDir\<close> below a root: every node but the root with its relative path.\<close>

fun walk_tree :: "string \<Rightarrow> tree \<Rightarrow> tree_error + (string \<times> tree) list"
  and walk_entries :: "string \<Rightarrow> (string \<times> tree) list \<Rightarrow> tree_error + (string \<times> tree) list" where
  "walk_tree p (Regular m c) = Inr []"
| "walk_tree p (Symlink m t) = Inr []"
| "walk_tree p (Sealed m) = Inl Tree_unreadable"
| "walk_tree p (Directory m es) = walk_entries p es"
| "walk_entries p [] = Inr []"
| "walk_entries p ((n, t) # es) =
     bind_result (walk_tree (below p n) t) (\<lambda>xs.
     bind_result (walk_entries p es) (\<lambda>ys. Inr ((below p n, t) # xs @ ys)))"

definition walk_root :: "tree option \<Rightarrow> tree_error + (string \<times> tree) list" where
  "walk_root root = (case root of None \<Rightarrow> Inl Tree_missing | Some t \<Rightarrow> walk_tree [] t)"

section \<open>The bytes of a tree\<close>

definition nul :: char where
  "nul = CHR 0x00"

text \<open>\<^verbatim>\<open>libraryimage.hashTree\<close>: path, mode and content, in the order of the paths.\<close>

definition mode_of :: "tree \<Rightarrow> string" where
  "mode_of t = (case t of Regular m c \<Rightarrow> m | Symlink m l \<Rightarrow> m | Directory m es \<Rightarrow> m | Sealed m \<Rightarrow> m)"

definition node_content :: "tree \<Rightarrow> tree_error + string" where
  "node_content t = (case t of
       Regular m None \<Rightarrow> Inl Tree_unreadable
     | Regular m (Some c) \<Rightarrow> Inr c
     | Symlink m l \<Rightarrow> Inr l
     | _ \<Rightarrow> Inr [])"

fun node_bytes :: "(string \<times> tree) list \<Rightarrow> tree_error + string" where
  "node_bytes [] = Inr []"
| "node_bytes ((p, t) # ns) =
     bind_result (node_content t) (\<lambda>c.
     bind_result (node_bytes ns) (\<lambda>r. Inr (p @ [nul] @ mode_of t @ [nul] @ c @ r)))"

definition regular_sizes :: "(string \<times> tree) list \<Rightarrow> nat list" where
  "regular_sizes ns = concat (map (\<lambda>(p, t). case t of Regular m (Some c) \<Rightarrow> [length c] | _ \<Rightarrow> []) ns)"

record tree_sum =
  ts_digest :: string
  ts_files :: int
  ts_bytes :: int

definition hashTree :: "(string \<Rightarrow> string) \<Rightarrow> tree option \<Rightarrow> tree_error + tree_sum" where
  "hashTree sha root =
     bind_result (walk_root root) (\<lambda>ns.
       let sorted = sort_key fst ns in
       bind_result (node_bytes sorted) (\<lambda>s.
         Inr \<lparr>ts_digest = sha s, ts_files = int (length (regular_sizes ns)),
           ts_bytes = int (sum_list (regular_sizes ns))\<rparr>))"

text \<open>
  \<^verbatim>\<open>vhdxworkspace.digestTree\<close>: links are refused, directories leave no trace, and a file is
  its path and its content.
\<close>

definition is_link :: "tree \<Rightarrow> bool" where
  "is_link t = (case t of Symlink m l \<Rightarrow> True | _ \<Rightarrow> False)"

definition is_directory :: "tree \<Rightarrow> bool" where
  "is_directory t = (case t of Directory m es \<Rightarrow> True | Sealed m \<Rightarrow> True | _ \<Rightarrow> False)"

fun file_bytes :: "(string \<times> tree) list \<Rightarrow> tree_error + string" where
  "file_bytes [] = Inr []"
| "file_bytes ((p, t) # ns) =
     bind_result (node_content t) (\<lambda>c.
     bind_result (file_bytes ns) (\<lambda>r. Inr (p @ [nul] @ c @ r)))"

definition digestTree :: "(string \<Rightarrow> string) \<Rightarrow> tree option \<Rightarrow> tree_error + tree_sum" where
  "digestTree sha root =
     bind_result (walk_root root) (\<lambda>ns.
       if list_ex (\<lambda>(p, t). is_link t) ns then Inl Link_refused
       else let files = sort_key fst (filter (\<lambda>(p, t). \<not> is_directory t) ns) in
         bind_result (file_bytes files) (\<lambda>s.
           Inr \<lparr>ts_digest = sha s, ts_files = int (length files),
             ts_bytes = int (sum_list (regular_sizes files))\<rparr>))"

section \<open>The key of a Library image\<close>

text \<open>\<^verbatim>\<open>libraryimage.Key\<close>; \<^verbatim>\<open>keyPayload\<close> is the same without the digest.\<close>

record key_payload =
  kp_schema :: string
  kp_unity_version :: string
  kp_unity_executable :: string
  kp_manifest :: string
  kp_packages_lock :: string
  kp_project_settings :: string
  kp_build_target :: string
  kp_scripting_backend :: string
  kp_project_identity :: string

record image_key = key_payload +
  ik_digest :: string

definition SchemaVersion :: string where "SchemaVersion = ''1''"

text \<open>
  The project as the key reads it: its absolute path and that path with its links resolved, the files,
  and the tree of \<^verbatim>\<open>ProjectSettings\<close>.
\<close>

record project =
  pj_abs :: "string option"
  pj_resolved :: "string option"
  pj_version :: "string file_read"
  pj_manifest :: "string file_read"
  pj_lock :: "string file_read"
  pj_settings :: "tree option"
  pj_settings_asset :: "string file_read"

datatype key_error =
    Identity_error | Version_error | Manifest_error | Lock_error | Settings_error tree_error

definition canonicalProjectIdentity :: "project \<Rightarrow> key_error + string" where
  "canonicalProjectIdentity p =
     (case pj_abs p of
        None \<Rightarrow> Inl Identity_error
      | Some a \<Rightarrow> Inr (Clean (case pj_resolved p of None \<Rightarrow> a | Some r \<Rightarrow> r)))"

fun version_line :: "string list \<Rightarrow> string option" where
  "version_line [] = None"
| "version_line (l # ls) =
     (case cut_prefix (trim_space l) ''m_EditorVersion:'' of
        Some v \<Rightarrow> Some (trim_space v)
      | None \<Rightarrow> version_line ls)"

definition parseUnityVersion :: "string \<Rightarrow> string" where
  "parseUnityVersion data =
     (case version_line (split_on newline data) of Some v \<Rightarrow> v | None \<Rightarrow> trim_space data)"

definition scriptingBackend :: "string file_read \<Rightarrow> string" where
  "scriptingBackend r =
     (case r of
        FileBytes data \<Rightarrow>
          (case find (\<lambda>l. has_prefix l ''scriptingBackend:'') (map trim_space (split_on newline data)) of
             Some l \<Rightarrow> l
           | None \<Rightarrow> ''covered-by-project-settings-hash'')
      | _ \<Rightarrow> ''covered-by-project-settings-hash'')"

definition read_version :: "project \<Rightarrow> key_error + string" where
  "read_version p = (case pj_version p of FileBytes d \<Rightarrow> Inr d | _ \<Rightarrow> Inl Version_error)"

definition manifest_digest :: "(string \<Rightarrow> string) \<Rightarrow> project \<Rightarrow> key_error + string" where
  "manifest_digest sha p = (case pj_manifest p of FileBytes d \<Rightarrow> Inr (sha d) | _ \<Rightarrow> Inl Manifest_error)"

definition lock_digest :: "(string \<Rightarrow> string) \<Rightarrow> project \<Rightarrow> key_error + string" where
  "lock_digest sha p = (case pj_lock p of
       FileMissing \<Rightarrow> Inr ''missing'' | FileUnreadable \<Rightarrow> Inl Lock_error | FileBytes d \<Rightarrow> Inr (sha d))"

definition settings_digest :: "(string \<Rightarrow> string) \<Rightarrow> project \<Rightarrow> key_error + string" where
  "settings_digest sha p =
     (case hashTree sha (pj_settings p) of Inl e \<Rightarrow> Inl (Settings_error e) | Inr s \<Rightarrow> Inr (ts_digest s))"

definition key_of_payload :: "(string \<Rightarrow> string) \<Rightarrow> (key_payload \<Rightarrow> string) \<Rightarrow> key_payload \<Rightarrow> image_key" where
  "key_of_payload sha enc k = key_payload.extend k \<lparr>ik_digest = sha (enc k)\<rparr>"

definition ComputeKey ::
    "(string \<Rightarrow> string) \<Rightarrow> (key_payload \<Rightarrow> string) \<Rightarrow> string \<Rightarrow> project \<Rightarrow> string \<Rightarrow> key_error + image_key" where
  "ComputeKey sha enc platform p unityPath =
     bind_result (canonicalProjectIdentity p) (\<lambda>identity.
     bind_result (read_version p) (\<lambda>version.
     bind_result (manifest_digest sha p) (\<lambda>manifest.
     bind_result (lock_digest sha p) (\<lambda>lock.
     bind_result (settings_digest sha p) (\<lambda>settings.
       Inr (key_of_payload sha enc
         \<lparr>kp_schema = SchemaVersion, kp_unity_version = parseUnityVersion version,
          kp_unity_executable = sha (Clean unityPath), kp_manifest = manifest, kp_packages_lock = lock,
          kp_project_settings = settings, kp_build_target = platform,
          kp_scripting_backend = scriptingBackend (pj_settings_asset p),
          kp_project_identity = sha identity\<rparr>))))))"

section \<open>What a digest tells apart\<close>

text \<open>
  Both digests hash a sequence of headers and contents. With the same headers and contents without
  a NUL byte the contents can be read back.
\<close>

definition framed :: "(string \<times> string) list \<Rightarrow> string" where
  "framed xs = concat (map (\<lambda>(h, c). h @ [nul] @ c) xs)"

definition content_of :: "tree \<Rightarrow> string" where
  "content_of t = (case node_content t of Inl e \<Rightarrow> [] | Inr c \<Rightarrow> c)"

definition readable :: "(string \<times> tree) list \<Rightarrow> bool" where
  "readable ns \<longleftrightarrow> list_all (\<lambda>(p, t). is_ok (node_content t)) ns"

definition mode_header :: "string \<times> tree \<Rightarrow> string" where
  "mode_header n = fst n @ [nul] @ mode_of (snd n)"

lemma framed_simps [simp]:
  "framed [] = []" "framed ((h, c) # xs) = h @ [nul] @ c @ framed xs"
  by (simp_all add: framed_def)

lemma readable_simps [simp]:
  "readable []" "readable ((p, t) # ns) \<longleftrightarrow> is_ok (node_content t) \<and> readable ns"
  by (simp_all add: readable_def)

lemma content_of_Inr: "node_content t = Inr c \<Longrightarrow> content_of t = c"
  by (simp add: content_of_def)

lemma node_bytes_framed:
  "node_bytes ns = Inr s \<longleftrightarrow> readable ns \<and> s = framed (map (\<lambda>n. (mode_header n, content_of (snd n))) ns)"
proof (induction ns arbitrary: s)
  case (Cons n ns)
  obtain p t where "n = (p, t)" by fastforce
  then show ?case using Cons.IH
    by (cases "node_content t"; cases "node_bytes ns") (auto simp: content_of_Inr mode_header_def)
qed auto

lemma file_bytes_framed:
  "file_bytes ns = Inr s \<longleftrightarrow> readable ns \<and> s = framed (map (\<lambda>n. (fst n, content_of (snd n))) ns)"
proof (induction ns arbitrary: s)
  case (Cons n ns)
  obtain p t where "n = (p, t)" by fastforce
  then show ?case using Cons.IH
    by (cases "node_content t"; cases "file_bytes ns") (auto simp: content_of_Inr)
qed auto

lemma takeWhile_free: "nul \<notin> set c \<Longrightarrow> takeWhile (\<lambda>x. x \<noteq> nul) (c @ r) = c @ takeWhile (\<lambda>x. x \<noteq> nul) r"
  by (induction c) auto

lemma takeWhile_to_nul: "takeWhile (\<lambda>x. x \<noteq> nul) (h @ nul # r) = takeWhile (\<lambda>x. x \<noteq> nul) (h @ nul # r')"
  by (induction h) auto

lemma framed_contents:
  assumes "map fst xs = map fst ys" "\<forall>x \<in> set xs. nul \<notin> set (snd x)" "\<forall>y \<in> set ys. nul \<notin> set (snd y)"
    "framed xs = framed ys"
  shows "map snd xs = map snd ys"
  using assms
proof (induction xs arbitrary: ys)
  case (Cons x xs)
  obtain h c where x: "x = (h, c)" by fastforce
  obtain d ys' where ys: "ys = (h, d) # ys'" using Cons.prems(1) x by (cases ys) auto
  have rest: "c @ framed xs = d @ framed ys'" using Cons.prems(4) x ys by simp
  have "takeWhile (\<lambda>x. x \<noteq> nul) (framed xs) = takeWhile (\<lambda>x. x \<noteq> nul) (framed ys')"
  proof (cases xs)
    case (Cons x2 xs2)
    moreover obtain h2 c2 where "x2 = (h2, c2)" by fastforce
    moreover obtain d2 ys2 where "ys' = (h2, d2) # ys2"
      using Cons.prems(1) x ys calculation by (cases ys') auto
    ultimately show ?thesis by (simp add: takeWhile_to_nul)
  qed (use Cons.prems(1) x ys in simp)
  then have "c = d" using arg_cong [OF rest, of "takeWhile (\<lambda>x. x \<noteq> nul)"] Cons.prems(2,3) x ys
    by (simp add: takeWhile_free)
  then show ?case using Cons.IH [of ys'] Cons.prems rest x ys by simp
qed simp

text \<open>The nodes of a tree in the order in which they are hashed.\<close>

definition hashed_nodes :: "tree \<Rightarrow> (string \<times> tree) list" where
  "hashed_nodes t = (case walk_root (Some t) of Inl e \<Rightarrow> [] | Inr ns \<Rightarrow> sort_key fst ns)"

definition tree_stream :: "tree \<Rightarrow> string" where
  "tree_stream t = framed (map (\<lambda>n. (mode_header n, content_of (snd n))) (hashed_nodes t))"

lemma hashTree_Inr:
  "hashTree sha (Some t) = Inr s \<Longrightarrow> ts_digest s = sha (tree_stream t) \<and> readable (hashed_nodes t)"
  by (auto simp: hashTree_def hashed_nodes_def tree_stream_def Let_def bind_result_Inr_iff node_bytes_framed)

text \<open>Two trees with the same names and modes, and no NUL byte in what the files hold.\<close>

definition same_shape :: "tree \<Rightarrow> tree \<Rightarrow> bool" where
  "same_shape t u \<longleftrightarrow> map mode_header (hashed_nodes t) = map mode_header (hashed_nodes u) \<and>
     list_all (\<lambda>n. nul \<notin> set (content_of (snd n))) (hashed_nodes t @ hashed_nodes u)"

lemma hashTree_detects_content:
  assumes "hashTree sha (Some t) = Inr s" "hashTree sha (Some u) = Inr r" "ts_digest s = ts_digest r"
    "inj_on sha {tree_stream t, tree_stream u}" "same_shape t u"
  shows "map (content_of \<circ> snd) (hashed_nodes t) = map (content_of \<circ> snd) (hashed_nodes u)"
proof -
  have "sha (tree_stream t) = sha (tree_stream u)"
    using assms(3) hashTree_Inr [OF assms(1)] hashTree_Inr [OF assms(2)] by metis
  from inj_onD [OF assms(4) this] have "tree_stream t = tree_stream u" by blast
  then show ?thesis
    using framed_contents [of "map (\<lambda>n. (mode_header n, content_of (snd n))) (hashed_nodes t)"
        "map (\<lambda>n. (mode_header n, content_of (snd n))) (hashed_nodes u)"] assms(5)
    by (auto simp: same_shape_def tree_stream_def list_all_iff comp_def)
qed

text \<open>
  Nothing separates the content of a file from the next path, so that files can be renamed and
  changed without a change of the digest, of the number of files or of their size, for both digests.
\<close>

definition before_rename :: tree where
  "before_rename = Directory ''d'' [(''a'', Regular ''-'' (Some ''c'')), (''d'', Regular ''-'' (Some [])),
     (''ef'', Regular ''-'' (Some ''x''))]"

definition after_rename :: tree where
  "after_rename = Directory ''d'' [(''a'', Regular ''-'' (Some [])), (''cd'', Regular ''-'' (Some ''e'')),
     (''f'', Regular ''-'' (Some ''x''))]"

lemma digests_are_ambiguous:
  "before_rename \<noteq> after_rename"
  "hashTree sha (Some before_rename) = hashTree sha (Some after_rename)"
  "digestTree sha (Some before_rename) = digestTree sha (Some after_rename)"
  by (simp_all add: before_rename_def after_rename_def hashTree_def digestTree_def walk_root_def below_def
      node_content_def is_link_def is_directory_def mode_of_def regular_sizes_def sort_key_def)

section \<open>What an image key tells apart\<close>

text \<open>Two equal keys come from the same inputs, as long as the hash does not collide on them.\<close>

definition hashed_inputs :: "(key_payload \<Rightarrow> string) \<Rightarrow> image_key \<Rightarrow> project \<Rightarrow> string \<Rightarrow> string set" where
  "hashed_inputs enc k p unityPath =
     {enc (key_payload.truncate k), Clean unityPath} \<union>
     (case pj_manifest p of FileBytes d \<Rightarrow> {d} | _ \<Rightarrow> {}) \<union> (case pj_lock p of FileBytes d \<Rightarrow> {d} | _ \<Rightarrow> {}) \<union>
     (case pj_settings p of None \<Rightarrow> {} | Some t \<Rightarrow> {tree_stream t}) \<union>
     (case canonicalProjectIdentity p of Inl e \<Rightarrow> {} | Inr i \<Rightarrow> {i})"

definition unity_version_of :: "project \<Rightarrow> string" where
  "unity_version_of p = (case pj_version p of FileBytes d \<Rightarrow> parseUnityVersion d | _ \<Rightarrow> [])"

lemma ComputeKey_Inr:
  assumes "ComputeKey sha enc platform p unityPath = Inr k"
  shows "\<exists>i m t. canonicalProjectIdentity p = Inr i \<and> pj_manifest p = FileBytes m \<and> pj_settings p = Some t \<and>
     pj_lock p \<noteq> FileUnreadable \<and>
     k = key_of_payload sha enc \<lparr>kp_schema = SchemaVersion, kp_unity_version = unity_version_of p,
          kp_unity_executable = sha (Clean unityPath), kp_manifest = sha m,
          kp_packages_lock = (case pj_lock p of FileBytes d \<Rightarrow> sha d | _ \<Rightarrow> ''missing''),
          kp_project_settings = sha (tree_stream t), kp_build_target = platform,
          kp_scripting_backend = scriptingBackend (pj_settings_asset p), kp_project_identity = sha i\<rparr>"
proof -
  have set: "\<exists>t. pj_settings p = Some t \<and> x = sha (tree_stream t)" if "settings_digest sha p = Inr x" for x
  proof (cases "pj_settings p")
    case None
    then show ?thesis using that by (simp add: settings_digest_def hashTree_def walk_root_def)
  next
    case (Some t)
    then show ?thesis using that hashTree_Inr [of sha t] by (auto simp: settings_digest_def split: sum.splits)
  qed
  show ?thesis using assms
    by (auto simp: ComputeKey_def bind_result_Inr_iff read_version_def manifest_digest_def lock_digest_def
        unity_version_of_def dest!: set split: file_read.splits)
qed

definition lock_of :: "project \<Rightarrow> string option" where
  "lock_of p = (case pj_lock p of FileBytes d \<Rightarrow> Some d | _ \<Rightarrow> None)"

text \<open>What a key stands for.\<close>

definition key_inputs :: "project \<Rightarrow> string \<Rightarrow> string \<Rightarrow>
    string \<times> string \<times> string file_read \<times> string option \<times> string option \<times> string \<times> string \<times>
    (key_error + string)" where
  "key_inputs p unityPath platform =
     (unity_version_of p, Clean unityPath, pj_manifest p, lock_of p, map_option tree_stream (pj_settings p),
      platform, scriptingBackend (pj_settings_asset p), canonicalProjectIdentity p)"

lemma key_of_payload_simps [simp]:
  "key_payload.truncate (key_of_payload sha enc k) = k" "ik_digest (key_of_payload sha enc k) = sha (enc k)"
  by (simp_all add: key_of_payload_def key_payload.defs)

text \<open>
  A Library image is only reused for the state it was built from: two projects whose images have the
  same digest have the same Unity version and executable, the same manifest and lock file, the same
  hashed project settings, build target, scripting backend and project directory, provided SHA-256 does
  not collide on the bytes the two keys hash and the JSON encoding loses nothing.
\<close>

lemma image_key_separates:
  assumes "ComputeKey sha enc os p u = Inr k" "ComputeKey sha enc os' p' u' = Inr k'"
    "ik_digest k = ik_digest k'"
    and no_collision: "inj_on sha (hashed_inputs enc k p u \<union> hashed_inputs enc k' p' u')"
    and encoding: "inj enc" and digests: "\<And>x. sha x \<noteq> ''missing''"
  shows "key_inputs p u os = key_inputs p' u' os'"
proof -
  let ?S = "hashed_inputs enc k p u \<union> hashed_inputs enc k' p' u'"
  obtain i m t where a: "canonicalProjectIdentity p = Inr i" "pj_manifest p = FileBytes m" "pj_settings p = Some t"
      "pj_lock p \<noteq> FileUnreadable"
      "k = key_of_payload sha enc \<lparr>kp_schema = SchemaVersion, kp_unity_version = unity_version_of p,
          kp_unity_executable = sha (Clean u), kp_manifest = sha m,
          kp_packages_lock = (case pj_lock p of FileBytes d \<Rightarrow> sha d | _ \<Rightarrow> ''missing''),
          kp_project_settings = sha (tree_stream t), kp_build_target = os,
          kp_scripting_backend = scriptingBackend (pj_settings_asset p), kp_project_identity = sha i\<rparr>"
    using ComputeKey_Inr [OF assms(1)] by blast
  obtain i' m' t' where b: "canonicalProjectIdentity p' = Inr i'" "pj_manifest p' = FileBytes m'"
      "pj_settings p' = Some t'" "pj_lock p' \<noteq> FileUnreadable"
      "k' = key_of_payload sha enc \<lparr>kp_schema = SchemaVersion, kp_unity_version = unity_version_of p',
          kp_unity_executable = sha (Clean u'), kp_manifest = sha m',
          kp_packages_lock = (case pj_lock p' of FileBytes d \<Rightarrow> sha d | _ \<Rightarrow> ''missing''),
          kp_project_settings = sha (tree_stream t'), kp_build_target = os',
          kp_scripting_backend = scriptingBackend (pj_settings_asset p'), kp_project_identity = sha i'\<rparr>"
    using ComputeKey_Inr [OF assms(2)] by blast
  note sep = inj_onD [OF no_collision]
  have "sha (enc (key_payload.truncate k)) = sha (enc (key_payload.truncate k'))"
    using assms(3) by (simp add: a(5) b(5))
  then have "enc (key_payload.truncate k) = enc (key_payload.truncate k')"
    by (rule sep) (simp_all add: hashed_inputs_def)
  then have payload: "key_payload.truncate k = key_payload.truncate k'" using encoding by (simp add: inj_def)
  have member: "{Clean u, m, tree_stream t, i} \<subseteq> ?S" "{Clean u', m', tree_stream t', i'} \<subseteq> ?S"
    using a(1-3) b(1-3) by (auto simp: hashed_inputs_def)
  have "sha (Clean u) = sha (Clean u')" "sha m = sha m'" "sha (tree_stream t) = sha (tree_stream t')" "sha i = sha i'"
    using payload by (simp_all add: a(5) b(5))
  from this [THEN sep] member
  have "Clean u = Clean u'" "m = m'" "tree_stream t = tree_stream t'" "i = i'" by blast+
  moreover have "lock_of p = lock_of p'"
  proof -
    let ?l = "\<lambda>p. case pj_lock p of FileBytes d \<Rightarrow> sha d | _ \<Rightarrow> ''missing''"
    have l: "?l p = ?l p'" using payload by (simp add: a(5) b(5))
    show ?thesis
    proof (cases "pj_lock p")
      case (FileBytes d)
      then obtain e where e: "pj_lock p' = FileBytes e" "sha d = sha e"
        using l digests [of d] by (cases "pj_lock p'") auto
      then have "d = e" using sep [OF e(2)] FileBytes by (simp add: hashed_inputs_def)
      then show ?thesis using e FileBytes by (simp add: lock_of_def)
    next
      case FileMissing
      then have "\<forall>d. pj_lock p' \<noteq> FileBytes d" using l digests by (metis file_read.simps(8,10))
      then show ?thesis using FileMissing by (cases "pj_lock p'") (simp_all add: lock_of_def)
    qed (use a(4) in simp)
  qed
  ultimately show ?thesis using payload a(1-3) b(1-3) by (simp add: key_inputs_def a(5) b(5))
qed

end
