(* ===== verification/ImageLock.thy ===== *)
theory ImageLock
  imports Retention Machine
begin

text \<open>
  The creation lock of Library images, \<^verbatim>\<open>internal/libraryimage/lock.go\<close>: one file per image,
  made exclusively, taken over when it is stale. Each file operation is one step, so that the steps of
  several processes interleave in any order; a process alone is the special case the store uses.
\<close>

section \<open>The lock file and a process\<close>

record lock_record =
  lk_pid :: int
  lk_token :: string
  lk_created :: int

text \<open>
  The file is absent, unreadable, or its bytes decode to a record or not; in particular it is empty
  between its creation and the write.
\<close>

type_synonym lock_file = "lock_record option file_read"

text \<open>Seconds.\<close>

definition staleLockAge :: int where
  "staleLockAge = 30 * 60"

text \<open>
  Where a process is: about to create the file (\<open>Trying\<close>, with the number of earlier attempts), to
  write its record, to read the file that exists, to read it again after it looked stale, to remove it;
  holding the lock; about to remove its own file; and the two ends.
\<close>

datatype lock_pc =
    Trying nat
  | Writing
  | Reading nat
  | Stale nat lock_record
  | Removing nat
  | Holding
  | Unlinking
  | Refused
  | Gone

record lock_process =
  pr_pid :: int
  pr_token :: string
  pr_created :: int
  pr_pc :: lock_pc
  pr_alive :: bool

text \<open>
  What the system answers to one step: the clock, the random token (\<open>None\<close> when the source fails),
  whether the file operation fails, whether the cleanup after a failed write fails too.
\<close>

record lock_answer =
  la_now :: int
  la_token :: "string option"
  la_fails :: bool
  la_cleanup_fails :: bool

definition at :: "lock_pc \<Rightarrow> lock_process \<Rightarrow> lock_process" where
  "at pc p = p\<lparr>pr_pc := pc\<rparr>"

definition is_stale :: "lock_answer \<Rightarrow> (int \<Rightarrow> bool) \<Rightarrow> lock_process \<Rightarrow> lock_record \<Rightarrow> bool" where
  "is_stale a alive p r \<longleftrightarrow>
     \<not> (lk_pid r = pr_pid p \<or> la_now a - lk_created r < staleLockAge \<or> alive (lk_pid r))"

text \<open>One step of \<^verbatim>\<open>acquireLock\<close> or \<^verbatim>\<open>release\<close>.\<close>

definition try_create :: "lock_answer \<Rightarrow> nat \<Rightarrow> lock_process \<Rightarrow> lock_file \<Rightarrow> lock_process \<times> lock_file" where
  "try_create a n p f =
     (if 2 \<le> n then (at Refused p, f)
      else case la_token a of
          None \<Rightarrow> (at Refused p, f)
        | Some token \<Rightarrow>
            (if f \<noteq> FileMissing then (at (Reading n) p, f)
             else if la_fails a then (at Refused p, f)
             else (at Writing p\<lparr>pr_token := token, pr_created := la_now a\<rparr>, FileBytes None)))"

definition write_record :: "lock_answer \<Rightarrow> lock_process \<Rightarrow> lock_file \<Rightarrow> lock_process \<times> lock_file" where
  "write_record a p f =
     (if la_fails a then (at Refused p, if la_cleanup_fails a then f else FileMissing)
      else (at Holding p,
        FileBytes (Some \<lparr>lk_pid = pr_pid p, lk_token = pr_token p, lk_created = pr_created p\<rparr>)))"

definition read_existing ::
    "lock_answer \<Rightarrow> (int \<Rightarrow> bool) \<Rightarrow> nat \<Rightarrow> lock_process \<Rightarrow> lock_file \<Rightarrow> lock_process \<times> lock_file" where
  "read_existing a alive n p f =
     (if la_fails a then (at Refused p, f)
      else case f of
          FileBytes (Some r) \<Rightarrow> (at (if is_stale a alive p r then Stale n r else Refused) p, f)
        | _ \<Rightarrow> (at Refused p, f))"

definition remove_own :: "lock_answer \<Rightarrow> lock_process \<Rightarrow> lock_file \<Rightarrow> lock_process \<times> lock_file" where
  "remove_own a p f =
     (case f of
        FileBytes (Some r) \<Rightarrow> (if la_fails a \<or> lk_token r \<noteq> pr_token p then (at Gone p, f) else (at Unlinking p, f))
      | _ \<Rightarrow> (at Gone p, f))"

definition process_step ::
    "lock_answer \<Rightarrow> (int \<Rightarrow> bool) \<Rightarrow> lock_process \<Rightarrow> lock_file \<Rightarrow> lock_process \<times> lock_file" where
  "process_step a alive p f =
     (case pr_pc p of
        Trying n \<Rightarrow> try_create a n p f
      | Writing \<Rightarrow> write_record a p f
      | Reading n \<Rightarrow> read_existing a alive n p f
      | Stale n r \<Rightarrow> (if la_fails a \<or> f \<noteq> FileBytes (Some r) then (at Refused p, f) else (at (Removing n) p, f))
      | Removing n \<Rightarrow> (if la_fails a \<or> f = FileMissing then (at Refused p, f) else (at (Trying (Suc n)) p, FileMissing))
      | Holding \<Rightarrow> remove_own a p f
      | Unlinking \<Rightarrow> (at Gone p, if la_fails a then f else FileMissing)
      | _ \<Rightarrow> (p, f))"

section \<open>Several processes\<close>

record lock_state =
  lw_file :: lock_file
  lw_processes :: "lock_process list"

text \<open>A process takes its next step, or its program ends wherever it is.\<close>

datatype lock_event = Step nat lock_answer | Crash nat

definition alive_in :: "lock_process list \<Rightarrow> int \<Rightarrow> bool" where
  "alive_in ps pid \<longleftrightarrow> list_ex (\<lambda>p. pr_pid p = pid \<and> pr_alive p) ps"

definition lock_step :: "lock_event \<Rightarrow> lock_state \<Rightarrow> lock_state option" where
  "lock_step e s =
     (case e of
        Step i a \<Rightarrow>
          (if i < length (lw_processes s) \<and> pr_alive (lw_processes s ! i) \<and>
              pr_pc (lw_processes s ! i) \<notin> {Refused, Gone} then
            (case process_step a (alive_in (lw_processes s)) (lw_processes s ! i) (lw_file s) of
               (p, f) \<Rightarrow> Some \<lparr>lw_file = f, lw_processes = (lw_processes s)[i := p]\<rparr>)
           else None)
      | Crash i \<Rightarrow>
          (if i < length (lw_processes s) then
             Some (s\<lparr>lw_processes := (lw_processes s)[i := (lw_processes s ! i)\<lparr>pr_alive := False\<rparr>]\<rparr>)
           else None))"

fun lock_steps :: "lock_event list \<Rightarrow> lock_state \<Rightarrow> lock_state option" where
  "lock_steps [] s = Some s"
| "lock_steps (e # es) s = (case lock_step e s of None \<Rightarrow> None | Some t \<Rightarrow> lock_steps es t)"

definition newcomer :: "int \<Rightarrow> lock_process" where
  "newcomer pid = \<lparr>pr_pid = pid, pr_token = [], pr_created = 0, pr_pc = Trying 0, pr_alive = True\<rparr>"

definition lock_start :: "lock_file \<Rightarrow> int list \<Rightarrow> lock_state" where
  "lock_start f pids = \<lparr>lw_file = f, lw_processes = map newcomer pids\<rparr>"

text \<open>The processes between the creation and the removal of their file, and the holders among them.\<close>

definition owns :: "lock_process \<Rightarrow> bool" where
  "owns p \<longleftrightarrow> pr_pc p \<in> {Writing, Holding, Unlinking}"

definition holders :: "lock_state \<Rightarrow> lock_process list" where
  "holders s = filter (\<lambda>p. pr_pc p \<in> {Holding, Unlinking}) (lw_processes s)"

section \<open>A process alone\<close>

text \<open>
  \<^verbatim>\<open>acquireLock\<close> with no other process at the file: one answer per step. The outcome is reached
  in at most nine steps, whatever the answers.
\<close>

fun alone :: "nat \<Rightarrow> (nat \<Rightarrow> lock_answer) \<Rightarrow> (int \<Rightarrow> bool) \<Rightarrow> lock_process \<Rightarrow> lock_file \<Rightarrow> lock_process \<times> lock_file" where
  "alone 0 as alive p f = (p, f)"
| "alone (Suc k) as alive p f =
     (if pr_pc p \<in> {Holding, Refused, Gone} then (p, f)
      else case process_step (as 0) alive p f of (p1, f1) \<Rightarrow> alone k (\<lambda>i. as (Suc i)) alive p1 f1)"

definition acquireLock :: "(nat \<Rightarrow> lock_answer) \<Rightarrow> (int \<Rightarrow> bool) \<Rightarrow> int \<Rightarrow> lock_file \<Rightarrow> lock_process \<times> lock_file" where
  "acquireLock as alive pid f = alone 9 as alive (newcomer pid) f"

definition release_lock :: "lock_answer \<Rightarrow> lock_answer \<Rightarrow> lock_process \<Rightarrow> lock_file \<Rightarrow> lock_file" where
  "release_lock a b p f =
     (case process_step a (\<lambda>_. True) p f of (p1, f1) \<Rightarrow> snd (process_step b (\<lambda>_. True) p1 f1))"

section \<open>What a process alone achieves\<close>

lemmas process_step_defs = process_step_def try_create_def write_record_def read_existing_def remove_own_def
  at_def newcomer_def

lemma process_pid [simp]: "pr_pid (at pc p) = pr_pid p" "pr_pc (at pc p) = pc" "pr_alive (at pc p) = pr_alive p"
  "pr_token (at pc p) = pr_token p"
  by (simp_all add: at_def)

lemma process_step_frame:
  "process_step a alive p f = (p', f') \<Longrightarrow> pr_pid p' = pr_pid p \<and> pr_alive p' = pr_alive p"
  by (cases "pr_pc p") (auto simp: process_step_defs split: if_splits option.splits file_read.splits)

definition own_record :: "lock_process \<Rightarrow> lock_file \<Rightarrow> bool" where
  "own_record p f \<longleftrightarrow> (case f of
     FileBytes (Some r) \<Rightarrow> lk_pid r = pr_pid p \<and> lk_token r = pr_token p
   | _ \<Rightarrow> False)"

text \<open>Steps that are left before an end, at most.\<close>

fun to_go :: "lock_pc \<Rightarrow> nat" where
  "to_go (Trying n) = (if n = 0 then 9 else if n = 1 then 5 else 1)"
| "to_go Writing = 1"
| "to_go (Reading n) = (if n = 0 then 8 else 4)"
| "to_go (Stale n r) = (if n = 0 then 7 else 3)"
| "to_go (Removing n) = (if n = 0 then 6 else 2)"
| "to_go _ = 0"

lemma process_step_to_go:
  assumes "process_step a alive p f = (p', f')" "pr_pc p \<notin> {Holding, Unlinking, Refused, Gone}"
  shows "to_go (pr_pc p') < to_go (pr_pc p) \<and> pr_pc p' \<notin> {Unlinking, Gone}"
  using assms
  by (cases "pr_pc p") (auto simp: process_step_defs split: if_splits option.splits file_read.splits)

lemma alone_ends:
  assumes "alone k as alive p f = (p', f')" "to_go (pr_pc p) \<le> k" "pr_pc p \<notin> {Unlinking, Gone}"
  shows "pr_pc p' \<in> {Holding, Refused}"
  using assms
proof (induction k arbitrary: as p f)
  case 0
  then show ?case by (cases "pr_pc p") (auto split: if_splits)
next
  case (Suc k)
  show ?case
  proof (cases "pr_pc p \<in> {Holding, Refused, Gone}")
    case False
    obtain p1 f1 where one: "process_step (as 0) alive p f = (p1, f1)" by fastforce
    have "to_go (pr_pc p1) < to_go (pr_pc p) \<and> pr_pc p1 \<notin> {Unlinking, Gone}"
      using process_step_to_go [OF one] False Suc.prems(3) by blast
    then show ?thesis using Suc.IH [of "\<lambda>i. as (Suc i)" p1 f1] Suc.prems False one by auto
  qed (use Suc.prems in auto)
qed

text \<open>A lock that is taken holds the record of its owner, and was absent or stale before.\<close>

definition takeable :: "(int \<Rightarrow> bool) \<Rightarrow> int \<Rightarrow> lock_file \<Rightarrow> bool" where
  "takeable alive pid f \<longleftrightarrow> (case f of
     FileMissing \<Rightarrow> True
   | FileBytes (Some r) \<Rightarrow> lk_pid r \<noteq> pid \<and> \<not> alive (lk_pid r)
   | _ \<Rightarrow> False)"

definition stage_ok :: "(int \<Rightarrow> bool) \<Rightarrow> lock_file \<Rightarrow> lock_process \<Rightarrow> lock_file \<Rightarrow> bool" where
  "stage_ok alive f0 p f \<longleftrightarrow> (case pr_pc p of
     Holding \<Rightarrow> takeable alive (pr_pid p) f0 \<and> own_record p f
   | Writing \<Rightarrow> takeable alive (pr_pid p) f0
   | Stale n r \<Rightarrow> takeable alive (pr_pid p) (FileBytes (Some r)) \<and> (f = f0 \<or> takeable alive (pr_pid p) f0)
   | Removing n \<Rightarrow> takeable alive (pr_pid p) f0
   | Refused \<Rightarrow> True
   | Gone \<Rightarrow> False
   | Unlinking \<Rightarrow> False
   | _ \<Rightarrow> f = f0 \<or> takeable alive (pr_pid p) f0)"

lemma process_step_stage:
  assumes "process_step a alive p f = (p', f')" "stage_ok alive f0 p f" "pr_pc p \<noteq> Holding"
  shows "stage_ok alive f0 p' f'"
  using assms
  by (cases "pr_pc p") (auto simp: process_step_defs stage_ok_def takeable_def own_record_def is_stale_def
      split: if_splits option.splits file_read.splits)

lemma alone_stage:
  "alone k as alive p f = (p', f') \<Longrightarrow> stage_ok alive f0 p f \<Longrightarrow> stage_ok alive f0 p' f' \<and> pr_pid p' = pr_pid p"
proof (induction k arbitrary: as p f)
  case (Suc k)
  show ?case
  proof (cases "pr_pc p \<in> {Holding, Refused, Gone}")
    case False
    obtain p1 f1 where one: "process_step (as 0) alive p f = (p1, f1)" by fastforce
    have "stage_ok alive f0 p1 f1" using process_step_stage [OF one Suc.prems(2)] False by blast
    then show ?thesis using Suc.IH [of "\<lambda>i. as (Suc i)" p1 f1] Suc.prems False one process_step_frame [OF one]
      by auto
  qed (use Suc.prems in auto)
qed simp

lemma acquireLock_outcome:
  assumes "acquireLock as alive pid f = (p, f')"
  shows "pr_pc p = Holding \<and> takeable alive pid f \<and> own_record p f' \<and> pr_pid p = pid \<or> pr_pc p = Refused"
proof -
  have start: "stage_ok alive f (newcomer pid) f" by (simp add: stage_ok_def newcomer_def)
  have "pr_pc p \<in> {Holding, Refused}"
    using alone_ends [of 9 as alive "newcomer pid" f p f'] assms by (simp add: acquireLock_def newcomer_def)
  then show ?thesis using alone_stage [OF _ start, of 9 as p f'] assms
    by (auto simp: acquireLock_def stage_ok_def newcomer_def)
qed

text \<open>The owner's release removes the file, when the file system lets it.\<close>

lemma release_own:
  assumes "own_record p f" "pr_pc p = Holding" "\<not> la_fails a" "\<not> la_fails b"
  shows "release_lock a b p f = FileMissing"
  using assms by (auto simp: release_lock_def own_record_def process_step_defs split: file_read.splits option.splits)

section \<open>Mutual exclusion\<close>

interpretation image_lock: machine lock_step lock_steps "\<lambda>s. True"
  by unfold_locales simp_all

text \<open>
  While no process dies, the file of a process that owns the lock is there, it names a process that
  lives, and so no other process ever believes the lock stale.
\<close>

definition lock_ok :: "lock_state \<Rightarrow> bool" where
  "lock_ok s \<longleftrightarrow>
     list_all pr_alive (lw_processes s) \<and>
     list_all (\<lambda>p. case pr_pc p of Stale n r \<Rightarrow> False | Removing n \<Rightarrow> False | _ \<Rightarrow> True) (lw_processes s) \<and>
     length (filter owns (lw_processes s)) \<le> (if lw_file s = FileMissing then 0 else 1) \<and>
     (case lw_file s of FileBytes (Some r) \<Rightarrow> alive_in (lw_processes s) (lk_pid r) | _ \<Rightarrow> True)"

lemma count_update:
  "i < length ps \<Longrightarrow> length (filter owns (ps[i := p])) + (if owns (ps ! i) then 1 else 0) =
     length (filter owns ps) + (if owns p then 1 else 0)"
proof (induction ps arbitrary: i)
  case (Cons q ps)
  then show ?case by (cases i) auto
qed simp

lemma alive_in_update:
  "i < length ps \<Longrightarrow> pr_pid p = pr_pid (ps ! i) \<Longrightarrow> pr_alive p = pr_alive (ps ! i) \<Longrightarrow>
     alive_in (ps[i := p]) pid = alive_in ps pid"
proof (induction ps arbitrary: i)
  case (Cons q ps)
  then show ?case by (cases i) (auto simp: alive_in_def)
qed simp

lemma list_all_update: "list_all P ps \<Longrightarrow> P p \<Longrightarrow> list_all P (ps[i := p])"
  using set_update_subset_insert [of ps i p] by (auto simp: list_all_iff)

definition no_doubt :: "lock_process \<Rightarrow> bool" where
  "no_doubt p \<longleftrightarrow> (case pr_pc p of Stale n r \<Rightarrow> False | Removing n \<Rightarrow> False | _ \<Rightarrow> True)"

text \<open>One step of one process, as the others see it.\<close>

lemma process_step_ok:
  assumes "process_step a alive p f = (p', f')" "no_doubt p"
    "\<And>r. f = FileBytes (Some r) \<Longrightarrow> alive (lk_pid r)" "alive (pr_pid p)"
  shows "no_doubt p'" "\<And>r. f' = FileBytes (Some r) \<Longrightarrow> alive (lk_pid r)"
    "owns p' \<and> \<not> owns p \<Longrightarrow> f = FileMissing" "owns p' \<Longrightarrow> owns p \<Longrightarrow> f \<noteq> FileMissing \<Longrightarrow> f' \<noteq> FileMissing"
    "\<not> owns p \<Longrightarrow> f \<noteq> FileMissing \<Longrightarrow> f' = f" "owns p' \<Longrightarrow> \<not> owns p \<Longrightarrow> f' \<noteq> FileMissing"
  using assms
  by (cases "pr_pc p"; auto simp: process_step_defs no_doubt_def owns_def is_stale_def
      split: if_splits option.splits file_read.splits)+

lemma lock_step_ok:
  assumes "lock_ok s" "lock_step (Step i a) s = Some t"
  shows "lock_ok t"
proof -
  let ?ps = "lw_processes s"
  obtain p f where st: "process_step a (alive_in ?ps) (?ps ! i) (lw_file s) = (p, f)" by fastforce
  have i: "i < length ?ps" "t = \<lparr>lw_file = f, lw_processes = ?ps[i := p]\<rparr>"
    using assms(2) st by (auto simp: lock_step_def split: if_splits)
  have alive: "pr_alive (?ps ! i)" "alive_in ?ps (pr_pid (?ps ! i))"
    using assms(1) i by (auto simp: lock_ok_def list_all_length alive_in_def list_ex_length)
  have nd: "no_doubt (?ps ! i)" "list_all no_doubt ?ps"
    using assms(1) i by (simp_all add: lock_ok_def no_doubt_def list_all_length)
  have rec: "alive_in ?ps (lk_pid r)" if "lw_file s = FileBytes (Some r)" for r
    using assms(1) that by (simp add: lock_ok_def)
  note ok = process_step_ok [OF st nd(1) rec alive(2)]
  have frame: "pr_pid p = pr_pid (?ps ! i)" "pr_alive p = pr_alive (?ps ! i)" using process_step_frame [OF st] by auto
  have same: "alive_in (?ps[i := p]) = alive_in ?ps" by (intro ext alive_in_update [OF i(1) frame])
  have count: "length (filter owns (?ps[i := p])) + (if owns (?ps ! i) then 1 else 0) =
      length (filter owns ?ps) + (if owns p then 1 else 0)" by (rule count_update [OF i(1)])
  have before: "length (filter owns ?ps) \<le> (if lw_file s = FileMissing then 0 else 1)"
    using assms(1) by (simp add: lock_ok_def)
  have "length (filter owns (?ps[i := p])) \<le> (if f = FileMissing then 0 else 1)"
  proof (cases "owns (?ps ! i)")
    case True
    then have pos: "0 < length (filter owns ?ps)" using i(1) by (auto simp: filter_empty_conv)
    then have "lw_file s \<noteq> FileMissing" using before by (cases "lw_file s = FileMissing") simp_all
    then have one: "length (filter owns ?ps) = 1" "lw_file s \<noteq> FileMissing"
      using before pos by (simp_all del: length_greater_0_conv)
    show ?thesis using count one ok(4) True by (cases "owns p") auto
  next
    case False
    show ?thesis
    proof (cases "owns p")
      case True
      then show ?thesis using ok(3,6) False before count by auto
    next
      case no: False
      show ?thesis using count before False no ok(5) by (cases "lw_file s = FileMissing") auto
    qed
  qed
  moreover have "list_all pr_alive (?ps[i := p])"
    using assms(1) frame alive(1) by (intro list_all_update) (simp_all add: lock_ok_def)
  moreover have "list_all no_doubt (?ps[i := p])" using nd(2) ok(1) by (rule list_all_update)
  ultimately show ?thesis using ok(2) same
    by (simp add: lock_ok_def i(2) no_doubt_def [abs_def] split: file_read.splits option.splits)
qed

definition crashless :: "lock_event \<Rightarrow> bool" where
  "crashless e \<longleftrightarrow> (case e of Step i a \<Rightarrow> True | Crash i \<Rightarrow> False)"

lemma lock_steps_ok:
  assumes "lock_steps es s = Some t" "\<forall>e \<in> set es. crashless e" "lock_ok s"
  shows "lock_ok t"
proof -
  have "lock_ok v" if "crashless e" "lock_step e u = Some v" "lock_ok u" for u e v
    using that lock_step_ok [of u _ _ v] by (cases e) (auto simp: crashless_def)
  then show ?thesis using image_lock.steps_keep [where Q = crashless and P = lock_ok] assms by blast
qed

lemma lock_start_ok: "lock_ok (lock_start FileMissing pids)"
proof -
  have "filter owns (map newcomer pids) = []" by (induction pids) (simp_all add: newcomer_def owns_def)
  moreover have "list_all pr_alive (map newcomer pids)" by (induction pids) (simp_all add: newcomer_def)
  ultimately show ?thesis by (simp add: lock_ok_def lock_start_def list_all_iff newcomer_def)
qed

lemma holders_own: "length (holders s) \<le> length (filter owns (lw_processes s))"
proof -
  have "length (filter (\<lambda>p. pr_pc p \<in> {Holding, Unlinking}) ps) \<le> length (filter owns ps)" for ps
    by (induction ps) (auto simp: owns_def)
  then show ?thesis by (simp only: holders_def)
qed

text \<open>
  C24. The creation of an image is serialised: whatever the interleaving of any number of processes, their
  clocks and the failures of their file operations, at most one of them holds the lock at any time,
  as long as no process dies on the way.
\<close>

theorem image_lock_exclusive:
  assumes "lock_steps es (lock_start FileMissing pids) = Some t" "\<forall>e \<in> set es. crashless e"
  shows "length (holders t) \<le> 1"
proof -
  have "lock_ok t" by (rule lock_steps_ok [OF assms lock_start_ok])
  then have "length (filter owns (lw_processes t)) \<le> 1"
    by (cases "lw_file t = FileMissing") (simp_all add: lock_ok_def)
  then show ?thesis using holders_own [of t] by linarith
qed

definition calm :: "int \<Rightarrow> string \<Rightarrow> lock_answer" where
  "calm now token = \<lparr>la_now = now, la_token = Some token, la_fails = False, la_cleanup_fails = False\<rparr>"

text \<open>The second process finds the lock of the first and is refused.\<close>

theorem image_lock_exclusive_witness:
  "case lock_steps [Step 0 (calm 1 ''a''), Step 1 (calm 1 ''b''), Step 0 (calm 2 []), Step 1 (calm 2 [])]
      (lock_start FileMissing [10, 11]) of
     None \<Rightarrow> False | Some t \<Rightarrow> length (holders t) = 1"
proof -
  let ?es = "[Step 0 (calm 1 ''a''), Step 1 (calm 1 ''b''), Step 0 (calm 2 []), Step 1 (calm 2 [])]"
  have run: "case lock_steps ?es (lock_start FileMissing [10, 11]) of
      None \<Rightarrow> False | Some t \<Rightarrow> holders t \<noteq> []" by code_simp
  have "\<forall>e \<in> set ?es. crashless e" by (simp add: crashless_def)
  note one = image_lock_exclusive [OF _ this]
  show ?thesis
  proof (cases "lock_steps ?es (lock_start FileMissing [10, 11])")
    case None
    show ?thesis using run unfolding None option.case .
  next
    case (Some t)
    have "holders t \<noteq> []" using run unfolding Some option.case .
    then have "length (holders t) \<noteq> 0" by simp
    then show ?thesis using one [OF Some] unfolding Some option.case by linarith
  qed
qed

section \<open>What a dead process does to the lock\<close>

text \<open>
  The lock of a dead process can be taken by two others at once: the second reading does not
  protect the removal that follows it, which may remove the lock the other process has made meanwhile.
\<close>

definition abandoned :: lock_file where
  "abandoned = FileBytes (Some \<lparr>lk_pid = 1, lk_token = ''old'', lk_created = 0\<rparr>)"

lemma stale_lock_two_holders:
  "case lock_steps
      [Step 0 (calm 5000 ''a''), Step 0 (calm 5000 []), Step 0 (calm 5000 []),
       Step 1 (calm 5000 ''b''), Step 1 (calm 5000 []), Step 1 (calm 5000 []),
       Step 0 (calm 5000 []), Step 0 (calm 5000 ''c''), Step 0 (calm 5000 []),
       Step 1 (calm 5001 []), Step 1 (calm 5001 ''d''), Step 1 (calm 5001 [])]
      (lock_start abandoned [10, 11]) of
     None \<Rightarrow> False | Some t \<Rightarrow> length (holders t) = 2"
  by code_simp

text \<open>
  A process that dies between the creation of the file and the write leaves an empty file, which is
  never taken for stale: nobody holds the lock ever after.
\<close>

lemma crash_leaves_empty_lock:
  "case lock_steps [Step 0 (calm 0 ''a''), Crash 0] (lock_start FileMissing [10]) of
     None \<Rightarrow> False | Some t \<Rightarrow> lw_file t = FileBytes None"
  by code_simp

definition kept_out :: "lock_state \<Rightarrow> bool" where
  "kept_out s \<longleftrightarrow> lw_file s = FileBytes None \<and>
     list_all (\<lambda>p. case pr_pc p of Trying n \<Rightarrow> True | Reading n \<Rightarrow> True | Refused \<Rightarrow> True | _ \<Rightarrow> False) (lw_processes s)"

lemma kept_out_step: "kept_out s \<Longrightarrow> lock_step e s = Some t \<Longrightarrow> kept_out t"
proof (cases e)
  case (Step i a)
  assume a: "kept_out s" "lock_step e s = Some t"
  let ?p = "lw_processes s ! i"
  obtain p f where st: "process_step a (alive_in (lw_processes s)) ?p (lw_file s) = (p, f)" by fastforce
  have i: "i < length (lw_processes s)" "t = \<lparr>lw_file = f, lw_processes = (lw_processes s)[i := p]\<rparr>"
    using a(2) st Step by (auto simp: lock_step_def split: if_splits)
  have "case pr_pc ?p of Trying n \<Rightarrow> True | Reading n \<Rightarrow> True | Refused \<Rightarrow> True | _ \<Rightarrow> False"
    using a(1) i(1) by (simp add: kept_out_def list_all_length)
  then have "f = FileBytes None \<and> (case pr_pc p of Trying n \<Rightarrow> True | Reading n \<Rightarrow> True | Refused \<Rightarrow> True | _ \<Rightarrow> False)"
    using st a(1) by (cases "pr_pc ?p") (auto simp: kept_out_def process_step_defs split: if_splits option.splits)
  then show "kept_out t" using a(1) by (simp add: kept_out_def i(2) list_all_update)
next
  case (Crash i)
  assume "kept_out s" "lock_step e s = Some t"
  then show "kept_out t" using Crash
    by (auto simp: lock_step_def kept_out_def list_all_length nth_list_update split: if_splits)
qed

lemma empty_lock_blocks:
  assumes "lock_steps es (lock_start (FileBytes None) pids) = Some t"
  shows "lw_file t = FileBytes None \<and> holders t = []"
proof -
  have "kept_out (lock_start (FileBytes None) pids)"
    by (simp add: kept_out_def lock_start_def list_all_iff newcomer_def)
  then have "kept_out t"
    using image_lock.steps_keep [where Q = "\<lambda>e. True" and P = kept_out] kept_out_step assms by blast
  then show ?thesis by (auto simp: kept_out_def holders_def list_all_iff filter_empty_conv split: lock_pc.splits)
qed

end
