(* ===== verification/LibraryImage.thy ===== *)
theory LibraryImage
  imports TreeDigest ImageLock
begin

text \<open>
  The store of Library images, \<^verbatim>\<open>internal/libraryimage/store.go\<close>: resolution and
  verification of an image, its creation under the lock of \<^verbatim>\<open>ImageLock\<close> by way of a staging
  directory, the quarantine of a corrupt one, and the removal of all. Every file operation that may fail
  answers as data. Documents are decoded; the durations of the verification are left out.
\<close>

section \<open>Images\<close>

record image_metadata =
  md_schema :: string
  md_key :: image_key
  md_created :: int
  md_digest :: string
  md_files :: int
  md_bytes :: int

text \<open>
  An image directory: the completion marker, the metadata (undecodable is \<open>None\<close>), the Library.
\<close>

record image_dir =
  id_complete :: "unit file_read"
  id_metadata :: "image_metadata option file_read"
  id_library :: "tree option"

datatype image_status = Image_valid | Image_missing | Image_stale | Image_corrupt | Image_unsupported

text \<open>The store: the directories by name, the quarantine, the lock files.\<close>

record image_store =
  sr_root :: string
  sr_images :: "(string \<times> image_dir) list"
  sr_quarantine :: "(string \<times> image_dir) list"
  sr_locks :: "(string \<times> lock_file) list"

text \<open>An image by the name of its directory.\<close>

record library_image =
  ig_name :: string
  ig_metadata :: image_metadata

definition image_path :: "image_store \<Rightarrow> string \<Rightarrow> string" where
  "image_path s name = Join [sr_root s, ''images'', name]"

definition library_path :: "image_store \<Rightarrow> library_image \<Rightarrow> string" where
  "library_path s i = Join [image_path s (ig_name i), ''Library'']"

section \<open>Verification\<close>

datatype store_failure = Context_ended | File_error

text \<open>\<^verbatim>\<open>verifyPath\<close>: an error, the reason why the image is corrupt, or its metadata.\<close>

definition verify_library :: "(string \<Rightarrow> string) \<Rightarrow> image_metadata \<Rightarrow> tree option \<Rightarrow> store_failure + (string + image_metadata)" where
  "verify_library sha m lib =
     (case hashTree sha lib of
        Inl Tree_missing \<Rightarrow> Inr (Inl ''Library directory is missing'')
      | Inl _ \<Rightarrow> Inl File_error
      | Inr s \<Rightarrow>
          (if ts_digest s \<noteq> md_digest m \<or> ts_files s \<noteq> md_files m \<or> ts_bytes s \<noteq> md_bytes m
           then Inr (Inl ''Library integrity verification failed'') else Inr (Inr m)))"

definition verifyPath ::
    "(string \<Rightarrow> string) \<Rightarrow> bool \<Rightarrow> image_dir option \<Rightarrow> image_key \<Rightarrow> store_failure + (string + image_metadata)" where
  "verifyPath sha ended dir key =
     (if ended then Inl Context_ended
      else case dir of
          None \<Rightarrow> Inr (Inl ''completion marker is missing'')
        | Some d \<Rightarrow>
            (case id_complete d of
               FileMissing \<Rightarrow> Inr (Inl ''completion marker is missing'')
             | FileUnreadable \<Rightarrow> Inl File_error
             | FileBytes _ \<Rightarrow>
                 (case id_metadata d of
                    FileMissing \<Rightarrow> Inr (Inl ''metadata is missing'')
                  | FileUnreadable \<Rightarrow> Inl File_error
                  | FileBytes None \<Rightarrow> Inr (Inl ''metadata is invalid JSON'')
                  | FileBytes (Some m) \<Rightarrow>
                      (if md_schema m \<noteq> SchemaVersion then Inr (Inl ''metadata schema does not match'')
                       else if ik_digest (md_key m) \<noteq> ik_digest key \<or> kp_schema (md_key m) \<noteq> kp_schema key
                       then Inr (Inl ''metadata key does not match requested key'')
                       else verify_library sha m (id_library d)))))"

section \<open>Resolution\<close>

record resolution =
  rn_status :: image_status
  rn_image :: "library_image option"
  rn_reason :: string

definition hasOtherImages :: "string \<Rightarrow> image_store \<Rightarrow> bool" where
  "hasOtherImages requested s =
     list_ex (\<lambda>(n, d). n \<noteq> requested \<and> \<not> contains n ''.tmp-'') (sr_images s)"

text \<open>
  The flags: the context has ended, the directory of the image cannot be inspected, the images cannot be
  listed.
\<close>

record resolve_answer =
  ra_ended :: bool
  ra_stat_fails :: bool
  ra_list_fails :: bool

definition of_verified ::
    "string \<Rightarrow> store_failure + (string + image_metadata) \<Rightarrow> store_failure + resolution" where
  "of_verified name v =
     (case v of
        Inl e \<Rightarrow> Inl e
      | Inr (Inl reason) \<Rightarrow> Inr \<lparr>rn_status = Image_corrupt, rn_image = None, rn_reason = reason\<rparr>
      | Inr (Inr m) \<Rightarrow> Inr \<lparr>rn_status = Image_valid,
          rn_image = Some \<lparr>ig_name = name, ig_metadata = m\<rparr>, rn_reason = []\<rparr>)"

definition Resolve ::
    "(string \<Rightarrow> string) \<Rightarrow> resolve_answer \<Rightarrow> image_key \<Rightarrow> image_store \<Rightarrow> store_failure + resolution" where
  "Resolve sha a key s =
     (if ra_ended a then Inl Context_ended
      else if kp_schema key \<noteq> SchemaVersion then Inr \<lparr>rn_status = Image_unsupported, rn_image = None,
          rn_reason = ''image schema is unsupported''\<rparr>
      else if ra_stat_fails a then Inl File_error
      else case map_of (sr_images s) (ik_digest key) of
          None \<Rightarrow>
            (if ra_list_fails a then Inl File_error
             else if hasOtherImages (ik_digest key) s then Inr \<lparr>rn_status = Image_stale, rn_image = None,
               rn_reason = ''a Library image exists for a different key''\<rparr>
             else Inr \<lparr>rn_status = Image_missing, rn_image = None, rn_reason = ''no Library image exists''\<rparr>)
        | Some d \<Rightarrow> of_verified (ik_digest key) (verifyPath sha False (Some d) key))"

definition Verify ::
    "(string \<Rightarrow> string) \<Rightarrow> bool \<Rightarrow> library_image \<Rightarrow> image_store \<Rightarrow> store_failure + resolution" where
  "Verify sha ended i s =
     of_verified (ig_name i) (verifyPath sha ended (map_of (sr_images s) (ig_name i)) (md_key (ig_metadata i)))"

section \<open>Creation\<close>

text \<open>
  What the system answers while an image is made: the lock's steps, the resolution under the lock, the
  quarantine, then each step of the creation. \<open>iw_copied\<close> is what the parallel copy leaves at its
  destination and whether it reports an error; \<open>iw_ended\<close> whether the context has ended when the staged image
  is verified; \<open>iw_left\<close> what the removal of a staging directory leaves behind.
\<close>

record image_world =
  iw_lock_dir_fails :: bool
  iw_lock :: "nat \<Rightarrow> lock_answer"
  iw_release :: "lock_answer \<times> lock_answer"
  iw_alive :: "int \<Rightarrow> bool"
  iw_pid :: int
  iw_resolve :: resolve_answer
  iw_quarantine_fails :: bool
  iw_stamp :: string
  iw_images_dir_fails :: bool
  iw_temp :: "string option"
  iw_copied :: "tree option \<times> bool"
  iw_now :: int
  iw_metadata_fails :: bool
  iw_marker_fails :: bool
  iw_ended :: bool
  iw_rename_fails :: bool
  iw_left :: "image_dir option"

datatype create_error =
    Source_missing | Source_not_directory | Images_dir_failed | Staging_failed | Copy_failed
  | Staged_unreadable | Metadata_failed | Marker_failed | Staged_unverified store_failure
  | Staged_corrupt string | Commit_failed

definition staging_name :: "image_key \<Rightarrow> string \<Rightarrow> string" where
  "staging_name key temp = ''.'' @ ik_digest key @ ''.tmp-'' @ temp"

definition discard :: "image_world \<Rightarrow> string \<Rightarrow> image_store \<Rightarrow> image_store" where
  "discard w staging s = s\<lparr>sr_images := (case iw_left w of
       None \<Rightarrow> remove_entry staging (sr_images s) | Some d \<Rightarrow> put staging d (sr_images s))\<rparr>"

definition new_metadata :: "image_world \<Rightarrow> image_key \<Rightarrow> tree_sum \<Rightarrow> image_metadata" where
  "new_metadata w key t = \<lparr>md_schema = SchemaVersion, md_key = key, md_created = iw_now w,
     md_digest = ts_digest t, md_files = ts_files t, md_bytes = ts_bytes t\<rparr>"

text \<open>The staged image: its directory and metadata, or why it cannot be staged.\<close>

definition stage_image ::
    "(string \<Rightarrow> string) \<Rightarrow> image_world \<Rightarrow> image_key \<Rightarrow> create_error + image_dir \<times> image_metadata" where
  "stage_image sha w key =
     (if snd (iw_copied w) then Inl Copy_failed
      else case hashTree sha (fst (iw_copied w)) of
          Inl e \<Rightarrow> Inl Staged_unreadable
        | Inr t \<Rightarrow>
            (if iw_metadata_fails w then Inl Metadata_failed
             else if iw_marker_fails w then Inl Marker_failed
             else let d = \<lparr>id_complete = FileBytes (), id_metadata = FileBytes (Some (new_metadata w key t)),
                    id_library = fst (iw_copied w)\<rparr>
               in case verifyPath sha (iw_ended w) (Some d) key of
                    Inl e \<Rightarrow> Inl (Staged_unverified e)
                  | Inr (Inl reason) \<Rightarrow> Inl (Staged_corrupt reason)
                  | Inr (Inr m) \<Rightarrow> Inr (d, m)))"

definition createLocked ::
    "(string \<Rightarrow> string) \<Rightarrow> image_world \<Rightarrow> image_key \<Rightarrow> tree option \<Rightarrow> image_store \<Rightarrow>
     (create_error + library_image) \<times> image_store" where
  "createLocked sha w key source s =
     (case source of
        None \<Rightarrow> (Inl Source_missing, s)
      | Some t \<Rightarrow>
          (if \<not> is_directory t then (Inl Source_not_directory, s)
           else if iw_images_dir_fails w then (Inl Images_dir_failed, s)
           else case iw_temp w of
               None \<Rightarrow> (Inl Staging_failed, s)
             | Some temp \<Rightarrow>
                 (case stage_image sha w key of
                    Inl e \<Rightarrow> (Inl e, discard w (staging_name key temp) s)
                  | Inr (d, m) \<Rightarrow>
                      (if iw_rename_fails w \<or> map_of (sr_images s) (ik_digest key) \<noteq> None
                       then (Inl Commit_failed, discard w (staging_name key temp) s)
                       else (Inr \<lparr>ig_name = ik_digest key, ig_metadata = m\<rparr>,
                         s\<lparr>sr_images := put (ik_digest key) d (sr_images s)\<rparr>)))))"

definition quarantine_image :: "image_world \<Rightarrow> string \<Rightarrow> image_store \<Rightarrow> bool \<times> image_store" where
  "quarantine_image w name s =
     (case map_of (sr_images s) name of
        None \<Rightarrow> (True, s)
      | Some d \<Rightarrow>
          (if iw_quarantine_fails w then (False, s)
           else (True, s\<lparr>sr_images := remove_entry name (sr_images s),
             sr_quarantine := put (name @ ''-corrupt-'' @ iw_stamp w) d (sr_quarantine s)\<rparr>)))"

datatype ensure_error =
    Lock_conflict | Ensure_failed store_failure | Unsupported_key string | Quarantine_failed
  | Build_failed string | Creation_failed create_error

text \<open>
  Everything under the lock. The builder is a function on the rest of the world, of type \<open>'w\<close>: it
  gives an error or the Library it built, which is released afterwards.
\<close>

definition ensure_locked ::
    "(string \<Rightarrow> string) \<Rightarrow> image_world \<Rightarrow> image_key \<Rightarrow> ('w \<Rightarrow> (string + tree option) \<times> 'w) \<Rightarrow> ('w \<Rightarrow> 'w) \<Rightarrow>
     image_store \<Rightarrow> 'w \<Rightarrow> (ensure_error + library_image) \<times> image_status option \<times> image_store \<times> 'w" where
  "ensure_locked sha w key build release s x =
     (case Resolve sha (iw_resolve w) key s of
        Inl e \<Rightarrow> (Inl (Ensure_failed e), None, s, x)
      | Inr r \<Rightarrow>
          (case (rn_status r, rn_image r) of
             (Image_valid, Some i) \<Rightarrow> (Inr i, Some Image_valid, s, x)
           | (Image_unsupported, _) \<Rightarrow> (Inl (Unsupported_key (rn_reason r)), Some Image_unsupported, s, x)
           | (st, _) \<Rightarrow>
               (case (if st = Image_corrupt then quarantine_image w (ik_digest key) s else (True, s)) of
                  (False, s1) \<Rightarrow> (Inl Quarantine_failed, Some st, s1, x)
                | (True, s1) \<Rightarrow>
                    (case build x of
                       (Inl e, x1) \<Rightarrow> (Inl (Build_failed e), Some st, s1, x1)
                     | (Inr source, x1) \<Rightarrow>
                         (case createLocked sha w key source s1 of
                            (c, s2) \<Rightarrow> (map_sum Creation_failed id c, Some st, s2, release x1))))))"

definition lock_of_key :: "image_key \<Rightarrow> image_store \<Rightarrow> lock_file" where
  "lock_of_key key s = (case map_of (sr_locks s) (ik_digest key) of None \<Rightarrow> FileMissing | Some f \<Rightarrow> f)"

definition set_lock :: "image_key \<Rightarrow> lock_file \<Rightarrow> image_store \<Rightarrow> image_store" where
  "set_lock key f s = s\<lparr>sr_locks := (if f = FileMissing then remove_entry (ik_digest key) (sr_locks s)
     else put (ik_digest key) f (sr_locks s))\<rparr>"

definition Ensure ::
    "(string \<Rightarrow> string) \<Rightarrow> image_world \<Rightarrow> image_key \<Rightarrow> ('w \<Rightarrow> (string + tree option) \<times> 'w) \<Rightarrow> ('w \<Rightarrow> 'w) \<Rightarrow>
     image_store \<Rightarrow> 'w \<Rightarrow> (ensure_error + library_image) \<times> image_status option \<times> image_store \<times> 'w" where
  "Ensure sha w key build release s x =
     (if iw_lock_dir_fails w then (Inl Lock_conflict, None, s, x)
      else case acquireLock (iw_lock w) (iw_alive w) (iw_pid w) (lock_of_key key s) of
          (p, f) \<Rightarrow>
            (if pr_pc p \<noteq> Holding then (Inl Lock_conflict, None, set_lock key f s, x)
             else case ensure_locked sha w key build release (set_lock key f s) x of
                 (r, st, s1, x1) \<Rightarrow>
                   (r, st, set_lock key (release_lock (fst (iw_release w)) (snd (iw_release w)) p (lock_of_key key s1)) s1, x1)))"

definition Create ::
    "(string \<Rightarrow> string) \<Rightarrow> image_world \<Rightarrow> image_key \<Rightarrow> tree option \<Rightarrow> image_store \<Rightarrow>
     (ensure_error + library_image) \<times> image_store" where
  "Create sha w key source s =
     (case Ensure sha w key (\<lambda>x. (Inr source, x)) id s () of (r, st, s1, x) \<Rightarrow> (r, s1))"

text \<open>
  \<^verbatim>\<open>Clear\<close>: the locks cannot be listed, there is one, or everything goes; a removal that
  fails leaves some part of the store.
\<close>

definition Clear :: "bool \<Rightarrow> image_store option \<Rightarrow> image_store \<Rightarrow> bool \<times> image_store" where
  "Clear list_fails remaining s =
     (if list_fails \<or> sr_locks s \<noteq> [] then (False, s)
      else case remaining of
          Some s1 \<Rightarrow> (False, s1)
        | None \<Rightarrow> (True, s\<lparr>sr_images := [], sr_quarantine := [], sr_locks := []\<rparr>))"

section \<open>What a resolution says\<close>

lemma verify_dir_valid:
  "verifyPath sha ended (Some d) key = Inr (Inr m) \<longleftrightarrow>
     \<not> ended \<and> id_complete d = FileBytes () \<and> id_metadata d = FileBytes (Some m) \<and> md_schema m = SchemaVersion \<and>
     ik_digest (md_key m) = ik_digest key \<and> kp_schema (md_key m) = kp_schema key \<and>
     hashTree sha (id_library d) = Inr \<lparr>ts_digest = md_digest m, ts_files = md_files m, ts_bytes = md_bytes m\<rparr>"
  by (auto simp: verifyPath_def verify_library_def split: file_read.splits option.splits sum.splits tree_error.splits)

definition intact :: "(string \<Rightarrow> string) \<Rightarrow> image_key \<Rightarrow> image_dir \<Rightarrow> image_metadata \<Rightarrow> bool" where
  "intact sha key d m \<longleftrightarrow> verifyPath sha False (Some d) key = Inr (Inr m)"

lemma of_verified_valid:
  "of_verified n v = Inr r \<Longrightarrow> rn_status r = Image_valid \<Longrightarrow>
     \<exists>m. v = Inr (Inr m) \<and> rn_image r = Some \<lparr>ig_name = n, ig_metadata = m\<rparr>"
  by (auto simp: of_verified_def split: sum.splits)

lemma Resolve_valid:
  assumes "Resolve sha a key s = Inr r" "rn_status r = Image_valid"
  shows "\<exists>d m. map_of (sr_images s) (ik_digest key) = Some d \<and> intact sha key d m \<and>
     rn_image r = Some \<lparr>ig_name = ik_digest key, ig_metadata = m\<rparr>"
  using assms
  by (auto simp: Resolve_def intact_def split: if_splits option.splits dest: of_verified_valid)

lemma Resolve_intact:
  assumes "map_of (sr_images s) (ik_digest key) = Some d" "intact sha key d m" "\<not> ra_ended a"
    "kp_schema key = SchemaVersion" "\<not> ra_stat_fails a"
  shows "Resolve sha a key s = Inr \<lparr>rn_status = Image_valid,
     rn_image = Some \<lparr>ig_name = ik_digest key, ig_metadata = m\<rparr>, rn_reason = []\<rparr>"
  using assms by (simp add: Resolve_def intact_def of_verified_def)

section \<open>What a creation leaves\<close>

definition entry :: "image_key \<Rightarrow> image_store \<Rightarrow> image_dir option" where
  "entry key s = map_of (sr_images s) (ik_digest key)"

text \<open>The names of images do not begin with a dot, those of staging directories do.\<close>

definition visible :: "string \<Rightarrow> bool" where
  "visible n \<longleftrightarrow> \<not> has_prefix n ''.''"

definition others_kept :: "image_key \<Rightarrow> image_store \<Rightarrow> image_store \<Rightarrow> bool" where
  "others_kept key s s' \<longleftrightarrow>
     (\<forall>n. visible n \<and> n \<noteq> ik_digest key \<longrightarrow> map_of (sr_images s') n = map_of (sr_images s) n)"

lemma staging_name_simps [simp]: "staging_name key t \<noteq> ik_digest key" "\<not> visible (staging_name key t)"
proof -
  have "length (staging_name key t) > length (ik_digest key)" by (simp add: staging_name_def)
  then show "staging_name key t \<noteq> ik_digest key" by (metis less_irrefl)
  show "\<not> visible (staging_name key t)" by (simp add: visible_def staging_name_def has_prefix_def)
qed

lemma discard_frame [simp]:
  "entry key (discard w (staging_name key t) s) = entry key s" "sr_locks (discard w n s) = sr_locks s"
  "others_kept key s (discard w (staging_name key t) s)"
  using staging_name_simps [of key t] staging_name_simps(1) [of key t, symmetric]
  by (auto simp: discard_def entry_def others_kept_def split: option.splits)

lemma stage_image_Inr:
  "stage_image sha w key = Inr (d, m) \<Longrightarrow>
     intact sha key d m \<and> id_library d = fst (iw_copied w) \<and> \<not> snd (iw_copied w) \<and> \<not> iw_ended w"
  by (auto simp: stage_image_def intact_def Let_def verifyPath_def split: if_splits sum.splits)

lemma createLocked_Inl:
  "createLocked sha w key source s = (Inl e, s') \<Longrightarrow>
     entry key s' = entry key s \<and> others_kept key s s' \<and> sr_locks s' = sr_locks s"
  by (auto simp: createLocked_def split: option.splits if_splits sum.splits) (simp_all add: others_kept_def)

lemma createLocked_Inr:
  assumes "createLocked sha w key source s = (Inr i, s')"
  shows "\<exists>d m. entry key s = None \<and> entry key s' = Some d \<and> intact sha key d m \<and>
     i = \<lparr>ig_name = ik_digest key, ig_metadata = m\<rparr> \<and> id_library d = fst (iw_copied w) \<and>
     \<not> snd (iw_copied w) \<and> \<not> iw_ended w \<and> others_kept key s s' \<and> sr_locks s' = sr_locks s"
  using assms
  by (auto simp: createLocked_def entry_def others_kept_def split: option.splits if_splits sum.splits
      dest!: stage_image_Inr)

lemma quarantine_image_frame:
  "quarantine_image w (ik_digest key) s = (ok, s') \<Longrightarrow>
     entry key s' = (if ok then None else entry key s) \<and> others_kept key s s' \<and> sr_locks s' = sr_locks s"
  by (auto simp: quarantine_image_def entry_def others_kept_def split: option.splits if_splits)

definition built_new :: "image_world \<Rightarrow> ('w \<Rightarrow> (string + tree option) \<times> 'w) \<Rightarrow> ('w \<Rightarrow> 'w) \<Rightarrow> image_dir \<Rightarrow> 'w \<Rightarrow> 'w \<Rightarrow> bool" where
  "built_new w build release d x x' \<longleftrightarrow>
     \<not> iw_ended w \<and> \<not> snd (iw_copied w) \<and> id_library d = fst (iw_copied w) \<and> is_ok (fst (build x)) \<and>
     x' = release (snd (build x))"

definition ensured ::
    "(string \<Rightarrow> string) \<Rightarrow> image_world \<Rightarrow> image_key \<Rightarrow> ('w \<Rightarrow> (string + tree option) \<times> 'w) \<Rightarrow> ('w \<Rightarrow> 'w) \<Rightarrow>
     image_store \<Rightarrow> 'w \<Rightarrow> (ensure_error + library_image) \<times> image_status option \<times> image_store \<times> 'w \<Rightarrow> bool" where
  "ensured sha w key build release s x outcome \<longleftrightarrow>
     (case outcome of (r, st, s', x') \<Rightarrow>
        others_kept key s s' \<and>
        (case r of
           Inl e \<Rightarrow> entry key s' = entry key s \<or> entry key s' = None
         | Inr i \<Rightarrow> (\<exists>d m. entry key s' = Some d \<and> intact sha key d m \<and>
             i = \<lparr>ig_name = ik_digest key, ig_metadata = m\<rparr> \<and>
             (if st = Some Image_valid then sr_images s' = sr_images s \<and> x' = x
              else built_new w build release d x x'))))"

lemma others_kept_trans: "others_kept key s t \<Longrightarrow> others_kept key t u \<Longrightarrow> others_kept key s u"
  by (simp add: others_kept_def)

lemma others_kept_refl [simp]: "others_kept key s s"
  by (simp add: others_kept_def)

lemma ensure_locked_outcome:
  assumes "ensure_locked sha w key build release s x = (r, st, s', x')"
  shows "ensured sha w key build release s x (r, st, s', x') \<and> sr_locks s' = sr_locks s"
proof (cases "Resolve sha (iw_resolve w) key s")
  case (Inl e)
  then show ?thesis using assms by (auto simp: ensure_locked_def ensured_def)
next
  case (Inr n)
  show ?thesis
  proof (cases "rn_status n = Image_valid")
    case True
    obtain d m where dm: "map_of (sr_images s) (ik_digest key) = Some d" "intact sha key d m"
      "rn_image n = Some \<lparr>ig_name = ik_digest key, ig_metadata = m\<rparr>"
      using Resolve_valid [OF Inr True] by blast
    then show ?thesis using assms Inr True by (auto simp: ensure_locked_def ensured_def entry_def)
  next
    case False
    show ?thesis
    proof (cases "rn_status n = Image_unsupported")
      case True
      then show ?thesis using assms Inr by (auto simp: ensure_locked_def ensured_def)
    next
      case sup: False
      obtain ok s1 where q: "(if rn_status n = Image_corrupt then quarantine_image w (ik_digest key) s else (True, s)) = (ok, s1)"
        by fastforce
      have fr: "entry key s1 = entry key s \<or> entry key s1 = None" "others_kept key s s1" "sr_locks s1 = sr_locks s"
        using q quarantine_image_frame [of w key s ok s1] by (auto split: if_splits)
      obtain b x1 where b: "build x = (b, x1)" by fastforce
      obtain c s2 where c: "\<And>source. b = Inr source \<Longrightarrow> createLocked sha w key source s1 = (c, s2)" 
        by (cases b) (auto, metis surj_pair)
      have run: "(r, st, s', x') = (if \<not> ok then (Inl Quarantine_failed, Some (rn_status n), s1, x)
          else case b of Inl e \<Rightarrow> (Inl (Build_failed e), Some (rn_status n), s1, x1)
            | Inr source \<Rightarrow> (map_sum Creation_failed id c, Some (rn_status n), s2, release x1))"
        using assms Inr False sup q b c
        by (cases "rn_status n") (auto simp: ensure_locked_def split: sum.splits bool.splits)
      show ?thesis
      proof (cases "ok \<and> is_ok b")
        case False
        then show ?thesis using run fr by (auto simp: ensured_def is_ok_def split: sum.splits if_splits)
      next
        case True
        then obtain source where src: "b = Inr source" by (auto simp: is_ok_iff)
        show ?thesis
        proof (cases c)
          case (Inl e)
          then show ?thesis using run True src fr createLocked_Inl [of sha w key source s1 e s2] c
            by (auto simp: ensured_def intro: others_kept_trans)
        next
          case (Inr i)
          from createLocked_Inr [of sha w key source s1 i s2] c [OF src] Inr
          show ?thesis using run True src fr False b
            by (auto simp: ensured_def built_new_def intro: others_kept_trans)
        qed
      qed
    qed
  qed
qed

lemma set_lock_frame [simp]:
  "sr_images (set_lock key f s) = sr_images s" "entry key' (set_lock key f s) = entry key' s"
  "others_kept key' (set_lock key f s) t = others_kept key' s t" "others_kept key' t (set_lock key f s) = others_kept key' t s"
  "lock_of_key key (set_lock key f s) = f"
  by (simp_all add: set_lock_def entry_def others_kept_def lock_of_key_def)

lemma Ensure_outcome:
  assumes "Ensure sha w key build release s x = (r, st, s', x')"
  shows "ensured sha w key build release s x (r, st, s', x')"
proof (cases "iw_lock_dir_fails w")
  case True
  then show ?thesis using assms by (auto simp: Ensure_def ensured_def)
next
  case False
  obtain p f where a: "acquireLock (iw_lock w) (iw_alive w) (iw_pid w) (lock_of_key key s) = (p, f)" by fastforce
  show ?thesis
  proof (cases "pr_pc p = Holding")
    case no: False
    then show ?thesis using assms False a by (auto simp: Ensure_def ensured_def)
  next
    case True
    obtain r1 st1 s1 x1 where l: "ensure_locked sha w key build release (set_lock key f s) x = (r1, st1, s1, x1)"
      by (metis prod_cases4)
    show ?thesis using ensure_locked_outcome [OF l] assms False a True l
      by (auto simp: Ensure_def ensured_def split: sum.splits)
  qed
qed

text \<open>Whoever got the lock gives it back.\<close>

lemma Ensure_unlocks:
  assumes "Ensure sha w key build release s x = (r, st, s', x')" "r \<noteq> Inl Lock_conflict"
    "\<not> la_fails (fst (iw_release w))" "\<not> la_fails (snd (iw_release w))"
  shows "lock_of_key key s' = FileMissing"
proof -
  obtain p f where a: "acquireLock (iw_lock w) (iw_alive w) (iw_pid w) (lock_of_key key s) = (p, f)" by fastforce
  have h: "\<not> iw_lock_dir_fails w" "pr_pc p = Holding" using assms(1,2) a by (auto simp: Ensure_def split: if_splits)
  obtain r1 st1 s1 x1 where l: "ensure_locked sha w key build release (set_lock key f s) x = (r1, st1, s1, x1)"
    by (metis prod_cases4)
  have "own_record p f" using acquireLock_outcome [OF a] h by auto
  moreover have "lock_of_key key s1 = f" using ensure_locked_outcome [OF l] by (simp add: lock_of_key_def set_lock_def)
  ultimately have "release_lock (fst (iw_release w)) (snd (iw_release w)) p (lock_of_key key s1) = FileMissing"
    using release_own h assms(3,4) by simp
  then show ?thesis using assms(1) a h l by (auto simp: Ensure_def)
qed

section \<open>All or nothing\<close>

text \<open>
  What the caller relies on: a copy that reports no error in a context that has not ended by the time
  the copy is verified is complete. A copy in a context that ends may lose files without an error.
\<close>

definition copies_well :: "image_world \<Rightarrow> string + tree option \<Rightarrow> bool" where
  "copies_well w source \<longleftrightarrow> (\<not> snd (iw_copied w) \<and> \<not> iw_ended w \<longrightarrow> source = Inr (fst (iw_copied w)))"

definition resolvable :: "resolve_answer \<Rightarrow> bool" where
  "resolvable a \<longleftrightarrow> \<not> ra_ended a \<and> \<not> ra_stat_fails a"


definition demo_key :: image_key where
  "demo_key = \<lparr>kp_schema = SchemaVersion, kp_unity_version = ''6000.0.1f1'', kp_unity_executable = ''u'',
     kp_manifest = ''m'', kp_packages_lock = ''missing'', kp_project_settings = ''s'', kp_build_target = ''linux/amd64'',
     kp_scripting_backend = ''b'', kp_project_identity = ''i'', ik_digest = ''k1''\<rparr>"

definition demo_library :: tree where
  "demo_library = Directory ''drwxr-xr-x'' [(''ArtifactDB'', Regular ''-rw-r--r--'' (Some ''db''))]"

definition demo_image_world :: image_world where
  "demo_image_world = \<lparr>iw_lock_dir_fails = False, iw_lock = (\<lambda>n. calm 100 ''t''), iw_release = (calm 200 [], calm 200 []),
     iw_alive = (\<lambda>pid. True), iw_pid = 7,
     iw_resolve = \<lparr>ra_ended = False, ra_stat_fails = False, ra_list_fails = False\<rparr>,
     iw_quarantine_fails = False, iw_stamp = ''now'', iw_images_dir_fails = False, iw_temp = Some ''1'',
     iw_copied = (Some demo_library, False), iw_now = 150, iw_metadata_fails = False, iw_marker_fails = False,
     iw_ended = False, iw_rename_fails = False, iw_left = None\<rparr>"

definition empty_image_store :: image_store where
  "empty_image_store = \<lparr>sr_root = ''/r'', sr_images = [], sr_quarantine = [], sr_locks = []\<rparr>"

definition demo_build :: "nat \<Rightarrow> (string + tree option) \<times> nat" where
  "demo_build n = (Inr (Some demo_library), Suc n)"



definition demo_image_metadata :: image_metadata where
  "demo_image_metadata = \<lparr>md_schema = SchemaVersion, md_key = demo_key, md_created = 150,
     md_digest = tree_stream demo_library, md_files = 1, md_bytes = 2\<rparr>"

definition demo_image_dir :: image_dir where
  "demo_image_dir = \<lparr>id_complete = FileBytes (), id_metadata = FileBytes (Some demo_image_metadata),
     id_library = Some demo_library\<rparr>"

definition tampered_library :: tree where
  "tampered_library = Directory ''drwxr-xr-x'' [(''ArtifactDB'', Regular ''-rw-r--r--'' (Some ''xx''))]"

definition demo_image_store :: image_store where
  "demo_image_store = empty_image_store\<lparr>sr_images := [(''k1'', demo_image_dir)]\<rparr>"

definition after_tampering :: "store_failure + resolution" where
  "after_tampering = Resolve id \<lparr>ra_ended = False, ra_stat_fails = False, ra_list_fails = False\<rparr> demo_key
     (demo_image_store\<lparr>sr_images := put (ik_digest demo_key) (demo_image_dir\<lparr>id_library := Some tampered_library\<rparr>)
        (sr_images demo_image_store)\<rparr>)"


end
