(* ===== verification/ImageWorkspace.thy ===== *)
theory ImageWorkspace
  imports LibraryImage WorkspaceLease UnityExec
begin

text \<open>
  The image backend, \<^verbatim>\<open>prepareImageWorkspace\<close> of
  \<^verbatim>\<open>internal/runsvc/workspace_backend.go\<close> with
  \<^verbatim>\<open>internal/librarymaterializer\<close>: the key of the project, its image from the store or
  built by Unity in a workspace of its own, and the run's workspace with a Library materialised from the
  image. Durations are data, in nanoseconds; sizes are measured.
\<close>

section \<open>Materialisation\<close>

text \<open>
  A parallel copy: what it leaves at the destination, whether it reports an error, and then how
  far its walk of the source had counted and what the removal of the destination leaves. The counts of a copy
  without error are those of the whole source, because the walk counts what it hands to the workers.
\<close>

record copy_answer =
  cy_left :: "tree option"
  cy_fails :: bool
  cy_counted :: "int \<times> int"
  cy_remaining :: "tree option"
  cy_duration :: int

definition source_counts :: "tree option \<Rightarrow> int \<times> int" where
  "source_counts src = (case walk_root src of
       Inl e \<Rightarrow> (0, 0)
     | Inr ns \<Rightarrow> (int (length (regular_sizes ns)), int (sum_list (regular_sizes ns))))"

record materialized =
  mt_id :: string
  mt_files :: int
  mt_bytes :: int
  mt_duration :: int

text \<open>A materialiser: its identifier; what it reports, whether with an error, and what it leaves.\<close>

record materializer =
  mz_id :: string
  mz_run :: "tree option \<Rightarrow> materialized option \<times> bool \<times> tree option"

definition PhysicalCopyID :: string where "PhysicalCopyID = ''physical-copy''"

definition PhysicalCopy_Materialize :: "copy_answer \<Rightarrow> tree option \<Rightarrow> materialized option \<times> bool \<times> tree option" where
  "PhysicalCopy_Materialize c src =
     (let counts = (if cy_fails c then cy_counted c else source_counts src);
          r = \<lparr>mt_id = PhysicalCopyID, mt_files = fst counts, mt_bytes = snd counts, mt_duration = cy_duration c\<rparr>
      in (Some r, cy_fails c, if cy_fails c then cy_remaining c else cy_left c))"

definition PhysicalCopyMaterializer :: "copy_answer \<Rightarrow> materializer" where
  "PhysicalCopyMaterializer c = \<lparr>mz_id = PhysicalCopyID, mz_run = PhysicalCopy_Materialize c\<rparr>"

text \<open>The service uses a materialiser it was given, the physical copy otherwise.\<close>

definition selectedLibraryMaterializer :: "materializer option \<Rightarrow> copy_answer \<Rightarrow> materializer" where
  "selectedLibraryMaterializer given c = (case given of Some m \<Rightarrow> m | None \<Rightarrow> PhysicalCopyMaterializer c)"

section \<open>The builder\<close>

text \<open>
  What happens in the workspace of the builder: its preparation, Unity with what it leaves of the
  Library, the measurement, the removal of the directory.
\<close>

record build_world =
  bd_prepare :: "tree prepare_world"
  bd_unity :: "string list \<Rightarrow> invocation"
  bd_library :: "tree option"
  bd_usage :: "(int \<times> int) option"
  bd_cleanup_fails :: bool

text \<open>The site of a preparation: the builder's directory, the project's ignore file, the builder's size.\<close>

record build_site =
  bs_builder :: "tree shadow_dir option"
  bs_ignore :: "string file_read"
  bs_usage :: "int \<times> int"

definition copying_packages :: prepare_options where
  "copying_packages = \<lparr>pp_workspace_root = [], pp_library_cache_dir = [], pp_library_cache_root = [],
     pp_copy_packages = True, pp_skip_library = False\<rparr>"

definition tailText :: "string \<Rightarrow> nat \<Rightarrow> string" where
  "tailText value limit =
     (let t = trim_space value in if length t \<le> limit then t else drop (length t - limit) t)"

definition remove_builder :: "build_world \<Rightarrow> build_site \<Rightarrow> build_site" where
  "remove_builder w x = x\<lparr>bs_builder := snd (Cleanup (bd_cleanup_fails w) (bs_builder x))\<rparr>"

definition builder_args :: "workspace \<Rightarrow> string list" where
  "builder_args ws = BuildCompileArgs (wk_shadow_path ws) @ [''-disable-assembly-updater'']"

definition with_library :: "tree option \<Rightarrow> tree shadow_dir option \<Rightarrow> tree shadow_dir option" where
  "with_library lib d = map_option (\<lambda>d. d\<lparr>sd_library := map_option Own lib\<rparr>) d"

text \<open>The build callback: an error, after which the builder is removed, or the Library.\<close>

definition build_library ::
    "build_world \<Rightarrow> string \<Rightarrow> string \<Rightarrow> build_site \<Rightarrow> (string + tree option) \<times> build_site" where
  "build_library w projectPath runID x =
     (case Prepare (bd_prepare w) projectPath (runID @ ''-image-builder'') copying_packages (bs_builder x) (bs_ignore x) of
        (Inl e, after, ignore) \<Rightarrow> (Inl ''prepare Library image builder'', x\<lparr>bs_builder := after, bs_ignore := ignore\<rparr>)
      | (Inr ws, after, ignore) \<Rightarrow>
          (let x1 = x\<lparr>bs_builder := with_library (bd_library w) after, bs_ignore := ignore\<rparr>;
               iv = bd_unity w (builder_args ws)
           in if iv_err iv \<noteq> None then (Inl ''build Library image: launch Unity'', remove_builder w x1)
              else if ctx_err (iv_outer iv) \<noteq> None then (Inl ''build Library image'', remove_builder w x1)
              else if iv_exit iv \<noteq> 0 then
                (Inl (''build Library image: Unity exited with code '' @ decimal_int (iv_exit iv) @ '': '' @ tailText (concat (iv_stderr iv)) 4000), remove_builder w x1)
              else case bd_usage w of
                  None \<Rightarrow> (Inl ''measure Library image builder'', remove_builder w x1)
                | Some u \<Rightarrow> (Inr (bd_library w), x1\<lparr>bs_usage := u\<rparr>)))"

section \<open>The whole preparation\<close>

text \<open>
  The durations and the verification times (metadata, full hash) at the three points where the code
  reads them.
\<close>

record image_clock =
  ic_resolve :: int
  ic_creation :: int
  ic_preparation :: int
  ic_file_copy :: int
  ic_workspace_verify :: int
  ic_verified :: "nat \<Rightarrow> int \<times> int"

text \<open>
  \<open>ip_meanwhile\<close> is what other processes do to the store between the resolution of the image and
  its verification, which is why it is verified again.
\<close>

record image_prepare_world =
  ip_clear :: "bool \<times> image_store option"
  ip_project :: project
  ip_resolve :: resolve_answer
  ip_image :: image_world
  ip_build :: build_world
  ip_image_usage :: "(int \<times> int) option"
  ip_store_usage :: "(int \<times> int) option"
  ip_prepare :: "tree prepare_world"
  ip_meanwhile :: "image_store \<Rightarrow> image_store"
  ip_verify_ended :: bool
  ip_copy :: copy_answer
  ip_cleanup_fails :: bool
  ip_clock :: image_clock

record image_site =
  si_store :: image_store
  si_build :: build_site
  si_shadow :: "tree shadow_dir option"

record image_request =
  iq_project_path :: string
  iq_unity_path :: string
  iq_clear_cache :: bool

datatype image_error =
    Clear_failed | Key_failed key_error | Resolve_failed store_failure | Image_unsupported_key
  | Ensure_error ensure_error | Measure_image | Measure_store | Prepare_failed prepare_error
  | Verify_failed store_failure | Verify_corrupt string | Materialize_failed | Materialized_differs
  | No_result

definition millis :: "int \<Rightarrow> int" where
  "millis ns = ns div 1000000"

definition status_text :: "image_status \<Rightarrow> string" where
  "status_text s = (case s of Image_valid \<Rightarrow> ''valid'' | Image_missing \<Rightarrow> ''missing'' | Image_stale \<Rightarrow> ''stale''
     | Image_corrupt \<Rightarrow> ''corrupt'' | Image_unsupported \<Rightarrow> ''unsupported'')"

definition with_image :: "(image_metrics \<Rightarrow> image_metrics) \<Rightarrow> workspace_metrics \<Rightarrow> workspace_metrics" where
  "with_image f m = m\<lparr>wm_image := f (wm_image m)\<rparr>"

definition verified_at :: "image_clock \<Rightarrow> nat \<Rightarrow> workspace_metrics \<Rightarrow> workspace_metrics" where
  "verified_at c n m = updateImageVerificationMetrics m (millis (fst (ic_verified c n))) (millis (snd (ic_verified c n)))"

text \<open>After the resolution: the image that is there, or the one made under the lock.\<close>

definition image_resolved :: "image_prepare_world \<Rightarrow> resolution \<Rightarrow> workspace_metrics \<Rightarrow> workspace_metrics" where
  "image_resolved w r m = with_image (\<lambda>i. i\<lparr>im_resolution_status := status_text (rn_status r),
       im_resolve_ms := millis (durationWithoutVerification (ic_resolve (ip_clock w))
         (fst (ic_verified (ip_clock w) 0)) (snd (ic_verified (ip_clock w) 0)))\<rparr>)
     (verified_at (ip_clock w) 0 m)"

definition obtain_image ::
    "(string \<Rightarrow> string) \<Rightarrow> image_prepare_world \<Rightarrow> image_request \<Rightarrow> string \<Rightarrow> image_key \<Rightarrow> resolution \<Rightarrow>
     workspace_metrics \<Rightarrow> image_site \<Rightarrow> (image_error + library_image) \<times> workspace_metrics \<times> image_site" where
  "obtain_image sha w q runID key r m0 x =
     (case (rn_status r, rn_image r) of
        (Image_valid, Some i) \<Rightarrow> (Inr i, m0, x)
      | _ \<Rightarrow>
          (case Ensure sha (ip_image w) key (build_library (ip_build w) (iq_project_path q) runID)
              (remove_builder (ip_build w)) (si_store x) (si_build x) of
             (r1, st, s1, b1) \<Rightarrow>
               (let m1 = verified_at (ip_clock w) 1 m0; x1 = x\<lparr>si_store := s1, si_build := b1\<rparr>
                in case r1 of
                     Inl e \<Rightarrow> (Inl (Ensure_error e), m1, x1)
                   | Inr i \<Rightarrow>
                       (let m2 = with_image (\<lambda>im. im\<lparr>im_resolution_status := (case st of None \<Rightarrow> [] | Some st \<Rightarrow> status_text st)\<rparr>) m1
                        in (Inr i, if st = Some Image_valid then m2
                          else with_image (\<lambda>im. im\<lparr>im_creation_ms := millis (ic_creation (ip_clock w)),
                            im_builder_logical := fst (bs_usage b1), im_builder_physical := snd (bs_usage b1)\<rparr>) m2, x1)))))"

text \<open>The sizes of the image and of the store.\<close>

definition measure_image ::
    "image_prepare_world \<Rightarrow> workspace_metrics \<Rightarrow> (image_error + unit) \<times> workspace_metrics" where
  "measure_image w m =
     (let m0 = m\<lparr>wm_image_status := status_text Image_valid\<rparr>
      in case ip_image_usage w of
           None \<Rightarrow> (Inl Measure_image, m0)
         | Some (logical, physical) \<Rightarrow>
             (let m1 = with_image (\<lambda>im. im\<lparr>im_base_logical := logical, im_base_physical := physical\<rparr>) m0
              in case ip_store_usage w of
                   None \<Rightarrow> (Inl Measure_store, m1)
                 | Some (slogical, sphysical) \<Rightarrow>
                     (let m2 = (with_image (\<lambda>im. im\<lparr>im_store_physical := sphysical\<rparr>) m1)\<lparr>wm_added := physical\<rparr>
                      in (Inr (), updateObservedPeak m2 (sphysical + im_builder_physical (wm_image m2))))))"

text \<open>The run's workspace with its Library, after the image is at hand; a failure removes it.\<close>

definition drop_shadow :: "image_prepare_world \<Rightarrow> image_site \<Rightarrow> image_site" where
  "drop_shadow w x = x\<lparr>si_shadow := snd (Cleanup (ip_cleanup_fails w) (si_shadow x))\<rparr>"

definition check_materialized ::
    "image_prepare_world \<Rightarrow> materializer \<Rightarrow> library_image \<Rightarrow> tree option \<Rightarrow> image_site \<Rightarrow> workspace_metrics \<Rightarrow>
     (image_error + unit) \<times> workspace_metrics \<times> image_site" where
  "check_materialized w mz i source x m =
     (case mz_run mz source of
        (r, fails, left) \<Rightarrow>
          (let x1 = x\<lparr>si_shadow := with_library left (si_shadow x)\<rparr>;
               m1 = (case r of None \<Rightarrow> m | Some r \<Rightarrow> with_image (\<lambda>im. im\<lparr>im_materialize_ms := millis (mt_duration r)\<rparr>) m)
           in if fails then (Inl Materialize_failed, m1, drop_shadow w x1)
              else case r of
                  None \<Rightarrow> (Inl No_result, m1, x1)
                | Some r \<Rightarrow>
                    (let m2 = with_image (\<lambda>im. im\<lparr>im_workspace_verify_ms := millis (ic_workspace_verify (ip_clock w))\<rparr>) m1
                     in if mt_id r \<noteq> mz_id mz \<or> mt_files r \<noteq> md_files (ig_metadata i) \<or>
                           mt_bytes r \<noteq> md_bytes (ig_metadata i)
                        then (Inl Materialized_differs, m2, drop_shadow w x1)
                        else (Inr (), m2\<lparr>wm_preparation_ms := millis (ic_preparation (ip_clock w)),
                          wm_file_copy_ms := millis (ic_file_copy (ip_clock w)),
                          wm_library_ms := millis (mt_duration r)\<rparr>, x1))))"

text \<open>The Library of an image as it is in the store.\<close>

definition stored_library :: "image_store \<Rightarrow> library_image \<Rightarrow> tree option" where
  "stored_library s i = (case map_of (sr_images s) (ig_name i) of None \<Rightarrow> None | Some d \<Rightarrow> id_library d)"

definition prepare_from_image ::
    "(string \<Rightarrow> string) \<Rightarrow> image_prepare_world \<Rightarrow> materializer option \<Rightarrow> image_request \<Rightarrow> string \<Rightarrow> library_image \<Rightarrow>
     workspace_metrics \<Rightarrow> image_site \<Rightarrow> (image_error + workspace) \<times> workspace_metrics \<times> image_site" where
  "prepare_from_image sha w given q runID i m x =
     (case Prepare (ip_prepare w) (iq_project_path q) runID copying_packages (si_shadow x) (bs_ignore (si_build x)) of
        (r, after, ignore) \<Rightarrow>
          (let x1 = x\<lparr>si_shadow := after, si_build := (si_build x)\<lparr>bs_ignore := ignore\<rparr>,
                 si_store := ip_meanwhile w (si_store x)\<rparr>
           in case r of
                Inl e \<Rightarrow> (Inl (Prepare_failed e), m, x1)
              | Inr ws \<Rightarrow>
                  (let mz = selectedLibraryMaterializer given (ip_copy w);
                       m1 = verified_at (ip_clock w) 2 (with_image (\<lambda>im. im\<lparr>im_materializer := mz_id mz\<rparr>) m)
                   in case Verify sha (ip_verify_ended w) i (si_store x1) of
                        Inl e \<Rightarrow> (Inl (Verify_failed e), m1, drop_shadow w x1)
                      | Inr v \<Rightarrow>
                          (if rn_status v \<noteq> Image_valid then (Inl (Verify_corrupt (rn_reason v)), m1, drop_shadow w x1)
                           else case check_materialized w mz i (stored_library (si_store x1) i) x1 m1 of
                               (c, m2, x2) \<Rightarrow> (map_sum id (\<lambda>_. ws) c, m2, x2)))))"

definition image_of_key ::
    "(string \<Rightarrow> string) \<Rightarrow> image_prepare_world \<Rightarrow> materializer option \<Rightarrow> image_request \<Rightarrow> string \<Rightarrow> image_key \<Rightarrow>
     workspace_metrics \<Rightarrow> image_site \<Rightarrow> (image_error + workspace) \<times> workspace_metrics \<times> image_site" where
  "image_of_key sha w given q runID key m x =
     (case Resolve sha (ip_resolve w) key (si_store x) of
        Inl e \<Rightarrow> (Inl (Resolve_failed e), m, x)
      | Inr r \<Rightarrow>
          (let m1 = image_resolved w r m
           in if rn_status r = Image_unsupported then (Inl Image_unsupported_key, m1, x)
              else case obtain_image sha w q runID key r m1 x of
                  (Inl e, m2, x1) \<Rightarrow> (Inl e, m2, x1)
                | (Inr i, m2, x1) \<Rightarrow>
                    (case measure_image w m2 of
                       (Inl e, m3) \<Rightarrow> (Inl e, m3, x1)
                     | (Inr u, m3) \<Rightarrow> prepare_from_image sha w given q runID i m3 x1)))"

definition prepareImageWorkspace ::
    "(string \<Rightarrow> string) \<Rightarrow> (key_payload \<Rightarrow> string) \<Rightarrow> string \<Rightarrow> image_prepare_world \<Rightarrow> materializer option \<Rightarrow>
     image_request \<Rightarrow> string \<Rightarrow> image_site \<Rightarrow> (image_error + workspace) \<times> workspace_metrics \<times> image_site" where
  "prepareImageWorkspace sha enc platform w given q runID x =
     (let m = prepareMetrics WorkspaceBackendImage
      in case (if iq_clear_cache q then Clear (fst (ip_clear w)) (snd (ip_clear w)) (si_store x) else (True, si_store x)) of
           (False, s) \<Rightarrow> (Inl Clear_failed, m, x\<lparr>si_store := s\<rparr>)
         | (True, s) \<Rightarrow>
             (case ComputeKey sha enc platform (ip_project w) (iq_unity_path q) of
                Inl e \<Rightarrow> (Inl (Key_failed e), m, x\<lparr>si_store := s\<rparr>)
              | Inr key \<Rightarrow> image_of_key sha w given q runID key
                  (with_image (\<lambda>im. im\<lparr>im_key := ik_digest key\<rparr>) m) (x\<lparr>si_store := s\<rparr>)))"

text \<open>What the provider makes of it: a lease without a broker.\<close>

definition image_prepared ::
    "(image_error \<Rightarrow> string \<times> bool) \<Rightarrow> (image_error + workspace) \<times> workspace_metrics \<times> image_site \<Rightarrow> prepared" where
  "image_prepared describe outcome = (case outcome of
       (Inl e, m, x) \<Rightarrow> Inl \<lparr>pf_text = fst (describe e), pf_permission = snd (describe e), pf_pre_start = False\<rparr>
     | (Inr ws, m, x) \<Rightarrow> Inr \<lparr>le_workspace = ws, le_metrics = m, le_vhdx = None, le_released = False, le_shell = True\<rparr>)"

section \<open>Nothing is left behind\<close>

text \<open>What a builder did: not called, failed, or succeeded and released.\<close>

lemma Ensure_site:
  assumes "Ensure sha w key build release s x = (r, st, s', x')"
  shows "x' = x \<or> (\<not> is_ok (fst (build x)) \<and> x' = snd (build x)) \<or> x' = release (snd (build x))"
proof -
  have "x1 = x \<or> (\<not> is_ok (fst (build x)) \<and> x1 = snd (build x)) \<or> x1 = release (snd (build x))"
    if "ensure_locked sha w key build release t x = (r1, st1, s1, x1)" for r1 st1 s1 x1 t
    using that
    by (auto simp: ensure_locked_def is_ok_def split: sum.splits prod.splits image_status.splits option.splits
        bool.splits if_splits)
  then show ?thesis using assms by (auto simp: Ensure_def split: if_splits prod.splits)
qed

lemma Prepare_after:
  "Prepare w source runID opts before ignore = (Inl e, after, ignore') \<Longrightarrow> before = None \<Longrightarrow> after = None"
  by (auto simp: Prepare_def Let_def split: if_splits sum.splits)

lemma build_library_gone:
  assumes "bs_builder x = None" "\<not> bd_cleanup_fails w" "\<not> is_ok (fst (build_library w p runID x))"
  shows "bs_builder (snd (build_library w p runID x)) = None"
proof -
  obtain r after ig where P: "Prepare (bd_prepare w) p (runID @ ''-image-builder'') copying_packages (bs_builder x) (bs_ignore x) =
      (r, after, ig)" by (metis prod_cases3)
  show ?thesis
  proof (cases r)
    case (Inl e)
    then show ?thesis using P Prepare_after [OF P [unfolded Inl] assms(1)] by (simp add: build_library_def)
  next
    case (Inr ws)
    then show ?thesis using assms P
      by (auto simp: build_library_def Let_def remove_builder_def Cleanup_def split: if_splits option.splits)
  qed
qed

lemma obtain_image_site:
  assumes "obtain_image sha w q runID key r m x = (c, m', x')" "bs_builder (si_build x) = None"
    "\<not> bd_cleanup_fails (ip_build w)"
  shows "bs_builder (si_build x') = None \<and> si_shadow x' = si_shadow x"
proof (cases "\<exists>i. rn_status r = Image_valid \<and> rn_image r = Some i")
  case True
  then show ?thesis using assms by (auto simp: obtain_image_def)
next
  case False
  obtain r1 st s1 b1 where e: "Ensure sha (ip_image w) key (build_library (ip_build w) (iq_project_path q) runID)
      (remove_builder (ip_build w)) (si_store x) (si_build x) = (r1, st, s1, b1)" by (metis prod_cases4)
  have "bs_builder b1 = None"
    using Ensure_site [OF e] build_library_gone [OF assms(2,3)] assms(2,3)
    by (auto simp: remove_builder_def Cleanup_def)
  moreover have "x' = x\<lparr>si_store := s1, si_build := b1\<rparr>"
    using assms(1) False e
    by (cases "rn_status r"; cases "rn_image r"; cases r1) (auto simp: obtain_image_def Let_def split: if_splits)
  ultimately show ?thesis by simp
qed

definition site_clean :: "image_site \<Rightarrow> bool" where
  "site_clean x \<longleftrightarrow> bs_builder (si_build x) = None \<and> si_shadow x = None"

text \<open>The workspace a success leaves, its Library made from an image of the key that is intact.\<close>

definition materialized_from ::
    "(string \<Rightarrow> string) \<Rightarrow> image_prepare_world \<Rightarrow> materializer \<Rightarrow> image_key \<Rightarrow> image_site \<Rightarrow> bool" where
  "materialized_from sha w mz key x' \<longleftrightarrow>
     (\<exists>dir md rep left d. entry key (si_store x') = Some dir \<and> intact sha key dir md \<and>
        mz_run mz (id_library dir) = (Some rep, False, left) \<and>
        si_shadow x' = Some d \<and> sd_library d = map_option Own left \<and>
        sd_assets d = Some (Own (fst (pw_copy (ip_prepare w) ''Assets''))) \<and>
        sd_settings d = Some (Own (fst (pw_copy (ip_prepare w) ''ProjectSettings''))) \<and>
        sd_packages d = Some (Own (fst (pw_copy (ip_prepare w) ''Packages''))) \<and> sd_temp d = None)"

definition image_for :: "image_key \<Rightarrow> library_image \<Rightarrow> bool" where
  "image_for key i \<longleftrightarrow> ig_name i = ik_digest key \<and> ik_digest (md_key (ig_metadata i)) = ik_digest key \<and>
     kp_schema (md_key (ig_metadata i)) = kp_schema key"

lemma intact_key:
  "intact sha key d m \<Longrightarrow> ik_digest (md_key m) = ik_digest key \<and> kp_schema (md_key m) = kp_schema key"
  by (simp add: intact_def verify_dir_valid)

lemma intact_cong:
  "intact sha key d m \<Longrightarrow> ik_digest key' = ik_digest key \<Longrightarrow> kp_schema key' = kp_schema key \<Longrightarrow> intact sha key' d m"
  by (simp add: intact_def verify_dir_valid)

lemma obtain_image_key:
  assumes "obtain_image sha w q runID key r m x = (Inr i, m', x')"
    "Resolve sha a key s = Inr r"
  shows "image_for key i"
proof (cases "rn_status r = Image_valid")
  case True
  from Resolve_valid [OF assms(2) True] obtain d md where "intact sha key d md"
      "rn_image r = Some \<lparr>ig_name = ik_digest key, ig_metadata = md\<rparr>" by blast
  then show ?thesis using assms(1) True intact_key by (auto simp: obtain_image_def image_for_def)
next
  case False
  obtain r1 st s1 b1 where e: "Ensure sha (ip_image w) key (build_library (ip_build w) (iq_project_path q) runID)
      (remove_builder (ip_build w)) (si_store x) (si_build x) = (r1, st, s1, b1)" by (metis prod_cases4)
  have "r1 = Inr i"
    using assms(1) False e
    by (cases "rn_status r"; cases r1) (auto simp: obtain_image_def Let_def split: if_splits)
  then show ?thesis using Ensure_outcome [OF e] intact_key by (fastforce simp: ensured_def image_for_def)
qed

lemma Verify_valid:
  assumes "Verify sha ended i s = Inr v" "rn_status v = Image_valid" "image_for key i"
  shows "\<exists>dir md. entry key s = Some dir \<and> intact sha key dir md \<and> stored_library s i = id_library dir"
proof -
  obtain md where v: "verifyPath sha ended (map_of (sr_images s) (ig_name i)) (md_key (ig_metadata i)) = Inr (Inr md)"
    using of_verified_valid assms(1,2) by (force simp: Verify_def)
  then obtain dir where d: "map_of (sr_images s) (ig_name i) = Some dir" "\<not> ended"
    by (cases "map_of (sr_images s) (ig_name i)") (auto simp: verifyPath_def split: if_splits)
  then have "intact sha (md_key (ig_metadata i)) dir md" using v by (simp add: intact_def)
  then have "intact sha key dir md" using intact_cong assms(3) by (metis image_for_def)
  then show ?thesis using d assms(3) by (auto simp: entry_def image_for_def stored_library_def)
qed

lemma Prepare_copied:
  assumes "Prepare w source runID copying_packages None ignore = (Inr ws, after, ignore')"
  shows "\<exists>d. after = Some d \<and> sd_assets d = Some (Own (fst (pw_copy w ''Assets''))) \<and>
     sd_settings d = Some (Own (fst (pw_copy w ''ProjectSettings''))) \<and>
     sd_packages d = Some (Own (fst (pw_copy w ''Packages''))) \<and> sd_temp d = None"
proof -
  obtain d0 where d0: "prepare_steps w copying_packages empty_shadow = Inr d0" "after = Some (d0\<lparr>sd_temp := None\<rparr>)"
    using assms by (auto simp: Prepare_def Let_def split: sum.splits if_splits)
  from prepare_steps_well [OF d0(1)] d0(2) show ?thesis
    by (simp add: prepared_well_def copying_packages_def)
qed

lemma prepare_from_image_outcome:
  assumes "prepare_from_image sha w given q runID i m x = (c, m', x')" "site_clean x" "image_for key i"
    "\<not> ip_cleanup_fails w" "c \<noteq> Inl No_result"
  shows "bs_builder (si_build x') = None \<and>
     (case c of Inl e \<Rightarrow> si_shadow x' = None
      | Inr ws \<Rightarrow> materialized_from sha w (selectedLibraryMaterializer given (ip_copy w)) key x')"
proof -
  let ?mz = "selectedLibraryMaterializer given (ip_copy w)"
  obtain r after ig where P: "Prepare (ip_prepare w) (iq_project_path q) runID copying_packages None (bs_ignore (si_build x)) =
      (r, after, ig)" by (metis prod_cases3)
  let ?x = "x\<lparr>si_shadow := after, si_build := (si_build x)\<lparr>bs_ignore := ig\<rparr>, si_store := ip_meanwhile w (si_store x)\<rparr>"
  have clean: "si_shadow x = None" "bs_builder (si_build x) = None" using assms(2) by (simp_all add: site_clean_def)
  have dropped: "si_shadow (drop_shadow w y) = None" "bs_builder (si_build (drop_shadow w y)) = bs_builder (si_build y)" for y
    using assms(4) by (simp_all add: drop_shadow_def Cleanup_def)
  show ?thesis
  proof (cases r)
    case (Inl e)
    then show ?thesis using assms(1) P clean Prepare_after [OF P [unfolded Inl]] by (auto simp: prepare_from_image_def)
  next
    case (Inr ws)
    note run = assms(1) [unfolded prepare_from_image_def clean(1) P Inr, simplified Let_def prod.case sum.case]
    obtain d where d: "after = Some d" "sd_assets d = Some (Own (fst (pw_copy (ip_prepare w) ''Assets'')))"
        "sd_settings d = Some (Own (fst (pw_copy (ip_prepare w) ''ProjectSettings'')))"
        "sd_packages d = Some (Own (fst (pw_copy (ip_prepare w) ''Packages'')))" "sd_temp d = None"
      using Prepare_copied [OF P [unfolded Inr]] by blast
    show ?thesis
    proof (cases "Verify sha (ip_verify_ended w) i (si_store ?x)")
      case (Inl e)
      then show ?thesis using run clean dropped by auto
    next
      case (Inr v)
      show ?thesis
      proof (cases "rn_status v = Image_valid")
        case False
        then show ?thesis using run clean dropped Inr by auto
      next
        case True
        obtain dir md where dm: "entry key (si_store ?x) = Some dir" "intact sha key dir md"
            "stored_library (si_store ?x) i = id_library dir"
          using Verify_valid [OF Inr True assms(3)] by blast
        obtain rep fails left where mz: "mz_run ?mz (id_library dir) = (rep, fails, left)" by (metis prod_cases3)
        show ?thesis using run clean dropped Inr True dm mz d assms(5)
          by (cases rep) (auto simp: check_materialized_def Let_def materialized_from_def with_library_def
              split: if_splits)
      qed
    qed
  qed
qed


text \<open>
  The verification of a materialised Library compares what the walk of the source counted with what the
  image recorded. With the physical copy it can never fail, not even when files are missing from the copy:
  the copy counts the source, which was just verified against the same record.
\<close>

lemma source_counts_intact:
  assumes "intact sha key d m"
  shows "source_counts (id_library d) = (md_files m, md_bytes m)"
proof -
  have "hashTree sha (id_library d) = Inr \<lparr>ts_digest = md_digest m, ts_files = md_files m, ts_bytes = md_bytes m\<rparr>"
    using assms by (simp add: intact_def verify_dir_valid)
  then show ?thesis by (auto simp: hashTree_def bind_result_Inr_iff Let_def source_counts_def)
qed

lemma physical_copy_check_is_vacuous:
  assumes "intact sha key dir (ig_metadata i)"
  shows "fst (check_materialized w (PhysicalCopyMaterializer c) i (id_library dir) x m) \<noteq> Inl Materialized_differs"
  using source_counts_intact [OF assms]
  by (auto simp: check_materialized_def PhysicalCopyMaterializer_def PhysicalCopy_Materialize_def Let_def)

section \<open>An example\<close>

definition demo_project :: project where
  "demo_project = \<lparr>pj_abs = Some ''/p'', pj_resolved = None, pj_version = FileBytes ''m_EditorVersion: 6000.0.1f1'',
     pj_manifest = FileBytes ''{}'', pj_lock = FileMissing, pj_settings = Some (Directory ''d'' []),
     pj_settings_asset = FileMissing\<rparr>"

definition demo_shadow_world :: "tree prepare_world" where
  "demo_shadow_world = \<lparr>pw_mkdir_fails = False, pw_copy = (\<lambda>n. (Directory ''d'' [], False)),
     pw_link_fails = False, pw_seed_exists = False, pw_empty = Directory ''d'' [], pw_library_fails = False,
     pw_ignore_write_fails = False\<rparr>"

definition demo_build_world :: build_world where
  "demo_build_world = \<lparr>bd_prepare = demo_shadow_world,
     bd_unity = (\<lambda>args. \<lparr>iv_exit = 0, iv_err = None, iv_stderr = [], iv_outer = Alive, iv_results = None\<rparr>),
     bd_library = Some demo_library, bd_usage = Some (2, 4096), bd_cleanup_fails = False\<rparr>"

definition demo_image_prepare :: image_prepare_world where
  "demo_image_prepare = \<lparr>ip_clear = (False, None), ip_project = demo_project,
     ip_resolve = \<lparr>ra_ended = False, ra_stat_fails = False, ra_list_fails = False\<rparr>, ip_image = demo_image_world,
     ip_build = demo_build_world, ip_image_usage = Some (2, 4096), ip_store_usage = Some (3, 8192),
     ip_prepare = demo_shadow_world, ip_meanwhile = id, ip_verify_ended = False,
     ip_copy = \<lparr>cy_left = Some demo_library, cy_fails = False, cy_counted = (0, 0), cy_remaining = None, cy_duration = 5000000\<rparr>,
     ip_cleanup_fails = False,
     ip_clock = \<lparr>ic_resolve = 1000000, ic_creation = 2000000, ic_preparation = 3000000, ic_file_copy = 4000000,
       ic_workspace_verify = 0, ic_verified = (\<lambda>n. (0, 0))\<rparr>\<rparr>"

definition demo_image_site :: image_site where
  "demo_image_site = \<lparr>si_store = empty_image_store,
     si_build = \<lparr>bs_builder = None, bs_ignore = FileMissing, bs_usage = (0, 0)\<rparr>, si_shadow = None\<rparr>"

definition demo_image_run :: "(image_error + workspace) \<times> workspace_metrics \<times> image_site" where
  "demo_image_run = prepareImageWorkspace id (\<lambda>k. ''key'') ''linux/amd64'' demo_image_prepare None
     \<lparr>iq_project_path = ''/p'', iq_unity_path = ''/u'', iq_clear_cache = True\<rparr> sample_id demo_image_site"


end
