(* ===== verification/LocalPackages.thy ===== *)
theory LocalPackages
  imports TreeDigest VhdxStore
begin

text \<open>
  What identifies the parent disk of a VHDX run and what is laid over its packages:
  \<^verbatim>\<open>internal/vhdxworkspace/key.go\<close> and \<^verbatim>\<open>local_packages.go\<close>. JSON documents are
  decoded values, their encodings parameters.
\<close>

section \<open>Keys and snapshots\<close>

definition DefaultVirtualBytes :: int where "DefaultVirtualBytes = 64 * 2 ^ 30"
definition DefaultBlockBytes :: int where "DefaultBlockBytes = 2 * 2 ^ 20"
definition DefaultSectorBytes :: int where "DefaultSectorBytes = 4096"

text \<open>\<open>lib\<close> is the image key as a part of the document, \<open>enc\<close> the encoding of the document.\<close>

definition ComputeCompatibilityKeyWithLocalPackages ::
    "(string \<Rightarrow> string) \<Rightarrow> (key_payload \<Rightarrow> string) \<Rightarrow> (image_key \<Rightarrow> string) \<Rightarrow> (compat_key \<Rightarrow> string) \<Rightarrow>
     string \<Rightarrow> project \<Rightarrow> string \<Rightarrow> string \<Rightarrow> key_error + compat_key" where
  "ComputeCompatibilityKeyWithLocalPackages sha enc lib encode platform p unityPath localDigest =
     bind_result (ComputeKey sha enc platform p unityPath) (\<lambda>base.
       let payload = \<lparr>ck_schema = ParentSchemaVersion, ck_digest = [], ck_library = lib base,
             ck_provider = Provider, ck_filesystem = ''NTFS'', ck_virtual = DefaultVirtualBytes,
             ck_block = DefaultBlockBytes, ck_sector = DefaultSectorBytes, ck_local = localDigest\<rparr>
       in Inr (payload\<lparr>ck_digest := sha (encode payload)\<rparr>))"

record source_snapshot =
  ss_digest :: string
  ss_assets :: string
  ss_packages :: string
  ss_settings :: string
  ss_files :: int
  ss_bytes :: int
  ss_local :: string

definition ComputeSourceSnapshotWithLocalPackages ::
    "(string \<Rightarrow> string) \<Rightarrow> (string \<Rightarrow> tree option) \<Rightarrow> string \<Rightarrow> tree_error + source_snapshot" where
  "ComputeSourceSnapshotWithLocalPackages sha dir localDigest =
     bind_result (digestTree sha (dir ''Assets'')) (\<lambda>a.
     bind_result (digestTree sha (dir ''Packages'')) (\<lambda>p.
     bind_result (digestTree sha (dir ''ProjectSettings'')) (\<lambda>s.
       let parts = [ts_digest a, ts_digest p, ts_digest s] @ (if localDigest = [] then [] else [localDigest])
       in Inr \<lparr>ss_digest = sha (join_with [nul] parts), ss_assets = ts_digest a, ss_packages = ts_digest p,
            ss_settings = ts_digest s, ss_files = ts_files a + ts_files p + ts_files s,
            ss_bytes = ts_bytes a + ts_bytes p + ts_bytes s, ss_local = localDigest\<rparr>)))"

section \<open>Resolving the overrides\<close>

record package_override =
  po_name :: string
  po_source :: string
  po_version :: string
  po_digest :: string
  po_files :: int
  po_bytes :: int

text \<open>
  What the file system says: whether a path is there and is a directory or a link, whether the
  platform takes it for a real directory, the name and version in its \<^verbatim>\<open>package.json\<close>, its tree.
\<close>

record package_world =
  kw_lstat :: "string \<Rightarrow> (bool \<times> bool) option"
  kw_real :: "string \<Rightarrow> bool"
  kw_json :: "string \<Rightarrow> (string \<times> string) option file_read"
  kw_tree :: "string \<Rightarrow> tree option"

datatype package_error =
    Bad_package_name string | Relative_package string | Not_a_directory string | Not_real string
  | Package_unreadable string | Package_undecodable string | Package_identity string
  | Package_unhashable string tree_error

definition unityPackageName :: "string \<Rightarrow> bool" where
  "unityPackageName s \<longleftrightarrow> s \<noteq> [] \<and> is_alnum (hd s) \<and> list_all (\<lambda>c. is_alnum c \<or> c \<in> set ''._-'') s"

definition network_path :: "string \<Rightarrow> bool" where
  "network_path p \<longleftrightarrow> has_prefix p [CHR 0x5C, CHR 0x5C]"

definition check_package_dir :: "package_world \<Rightarrow> string \<Rightarrow> string \<Rightarrow> package_error + unit" where
  "check_package_dir w name path =
     (case kw_lstat w path of
        Some (True, False) \<Rightarrow> (if kw_real w path then Inr () else Inl (Not_real name))
      | _ \<Rightarrow> Inl (Not_a_directory name))"

definition read_package :: "package_world \<Rightarrow> string \<Rightarrow> string \<Rightarrow> package_error + string" where
  "read_package w name path =
     (case kw_json w path of
        FileBytes (Some (n, v)) \<Rightarrow> (if n \<noteq> name \<or> trim_space v = [] then Inl (Package_identity name) else Inr v)
      | FileBytes None \<Rightarrow> Inl (Package_undecodable name)
      | _ \<Rightarrow> Inl (Package_unreadable name))"

definition resolve_override ::
    "(string \<Rightarrow> string) \<Rightarrow> package_world \<Rightarrow> string \<times> string \<Rightarrow> package_error + package_override" where
  "resolve_override sha w entry =
     (let name = fst entry; configured = trim_space (snd entry); path = Clean configured
      in bind_result (require (unityPackageName name \<and> name \<noteq> ''.'' \<and> name \<noteq> ''..'') (Bad_package_name name)) (\<lambda>_.
         bind_result (require (IsAbs configured \<and> \<not> network_path path) (Relative_package name)) (\<lambda>_.
         bind_result (check_package_dir w name path) (\<lambda>_.
         bind_result (read_package w name path) (\<lambda>version.
           case digestTree sha (kw_tree w path) of
             Inl e \<Rightarrow> Inl (Package_unhashable name e)
           | Inr t \<Rightarrow> Inr \<lparr>po_name = name, po_source = path, po_version = version, po_digest = ts_digest t,
               po_files = ts_files t, po_bytes = ts_bytes t\<rparr>)))))"

fun resolve_all :: "(string \<times> string \<Rightarrow> 'e + 'a) \<Rightarrow> (string \<times> string) list \<Rightarrow> 'e + 'a list" where
  "resolve_all f [] = Inr []"
| "resolve_all f (e # es) = bind_result (f e) (\<lambda>x. bind_result (resolve_all f es) (\<lambda>xs. Inr (x # xs)))"

definition aggregate :: "package_override list \<Rightarrow> string" where
  "aggregate ps = concat (map (\<lambda>p. po_name p @ [nul] @ po_digest p @ [nul]) ps)"

definition ResolveLocalPackageOverrides ::
    "(string \<Rightarrow> string) \<Rightarrow> package_world \<Rightarrow> (string \<times> string) list \<Rightarrow>
     package_error + package_override list \<times> string" where
  "ResolveLocalPackageOverrides sha w configured =
     (if configured = [] then Inr ([], [])
      else bind_result (resolve_all (resolve_override sha w) (sort_key fst configured)) (\<lambda>ps.
        Inr (ps, sha (aggregate ps))))"

section \<open>Applying the overrides\<close>

datatype json = Json_string string | Json_number int | Json_object "(string \<times> json) list" | Json_other string

type_synonym json_object = "(string \<times> json) list"

text \<open>The \<^verbatim>\<open>Packages\<close> directory of the workspace; an undecodable document is \<open>None\<close>.\<close>

record packages_dir =
  pd_real :: bool
  pd_manifest :: "json_object option file_read"
  pd_lock :: "json_object option file_read"
  pd_embedded :: "(string \<times> tree) list"

record apply_world =
  aw_lstat_fails :: "string \<Rightarrow> bool"
  aw_copy :: "string \<Rightarrow> tree \<times> bool"
  aw_manifest_fails :: bool
  aw_lock_fails :: bool

datatype apply_error =
    Packages_not_real | Document_unreadable string | Dependencies_missing string | Not_a_file_dependency string
  | Lock_entry_missing string | Destination_exists string | Destination_unreadable string
  | Package_copy_failed string | Document_unwritable string

definition readJSONObject :: "string \<Rightarrow> json_object option file_read \<Rightarrow> apply_error + json_object" where
  "readJSONObject name r = (case r of FileBytes (Some j) \<Rightarrow> Inr j | _ \<Rightarrow> Inl (Document_unreadable name))"

definition dependencies :: "string \<Rightarrow> json_object \<Rightarrow> apply_error + json_object" where
  "dependencies name j = (case map_of j ''dependencies'' of
       Some (Json_object d) \<Rightarrow> Inr d | _ \<Rightarrow> Inl (Dependencies_missing name))"

definition file_dependency :: "json_object \<Rightarrow> string \<Rightarrow> bool" where
  "file_dependency deps name = (case map_of deps name of
       Some (Json_string d) \<Rightarrow> has_prefix (trim_space d) ''file:'' | _ \<Rightarrow> False)"

definition embedded_entry :: "string \<Rightarrow> json_object \<Rightarrow> json" where
  "embedded_entry name e = Json_object (remove_entry ''hash'' (put ''source'' (Json_string ''embedded'')
     (put ''depth'' (Json_number 0) (put ''version'' (Json_string (''file:'' @ name)) e))))"

text \<open>The dependencies of the manifest and of the lock, and the directory, after each package.\<close>

fun embed ::
    "apply_world \<Rightarrow> package_override list \<Rightarrow> json_object \<Rightarrow> json_object \<Rightarrow> packages_dir \<Rightarrow>
     (apply_error + json_object \<times> json_object) \<times> packages_dir" where
  "embed w [] md ld d = (Inr (md, ld), d)"
| "embed w (p # ps) md ld d =
     (let n = po_name p
      in if \<not> file_dependency md n then (Inl (Not_a_file_dependency n), d)
         else case map_of ld n of
             Some (Json_object e) \<Rightarrow>
               (if map_of (pd_embedded d) n \<noteq> None then (Inl (Destination_exists n), d)
                else if aw_lstat_fails w n then (Inl (Destination_unreadable n), d)
                else case aw_copy w (po_source p) of
                    (t, fails) \<Rightarrow>
                      (let d1 = d\<lparr>pd_embedded := put n t (pd_embedded d)\<rparr>
                       in if fails then (Inl (Package_copy_failed n), d1)
                          else embed w ps (remove_entry n md) (put n (embedded_entry n e) ld) d1))
           | _ \<Rightarrow> (Inl (Lock_entry_missing n), d))"

definition write_documents ::
    "apply_world \<Rightarrow> json_object \<Rightarrow> json_object \<Rightarrow> packages_dir \<Rightarrow> apply_error option \<times> packages_dir" where
  "write_documents w manifest lock d =
     (if aw_manifest_fails w then (Some (Document_unwritable ''manifest.json''), d)
      else let d1 = d\<lparr>pd_manifest := FileBytes (Some manifest)\<rparr>
        in if aw_lock_fails w then (Some (Document_unwritable ''packages-lock.json''), d1)
           else (None, d1\<lparr>pd_lock := FileBytes (Some lock)\<rparr>))"

definition read_dependencies :: "packages_dir \<Rightarrow> apply_error + (json_object \<times> json_object) \<times> (json_object \<times> json_object)" where
  "read_dependencies d =
     bind_result (readJSONObject ''manifest.json'' (pd_manifest d)) (\<lambda>manifest.
     bind_result (dependencies ''manifest.json'' manifest) (\<lambda>md.
     bind_result (readJSONObject ''packages-lock.json'' (pd_lock d)) (\<lambda>lock.
     bind_result (dependencies ''packages-lock.json'' lock) (\<lambda>ld. Inr ((manifest, md), (lock, ld))))))"

definition ApplyLocalPackageOverrides ::
    "apply_world \<Rightarrow> package_override list \<Rightarrow> packages_dir \<Rightarrow> apply_error option \<times> packages_dir" where
  "ApplyLocalPackageOverrides w ps d =
     (if ps = [] then (None, d)
      else if \<not> pd_real d then (Some Packages_not_real, d)
      else case read_dependencies d of
          Inl e \<Rightarrow> (Some e, d)
        | Inr ((manifest, md), (lock, ld)) \<Rightarrow>
            (case embed w ps md ld d of
               (Inl e, d1) \<Rightarrow> (Some e, d1)
             | (Inr (md1, ld1), d1) \<Rightarrow>
                 write_documents w (put ''dependencies'' (Json_object md1) manifest)
                   (put ''dependencies'' (Json_object ld1) lock) d1))"

section \<open>What the digest of the overrides means\<close>

lemma alnum_not_nul: "is_alnum c \<Longrightarrow> c \<noteq> nul"
  by (auto simp: is_alnum_def is_digit_def byte_of_def nul_def)

lemma package_name_nul: "unityPackageName s \<Longrightarrow> nul \<notin> set s"
  using alnum_not_nul by (auto simp: unityPackageName_def list_all_iff nul_def) 

lemma lower_hex_not_nul: "is_lower_hex c \<Longrightarrow> c \<noteq> nul"
  by (auto simp: is_lower_hex_def is_digit_def byte_of_def nul_def)

lemma valid_digest_nul: "valid_digest s \<Longrightarrow> nul \<notin> set s \<and> s \<noteq> []"
  using lower_hex_not_nul by (auto simp: valid_digest_def list_all_iff)

lemma resolve_override_Inr:
  assumes "resolve_override sha w e = Inr p"
  shows "unityPackageName (po_name p) \<and> po_name p = fst e \<and> (\<exists>x. po_digest p = sha x)"
proof -
  obtain t where t: "digestTree sha (kw_tree w (Clean (trim_space (snd e)))) = Inr t" "po_digest p = ts_digest t"
      "po_name p = fst e" "unityPackageName (fst e)"
    using assms by (cases "digestTree sha (kw_tree w (Clean (trim_space (snd e))))")
      (auto simp: resolve_override_def Let_def bind_result_Inr_iff)
  have "\<exists>x. ts_digest t = sha x"
    using t(1) by (auto simp: digestTree_def Let_def bind_result_Inr_iff split: if_splits)
  then show ?thesis using t by simp
qed

lemma resolve_all_Inr:
  "resolve_all f es = Inr xs \<longleftrightarrow> list_all2 (\<lambda>e x. f e = Inr x) es xs"
  by (induction es arbitrary: xs) (auto simp: bind_result_Inr_iff list_all2_Cons1)

definition package_identity :: "package_override \<Rightarrow> string \<times> string" where
  "package_identity p = (po_name p, po_digest p)"

lemma split_at_nul: "a @ nul # b = c @ nul # d \<Longrightarrow> nul \<notin> set a \<Longrightarrow> nul \<notin> set c \<Longrightarrow> a = c \<and> b = d"
proof (induction a arbitrary: c)
  case Nil
  then show ?case by (cases c) auto
next
  case (Cons x a)
  then show ?case by (cases c) auto
qed

lemma aggregate_inject:
  assumes "aggregate ps = aggregate qs"
    "list_all (\<lambda>p. nul \<notin> set (po_name p) \<and> nul \<notin> set (po_digest p)) (ps @ qs)"
  shows "map package_identity ps = map package_identity qs"
  using assms
proof (induction ps arbitrary: qs)
  case Nil
  then show ?case by (cases qs) (auto simp: aggregate_def)
next
  case (Cons p ps)
  then obtain q qs' where q: "qs = q # qs'" by (cases qs) (auto simp: aggregate_def)
  have "po_name p @ nul # po_digest p @ nul # aggregate ps = po_name q @ nul # po_digest q @ nul # aggregate qs'"
    using Cons.prems(1) q by (simp add: aggregate_def)
  from split_at_nul [OF this] have "po_name p = po_name q"
      "po_digest p @ nul # aggregate ps = po_digest q @ nul # aggregate qs'"
    using Cons.prems(2) q by auto
  moreover from split_at_nul [OF this(2)] have "po_digest p = po_digest q" "aggregate ps = aggregate qs'"
    using Cons.prems(2) q by auto
  ultimately show ?case using Cons.IH [of qs'] Cons.prems(2) q by (simp add: package_identity_def)
qed

lemma ResolveLocalPackageOverrides_Inr:
  assumes "ResolveLocalPackageOverrides sha w c = Inr (ps, d)" "\<And>x. valid_digest (sha x)"
  shows "list_all (\<lambda>p. nul \<notin> set (po_name p) \<and> nul \<notin> set (po_digest p)) ps \<and>
     d = (if ps = [] then [] else sha (aggregate ps)) \<and> map po_name ps = map fst (sort_key fst c)"
proof (cases "c = []")
  case True
  then show ?thesis using assms(1) by (simp add: ResolveLocalPackageOverrides_def)
next
  case False
  then have r: "list_all2 (\<lambda>e p. resolve_override sha w e = Inr p) (sort_key fst c) ps" "d = sha (aggregate ps)"
    using assms(1) by (auto simp: ResolveLocalPackageOverrides_def bind_result_Inr_iff resolve_all_Inr)
  have ok: "nul \<notin> set (po_name p) \<and> nul \<notin> set (po_digest p) \<and> po_name p = fst e"
    if "resolve_override sha w e = Inr p" for e p
    using resolve_override_Inr [OF that] package_name_nul valid_digest_nul assms(2) by metis
  have "list_all2 (\<lambda>e p. nul \<notin> set (po_name p) \<and> nul \<notin> set (po_digest p) \<and> po_name p = fst e) (sort_key fst c) ps"
    by (rule list_all2_mono [OF r(1) ok])
  then have "list_all (\<lambda>p. nul \<notin> set (po_name p) \<and> nul \<notin> set (po_digest p)) ps"
    "map po_name ps = map fst (sort_key fst c)"
    by (induction rule: list_all2_induct) auto
  moreover have "ps \<noteq> []" using r(1) False by (metis length_0_conv length_sort list_all2_lengthD)
  ultimately show ?thesis using r(2) by simp
qed

text \<open>
  The digest of the overrides is the same exactly when the same packages are overridden with the
  same contents: wherever they lie on the machine, whatever their order in the configuration, as long
  as SHA-256 tells the two sequences apart. Identical packages share one parent disk, others never do.
\<close>

theorem package_digest_portable:
  assumes "ResolveLocalPackageOverrides sha w c = Inr (ps, d)" "ResolveLocalPackageOverrides sha w' c' = Inr (qs, d')"
    "\<And>x. valid_digest (sha x)" "inj_on sha {aggregate ps, aggregate qs}"
  shows "d = d' \<longleftrightarrow> map package_identity ps = map package_identity qs"
proof -
  note a = ResolveLocalPackageOverrides_Inr [OF assms(1,3)] and b = ResolveLocalPackageOverrides_Inr [OF assms(2,3)]
  have agg: "aggregate rs = concat (map (\<lambda>(n, h). n @ [nul] @ h @ [nul]) (map package_identity rs))" for rs
    by (simp add: aggregate_def package_identity_def comp_def)
  have ne: "sha x \<noteq> []" for x using valid_digest_nul [OF assms(3)] by blast
  show ?thesis
  proof
    assume "d = d'"
    then have "ps = [] \<and> qs = [] \<or> sha (aggregate ps) = sha (aggregate qs)"
      using a b ne [of "aggregate ps"] ne [of "aggregate qs"] by (auto split: if_splits)
    then show "map package_identity ps = map package_identity qs"
    proof
      assume "sha (aggregate ps) = sha (aggregate qs)"
      from inj_onD [OF assms(4) this] have "aggregate ps = aggregate qs" by blast
      moreover have "list_all (\<lambda>p. nul \<notin> set (po_name p) \<and> nul \<notin> set (po_digest p)) (ps @ qs)"
        using a b by (simp only: list_all_append)
      ultimately show ?thesis by (rule aggregate_inject)
    qed simp
  next
    assume m: "map package_identity ps = map package_identity qs"
    then have "aggregate ps = aggregate qs" using agg [of ps] agg [of qs] by metis
    moreover have "ps = [] \<longleftrightarrow> qs = []" using arg_cong [OF m, of length] by auto
    ultimately show "d = d'" using a b by metis
  qed
qed

section \<open>What the application of the overrides does\<close>

definition names :: "package_override list \<Rightarrow> string set" where
  "names ps = set (map po_name ps)"

definition embedded_as ::
    "apply_world \<Rightarrow> package_override list \<Rightarrow> json_object \<Rightarrow> json_object \<Rightarrow> packages_dir \<Rightarrow>
     json_object \<Rightarrow> json_object \<Rightarrow> packages_dir \<Rightarrow> bool" where
  "embedded_as w ps md ld d md' ld' d' \<longleftrightarrow>
     (\<forall>n. map_of md' n = (if n \<in> names ps then None else map_of md n)) \<and>
     (\<forall>n. n \<notin> names ps \<longrightarrow> map_of ld' n = map_of ld n \<and> map_of (pd_embedded d') n = map_of (pd_embedded d) n) \<and>
     (\<forall>p \<in> set ps. map_of md (po_name p) \<noteq> None \<and>
        (\<exists>e. map_of ld (po_name p) = Some (Json_object e) \<and>
             map_of ld' (po_name p) = Some (embedded_entry (po_name p) e)) \<and>
        map_of (pd_embedded d) (po_name p) = None \<and>
        map_of (pd_embedded d') (po_name p) = Some (fst (aw_copy w (po_source p))))"

lemma embed_Cons_Inr:
  assumes "embed w (p # ps) md ld d = (Inr r, d')"
  shows "\<exists>e. file_dependency md (po_name p) \<and> map_of ld (po_name p) = Some (Json_object e) \<and>
     map_of (pd_embedded d) (po_name p) = None \<and>
     embed w ps (remove_entry (po_name p) md) (put (po_name p) (embedded_entry (po_name p) e) ld)
       (d\<lparr>pd_embedded := put (po_name p) (fst (aw_copy w (po_source p))) (pd_embedded d)\<rparr>) = (Inr r, d')"
  using assms by (auto simp: Let_def split: if_splits option.splits json.splits prod.splits)

lemma embed_Inr: "embed w ps md ld d = (Inr (md', ld'), d') \<Longrightarrow> embedded_as w ps md ld d md' ld' d'"
proof (induction ps arbitrary: md ld d)
  case Nil
  then show ?case by (simp add: embedded_as_def names_def)
next
  case (Cons p ps)
  let ?n = "po_name p" and ?t = "fst (aw_copy w (po_source p))"
  obtain e where e: "file_dependency md ?n" "map_of ld ?n = Some (Json_object e)" "map_of (pd_embedded d) ?n = None"
      "embed w ps (remove_entry ?n md) (put ?n (embedded_entry ?n e) ld)
         (d\<lparr>pd_embedded := put ?n ?t (pd_embedded d)\<rparr>) = (Inr (md', ld'), d')"
    using embed_Cons_Inr [OF Cons.prems] by blast
  note ih = Cons.IH [OF e(4), unfolded embedded_as_def]
  have later: "?n \<notin> names ps" using ih by (auto simp: names_def)
  have dep: "map_of md ?n \<noteq> None" using e(1) by (auto simp: file_dependency_def split: option.splits)
  have tail: "po_name q \<noteq> ?n" if "q \<in> set ps" for q using later that by (metis image_eqI list.set_map names_def)
  show ?case unfolding embedded_as_def
  proof (intro conjI ballI)
    show "\<forall>n. map_of md' n = (if n \<in> names (p # ps) then None else map_of md n)"
      using ih by (auto simp: names_def)
    show "\<forall>n. n \<notin> names (p # ps) \<longrightarrow>
        map_of ld' n = map_of ld n \<and> map_of (pd_embedded d') n = map_of (pd_embedded d) n"
      using ih by (auto simp: names_def)
  next
    fix q assume q: "q \<in> set (p # ps)"
    have "q = p \<or> q \<in> set ps" using q by auto
    then show "map_of md (po_name q) \<noteq> None" "\<exists>e. map_of ld (po_name q) = Some (Json_object e) \<and>
        map_of ld' (po_name q) = Some (embedded_entry (po_name q) e)" "map_of (pd_embedded d) (po_name q) = None"
        "map_of (pd_embedded d') (po_name q) = Some (fst (aw_copy w (po_source q)))"
      using e dep later tail ih by (auto split: if_splits)
  qed
qed

lemma embed_documents: "embed w ps md ld d = (r, d') \<Longrightarrow> pd_manifest d' = pd_manifest d \<and> pd_lock d' = pd_lock d"
proof (induction ps arbitrary: md ld d)
  case (Cons p ps)
  obtain t fails where c: "aw_copy w (po_source p) = (t, fails)" by fastforce
  show ?case using Cons.prems Cons.IH [of _ _ "d\<lparr>pd_embedded := put (po_name p) t (pd_embedded d)\<rparr>"] c
    by (auto simp: Let_def split: if_splits option.splits json.splits)
qed simp

text \<open>
  Applying the overrides embeds exactly the overridden packages: each is copied into the workspace under its
  name, where nothing was before, leaves the dependencies of the manifest and is marked as embedded in the
  lock file; every other dependency, key and package stays as it was. When it fails, the manifest is the
  old one unless only the lock file could not be written.
\<close>

theorem overrides_embed_exactly:
  assumes "ApplyLocalPackageOverrides w ps d = (err, d')"
  shows "case err of
      None \<Rightarrow> ps = [] \<and> d' = d \<or> (\<exists>manifest md lock ld md' ld'.
        pd_manifest d = FileBytes (Some manifest) \<and> map_of manifest ''dependencies'' = Some (Json_object md) \<and>
        pd_lock d = FileBytes (Some lock) \<and> map_of lock ''dependencies'' = Some (Json_object ld) \<and>
        embedded_as w ps md ld d md' ld' d' \<and>
        pd_manifest d' = FileBytes (Some (put ''dependencies'' (Json_object md') manifest)) \<and>
        pd_lock d' = FileBytes (Some (put ''dependencies'' (Json_object ld') lock)))
    | Some e \<Rightarrow> pd_lock d' = pd_lock d \<and> (pd_manifest d' = pd_manifest d \<or> e = Document_unwritable ''packages-lock.json'')"
proof (cases "ps = [] \<or> \<not> pd_real d \<or> \<not> is_ok (read_dependencies d)")
  case True
  then show ?thesis using assms by (auto simp: ApplyLocalPackageOverrides_def is_ok_def split: sum.splits if_splits)
next
  case False
  then obtain manifest md lock ld where r: "read_dependencies d = Inr ((manifest, md), (lock, ld))"
    by (auto simp: is_ok_iff)
  then have docs: "pd_manifest d = FileBytes (Some manifest)" "map_of manifest ''dependencies'' = Some (Json_object md)"
      "pd_lock d = FileBytes (Some lock)" "map_of lock ''dependencies'' = Some (Json_object ld)"
    by (auto simp: read_dependencies_def bind_result_Inr_iff readJSONObject_def dependencies_def
        split: file_read.splits option.splits json.splits)
  obtain x d1 where e: "embed w ps md ld d = (x, d1)" by fastforce
  show ?thesis
  proof (cases x)
    case (Inl f)
    then show ?thesis using assms False r e embed_documents [OF e] by (auto simp: ApplyLocalPackageOverrides_def)
  next
    case (Inr y)
    obtain md' ld' where y: "y = (md', ld')" by fastforce
    have emb: "embedded_as w ps md ld d md' ld' d1" using embed_Inr e Inr y by blast
    have wr: "write_documents w (put ''dependencies'' (Json_object md') manifest)
        (put ''dependencies'' (Json_object ld') lock) d1 = (err, d')"
      using assms False r e Inr y by (simp add: ApplyLocalPackageOverrides_def)
    have "embedded_as w ps md ld d md' ld' d'" if "err = None"
      using emb wr that by (auto simp: write_documents_def Let_def embedded_as_def split: if_splits)
    moreover have "pd_manifest d' = FileBytes (Some (put ''dependencies'' (Json_object md') manifest)) \<and>
        pd_lock d' = FileBytes (Some (put ''dependencies'' (Json_object ld') lock))" if "err = None"
      using wr that by (auto simp: write_documents_def Let_def split: if_splits)
    moreover have "pd_lock d' = pd_lock d \<and> (pd_manifest d' = pd_manifest d \<or> f = Document_unwritable ''packages-lock.json'')"
      if "err = Some f" for f
      using wr that embed_documents [OF e] by (auto simp: write_documents_def Let_def split: if_splits)
    ultimately show ?thesis using docs by (cases err) (simp, blast, simp)
  qed
qed

section \<open>Examples\<close>

definition demo_package_world :: package_world where
  "demo_package_world = \<lparr>kw_lstat = (\<lambda>p. Some (True, False)), kw_real = (\<lambda>p. True),
     kw_json = (\<lambda>p. FileBytes (Some (''com.a'', ''1.0''))),
     kw_tree = (\<lambda>p. Some (Directory ''d'' [(''f'', Regular ''-'' (Some ''x''))]))\<rparr>"

definition demo_sha :: "string \<Rightarrow> string" where
  "demo_sha x = replicate 64 (if x = [] then CHR ''0'' else CHR ''a'')"

text \<open>The same package at two places of the machine.\<close>

theorem package_digest_portable_witness:
  "\<exists>ps qs d. ResolveLocalPackageOverrides demo_sha demo_package_world [(''com.a'', ''/x'')] = Inr (ps, d) \<and>
     ResolveLocalPackageOverrides demo_sha demo_package_world [(''com.a'', ''/y/../z'')] = Inr (qs, d) \<and>
     map po_source ps \<noteq> map po_source qs"
proof -
  let ?r = "\<lambda>p. ResolveLocalPackageOverrides demo_sha demo_package_world [(''com.a'', p)]"
  have "is_ok (?r ''/x'')" "is_ok (?r ''/y/../z'')" by code_simp+
  then obtain ps d qs d' where r: "?r ''/x'' = Inr (ps, d)" "?r ''/y/../z'' = Inr (qs, d')" by (auto simp: is_ok_iff)
  have sha: "valid_digest (demo_sha x)" for x
    by (simp add: demo_sha_def valid_digest_def list_all_iff is_lower_hex_code)
  have "(case ?r ''/x'' of Inl e \<Rightarrow> False | Inr (ps, d) \<Rightarrow> case ?r ''/y/../z'' of Inl e \<Rightarrow> False | Inr (qs, d') \<Rightarrow>
      map package_identity ps = map package_identity qs \<and> map po_source ps \<noteq> map po_source qs \<and>
      aggregate ps = aggregate qs)"
    by code_simp
  then have same: "map package_identity ps = map package_identity qs" "map po_source ps \<noteq> map po_source qs"
      "aggregate ps = aggregate qs" by (simp_all add: r)
  then have "inj_on demo_sha {aggregate ps, aggregate qs}" by simp
  from package_digest_portable [OF r sha this] same show ?thesis using r by blast
qed

definition demo_override :: package_override where
  "demo_override = \<lparr>po_name = ''com.a'', po_source = ''/x'', po_version = ''1.0'', po_digest = ''d'',
     po_files = 1, po_bytes = 1\<rparr>"

definition demo_packages_dir :: packages_dir where
  "demo_packages_dir = \<lparr>pd_real = True,
     pd_manifest = FileBytes (Some [(''dependencies'', Json_object [(''com.a'', Json_string ''file:../a''), (''com.b'', Json_string ''2.0'')])]),
     pd_lock = FileBytes (Some [(''dependencies'', Json_object [(''com.a'', Json_object [(''hash'', Json_string ''h'')])])]),
     pd_embedded = []\<rparr>"

definition demo_apply_world :: apply_world where
  "demo_apply_world = \<lparr>aw_lstat_fails = (\<lambda>n. False), aw_copy = (\<lambda>p. (Directory ''d'' [], False)),
     aw_manifest_fails = False, aw_lock_fails = False\<rparr>"

theorem overrides_embed_exactly_witness:
  "case ApplyLocalPackageOverrides demo_apply_world [demo_override] demo_packages_dir of
     (err, d') \<Rightarrow> err = None \<and> map_of (pd_embedded d') ''com.a'' = Some (Directory ''d'' [])"
proof -
  let ?r = "ApplyLocalPackageOverrides demo_apply_world [demo_override] demo_packages_dir"
  obtain err d' where r: "?r = (err, d')" by fastforce
  have "fst ?r = None" by code_simp
  then have none: "err = None" by (simp add: r)
  with overrides_embed_exactly [OF r]
  have "map_of (pd_embedded d') (po_name demo_override) = Some (fst (aw_copy demo_apply_world (po_source demo_override)))"
    by (auto simp: embedded_as_def)
  then show ?thesis unfolding r prod.case using none by (simp add: demo_override_def demo_apply_world_def)
qed

end
