(* ===== verification/VhdxClient.thy ===== *)
theory VhdxClient
  imports LocalPackages VhdxBroker WorkspaceLease UnityExec
begin

text \<open>
  The VHDX backend of a run, \<^verbatim>\<open>internal/runsvc/vhdx_workspace.go\<close> with
  \<^verbatim>\<open>internal/vhdxworkspace/client.go\<close>: the preparation of a workspace through the broker, the
  monitor that runs beside Unity, the release. The broker is an argument, a function from a request and
  its state to an answer and its state (\<^verbatim>\<open>vhdxworkspace.Client\<close>);
  \<open>DirectClient_Call\<close> is the one that calls the broker of \<^verbatim>\<open>VhdxBroker\<close>.
\<close>

section \<open>Answers of the broker\<close>

record broker_metrics =
  bm_parent_status :: string
  bm_parent_created :: bool
  bm_parent_reused :: bool
  bm_parent_build_ms :: int
  bm_parent_verify_ms :: int
  bm_parent_virtual :: int
  bm_parent_allocated :: int
  bm_child_create_ms :: int
  bm_child_attach_ms :: int
  bm_child_mount_ms :: int
  bm_child_release_ms :: int
  bm_child_ready :: int
  bm_child_peak :: int
  bm_child_released :: int
  bm_ready_measured :: bool
  bm_peak_measured :: bool
  bm_released_measured :: bool
  bm_cleanup_state :: string
  bm_capacity :: capacity

text \<open>The response with the fields that only the client reads.\<close>

record wire = response +
  wr_provider :: string
  wr_workspace_root :: string
  wr_store_root :: string
  wr_metrics :: "broker_metrics option"

type_synonym 'b client = "request \<Rightarrow> 'b \<Rightarrow> (string option \<times> wire) \<times> 'b"

definition NewRequest :: "operation \<Rightarrow> string \<Rightarrow> request" where
  "NewRequest op i = \<lparr>rq_schema = ProtocolSchemaVersion, rq_operation = op, rq_id = i, rq_user = [], rq_run = [],
     rq_workspace_id = [], rq_workspace_root = [], rq_parent_key = None, rq_source = None, rq_lease = [],
     rq_transaction = [], rq_client_pid = 0, rq_unity_pid = 0, rq_retain = False, rq_dry_run = False,
     rq_quota = 0, rq_floor = 0\<rparr>"

text \<open>
  \<^verbatim>\<open>DirectClient.Call\<close>. The state is the broker with what the platform answers to each call and the
  metrics it reports.
\<close>

record broker_call =
  bk_native :: native
  bk_metrics :: "broker_metrics option"

definition wire_of :: "broker_config \<Rightarrow> request \<Rightarrow> broker_metrics option \<Rightarrow> response \<Rightarrow> wire" where
  "wire_of c q m r = response.extend r
     \<lparr>wr_provider = (if rp_ok r then Provider else []),
      wr_workspace_root = (if rp_ok r \<and> rq_operation q = Hello then bc_workspace_root c else []),
      wr_store_root = (if rp_ok r \<and> rq_operation q = Hello then bc_store_root c else []),
      wr_metrics = (if rp_ok r then m else None)\<rparr>"

definition no_response :: wire where
  "no_response = response.extend (fail (NewRequest Unknown_operation []) [])
     \<lparr>wr_provider = [], wr_workspace_root = [], wr_store_root = [], wr_metrics = None\<rparr>"

definition DirectClient_Call :: "string \<Rightarrow> (broker \<times> broker_call list) client" where
  "DirectClient_Call caller q s =
     (case s of
        (b, []) \<Rightarrow> ((Some ''workspace broker is unavailable'', no_response), s)
      | (b, k # ks) \<Rightarrow>
          (case Handle (bk_native k) caller q b of
             (r, b1) \<Rightarrow> (((if rp_ok r then None else case rp_error r of
                 Some e \<Rightarrow> Some e | None \<Rightarrow> Some ''broker request failed''),
               wire_of (br_config b) q (bk_metrics k) r), (b1, ks))))"

section \<open>Metrics\<close>

definition nonzero :: "int \<Rightarrow> int \<Rightarrow> int" where
  "nonzero new old = (if new \<noteq> 0 then new else old)"

definition nonempty :: "string \<Rightarrow> string \<Rightarrow> string" where
  "nonempty new old = (if new \<noteq> [] then new else old)"

definition apply_parent_metrics :: "broker_metrics \<Rightarrow> vhdx_metrics \<Rightarrow> vhdx_metrics" where
  "apply_parent_metrics s t = t\<lparr>
     vm_parent_status := nonempty (bm_parent_status s) (vm_parent_status t),
     vm_parent_created := vm_parent_created t \<or> bm_parent_created s,
     vm_parent_reused := vm_parent_reused t \<or> bm_parent_reused s,
     vm_parent_build_ms := vm_parent_build_ms t + bm_parent_build_ms s,
     vm_parent_verify_ms := vm_parent_verify_ms t + bm_parent_verify_ms s,
     vm_parent_virtual := nonzero (bm_parent_virtual s) (vm_parent_virtual t),
     vm_parent_allocated := nonzero (bm_parent_allocated s) (vm_parent_allocated t)\<rparr>"

definition apply_child_metrics :: "broker_metrics \<Rightarrow> vhdx_metrics \<Rightarrow> vhdx_metrics" where
  "apply_child_metrics s t = t\<lparr>
     vm_child_create_ms := nonzero (bm_child_create_ms s) (vm_child_create_ms t),
     vm_child_attach_ms := nonzero (bm_child_attach_ms s) (vm_child_attach_ms t),
     vm_child_mount_ms := nonzero (bm_child_mount_ms s) (vm_child_mount_ms t),
     vm_child_release_ms := nonzero (bm_child_release_ms s) (vm_child_release_ms t)\<rparr>"

definition apply_child_sizes :: "broker_metrics \<Rightarrow> vhdx_metrics \<Rightarrow> vhdx_metrics" where
  "apply_child_sizes s t =
     (let ready = bm_ready_measured s \<or> bm_child_ready s \<noteq> 0;
          peak = bm_peak_measured s \<or> bm_child_peak s \<noteq> 0;
          released = bm_released_measured s \<or> bm_child_released s \<noteq> 0
      in t\<lparr>vm_child_ready := (if ready then bm_child_ready s else vm_child_ready t),
           vm_ready_measured := vm_ready_measured t \<or> ready,
           vm_child_peak := (if peak \<and> (\<not> vm_peak_measured t \<or> vm_child_peak t < bm_child_peak s)
             then bm_child_peak s else vm_child_peak t),
           vm_peak_measured := vm_peak_measured t \<or> peak,
           vm_child_released := (if released then bm_child_released s else vm_child_released t),
           vm_released_measured := vm_released_measured t \<or> released\<rparr>)"

definition apply_capacity :: "broker_metrics \<Rightarrow> vhdx_metrics \<Rightarrow> vhdx_metrics" where
  "apply_capacity s t = t\<lparr>
     vm_cleanup_state := nonempty (bm_cleanup_state s) (vm_cleanup_state t),
     vm_quota := nonzero (cp_quota (bm_capacity s)) (vm_quota t),
     vm_store_allocated := nonzero (cp_allocated (bm_capacity s)) (vm_store_allocated t),
     vm_host_free := nonzero (cp_host_free (bm_capacity s)) (vm_host_free t),
     vm_host_floor := nonzero (cp_host_floor (bm_capacity s)) (vm_host_floor t)\<rparr>"

definition applyVHDXMetrics :: "broker_metrics option \<Rightarrow> vhdx_metrics \<Rightarrow> vhdx_metrics" where
  "applyVHDXMetrics source t = (case source of
       None \<Rightarrow> t
     | Some s \<Rightarrow> apply_capacity s (apply_child_sizes s (apply_child_metrics s (apply_parent_metrics s t))))"

definition with_vhdx :: "(vhdx_metrics \<Rightarrow> vhdx_metrics) \<Rightarrow> workspace_metrics \<Rightarrow> workspace_metrics" where
  "with_vhdx f m = m\<lparr>wm_vhdx := f (wm_vhdx m)\<rparr>"

definition apply_metrics :: "wire \<Rightarrow> workspace_metrics \<Rightarrow> workspace_metrics" where
  "apply_metrics r m = with_vhdx (applyVHDXMetrics (wr_metrics r)) m"

section \<open>The request, and what surrounds the preparation\<close>

record vhdx_request =
  vq_project_path :: string
  vq_unity_path :: string
  vq_store_root :: string
  vq_workspace :: "workspace_config option"

record key_codecs =
  kc_sha :: "string \<Rightarrow> string"
  kc_payload :: "key_payload \<Rightarrow> string"
  kc_library :: "image_key \<Rightarrow> string"
  kc_key :: "compat_key \<Rightarrow> string"
  kc_platform :: string

text \<open>
  The file system and Unity: absolute paths; the package directories, the project and its three
  directories; the preparation of the workspace, the \<^verbatim>\<open>Packages\<close> it copied and the
  changes to it; how often the context lives through a wait of a quarter second; Unity building the
  parent; times; the removal of the workspace; the identifier of the process.
\<close>

record vhdx_world =
  vw_abs :: "string \<Rightarrow> string option"
  vw_packages :: package_world
  vw_project :: project
  vw_source :: "string \<Rightarrow> tree option"
  vw_prepare :: "tree prepare_world"
  vw_packages_copy :: packages_dir
  vw_apply :: apply_world
  vw_patience :: nat
  vw_unity :: "string list \<Rightarrow> invocation"
  vw_build_ms :: int
  vw_file_copy_ms :: int
  vw_preparation_ms :: int
  vw_cleanup_fails :: bool
  vw_pid :: int

text \<open>What is at the workspace's path, and the packages in it.\<close>

record vhdx_site =
  vx_shadow :: "tree shadow_dir option"
  vx_packages :: packages_dir

datatype vhdx_error =
    Hello_failed "string option" | Store_root_differs | Admission_failed string
  | Overrides_failed package_error | Parent_key_failed key_error | Snapshot_failed tree_error
  | Workspace_failed prepare_error | Overlay_failed apply_error
  | Broker_failed string | Neither_parent_nor_build | Waiting_cancelled | Unexpected_state string
  | Parent_build_failed int string | No_committed_parent | No_lease

definition pre_start :: "vhdx_error \<Rightarrow> bool" where
  "pre_start e = (case e of Hello_failed t \<Rightarrow> True | Store_root_differs \<Rightarrow> True | Admission_failed t \<Rightarrow> True | _ \<Rightarrow> False)"

definition sameCleanPath :: "(string \<Rightarrow> string option) \<Rightarrow> string \<Rightarrow> string \<Rightarrow> bool" where
  "sameCleanPath absolute l r \<longleftrightarrow> (case (absolute l, absolute r) of
     (Some a, Some b) \<Rightarrow> equal_fold (Clean a) (Clean b) | _ \<Rightarrow> False)"

definition applyWorkspaceCapacityRequest :: "workspace_config option \<Rightarrow> request \<Rightarrow> request" where
  "applyWorkspaceCapacityRequest c q = (case c of
       None \<Rightarrow> q
     | Some c \<Rightarrow> q\<lparr>rq_quota := ws_store_max_allocated_bytes c, rq_floor := ws_minimum_host_free_bytes c\<rparr>)"

section \<open>The preparation\<close>

text \<open>
  The steps thread the state of the broker. A step gives an error or what the next ones need, the
  metrics, and the state.
\<close>

definition hello_step ::
    "'b client \<Rightarrow> vhdx_world \<Rightarrow> vhdx_request \<Rightarrow> string \<Rightarrow> 'b \<Rightarrow> (vhdx_error + string) \<times> 'b" where
  "hello_step call w q runID b =
     (case call (NewRequest Hello (''hello-'' @ runID)) b of
        ((err, r), b1) \<Rightarrow>
          (if err \<noteq> None \<or> \<not> rp_ok r \<or> wr_provider r \<noteq> Provider \<or> \<not> IsAbs (wr_workspace_root r)
           then (Inl (Hello_failed err), b1)
           else if vq_store_root q \<noteq> [] \<and> \<not> sameCleanPath (vw_abs w) (vq_store_root q) (wr_store_root r)
           then (Inl Store_root_differs, b1)
           else case call (applyWorkspaceCapacityRequest (vq_workspace q) (NewRequest Admit (''admit-'' @ runID))) b1 of
               ((Some e, _), b2) \<Rightarrow> (Inl (Admission_failed e), b2)
             | ((None, _), b2) \<Rightarrow> (Inr (wr_workspace_root r), b2)))"

text \<open>The overrides, the key of the parent and the snapshot of the sources.\<close>

definition parent_identity ::
    "key_codecs \<Rightarrow> vhdx_world \<Rightarrow> vhdx_request \<Rightarrow> workspace_metrics \<Rightarrow>
     (vhdx_error + package_override list \<times> compat_key \<times> source_snapshot) \<times> workspace_metrics" where
  "parent_identity k w q m =
     (case ResolveLocalPackageOverrides (kc_sha k) (vw_packages w)
         (case vq_workspace q of None \<Rightarrow> [] | Some c \<Rightarrow> ws_local_package_overrides c) of
        Inl e \<Rightarrow> (Inl (Overrides_failed e), m)
      | Inr (ps, digest) \<Rightarrow>
          (let m1 = with_vhdx (\<lambda>v. v\<lparr>vm_local_count := int (length ps), vm_local_digest := digest\<rparr>) m
           in case ComputeCompatibilityKeyWithLocalPackages (kc_sha k) (kc_payload k) (kc_library k) (kc_key k)
                 (kc_platform k) (vw_project w) (vq_unity_path q) digest of
                Inl e \<Rightarrow> (Inl (Parent_key_failed e), m1)
              | Inr key \<Rightarrow>
                  (case ComputeSourceSnapshotWithLocalPackages (kc_sha k) (vw_source w) digest of
                     Inl e \<Rightarrow> (Inl (Snapshot_failed e), m1)
                   | Inr snapshot \<Rightarrow> (Inr (ps, key, snapshot),
                       with_vhdx (\<lambda>v. v\<lparr>vm_parent_key := ck_digest key\<rparr>) m1))))"

definition vhdx_options :: "string \<Rightarrow> prepare_options" where
  "vhdx_options root = \<lparr>pp_workspace_root = root, pp_library_cache_dir = [], pp_library_cache_root = [],
     pp_copy_packages = True, pp_skip_library = True\<rparr>"

definition cleanup_shell :: "vhdx_world \<Rightarrow> vhdx_site \<Rightarrow> vhdx_site" where
  "cleanup_shell w x = x\<lparr>vx_shadow := snd (Cleanup (vw_cleanup_fails w) (vx_shadow x))\<rparr>"

definition begin_request :: "vhdx_world \<Rightarrow> string \<Rightarrow> compat_key \<Rightarrow> source_snapshot \<Rightarrow> nat \<Rightarrow> request" where
  "begin_request w runID key snapshot attempt =
     (NewRequest Begin_parent (''parent-'' @ runID @ ''-'' @ decimal attempt))
       \<lparr>rq_parent_key := Some key, rq_source := Some (ss_digest snapshot), rq_workspace_id := runID,
        rq_client_pid := vw_pid w\<rparr>"

definition abort_request :: "string \<Rightarrow> string \<Rightarrow> request" where
  "abort_request runID t = (NewRequest Abort_parent (''abort-'' @ runID))\<lparr>rq_transaction := t\<rparr>"

definition commit_request :: "string \<Rightarrow> string \<Rightarrow> request" where
  "commit_request runID t = (NewRequest Commit_parent (''commit-'' @ runID))\<lparr>rq_transaction := t\<rparr>"

definition builder_tail :: "string list \<Rightarrow> string" where
  "builder_tail chunks = (let t = trim_space (concat chunks) in if length t \<le> 4000 then t else drop (length t - 4000) t)"

text \<open>Unity builds the parent in the workspace; the transaction is committed or aborted.\<close>

definition build_parent ::
    "'b client \<Rightarrow> vhdx_world \<Rightarrow> string \<Rightarrow> string \<Rightarrow> string \<Rightarrow> workspace_metrics \<Rightarrow> 'b \<Rightarrow>
     (vhdx_error + parent_metadata option) \<times> workspace_metrics \<times> 'b" where
  "build_parent call w runID shadowPath t m b =
     (let iv = vw_unity w (BuildCompileArgs shadowPath @ [''-disable-assembly-updater'']);
          m1 = with_vhdx (\<lambda>v. v\<lparr>vm_parent_build_ms := vm_parent_build_ms v + vw_build_ms w\<rparr>) m
      in if iv_err iv \<noteq> None \<or> iv_exit iv \<noteq> 0 \<or> ctx_err (iv_outer iv) \<noteq> None
         then (Inl (Parent_build_failed (iv_exit iv) (builder_tail (iv_stderr iv))), m1,
           snd (call (abort_request runID t) b))
         else case call (commit_request runID t) b of
             ((Some e, _), b1) \<Rightarrow> (Inl (Broker_failed e), m1, snd (call (abort_request runID t) b1))
           | ((None, r), b1) \<Rightarrow> (Inr (rp_parent r), apply_metrics r m1, b1))"

text \<open>
  The loop: the parent is there, somebody else builds it and the client waits, or it is this client's to
  build. The waits are bounded by the context of the run.
\<close>

fun parent_loop ::
    "'b client \<Rightarrow> vhdx_world \<Rightarrow> string \<Rightarrow> string \<Rightarrow> compat_key \<Rightarrow> source_snapshot \<Rightarrow> nat \<Rightarrow> nat \<Rightarrow> workspace_metrics \<Rightarrow>
     'b \<Rightarrow> (vhdx_error + parent_metadata option) \<times> workspace_metrics \<times> 'b" where
  "parent_loop call w runID shadowPath key snapshot patience attempt m b =
     (case call (begin_request w runID key snapshot attempt) b of
        ((Some e, _), b1) \<Rightarrow> (Inl (Broker_failed e), m, b1)
      | ((None, r), b1) \<Rightarrow>
          (if rp_parent r \<noteq> None then (Inr (rp_parent r), apply_metrics r m, b1)
           else case rp_build r of
               None \<Rightarrow> (Inl Neither_parent_nor_build, apply_metrics r m, b1)
             | Some pb \<Rightarrow>
                 (if pb_state pb = ''waiting'' then
                    (case patience of
                       0 \<Rightarrow> (Inl Waiting_cancelled, apply_metrics r m, b1)
                     | Suc n \<Rightarrow> parent_loop call w runID shadowPath key snapshot n (Suc attempt) (apply_metrics r m) b1)
                  else if pb_state pb \<noteq> ''mounted'' \<or> pb_transaction pb = []
                  then (Inl (Unexpected_state (pb_state pb)), apply_metrics r m, b1)
                  else build_parent call w runID shadowPath (pb_transaction pb) (apply_metrics r m) b1)))"

declare parent_loop.simps [simp del]

definition acquire_request :: "vhdx_world \<Rightarrow> vhdx_request \<Rightarrow> string \<Rightarrow> compat_key \<Rightarrow> request" where
  "acquire_request w q runID key = applyWorkspaceCapacityRequest (vq_workspace q)
     ((NewRequest Acquire (''acquire-'' @ runID))
       \<lparr>rq_parent_key := Some key, rq_run := runID, rq_workspace_id := runID, rq_client_pid := vw_pid w\<rparr>)"

definition acquired_metrics :: "vhdx_world \<Rightarrow> lease_info \<Rightarrow> workspace_metrics \<Rightarrow> workspace_metrics" where
  "acquired_metrics w li m =
     (let m1 = with_vhdx (\<lambda>v. v\<lparr>vm_mount_path := li_mount li, vm_physical_disk := li_physical li,
             vm_volume_guid := li_volume li\<rparr>) m; v = wm_vhdx m1
      in m1\<lparr>wm_preparation_ms := vw_preparation_ms w,
           wm_library_ms := vm_child_create_ms v + vm_child_attach_ms v + vm_child_mount_ms v\<rparr>)"

text \<open>The parent, then the child: the identifier of the lease.\<close>

definition lease_child ::
    "'b client \<Rightarrow> vhdx_world \<Rightarrow> vhdx_request \<Rightarrow> string \<Rightarrow> string \<Rightarrow> compat_key \<Rightarrow> source_snapshot \<Rightarrow>
     workspace_metrics \<Rightarrow> 'b \<Rightarrow> (vhdx_error + string) \<times> workspace_metrics \<times> 'b" where
  "lease_child call w q runID shadowPath key snapshot m b =
     (case parent_loop call w runID shadowPath key snapshot (vw_patience w) 1 m b of
        (Inl e, m1, b1) \<Rightarrow> (Inl e, m1, b1)
      | (Inr None, m1, b1) \<Rightarrow> (Inl No_committed_parent, m1, b1)
      | (Inr (Some parent), m1, b1) \<Rightarrow>
          (let m2 = with_vhdx (\<lambda>v. v\<lparr>vm_parent_path := pm_path parent\<rparr>) m1
           in case call (acquire_request w q runID key) b1 of
                ((Some e, _), b2) \<Rightarrow> (Inl (Broker_failed e), m2, b2)
              | ((None, r), b2) \<Rightarrow>
                  (case rp_lease r of
                     None \<Rightarrow> (Inl No_lease, m2, b2)
                   | Some li \<Rightarrow> (Inr (li_id li), acquired_metrics w li (apply_metrics r m2), b2))))"

text \<open>The workspace, which goes again when anything after it fails.\<close>

definition shell_and_child ::
    "'b client \<Rightarrow> vhdx_world \<Rightarrow> vhdx_request \<Rightarrow> string \<Rightarrow> string \<Rightarrow> package_override list \<Rightarrow> compat_key \<Rightarrow>
     source_snapshot \<Rightarrow> workspace_metrics \<Rightarrow> vhdx_site \<Rightarrow> 'b \<Rightarrow>
     (vhdx_error + workspace \<times> string) \<times> workspace_metrics \<times> vhdx_site \<times> 'b" where
  "shell_and_child call w q runID root ps key snapshot m x b =
     (case Prepare (vw_prepare w) (vq_project_path q) runID (vhdx_options root) (vx_shadow x) FileMissing of
        (Inl e, after, _) \<Rightarrow> (Inl (Workspace_failed e), m, x\<lparr>vx_shadow := after\<rparr>, b)
      | (Inr ws, after, _) \<Rightarrow>
          (case ApplyLocalPackageOverrides (vw_apply w) ps (vw_packages_copy w) of
             (Some e, d) \<Rightarrow> (Inl (Overlay_failed e), m, cleanup_shell w \<lparr>vx_shadow = after, vx_packages = d\<rparr>, b)
           | (None, d) \<Rightarrow>
               (let x1 = \<lparr>vx_shadow = after, vx_packages = d\<rparr>
                in case lease_child call w q runID (wk_shadow_path ws) key snapshot
                     (m\<lparr>wm_file_copy_ms := vw_file_copy_ms w\<rparr>) b of
                     (Inl e, m1, b1) \<Rightarrow> (Inl e, m1, cleanup_shell w x1, b1)
                   | (Inr i, m1, b1) \<Rightarrow> (Inr (ws, i), m1, x1, b1))))"

definition prepareVHDXWorkspace ::
    "'b client \<Rightarrow> key_codecs \<Rightarrow> vhdx_world \<Rightarrow> vhdx_request \<Rightarrow> string \<Rightarrow> vhdx_site \<Rightarrow> 'b \<Rightarrow>
     (vhdx_error + workspace \<times> string) \<times> workspace_metrics \<times> vhdx_site \<times> 'b" where
  "prepareVHDXWorkspace call k w q runID x b =
     (let m = with_vhdx (\<lambda>v. v\<lparr>vm_provider := Provider\<rparr>) (prepareMetrics WorkspaceBackendVHDXDiff)
      in case hello_step call w q runID b of
           (Inl e, b1) \<Rightarrow> (Inl e, m, x, b1)
         | (Inr root, b1) \<Rightarrow>
             (case parent_identity k w q m of
                (Inl e, m1) \<Rightarrow> (Inl e, m1, x, b1)
              | (Inr (ps, key, snapshot), m1) \<Rightarrow> shell_and_child call w q runID root ps key snapshot m1 x b1))"

text \<open>As the provider sees it.\<close>

definition vhdx_prepared ::
    "(vhdx_error \<Rightarrow> string \<times> bool) \<Rightarrow> (vhdx_error + workspace \<times> string) \<times> workspace_metrics \<times> vhdx_site \<times> 'b \<Rightarrow> prepared" where
  "vhdx_prepared describe outcome = (case outcome of
       (Inl e, m, x, b) \<Rightarrow> Inl \<lparr>pf_text = fst (describe e), pf_permission = snd (describe e), pf_pre_start = pre_start e\<rparr>
     | (Inr (ws, i), m, x, b) \<Rightarrow> Inr \<lparr>le_workspace = ws, le_metrics = m, le_vhdx = Some i, le_released = False, le_shell = True\<rparr>)"

section \<open>During and after the run\<close>

definition heartbeat_request :: "int \<Rightarrow> string \<Rightarrow> string \<Rightarrow> int \<Rightarrow> request" where
  "heartbeat_request pid i leaseID unityPID =
     (NewRequest Heartbeat i)\<lparr>rq_lease := leaseID, rq_client_pid := pid, rq_unity_pid := unityPID\<rparr>"

definition SetUnityPID :: "'b client \<Rightarrow> int \<Rightarrow> string \<Rightarrow> int \<Rightarrow> lease \<Rightarrow> 'b \<Rightarrow> lease \<times> 'b" where
  "SetUnityPID call own runID pid l b =
     (if \<not> child_mounted l \<or> pid \<le> 0 then (l, b)
      else case le_vhdx l of
          None \<Rightarrow> (l, b)
        | Some i \<Rightarrow>
            (case call (heartbeat_request own (''unitypid-'' @ runID @ ''-'' @ decimal_int pid) i pid) b of
               ((_, r), b1) \<Rightarrow> (l\<lparr>le_metrics := apply_metrics r (le_metrics l)\<rparr>, b1)))"

definition SafetyHostFloor :: int where "SafetyHostFloor = 5 * 2 ^ 30"

datatype alarm = Heartbeat_failed string | Host_floor_reached int

record monitor =
  mo_failures :: nat
  mo_sequence :: nat
  mo_metrics :: workspace_metrics
  mo_alarm :: "alarm option"

text \<open>One tick of the monitor: a heartbeat, and after a good one the capacity of the store.\<close>

definition check_capacity :: "'b client \<Rightarrow> string \<Rightarrow> monitor \<Rightarrow> 'b \<Rightarrow> monitor \<times> 'b" where
  "check_capacity call runID mo b =
     (case call (NewRequest Status_op (''capacity-'' @ runID @ ''-'' @ decimal (mo_sequence mo))) b of
        ((Some e, _), b1) \<Rightarrow> (mo, b1)
      | ((None, r), b1) \<Rightarrow>
          (case rp_status r of
             None \<Rightarrow> (mo, b1)
           | Some st \<Rightarrow>
               (let c = vt_capacity st;
                    mo1 = mo\<lparr>mo_metrics := with_vhdx (\<lambda>v. v\<lparr>vm_store_allocated := cp_allocated c, vm_host_free := cp_host_free c\<rparr>)
                      (mo_metrics mo)\<rparr>
                in (if cp_host_free c \<le> SafetyHostFloor then mo1\<lparr>mo_alarm := Some (Host_floor_reached (cp_host_free c))\<rparr> else mo1,
                    b1))))"

definition monitor_tick :: "'b client \<Rightarrow> int \<Rightarrow> string \<Rightarrow> string \<Rightarrow> monitor \<Rightarrow> 'b \<Rightarrow> monitor \<times> 'b" where
  "monitor_tick call own runID leaseID mo0 b =
     (let mo = mo0\<lparr>mo_sequence := Suc (mo_sequence mo0)\<rparr>
      in case call (heartbeat_request own (''heartbeat-'' @ runID @ ''-'' @ decimal (mo_sequence mo)) leaseID 0) b of
           ((err, r), b1) \<Rightarrow>
             (let mo1 = mo\<lparr>mo_metrics := apply_metrics r (mo_metrics mo)\<rparr>
              in case err of
                   Some e \<Rightarrow>
                     (let mo2 = mo1\<lparr>mo_failures := Suc (mo_failures mo1)\<rparr>
                      in (if 3 \<le> mo_failures mo2 then mo2\<lparr>mo_alarm := Some (Heartbeat_failed e)\<rparr> else mo2, b1))
                 | None \<Rightarrow> check_capacity call runID (mo1\<lparr>mo_failures := 0\<rparr>) b1))"

text \<open>The monitor ticks until it raises the alarm, which cancels the run, or the run ends.\<close>

fun Monitor :: "'b client \<Rightarrow> int \<Rightarrow> string \<Rightarrow> string \<Rightarrow> nat \<Rightarrow> monitor \<Rightarrow> 'b \<Rightarrow> monitor \<times> 'b" where
  "Monitor call own runID leaseID 0 mo b = (mo, b)"
| "Monitor call own runID leaseID (Suc n) mo b =
     (if mo_alarm mo \<noteq> None then (mo, b)
      else case monitor_tick call own runID leaseID mo b of
          (mo1, b1) \<Rightarrow> Monitor call own runID leaseID n mo1 b1)"

definition new_monitor :: "workspace_metrics \<Rightarrow> monitor" where
  "new_monitor m = \<lparr>mo_failures = 0, mo_sequence = 0, mo_metrics = m, mo_alarm = None\<rparr>"

text \<open>The release through the broker, whose answer decides as in \<open>vhdx_Release\<close>.\<close>

definition release_request :: "string \<Rightarrow> bool \<Rightarrow> string \<Rightarrow> request" where
  "release_request runID retain i =
     (NewRequest Release (''release-'' @ runID))\<lparr>rq_lease := i, rq_retain := retain\<rparr>"

definition Release_through ::
    "'b client \<Rightarrow> string \<Rightarrow> bool \<Rightarrow> lease \<Rightarrow> 'b \<Rightarrow> (string option \<times> lease_effect list \<times> lease) \<times> 'b" where
  "Release_through call runID retain l b =
     (case le_vhdx l of
        None \<Rightarrow> ((None, [], l), b)
      | Some i \<Rightarrow>
          (if i = [] then ((None, [], l), b)
           else case call (release_request runID retain i) b of
               ((err, r), b1) \<Rightarrow>
                 (vhdx_Release retain err (l\<lparr>le_metrics := apply_metrics r (le_metrics l)\<rparr>), b1)))"

definition measureVHDXWorkspaceShell :: "(string \<Rightarrow> (int \<times> int) option) \<Rightarrow> string \<Rightarrow> bool \<times> int \<times> int" where
  "measureVHDXWorkspaceShell usage root =
     foldl (\<lambda>(ok, l, a) name. if \<not> ok then (ok, l, a)
         else case usage (Join [root, name]) of None \<Rightarrow> (False, l, a) | Some (l1, a1) \<Rightarrow> (True, l + l1, a + a1))
       (True, 0, 0) [''Assets'', ''Packages'', ''ProjectSettings'']"

end
