(* ===== verification/VhdxClientProps.thy ===== *)
theory VhdxClientProps
  imports VhdxClient VhdxClaims
begin

text \<open>
  The properties of the VHDX client: what a preparation leaves behind, with the broker and in the file
  system, however the broker answers; when the monitor raises its alarm; and what a lost answer costs.
\<close>

section \<open>The calls of a preparation\<close>

type_synonym call_log = "(request \<times> string option \<times> wire) list"

definition logged :: "'b client \<Rightarrow> ('b \<times> call_log) client" where
  "logged call q s = (case call q (fst s) of ((err, r), b1) \<Rightarrow> ((err, r), (b1, snd s @ [(q, err, r)])))"

definition operations :: "call_log \<Rightarrow> operation set" where
  "operations l = (\<lambda>e. rq_operation (fst e)) ` set l"

text \<open>The transactions that the broker began for this client, and those that it committed or was told to abort.\<close>

definition began :: "request \<times> string option \<times> wire \<Rightarrow> string list" where
  "began e = (case e of (q, err, r) \<Rightarrow>
     if rq_operation q = Begin_parent \<and> err = None \<and> rp_parent r = None then
       (case rp_build r of
          None \<Rightarrow> []
        | Some pb \<Rightarrow> (if pb_state pb = ''mounted'' \<and> pb_transaction pb \<noteq> [] then [pb_transaction pb] else []))
     else [])"

definition ended :: "request \<times> string option \<times> wire \<Rightarrow> string list" where
  "ended e = (case e of (q, err, r) \<Rightarrow>
     if rq_operation q = Abort_parent \<or> (rq_operation q = Commit_parent \<and> err = None) then [rq_transaction q] else [])"

definition settled :: "call_log \<Rightarrow> bool" where
  "settled l \<longleftrightarrow> (\<forall>t. t \<in> set (concat (map began l)) \<longrightarrow> t \<in> set (concat (map ended l)))"

lemma settled_append: "settled l \<Longrightarrow> settled l' \<Longrightarrow> settled (l @ l')"
  by (auto simp: settled_def)

lemma operations_simps [simp]:
  "operations [] = {}" "operations (x # l) = insert (rq_operation (fst x)) (operations l)"
  "operations (l @ l') = operations l \<union> operations l'"
  by (auto simp: operations_def)

lemma request_simps [simp]:
  "rq_operation (NewRequest op i) = op"
  "rq_operation (begin_request w runID key sn n) = Begin_parent"
  "rq_operation (abort_request runID t) = Abort_parent" "rq_transaction (abort_request runID t) = t"
  "rq_operation (commit_request runID t) = Commit_parent" "rq_transaction (commit_request runID t) = t"
  "rq_operation (acquire_request w q runID key) = Acquire"
  "rq_operation (applyWorkspaceCapacityRequest c rq) = rq_operation rq"
  by (simp_all add: NewRequest_def begin_request_def abort_request_def commit_request_def acquire_request_def
      applyWorkspaceCapacityRequest_def split: option.splits)

definition parent_ops :: "operation set" where
  "parent_ops = {Begin_parent, Commit_parent, Abort_parent}"

lemma logged_call:
  "logged call q s = (a, s') \<Longrightarrow> \<exists>b'. s' = (b', snd s @ [(q, fst a, snd a)])"
  by (auto simp: logged_def split: prod.splits)

text \<open>Whatever transaction a build of the parent was given, it is committed or aborted.\<close>

lemma build_parent_log:
  assumes "build_parent (logged call) w runID p t m (b, l) = (r, m', (b', l'))"
  shows "\<exists>es. l' = l @ es \<and> t \<in> set (concat (map ended es)) \<and> concat (map began es) = [] \<and>
     operations es \<subseteq> parent_ops"
proof (cases "iv_err (vw_unity w (BuildCompileArgs p @ [''-disable-assembly-updater''])) \<noteq> None \<or>
    iv_exit (vw_unity w (BuildCompileArgs p @ [''-disable-assembly-updater''])) \<noteq> 0 \<or>
    ctx_err (iv_outer (vw_unity w (BuildCompileArgs p @ [''-disable-assembly-updater'']))) \<noteq> None")
  case True
  obtain a b1 where "call (abort_request runID t) b = (a, b1)" by fastforce
  then show ?thesis using assms True
    by (cases a) (auto simp: build_parent_def Let_def logged_def began_def ended_def parent_ops_def)
next
  case False
  obtain e rp b1 where c: "call (commit_request runID t) b = ((e, rp), b1)" by (metis prod.collapse)
  obtain a b2 where a: "call (abort_request runID t) b1 = (a, b2)" by fastforce
  show ?thesis
  proof (cases e)
    case None
    then show ?thesis using assms False c
      by (auto simp: build_parent_def Let_def logged_def began_def ended_def parent_ops_def)
  next
    case (Some x)
    then show ?thesis using assms False c a
      by (cases a) (auto simp: build_parent_def Let_def logged_def began_def ended_def parent_ops_def)
  qed
qed

text \<open>One round of the loop: it ends, with a transaction settled if one began, or it waits.\<close>

lemma parent_loop_step:
  assumes "parent_loop (logged call) w runID p key sn patience attempt m (b, l) = (r, m', (b', l'))"
  shows "(\<exists>es. l' = l @ es \<and> settled es \<and> operations es \<subseteq> parent_ops) \<or>
     (\<exists>n m1 b1 e. patience = Suc n \<and> rq_operation (fst e) = Begin_parent \<and> began e = [] \<and>
        parent_loop (logged call) w runID p key sn n (Suc attempt) m1 (b1, l @ [e]) = (r, m', (b', l')))"
proof -
  let ?q = "begin_request w runID key sn attempt"
  obtain err rp b1 where c: "call ?q b = ((err, rp), b1)" by (metis prod.collapse)
  have lc: "logged call ?q (b, l) = ((err, rp), (b1, l @ [(?q, err, rp)]))" by (simp add: logged_def c)
  have one: "settled [(?q, err, rp)] \<and> operations [(?q, err, rp)] \<subseteq> parent_ops" if "began (?q, err, rp) = []"
    using that by (simp add: settled_def parent_ops_def)
  show ?thesis
  proof (cases "err = None \<and> rp_parent rp = None \<and> rp_build rp \<noteq> None")
    case False
    then have "l' = l @ [(?q, err, rp)]" "began (?q, err, rp) = []"
      using assms lc by (subst (asm) (1) parent_loop.simps, cases err; auto simp: began_def split: if_splits option.splits)+
    then show ?thesis using one by blast
  next
    case True
    then obtain pb where pb: "err = None" "rp_parent rp = None" "rp_build rp = Some pb" by auto
    show ?thesis
    proof (cases "pb_state pb = ''mounted'' \<and> pb_transaction pb \<noteq> []")
      case False
      then have no: "began (?q, err, rp) = []" by (simp add: began_def pb)
      have "l' = l @ [(?q, err, rp)] \<or> (\<exists>n m1. patience = Suc n \<and>
          parent_loop (logged call) w runID p key sn n (Suc attempt) m1 (b1, l @ [(?q, err, rp)]) = (r, m', (b', l')))"
        using assms lc pb False by (subst (asm) (1) parent_loop.simps) (auto split: if_splits nat.splits)
      then show ?thesis
      proof
        assume "l' = l @ [(?q, err, rp)]"
        then show ?thesis using one no by blast
      next
        assume "\<exists>n m1. patience = Suc n \<and>
          parent_loop (logged call) w runID p key sn n (Suc attempt) m1 (b1, l @ [(?q, err, rp)]) = (r, m', (b', l'))"
        then obtain n m1 where "patience = Suc n"
          "parent_loop (logged call) w runID p key sn n (Suc attempt) m1 (b1, l @ [(?q, err, rp)]) = (r, m', (b', l'))" by blast
        then show ?thesis using no by (intro disjI2 exI [of _ n] exI [of _ m1] exI [of _ b1] exI [of _ "(?q, err, rp)"]) simp
      qed
    next
      case mounted: True
      then have "build_parent (logged call) w runID p (pb_transaction pb) (apply_metrics rp m) (b1, l @ [(?q, err, rp)]) = (r, m', (b', l'))"
        using assms lc pb by (subst (asm) (1) parent_loop.simps) simp
      from build_parent_log [OF this] obtain es where es: "l' = l @ (?q, err, rp) # es"
          "pb_transaction pb \<in> set (concat (map ended es))" "concat (map began es) = []" "operations es \<subseteq> parent_ops" by auto
      have "began (?q, err, rp) = [pb_transaction pb]" using pb mounted by (simp add: began_def)
      then have "settled ((?q, err, rp) # es)" using es(2,3) by (simp add: settled_def)
      moreover have "operations ((?q, err, rp) # es) \<subseteq> parent_ops" using es(4) by (simp add: parent_ops_def)
      ultimately show ?thesis using es(1) by blast
    qed
  qed
qed

lemma parent_loop_log:
  "parent_loop (logged call) w runID p key sn patience attempt m (b, l) = (r, m', (b', l')) \<Longrightarrow>
     \<exists>es. l' = l @ es \<and> settled es \<and> operations es \<subseteq> parent_ops"
proof (induction patience arbitrary: attempt m b l)
  case 0
  then show ?case using parent_loop_step [OF 0] by blast
next
  case (Suc patience)
  from parent_loop_step [OF Suc.prems] show ?case
  proof
    assume "\<exists>n m1 b1 e. Suc patience = Suc n \<and> rq_operation (fst e) = Begin_parent \<and> began e = [] \<and>
        parent_loop (logged call) w runID p key sn n (Suc attempt) m1 (b1, l @ [e]) = (r, m', (b', l'))"
    then obtain m1 b1 e where e: "rq_operation (fst e) = Begin_parent" "began e = []"
        "parent_loop (logged call) w runID p key sn patience (Suc attempt) m1 (b1, l @ [e]) = (r, m', (b', l'))" by auto
    obtain es where es: "l' = (l @ [e]) @ es" "settled es" "operations es \<subseteq> parent_ops" using Suc.IH [OF e(3)] by blast
    have "settled [e]" using e(2) by (simp add: settled_def)
    then have "settled (e # es)" using settled_append [of "[e]" es] es(2) by simp
    moreover have "operations (e # es) \<subseteq> parent_ops" using e(1) es(3) by (simp add: parent_ops_def)
    ultimately show ?thesis using es(1) by (intro exI [of _ "e # es"]) simp
  qed
qed

text \<open>The last call of a preparation that succeeds is the one that got the lease.\<close>

definition leased_last :: "string \<Rightarrow> call_log \<Rightarrow> bool" where
  "leased_last i l \<longleftrightarrow> (case rev l of
     [] \<Rightarrow> False
   | (q, err, r) # _ \<Rightarrow> rq_operation q = Acquire \<and> err = None \<and> map_option li_id (rp_lease r) = Some i)"

lemma parent_loop_started:
  "parent_loop call w runID p key sn patience attempt m b = (Inl e, m1, b1) \<Longrightarrow> \<not> pre_start e"
proof (induction patience arbitrary: attempt m b)
  case 0
  then show ?case by (subst (asm) parent_loop.simps)
      (auto simp: build_parent_def Let_def pre_start_def split: prod.splits option.splits if_splits)
next
  case (Suc n)
  then show ?case by (subst (asm) (2) parent_loop.simps)
      (auto simp: build_parent_def Let_def pre_start_def split: prod.splits option.splits if_splits)
qed

lemma lease_child_log:
  assumes "lease_child (logged call) w q runID p key sn m (b, l) = (r, m', (b', l'))"
  shows "\<exists>es. l' = l @ es \<and> settled es \<and> operations es \<subseteq> insert Acquire parent_ops \<and>
     (case r of Inl e \<Rightarrow> \<not> pre_start e | Inr i \<Rightarrow> leased_last i l')"
proof -
  obtain r1 m1 b1 l1 where p: "parent_loop (logged call) w runID p key sn (vw_patience w) 1 m (b, l) = (r1, m1, (b1, l1))"
    by (metis prod.collapse)
  obtain es where es: "l1 = l @ es" "settled es" "operations es \<subseteq> parent_ops" using parent_loop_log [OF p] by blast
  have no_start: "\<not> pre_start e" if "r1 = Inl e" for e using parent_loop_started [OF p [unfolded that]] .
  show ?thesis
  proof (cases "r1 = Inr None \<or> \<not> is_ok r1")
    case True
    have "l' = l1" "case r of Inl e \<Rightarrow> \<not> pre_start e | Inr i \<Rightarrow> False"
      using assms p True no_start
      by (auto simp: lease_child_def is_ok_def pre_start_def split: sum.splits option.splits)
    then show ?thesis using es by (auto split: sum.splits)
  next
    case False
    then obtain parent where r1: "r1 = Inr (Some parent)" by (auto simp: is_ok_iff) (metis option.exhaust)
    let ?q = "acquire_request w q runID key"
    obtain err rp b2 where c: "call ?q b1 = ((err, rp), b2)" by (metis prod.collapse)
    have "l' = l @ es @ [(?q, err, rp)] \<and>
        (case r of Inl e \<Rightarrow> \<not> pre_start e | Inr i \<Rightarrow> err = None \<and> map_option li_id (rp_lease rp) = Some i)"
      using assms p r1 c es(1)
      by (cases err; cases "rp_lease rp") (auto simp: lease_child_def logged_def Let_def pre_start_def)
    moreover have "settled [(?q, err, rp)]" by (simp add: settled_def began_def)
    then have "settled (es @ [(?q, err, rp)])" by (rule settled_append [OF es(2)])
    moreover have "operations (es @ [(?q, err, rp)]) \<subseteq> insert Acquire parent_ops" using es(3) by auto
    ultimately show ?thesis
      by (intro exI [of _ "es @ [(?q, err, rp)]"]) (auto simp: leased_last_def split: sum.splits)
  qed
qed

lemma hello_step_log:
  assumes "hello_step (logged call) w q runID (b, l) = (r, (b', l'))"
  shows "\<exists>es. l' = l @ es \<and> settled es \<and> operations es \<subseteq> {Hello, Admit} \<and>
     (case r of Inl e \<Rightarrow> pre_start e | Inr root \<Rightarrow> True)"
proof -
  let ?q = "NewRequest Hello (''hello-'' @ runID)"
  let ?a = "applyWorkspaceCapacityRequest (vq_workspace q) (NewRequest Admit (''admit-'' @ runID))"
  obtain err rp b1 where c: "call ?q b = ((err, rp), b1)" by (metis prod.collapse)
  obtain err2 rp2 b2 where d: "call ?a b1 = ((err2, rp2), b2)" by (metis prod.collapse)
  have "l' = l @ [(?q, err, rp)] \<and> (case r of Inl e \<Rightarrow> pre_start e | Inr root \<Rightarrow> True) \<or>
      l' = l @ [(?q, err, rp), (?a, err2, rp2)] \<and> (case r of Inl e \<Rightarrow> pre_start e | Inr root \<Rightarrow> True)"
    using assms c d by (cases err2) (auto simp: hello_step_def logged_def pre_start_def split: if_splits)
  moreover have "settled [(?q, err, rp)]" "settled [(?q, err, rp), (?a, err2, rp2)]"
    by (simp_all add: settled_def began_def)
  moreover have "operations [(?q, err, rp)] \<subseteq> {Hello, Admit}" "operations [(?q, err, rp), (?a, err2, rp2)] \<subseteq> {Hello, Admit}"
    by simp_all
  ultimately show ?thesis by blast
qed

lemma Prepare_nothing:
  "Prepare w source runID opts None ignore = (Inl e, after, ignore') \<Longrightarrow> after = None"
  by (auto simp: Prepare_def Let_def split: if_splits sum.splits)

lemma Prepare_something:
  "Prepare w source runID opts before ignore = (Inr ws, after, ignore') \<Longrightarrow> after \<noteq> None"
  by (auto simp: Prepare_def Let_def split: if_splits sum.splits)

lemma cleanup_shell_none [simp]: "\<not> vw_cleanup_fails w \<Longrightarrow> vx_shadow (cleanup_shell w x) = None"
  by (simp add: cleanup_shell_def Cleanup_def)

lemma shell_and_child_log:
  assumes "shell_and_child (logged call) w q runID root ps key sn m x (b, l) = (r, m', x', (b', l'))"
    "vx_shadow x = None" "\<not> vw_cleanup_fails w"
  shows "\<exists>es. l' = l @ es \<and> settled es \<and>
     (case r of Inl e \<Rightarrow> \<not> pre_start e \<and> vx_shadow x' = None
      | Inr (ws, i) \<Rightarrow> leased_last i l' \<and> vx_shadow x' \<noteq> None)"
proof -
  obtain pr after ig where P: "Prepare (vw_prepare w) (vq_project_path q) runID (vhdx_options root) None FileMissing = (pr, after, ig)"
    by (metis prod_cases3)
  obtain err d where A: "ApplyLocalPackageOverrides (vw_apply w) ps (vw_packages_copy w) = (err, d)" by fastforce
  show ?thesis
  proof (cases "\<not> is_ok pr \<or> err \<noteq> None")
    case True
    then have "l' = l \<and> (case r of Inl e \<Rightarrow> \<not> pre_start e \<and> vx_shadow x' = None | Inr y \<Rightarrow> False)"
      using assms P A Prepare_nothing [of "vw_prepare w" "vq_project_path q" runID "vhdx_options root" FileMissing _ after ig]
      by (cases pr; cases err) (auto simp: shell_and_child_def pre_start_def)
    moreover have "settled []" by (simp add: settled_def)
    ultimately show ?thesis by (auto split: sum.splits)
  next
    case False
    then obtain ws where ws: "pr = Inr ws" "err = None" by (auto simp: is_ok_iff)
    obtain r1 m1 b1 l1 where L: "lease_child (logged call) w q runID (wk_shadow_path ws) key sn
        (m\<lparr>wm_file_copy_ms := vw_file_copy_ms w\<rparr>) (b, l) = (r1, m1, (b1, l1))" by (metis prod.collapse)
    obtain es where es: "l1 = l @ es" "settled es" "case r1 of Inl e \<Rightarrow> \<not> pre_start e | Inr i \<Rightarrow> leased_last i l1"
      using lease_child_log [OF L] by blast
    have "l' = l1 \<and> (case r1 of Inl e \<Rightarrow> r = Inl e \<and> vx_shadow x' = None | Inr i \<Rightarrow> r = Inr (ws, i) \<and> vx_shadow x' = after)"
      using assms P A ws L by (cases r1) (auto simp: shell_and_child_def Let_def)
    then show ?thesis using es Prepare_something [OF P [unfolded ws]] by (cases r1) auto
  qed
qed


section \<open>A preparation with the broker\<close>

definition client_project :: project where
  "client_project = \<lparr>pj_abs = Some ''/p'', pj_resolved = None, pj_version = FileBytes ''6000'',
     pj_manifest = FileBytes ''{}'', pj_lock = FileMissing, pj_settings = Some (Directory ''d'' []),
     pj_settings_asset = FileMissing\<rparr>"

definition client_world :: vhdx_world where
  "client_world = \<lparr>vw_abs = Some, vw_packages = demo_package_world, vw_project = client_project,
     vw_source = (\<lambda>n. Some (Directory ''d'' [])),
     vw_prepare = \<lparr>pw_mkdir_fails = False, pw_copy = (\<lambda>n. (Directory ''d'' [], False)), pw_link_fails = False,
       pw_seed_exists = False, pw_empty = Directory ''d'' [], pw_library_fails = False, pw_ignore_write_fails = False\<rparr>,
     vw_packages_copy = demo_packages_dir, vw_apply = demo_apply_world, vw_patience = 2,
     vw_unity = (\<lambda>args. \<lparr>iv_exit = 0, iv_err = None, iv_stderr = [], iv_outer = Alive, iv_results = None\<rparr>),
     vw_build_ms = 5, vw_file_copy_ms = 6, vw_preparation_ms = 7, vw_cleanup_fails = False, vw_pid = 1\<rparr>"

definition client_codecs :: key_codecs where
  "client_codecs = \<lparr>kc_sha = demo_sha, kc_payload = (\<lambda>p. ''p''), kc_library = (\<lambda>l. ''l''), kc_key = (\<lambda>c. ''c''),
     kc_platform = ''windows/amd64''\<rparr>"

definition client_request :: vhdx_request where
  "client_request = \<lparr>vq_project_path = ''/p'', vq_unity_path = ''/u'', vq_store_root = [], vq_workspace = None\<rparr>"

definition client_broker :: "broker option" where
  "client_broker = map_option (\<lambda>b. b\<lparr>br_workspaces := demo_workspaces\<rparr>) (new_broker demo_config)"

definition client_calls :: "broker_call list" where
  "client_calls = replicate 6 \<lparr>bk_native = demo_native, bk_metrics = None\<rparr>"

definition client_run ::
    "(broker \<times> broker_call list) client \<Rightarrow>
     ((vhdx_error + workspace \<times> string) \<times> workspace_metrics \<times> vhdx_site \<times> (broker \<times> broker_call list) \<times> call_log) option" where
  "client_run call = map_option (\<lambda>b. prepareVHDXWorkspace (logged call) client_codecs client_world client_request ''r''
     \<lparr>vx_shadow = None, vx_packages = demo_packages_dir\<rparr> ((b, client_calls), [])) client_broker"

text \<open>The answer to an operation is lost on the way: the broker did it, the client sees an error.\<close>

definition losing :: "operation \<Rightarrow> 'b client \<Rightarrow> 'b client" where
  "losing op call q s = (case call q s of
     (a, s1) \<Rightarrow> (if rq_operation q = op then (Some ''pipe closed'', no_response) else a, s1))"

lemma lost_acquire_removes_mounted_shell:
  "case client_run (losing Acquire (DirectClient_Call ''u'')) of
     None \<Rightarrow> False
   | Some (r, m, x, (b, ks), log) \<Rightarrow> \<not> is_ok r \<and> vx_shadow x = None \<and>
       map_option (\<lambda>c. li_mount (cs_info c)) (map_of (br_children b) ''l1'') = Some ''/w/r/Library'' \<and>
       Release \<notin> operations log"
  by code_simp

text \<open>A broker that plays back answers.\<close>

definition playback :: "wire list client" where
  "playback q s = (case s of [] \<Rightarrow> ((Some ''closed'', no_response), []) | r # rs \<Rightarrow> ((None, r), rs))"

definition plain_wire :: wire where
  "plain_wire = response.extend (ok_response (NewRequest Hello []))
     \<lparr>wr_provider = Provider, wr_workspace_root = ''/w'', wr_store_root = ''/s'', wr_metrics = None\<rparr>"

definition played_answers :: "wire list" where
  "played_answers = [plain_wire, plain_wire,
     plain_wire\<lparr>rp_build := Some \<lparr>pb_transaction = [], pb_parent_key = [], pb_mount = [], pb_state = ''waiting''\<rparr>\<rparr>,
     plain_wire\<lparr>rp_build := Some \<lparr>pb_transaction = ''t'', pb_parent_key = [], pb_mount = [], pb_state = ''mounted''\<rparr>\<rparr>,
     plain_wire\<lparr>rp_parent := Some (metadata_of \<lparr>pe_transaction = ''t'', pe_user = [], pe_token = [], pe_key = demo_key,
       pe_source = [], pe_staging = [], pe_mount = [], pe_created = 0, pe_updated = 0, pe_client_pid = 1\<rparr>
       \<lparr>ev_identity = [], ev_write_time = 0, ev_volume = [], ev_logical = 0, ev_allocated = 0, ev_sha256 = []\<rparr>)\<rparr>,
     plain_wire\<lparr>rp_lease := Some demo_info\<rparr>]"

text \<open>The parent is first awaited, then built and committed, and the child leased.\<close>

definition played_run :: "(vhdx_error + workspace \<times> string) \<times> workspace_metrics \<times> vhdx_site \<times> wire list \<times> call_log" where
  "played_run = prepareVHDXWorkspace (logged playback) client_codecs client_world client_request ''r''
     \<lparr>vx_shadow = None, vx_packages = demo_packages_dir\<rparr> (played_answers, [])"


section \<open>The monitor\<close>

text \<open>
  The answers to one tick: whether the heartbeat failed, and the free space the status told of, if it
  was asked and did. The alarm is due at the third failed heartbeat in a row or when the free space is at
  the floor; the reference looks at all ticks at once, the monitor counts.
\<close>

record tick =
  tk_failed :: bool
  tk_free :: "int option"

definition low_space :: "tick \<Rightarrow> bool" where
  "low_space t \<longleftrightarrow> \<not> tk_failed t \<and> (case tk_free t of None \<Rightarrow> False | Some n \<Rightarrow> n \<le> SafetyHostFloor)"

definition alarm_due :: "tick list \<Rightarrow> bool" where
  "alarm_due ts \<longleftrightarrow> list_ex low_space ts \<or>
     (\<exists>i. i + 2 < length ts \<and> tk_failed (ts ! i) \<and> tk_failed (ts ! (i + 1)) \<and> tk_failed (ts ! (i + 2)))"

text \<open>The ticks as the client gets them: the calls a tick makes, whatever the monitor then does.\<close>

definition tick_of :: "'b client \<Rightarrow> int \<Rightarrow> string \<Rightarrow> string \<Rightarrow> nat \<Rightarrow> 'b \<Rightarrow> tick \<times> 'b" where
  "tick_of call own runID leaseID n b =
     (case call (heartbeat_request own (''heartbeat-'' @ runID @ ''-'' @ decimal n) leaseID 0) b of
        ((Some e, _), b1) \<Rightarrow> (\<lparr>tk_failed = True, tk_free = None\<rparr>, b1)
      | ((None, _), b1) \<Rightarrow>
          (case call (NewRequest Status_op (''capacity-'' @ runID @ ''-'' @ decimal n)) b1 of
             ((err, r), b2) \<Rightarrow> (\<lparr>tk_failed = False, tk_free = (if err = None
                then map_option (\<lambda>st. cp_host_free (vt_capacity st)) (rp_status r) else None)\<rparr>, b2)))"

fun ticks_of :: "'b client \<Rightarrow> int \<Rightarrow> string \<Rightarrow> string \<Rightarrow> nat \<Rightarrow> nat \<Rightarrow> 'b \<Rightarrow> tick list" where
  "ticks_of call own runID leaseID 0 n b = []"
| "ticks_of call own runID leaseID (Suc k) n b =
     (case tick_of call own runID leaseID n b of (t, b1) \<Rightarrow> t # ticks_of call own runID leaseID k (Suc n) b1)"

fun trailing :: "nat \<Rightarrow> tick list \<Rightarrow> bool" where
  "trailing f [] = False"
| "trailing f (t # ts) = (if tk_failed t then 2 \<le> f \<or> trailing (Suc f) ts else low_space t \<or> trailing 0 ts)"

lemma monitor_tick_of:
  assumes "tick_of call own runID leaseID (Suc (mo_sequence mo)) b = (t, b1)" "mo_alarm mo = None"
  shows "\<exists>mo1. monitor_tick call own runID leaseID mo b = (mo1, b1) \<and> mo_sequence mo1 = Suc (mo_sequence mo) \<and>
     mo_failures mo1 = (if tk_failed t then Suc (mo_failures mo) else 0) \<and>
     (mo_alarm mo1 \<noteq> None \<longleftrightarrow> (if tk_failed t then 2 \<le> mo_failures mo else low_space t))"
  using assms
  by (auto simp: tick_of_def monitor_tick_def check_capacity_def Let_def low_space_def
      split: prod.splits option.splits if_splits)

lemma Monitor_trailing:
  "mo_alarm mo = None \<Longrightarrow>
     mo_alarm (fst (Monitor call own runID leaseID k mo b)) \<noteq> None \<longleftrightarrow>
     trailing (mo_failures mo) (ticks_of call own runID leaseID k (Suc (mo_sequence mo)) b)"
proof (induction k arbitrary: mo b)
  case (Suc k)
  obtain t b1 where t: "tick_of call own runID leaseID (Suc (mo_sequence mo)) b = (t, b1)" by fastforce
  obtain mo1 where m: "monitor_tick call own runID leaseID mo b = (mo1, b1)" "mo_sequence mo1 = Suc (mo_sequence mo)"
      "mo_failures mo1 = (if tk_failed t then Suc (mo_failures mo) else 0)"
      "mo_alarm mo1 \<noteq> None \<longleftrightarrow> (if tk_failed t then 2 \<le> mo_failures mo else low_space t)"
    using monitor_tick_of [OF t Suc.prems] by blast
  show ?case
  proof (cases "mo_alarm mo1 = None")
    case True
    then show ?thesis using Suc.IH [OF True, of b1] m t Suc.prems by (auto split: if_splits)
  next
    case False
    then have "Monitor call own runID leaseID k mo1 b1 = (mo1, b1)" by (cases k) auto
    then show ?thesis using False m t Suc.prems by (auto split: if_splits)
  qed
qed simp

definition first_failed :: "nat \<Rightarrow> tick list \<Rightarrow> bool" where
  "first_failed n ts \<longleftrightarrow> n \<le> length ts \<and> list_all tk_failed (take n ts)"

lemma first_failed_simps [simp]:
  "first_failed 0 ts" "\<not> first_failed (Suc n) []"
  "first_failed (Suc n) (t # ts) \<longleftrightarrow> tk_failed t \<and> first_failed n ts"
  by (auto simp: first_failed_def)

lemma first_failed_less: "first_failed n ts \<Longrightarrow> m \<le> n \<Longrightarrow> first_failed m ts"
  by (auto simp: first_failed_def list_all_length)

lemma first_three: "first_failed 3 ts \<longleftrightarrow> 2 < length ts \<and> tk_failed (ts ! 0) \<and> tk_failed (ts ! 1) \<and> tk_failed (ts ! 2)"
proof (cases "length ts \<le> 2")
  case True
  then show ?thesis by (auto simp: first_failed_def)
next
  case False
  then obtain a b c r where "ts = a # b # c # r" by (cases ts rule: list.exhaust; cases "tl ts"; cases "tl (tl ts)") auto
  then show ?thesis by (simp add: numeral_3_eq_3 numeral_2_eq_2)
qed

lemma alarm_due_Cons: "alarm_due (t # ts) \<longleftrightarrow> low_space t \<or> first_failed 3 (t # ts) \<or> alarm_due ts"
proof -
  have "(\<exists>i. i + 2 < length (t # ts) \<and> tk_failed ((t # ts) ! i) \<and> tk_failed ((t # ts) ! (i + 1)) \<and> tk_failed ((t # ts) ! (i + 2)))
      \<longleftrightarrow> first_failed 3 (t # ts) \<or>
        (\<exists>i. i + 2 < length ts \<and> tk_failed (ts ! i) \<and> tk_failed (ts ! (i + 1)) \<and> tk_failed (ts ! (i + 2)))"
    (is "(\<exists>i. ?P i) \<longleftrightarrow> ?f \<or> (\<exists>i. ?Q i)")
  proof -
    have "?P (Suc i) \<longleftrightarrow> ?Q i" for i by simp
    moreover have "?P 0 \<longleftrightarrow> ?f" by (simp add: first_three)
    ultimately show ?thesis by (metis not0_implies_Suc)
  qed
  then show ?thesis by (auto simp: alarm_due_def)
qed

lemma first_failed_due: "first_failed 3 ts \<Longrightarrow> alarm_due ts"
  by (cases ts) (auto simp: alarm_due_Cons numeral_3_eq_3)

lemma trailing_due: "f \<le> 2 \<Longrightarrow> trailing f ts \<longleftrightarrow> alarm_due ts \<or> first_failed (3 - f) ts"
proof (induction ts arbitrary: f)
  case Nil
  then show ?case by (simp add: alarm_due_def first_failed_def)
next
  case (Cons t ts)
  have low: "\<not> low_space t" if "tk_failed t" using that by (simp add: low_space_def)
  have "f = 0 \<or> f = 1 \<or> f = 2" using Cons.prems by linarith
  then show ?case
    using Cons.IH [of 0] Cons.IH [of "Suc f"] low first_failed_due [of ts] first_failed_less [of 2 ts 1]
      first_failed_less [of 2 ts 0]
    by (cases "tk_failed t") (auto simp: alarm_due_Cons numeral_3_eq_3 numeral_2_eq_2)
qed

text \<open>
  C36. The monitor stops a run exactly when it must: beside any broker and over any number of ticks, it raises the
  alarm if and only if three heartbeats in a row failed or a status after a good heartbeat told of no more free space than the
  safety floor.
\<close>

theorem monitor_alarm_exact:
  "mo_alarm (fst (Monitor call own runID leaseID k (new_monitor m) b)) \<noteq> None \<longleftrightarrow>
     alarm_due (ticks_of call own runID leaseID k 1 b)"
  using Monitor_trailing [of "new_monitor m" call own runID leaseID k b]
    trailing_due [of 0 "ticks_of call own runID leaseID k 1 b"] first_failed_due
  by (auto simp: new_monitor_def)

text \<open>A broker that hangs up: the third failure in a row raises the alarm, a fourth tick is not taken.\<close>

lemma monitor_stops_at_third_failure:
  "let (mo, b) = Monitor playback 1 ''r'' ''l'' 5 (new_monitor m) [plain_wire]
   in mo_sequence mo = 4 \<and> mo_alarm mo = Some (Heartbeat_failed ''closed'')"
  by (simp add: eval_nat_numeral monitor_tick_def check_capacity_def playback_def plain_wire_def new_monitor_def Let_def
      response.defs ok_response_def)

section \<open>A run beside other clients\<close>

text \<open>
  What every user of the broker may rely on: a property of the broker's state that each call keeps is
  kept by a whole run.
\<close>

locale keeping_client =
  fixes call :: "'b client"
    and inv :: "'b \<Rightarrow> bool"
  assumes call_inv: "inv b \<Longrightarrow> inv (snd (call q b))"
begin

lemma call_kept: "call q b = (a, b') \<Longrightarrow> inv b \<Longrightarrow> inv b'"
  using call_inv [of b q] by simp

lemma hello_step_inv: "hello_step call w q runID b = (r, b') \<Longrightarrow> inv b \<Longrightarrow> inv b'"
  by (auto simp: hello_step_def split: prod.splits option.splits if_splits dest!: call_kept)

lemma build_parent_inv: "build_parent call w runID p t m b = (r, m', b') \<Longrightarrow> inv b \<Longrightarrow> inv b'"
  by (auto simp: build_parent_def Let_def call_inv split: prod.splits option.splits if_splits dest!: call_kept)

lemma parent_loop_inv:
  "parent_loop call w runID p key sn patience attempt m b = (r, m', b') \<Longrightarrow> inv b \<Longrightarrow> inv b'"
proof (induction patience arbitrary: attempt m b)
  case 0
  then show ?case by (subst (asm) parent_loop.simps)
      (auto split: prod.splits option.splits if_splits dest!: build_parent_inv call_kept)
next
  case (Suc n)
  obtain e rp b1 where c: "call (begin_request w runID key sn attempt) b = ((e, rp), b1)" by (metis prod.collapse)
  have "inv b1" by (rule call_kept [OF c Suc.prems(2)])
  then show ?case using Suc.prems(1) Suc.IH [of "Suc attempt" "apply_metrics rp m" b1] c build_parent_inv
    by (subst (asm) parent_loop.simps) (cases e; cases "rp_build rp"; auto split: if_splits; blast)
qed

lemma lease_child_inv: "lease_child call w q runID p key sn m b = (r, m', b') \<Longrightarrow> inv b \<Longrightarrow> inv b'"
  by (auto simp: lease_child_def Let_def split: prod.splits option.splits sum.splits if_splits
      dest!: call_kept dest: parent_loop_inv)

lemma shell_and_child_inv:
  "shell_and_child call w q runID root ps key sn m x b = (r, m', x', b') \<Longrightarrow> inv b \<Longrightarrow> inv b'"
  by (auto simp: shell_and_child_def Let_def split: prod.splits option.splits sum.splits dest!: lease_child_inv)

lemma prepareVHDXWorkspace_inv:
  "prepareVHDXWorkspace call k w q runID x b = (r, m, x', b') \<Longrightarrow> inv b \<Longrightarrow> inv b'"
  by (auto simp: prepareVHDXWorkspace_def Let_def split: prod.splits sum.splits
      dest!: shell_and_child_inv dest: hello_step_inv)

lemma SetUnityPID_inv: "SetUnityPID call own runID pid l b = (l', b') \<Longrightarrow> inv b \<Longrightarrow> inv b'"
  by (auto simp: SetUnityPID_def split: prod.splits option.splits if_splits dest!: call_kept)

lemma monitor_tick_inv: "monitor_tick call own runID leaseID mo b = (mo', b') \<Longrightarrow> inv b \<Longrightarrow> inv b'"
  by (auto simp: monitor_tick_def check_capacity_def Let_def split: prod.splits option.splits if_splits dest!: call_kept)

lemma Monitor_inv: "Monitor call own runID leaseID n mo b = (mo', b') \<Longrightarrow> inv b \<Longrightarrow> inv b'"
proof (induction n arbitrary: mo b)
  case (Suc n)
  obtain mo1 b1 where t: "monitor_tick call own runID leaseID mo b = (mo1, b1)" by fastforce
  show ?case using Suc.prems Suc.IH [of mo1 b1] monitor_tick_inv [OF t] t by (auto split: if_splits)
qed simp

lemma Release_through_inv: "Release_through call runID retain l b = (r, b') \<Longrightarrow> inv b \<Longrightarrow> inv b'"
  by (auto simp: Release_through_def split: prod.splits option.splits if_splits dest!: call_kept)

end

text \<open>
  The broker serves others too: before each call of this client any events may happen. A call that the
  platform cannot answer (it would name a disk that is there as new) finds the broker unavailable.
\<close>

definition shared_call :: "string \<Rightarrow> (broker \<times> (broker_event list \<times> broker_call) list) client" where
  "shared_call caller q s =
     (case s of
        (b, []) \<Rightarrow> ((Some ''workspace broker is unavailable'', no_response), s)
      | (b, (es, k) # rest) \<Rightarrow>
          (case broker_steps es b of
             None \<Rightarrow> ((Some ''workspace broker is unavailable'', no_response), (b, rest))
           | Some b1 \<Rightarrow>
               (case broker_step (Serve (bk_native k) caller q) b1 of
                  None \<Rightarrow> ((Some ''workspace broker is unavailable'', no_response), (b1, rest))
                | Some b2 \<Rightarrow> (fst (DirectClient_Call caller q (b1, [k])), (b2, rest)))))"

lemma shared_call_inv:
  assumes "broker_inv b"
  shows "broker_inv (fst (snd (shared_call caller q (b, env))))"
proof (cases env)
  case Nil
  then show ?thesis using assms by (simp add: shared_call_def)
next
  case (Cons e rest)
  obtain es k where e: "e = (es, k)" by (metis prod.exhaust)
  show ?thesis
  proof (cases "broker_steps es b")
    case None
    then show ?thesis using assms Cons e by (simp add: shared_call_def)
  next
    case (Some b1)
    have i1: "broker_inv b1" by (rule broker_machine.steps_inv [OF assms Some])
    show ?thesis
    proof (cases "broker_step (Serve (bk_native k) caller q) b1")
      case None
      then show ?thesis using Some i1 Cons e by (simp add: shared_call_def)
    next
      case two: (Some b2)
      have "broker_inv b2" by (rule broker_step_inv [OF i1 two])
      then show ?thesis using two Some Cons e by (simp add: shared_call_def)
    qed
  qed
qed

interpretation shared: keeping_client "shared_call caller" "\<lambda>s. broker_inv (fst s)" for caller
proof
  fix s :: "broker \<times> (broker_event list \<times> broker_call) list" and q
  assume "broker_inv (fst s)"
  then show "broker_inv (fst (snd (shared_call caller q s)))"
    using shared_call_inv [of "fst s" caller q "snd s"] by simp
qed

lemma DirectClient_state:
  "broker_step (Serve (bk_native k) caller q) b = Some b' \<Longrightarrow> snd (DirectClient_Call caller q (b, [k])) = (b', [])"
  by (auto simp: DirectClient_Call_def broker_step_def split: prod.splits if_splits)

text \<open>A whole run: preparation, the process of Unity, the monitor, the release; an error ends it early.\<close>

definition vhdx_run ::
    "'b client \<Rightarrow> key_codecs \<Rightarrow> vhdx_world \<Rightarrow> vhdx_request \<Rightarrow> string \<Rightarrow> int \<Rightarrow> nat \<Rightarrow> bool \<Rightarrow> vhdx_site \<Rightarrow> 'b \<Rightarrow>
     (vhdx_error + alarm option \<times> lease) \<times> 'b" where
  "vhdx_run call k w q runID pid ticks retain x b =
     (case prepareVHDXWorkspace call k w q runID x b of
        (Inl e, m, x1, b1) \<Rightarrow> (Inl e, b1)
      | (Inr (ws, i), m, x1, b1) \<Rightarrow>
          (case SetUnityPID call (vw_pid w) runID pid \<lparr>le_workspace = ws, le_metrics = m, le_vhdx = Some i,
               le_released = False, le_shell = True\<rparr> b1 of
             (l, b2) \<Rightarrow>
               (case Monitor call (vw_pid w) runID i ticks (new_monitor (le_metrics l)) b2 of
                  (mo, b3) \<Rightarrow>
                    (case Release_through call runID retain (l\<lparr>le_metrics := mo_metrics mo\<rparr>) b3 of
                       ((err, effs, l1), b4) \<Rightarrow> (Inr (mo_alarm mo, l1), b4)))))"

lemma vhdx_run_inv:
  assumes "vhdx_run (shared_call caller) k w q runID pid ticks retain x s = (r, s')" "broker_inv (fst s)"
  shows "broker_inv (fst s')"
proof -
  obtain y m x1 s1 where p: "prepareVHDXWorkspace (shared_call caller) k w q runID x s = (y, m, x1, s1)"
    by (metis prod_cases4)
  have i1: "broker_inv (fst s1)" by (rule shared.prepareVHDXWorkspace_inv [OF p assms(2)])
  show ?thesis
  proof (cases y)
    case (Inl e)
    then show ?thesis using assms(1) p i1 by (simp add: vhdx_run_def)
  next
    case (Inr z)
    obtain ws i where z: "z = (ws, i)" by fastforce
    obtain l s2 where u: "SetUnityPID (shared_call caller) (vw_pid w) runID pid \<lparr>le_workspace = ws, le_metrics = m,
        le_vhdx = Some i, le_released = False, le_shell = True\<rparr> s1 = (l, s2)" by (metis prod.exhaust)
    obtain mo s3 where mo: "Monitor (shared_call caller) (vw_pid w) runID i ticks (new_monitor (le_metrics l)) s2 = (mo, s3)"
      by (metis prod.exhaust)
    obtain rel s4 where rel: "Release_through (shared_call caller) runID retain (l\<lparr>le_metrics := mo_metrics mo\<rparr>) s3 = (rel, s4)"
      by (metis prod.exhaust)
    have "broker_inv (fst s4)"
      by (rule shared.Release_through_inv [OF rel shared.Monitor_inv [OF mo shared.SetUnityPID_inv [OF u i1]]])
    moreover have "s' = s4" using assms(1) p Inr z u mo rel
      by (cases rel) (auto simp: vhdx_run_def split: prod.splits)
    ultimately show ?thesis by simp
  qed
qed


definition shared_run :: "((vhdx_error + alarm option \<times> lease) \<times> broker \<times> (broker_event list \<times> broker_call) list) option" where
  "shared_run = map_option (\<lambda>b. vhdx_run (shared_call ''u'') client_codecs client_world client_request ''r'' 77 0 True
     \<lparr>vx_shadow = None, vx_packages = demo_packages_dir\<rparr>
     (b, replicate 7 ([Workspace_changes demo_workspaces], \<lparr>bk_native = demo_native, bk_metrics = None\<rparr>)))
     (new_broker demo_config)"


end
