(* ===== verification/StoragePaths.thy ===== *)
theory StoragePaths
  imports GoPath
begin

text \<open>
  The paths the storage helper accepts, \<^verbatim>\<open>internal/storagehelper/paths.go\<close>, on the Unix build: the
  child below the store, the mount point below the workspace, neither by way of a link. What is at a path
  and where it resolves to are answers of the file system; of an error the code is kept.
\<close>

section \<open>The checks\<close>

record helper_request =
  hq_schema :: int
  hq_operation :: string
  hq_id :: string
  hq_store :: string
  hq_workspace :: string
  hq_parent :: string
  hq_child :: string
  hq_mount :: string
  hq_delete :: bool
  hq_lease :: string

datatype file_kind = A_file | A_directory | A_link | A_special

record path_world =
  pw_lstat :: "string \<Rightarrow> file_kind file_read"
  pw_resolve :: "string \<Rightarrow> string option"
  pw_entries :: "string \<Rightarrow> nat option"

record validated_paths =
  vp_store :: string
  vp_workspace :: string
  vp_parent :: string
  vp_child :: string
  vp_mount :: string

definition same_clean :: "string \<Rightarrow> string \<Rightarrow> bool" where
  "same_clean l r \<longleftrightarrow> Clean l = Clean r"

definition pathWithinOrEqual :: "string \<Rightarrow> string \<Rightarrow> bool \<Rightarrow> bool" where
  "pathWithinOrEqual root target allowEqual \<longleftrightarrow> (case Rel root target of
       None \<Rightarrow> False
     | Some r \<Rightarrow>
         (if IsAbs r then False
          else if r = ''.'' then allowEqual
          else r \<noteq> ''..'' \<and> \<not> has_prefix r (''..'' @ [sep])))"

definition validateAbsolutePath :: "string \<Rightarrow> string \<Rightarrow> string + string" where
  "validateAbsolutePath path code =
     (if path = [] \<or> \<not> IsAbs path then Inl code
      else let c = Clean path
        in if has_prefix c [CHR 0x5C, CHR 0x5C] \<or> has_prefix c [sep, sep] \<or> c = [sep] then Inl code else Inr c)"

definition real_directory :: "path_world \<Rightarrow> string \<Rightarrow> bool" where
  "real_directory w path \<longleftrightarrow> pw_lstat w path = FileBytes A_directory"

definition validateRoot :: "path_world \<Rightarrow> string \<Rightarrow> string \<Rightarrow> string + string" where
  "validateRoot w path code =
     bind_result (validateAbsolutePath path code) (\<lambda>c.
       if \<not> real_directory w c then Inl code
       else case pw_resolve w c of
           None \<Rightarrow> Inl code
         | Some r \<Rightarrow> (if same_clean c r then Inr c else Inl code))"

definition ensureResolvedWithin :: "path_world \<Rightarrow> string \<Rightarrow> string \<Rightarrow> string \<Rightarrow> string + unit" where
  "ensureResolvedWithin w root target code =
     (if \<not> real_directory w target then Inl code
      else case pw_resolve w target of
          None \<Rightarrow> Inl code
        | Some r \<Rightarrow> require (pathWithinOrEqual root r True) code)"

text \<open>\<^verbatim>\<open>filepath.Ext\<close> of a cleaned path: from the last dot of its last element.\<close>

definition Ext :: "string \<Rightarrow> string" where
  "Ext p = (let e = rev (takeWhile (\<lambda>c. c \<noteq> sep) (rev p)); t = takeWhile (\<lambda>c. c \<noteq> CHR ''.'') (rev e)
     in if length t = length e then [] else CHR ''.'' # rev t)"

text \<open>The conditions on the strings, and those on the parent, the child and the mount point as they are on the disk.\<close>

definition check_names :: "string \<Rightarrow> string \<Rightarrow> string \<Rightarrow> string \<Rightarrow> string \<Rightarrow> string \<Rightarrow> string + unit" where
  "check_names platform store workspace parent child mount =
     bind_result (require (\<not> same_clean parent child) ''invalid-child-path'') (\<lambda>_.
     bind_result (require (platform = ''windows'' \<longrightarrow> equal_fold (Ext parent) ''.vhdx'') ''invalid-parent-path'') (\<lambda>_.
     bind_result (require (platform = ''windows'' \<longrightarrow> equal_fold (Ext child) ''.vhdx'') ''invalid-child-path'') (\<lambda>_.
     bind_result (require (pathWithinOrEqual store child False) ''invalid-child-path'') (\<lambda>_.
     require (pathWithinOrEqual workspace mount False) ''invalid-mount-path''))))"

definition check_parent :: "path_world \<Rightarrow> string \<Rightarrow> string \<Rightarrow> string \<Rightarrow> string + unit" where
  "check_parent w platform parent child = (case pw_lstat w parent of
       FileMissing \<Rightarrow> Inl ''parent-not-found''
     | FileUnreadable \<Rightarrow> Inl ''parent-invalid''
     | FileBytes k \<Rightarrow>
         (if k \<noteq> (if platform = ''windows'' then A_file else A_directory) then Inl ''parent-invalid''
          else case pw_resolve w parent of
              None \<Rightarrow> Inl ''invalid-parent-path''
            | Some r \<Rightarrow>
                (if \<not> same_clean parent r then Inl ''invalid-parent-path''
                 else require (\<not> (platform \<noteq> ''windows'' \<and> pathWithinOrEqual parent child True)) ''invalid-child-path'')))"

definition check_child :: "path_world \<Rightarrow> string \<Rightarrow> string + unit" where
  "check_child w child = (case pw_lstat w child of
       FileMissing \<Rightarrow> Inr () | FileUnreadable \<Rightarrow> Inl ''invalid-child-path'' | FileBytes k \<Rightarrow> Inl ''child-exists'')"

definition check_mount :: "path_world \<Rightarrow> string \<Rightarrow> string + unit" where
  "check_mount w mount = (case pw_lstat w mount of
       FileMissing \<Rightarrow> Inr ()
     | FileUnreadable \<Rightarrow> Inl ''invalid-mount-path''
     | FileBytes k \<Rightarrow>
         (if k \<noteq> A_directory then Inl ''invalid-mount-path''
          else case pw_entries w mount of
              None \<Rightarrow> Inl ''invalid-mount-path''
            | Some n \<Rightarrow> require (n = 0) ''mount-path-not-empty''))"

definition validateAcquirePaths :: "path_world \<Rightarrow> helper_request \<Rightarrow> string \<Rightarrow> string + validated_paths" where
  "validateAcquirePaths w q platform =
     bind_result (validateRoot w (hq_store q) ''invalid-store-root'') (\<lambda>store.
     bind_result (validateRoot w (hq_workspace q) ''invalid-workspace-root'') (\<lambda>workspace.
     bind_result (validateAbsolutePath (hq_parent q) ''invalid-parent-path'') (\<lambda>parent.
     bind_result (validateAbsolutePath (hq_child q) ''invalid-child-path'') (\<lambda>child.
     bind_result (validateAbsolutePath (hq_mount q) ''invalid-mount-path'') (\<lambda>mount.
     bind_result (check_names platform store workspace parent child mount) (\<lambda>_.
     bind_result (ensureResolvedWithin w store (Dir child) ''invalid-child-path'') (\<lambda>_.
     bind_result (ensureResolvedWithin w workspace (Dir mount) ''invalid-mount-path'') (\<lambda>_.
     bind_result (check_parent w platform parent child) (\<lambda>_.
     bind_result (check_child w child) (\<lambda>_.
     bind_result (check_mount w mount) (\<lambda>_.
     Inr \<lparr>vp_store = store, vp_workspace = workspace, vp_parent = parent, vp_child = child, vp_mount = mount\<rparr>)))))))))))"

section \<open>Being below a directory\<close>

definition below_path :: "string \<Rightarrow> string \<Rightarrow> bool" where
  "below_path root target \<longleftrightarrow> (\<exists>rest. rest \<noteq> [] \<and> elements (Clean target) = elements (Clean root) @ rest)"

lemma strip_common_parts:
  "strip_common as bs = (a, b) \<Longrightarrow> \<exists>c. as = c @ a \<and> bs = c @ b"
proof (induction as bs rule: strip_common.induct)
  case (1 x as y bs)
  show ?case
  proof (cases "x = y")
    case True
    then obtain c where "as = c @ a \<and> bs = c @ b" using 1 by auto
    then show ?thesis using True by (intro exI [of _ "x # c"]) simp
  next
    case False
    then show ?thesis using 1(2) by (intro exI [of _ "[]"]) simp
  qed
qed auto

lemma elements_abs_clean:
  assumes "IsAbs p"
  shows "\<forall>e \<in> set (elements (Clean p)). plain e \<and> e \<noteq> ''.'' \<and> e \<noteq> ''..''" "Clean p = assemble True (elements (Clean p))"
proof -
  have "normal True (elements (Clean p))" using assms by (simp add: elements_Clean_abs normal_clean_elements)
  then have "''.'' \<notin> set (elements (Clean p))" "''..'' \<notin> set (elements (Clean p))"
    by (auto simp: normal_def)
  then show "\<forall>e \<in> set (elements (Clean p)). plain e \<and> e \<noteq> ''.'' \<and> e \<noteq> ''..''" using elements_plain by blast
  show "Clean p = assemble True (elements (Clean p))" using assms by (simp add: elements_Clean_abs) (simp add: Clean_def)
qed

lemma join_dotdots: "join_with [sep] (replicate (Suc n) ''..'' @ b) = ''..'' \<or>
    has_prefix (join_with [sep] (replicate (Suc n) ''..'' @ b)) (''..'' @ [sep])"
proof (cases "replicate n ''..'' @ b")
  case Nil
  then show ?thesis by simp
next
  case (Cons x xs)
  then show ?thesis by (simp add: has_prefix_iff)
qed

lemma join_inner:
  assumes "b \<noteq> []" "\<forall>e \<in> set b. plain e \<and> e \<noteq> ''.'' \<and> e \<noteq> ''..''"
  shows "join_with [sep] b \<noteq> ''.'' \<and> join_with [sep] b \<noteq> ''..'' \<and> \<not> has_prefix (join_with [sep] b) (''..'' @ [sep])"
proof -
  have el: "elements (join_with [sep] b) = b" using assms(2) by (simp add: elements_join_with)
  have dots: "elements ''.'' = [''.'']" "elements ''..'' = [''..'']"
    using elements_join_with [of "[''.'']"] elements_join_with [of "[''..'']"] by simp_all
  have other: "join_with [sep] b \<noteq> x" if "elements x = [x]" "x \<notin> set b" for x
  proof
    assume "join_with [sep] b = x"
    then have "b = [x]" using el that(1) by simp
    then show False using that(2) by simp
  qed
  have "join_with [sep] b \<noteq> ''.''" "join_with [sep] b \<noteq> ''..''"
    using other [OF dots(1)] other [OF dots(2)] assms(2) by metis+
  moreover have "\<not> has_prefix (join_with [sep] b) (''..'' @ [sep])"
  proof
    assume "has_prefix (join_with [sep] b) (''..'' @ [sep])"
    then obtain r where r: "join_with [sep] b = ''..'' @ sep # r" by (auto simp: has_prefix_iff)
    have "''..'' \<in> set (elements (''..'' @ sep # r))"
      using split_on_plain_append [of sep "''..''" r] by (simp add: elements_def sep_def)
    then show False using el r assms(2) by auto
  qed
  ultimately show ?thesis by blast
qed

lemma pathWithinOrEqual_iff:
  assumes "IsAbs root" "IsAbs target"
  shows "pathWithinOrEqual root target eq \<longleftrightarrow> below_path root target \<or> eq \<and> Clean root = Clean target"
proof (cases "Clean target = Clean root")
  case True
  then show ?thesis by (auto simp: pathWithinOrEqual_def Rel_def Let_def below_path_def IsAbs_def has_prefix_def sep_def)
next
  case False
  let ?rs = "elements (Clean root)" and ?ts = "elements (Clean target)"
  note rs = elements_abs_clean [OF assms(1)] and ts = elements_abs_clean [OF assms(2)]
  have ne: "?ts \<noteq> ?rs" using False rs(2) ts(2) by metis
  obtain a b where sc: "strip_common ?rs ?ts = (a, b)" by fastforce
  obtain c where c: "?rs = c @ a" "?ts = c @ b" using strip_common_parts [OF sc] by blast
  have dot: "Clean root \<noteq> ''.''" using assms(1) IsAbs_Clean [of root] by (auto simp: IsAbs_def has_prefix_def sep_def)
  have rel: "Rel root target = (if a = [] then Some (join_with [sep] b)
      else if hd a = ''..'' then None else Some (join_with [sep] (replicate (length a) ''..'' @ b)))"
    using False dot assms sc by (cases a) (simp_all add: Rel_def Let_def)
  show ?thesis
  proof (cases a)
    case Nil
    then have "b \<noteq> []" "\<forall>e \<in> set b. plain e \<and> e \<noteq> ''.'' \<and> e \<noteq> ''..''" using c ne ts(1) by auto
    moreover have "below_path root target" using Nil c \<open>b \<noteq> []\<close> by (auto simp: below_path_def)
    moreover have "\<not> IsAbs (join_with [sep] b)" using calculation(2) by (intro IsAbs_join_plain) blast
    ultimately show ?thesis using rel Nil join_inner [of b] by (simp add: pathWithinOrEqual_def)
  next
    case (Cons x xs)
    have "\<not> below_path root target" using sc Cons strip_common_append [of ?rs] by (auto simp: below_path_def)
    moreover have "\<not> pathWithinOrEqual root target eq"
      using rel Cons join_dotdots [of "length xs" b] by (auto simp: pathWithinOrEqual_def has_prefix_def)
    ultimately show ?thesis using False by simp
  qed
qed

section \<open>What is accepted\<close>

definition unused_mount :: "path_world \<Rightarrow> string \<Rightarrow> bool" where
  "unused_mount w mount \<longleftrightarrow> pw_lstat w mount = FileMissing \<or>
     pw_lstat w mount = FileBytes A_directory \<and> pw_entries w mount = Some 0"

definition lands_in :: "path_world \<Rightarrow> string \<Rightarrow> string \<Rightarrow> bool" where
  "lands_in w root target \<longleftrightarrow> real_directory w target \<and>
     (\<exists>r. pw_resolve w target = Some r \<and> pathWithinOrEqual root r True)"

lemma validateAbsolutePath_Inr:
  "validateAbsolutePath p code = Inr c \<longleftrightarrow> IsAbs p \<and> c = Clean p \<and> c \<noteq> [sep] \<and>
     \<not> has_prefix c [CHR 0x5C, CHR 0x5C] \<and> \<not> has_prefix c [sep, sep]"
  by (auto simp: validateAbsolutePath_def Let_def)

lemma validateRoot_Inr:
  "validateRoot w p code = Inr c \<Longrightarrow> IsAbs p \<and> c = Clean p \<and> c \<noteq> [sep] \<and> real_directory w c \<and>
     (\<exists>r. pw_resolve w c = Some r \<and> Clean r = Clean c)"
  by (auto simp: validateRoot_def bind_result_Inr_iff validateAbsolutePath_Inr same_clean_def
      split: if_splits option.splits)

lemma ensureResolvedWithin_Inr:
  "ensureResolvedWithin w root target code = Inr u \<longleftrightarrow> lands_in w root target"
  by (auto simp: ensureResolvedWithin_def lands_in_def split: if_splits option.splits)

lemma check_parent_Inr:
  "check_parent w platform parent child = Inr u \<Longrightarrow>
     pw_lstat w parent = FileBytes (if platform = ''windows'' then A_file else A_directory) \<and>
     (\<exists>r. pw_resolve w parent = Some r \<and> Clean parent = Clean r) \<and>
     (platform \<noteq> ''windows'' \<longrightarrow> \<not> pathWithinOrEqual parent child True)"
  by (auto simp: check_parent_def same_clean_def split: file_read.splits if_splits option.splits)

lemma check_child_Inr: "check_child w child = Inr u \<longleftrightarrow> pw_lstat w child = FileMissing"
  by (auto simp: check_child_def split: file_read.splits)

lemma check_mount_Inr: "check_mount w mount = Inr u \<Longrightarrow> unused_mount w mount"
  by (auto simp: check_mount_def unused_mount_def split: file_read.splits if_splits option.splits)

text \<open>
  C28. The helper acts only inside its two roots: of an accepted request the child lies strictly below the
  store and the mount point strictly below the workspace, element by element, and the directories
  that are to hold them resolve into those roots too; nothing is at the child's path, the mount point is
  absent or an empty directory, and outside Windows the child is not inside the parent it is cloned from.
\<close>

theorem accepted_paths_confined:
  assumes "validateAcquirePaths w q platform = Inr v"
  shows "below_path (vp_store v) (vp_child v) \<and> lands_in w (vp_store v) (Dir (vp_child v)) \<and>
     below_path (vp_workspace v) (vp_mount v) \<and> lands_in w (vp_workspace v) (Dir (vp_mount v)) \<and>
     vp_store v \<noteq> [sep] \<and> vp_workspace v \<noteq> [sep] \<and>
     pw_lstat w (vp_child v) = FileMissing \<and> unused_mount w (vp_mount v) \<and>
     (if platform = ''windows'' then vp_parent v \<noteq> vp_child v
      else \<not> below_path (vp_parent v) (vp_child v) \<and> vp_parent v \<noteq> vp_child v)"
proof -
  obtain store workspace parent child mount where
    v: "v = \<lparr>vp_store = store, vp_workspace = workspace, vp_parent = parent, vp_child = child, vp_mount = mount\<rparr>"
    and roots: "validateRoot w (hq_store q) ''invalid-store-root'' = Inr store"
      "validateRoot w (hq_workspace q) ''invalid-workspace-root'' = Inr workspace"
    and paths: "validateAbsolutePath (hq_parent q) ''invalid-parent-path'' = Inr parent"
      "validateAbsolutePath (hq_child q) ''invalid-child-path'' = Inr child"
      "validateAbsolutePath (hq_mount q) ''invalid-mount-path'' = Inr mount"
    and names: "check_names platform store workspace parent child mount = Inr ()"
    and inside: "lands_in w store (Dir child)" "lands_in w workspace (Dir mount)"
    and par: "check_parent w platform parent child = Inr ()"
    and rest: "pw_lstat w child = FileMissing" "unused_mount w mount"
    using assms by (auto simp: validateAcquirePaths_def bind_result_Inr_iff ensureResolvedWithin_Inr check_child_Inr
        check_mount_Inr)
  have abs: "IsAbs store" "IsAbs workspace" "IsAbs parent" "IsAbs child" "IsAbs mount" "store \<noteq> [sep]" "workspace \<noteq> [sep]"
    using validateRoot_Inr [OF roots(1)] validateRoot_Inr [OF roots(2)] paths by (auto simp: validateAbsolutePath_Inr)
  have "pathWithinOrEqual store child False" "pathWithinOrEqual workspace mount False" "\<not> same_clean parent child"
    using names by (auto simp: check_names_def bind_result_Inr_iff)
  then show ?thesis using abs inside rest check_parent_Inr [OF par]
    by (auto simp: v pathWithinOrEqual_iff same_clean_def)
qed

text \<open>A child that would climb out of the store by \<^verbatim>\<open>..\<close> is refused, one below it accepted.\<close>

definition demo_paths :: path_world where
  "demo_paths = \<lparr>pw_lstat = (\<lambda>p. if p \<in> {''/s'', ''/w'', ''/p''} then FileBytes A_directory else FileMissing),
     pw_resolve = Some, pw_entries = (\<lambda>p. Some 0)\<rparr>"

definition demo_helper_request :: "string \<Rightarrow> helper_request" where
  "demo_helper_request child = \<lparr>hq_schema = 1, hq_operation = ''acquire'', hq_id = ''a-1'', hq_store = ''/s/'', hq_workspace = ''/w'',
     hq_parent = ''/p'', hq_child = child, hq_mount = ''/w/m'', hq_delete = True, hq_lease = []\<rparr>"

lemma climbing_child_refused:
  "validateAcquirePaths demo_paths (demo_helper_request ''/s/../p/c'') ''linux'' = Inl ''invalid-child-path''"
  by code_simp

theorem accepted_paths_confined_witness:
  "case validateAcquirePaths demo_paths (demo_helper_request ''/s/x/../c'') ''linux'' of
     Inl e \<Rightarrow> False | Inr v \<Rightarrow> vp_child v = ''/s/c'' \<and> below_path (vp_store v) (vp_child v)"
proof -
  let ?r = "validateAcquirePaths demo_paths (demo_helper_request ''/s/x/../c'') ''linux''"
  have ok: "case ?r of Inl e \<Rightarrow> False | Inr v \<Rightarrow> vp_child v = ''/s/c''" by code_simp
  show ?thesis
  proof (cases ?r)
    case (Inl e)
    show ?thesis using ok unfolding Inl sum.case .
  next
    case (Inr v)
    have "vp_child v = ''/s/c''" using ok unfolding Inr sum.case .
    then show ?thesis using accepted_paths_confined [OF Inr] unfolding Inr sum.case by blast
  qed
qed

end
