(* ===== verification/StorageBackend.thy ===== *)
theory StorageBackend
  imports TreeDigest
begin

text \<open>
  The copy-on-write workspaces of the storage helper on Unix, \<^verbatim>\<open>internal/vhdxstorage\<close>
  (\<^verbatim>\<open>lifecycle.go\<close>, \<^verbatim>\<open>lifecycle_unix.go\<close>, \<^verbatim>\<open>clone_command_unix.go\<close>): a child directory cloned
  from a parent, an ownership marker in it, a symbolic link where it is mounted, and the release that
  removes only what the acquisition made. Of an error the code is kept, not its operation, path and
  cause; measurements are left out.
\<close>

section \<open>The interface of a backend\<close>

text \<open>
  \<^verbatim>\<open>Joined\<close> is \<^verbatim>\<open>errors.Join\<close>; \<open>Helper_error\<close> is the error type of the helper, which reaches the
  backend through the progress function; \<open>Plain_error\<close> is any other error.
\<close>

datatype go_error = Storage_error string | Helper_error string | Plain_error | Joined "go_error list"

record progress =
  pg_state :: string
  pg_physical :: string
  pg_volume :: string

type_synonym 's progress_fun = "progress \<Rightarrow> 's \<Rightarrow> go_error option \<times> 's"

record acquire_request =
  aq_parent :: string
  aq_child :: string
  aq_mount :: string
  aq_store :: string
  aq_lease :: string

record backend_info =
  bi_parent :: string
  bi_child :: string
  bi_physical :: string
  bi_volume :: string
  bi_mount :: string

definition reached :: "string \<Rightarrow> progress" where
  "reached st = \<lparr>pg_state = st, pg_physical = [], pg_volume = []\<rparr>"

section \<open>The places on the disk\<close>

text \<open>
  What is at a path: a directory with its device and inode numbers, a symbolic link, another file.
  Special files inside a tree do not occur.
\<close>

type_synonym identity = "nat \<times> nat"

datatype place = Real_dir identity tree | Link string | Other_file

type_synonym disk = "(string \<times> place) list"

datatype fault =
    Lstat_store | Lstat_child | Lstat_mount | Read_mount | Lstat_created | Write_marker | Check_owned | Measure_child
  | Remove_empty_mount | Link_mount | Stat_link | Read_link | Remove_link | Make_mount | Lstat_quarantine
  | Rename_child | Restore_child | Prepare_removal | Remove_child

text \<open>Where other processes may act on the disk while a child is removed.\<close>

datatype moment = Before_rename | After_rename | Before_removal

record marker =
  mk_schema :: int
  mk_lease :: string
  mk_token :: string

text \<open>
  A run of \<^verbatim>\<open>cp\<close>: whether it is installed, its error with whether it is one of the context, its output,
  and what is at the child's path afterwards.
\<close>

record clone_run =
  cn_installed :: bool
  cn_error :: "(string \<times> bool) option"
  cn_output :: string
  cn_left :: "place option"

text \<open>
  What one call meets: operations that fail, other processes, the clone that \<^verbatim>\<open>cp\<close> leaves at the
  child's path, random bytes, and the codec of the marker.
\<close>

record unix_world =
  uw_ended :: bool
  uw_fails :: "fault \<Rightarrow> bool"
  uw_meddle :: "moment \<Rightarrow> disk \<Rightarrow> disk"
  uw_clone :: "place \<Rightarrow> clone_run"
  uw_clone_ended :: bool
  uw_owner_token :: "string option"
  uw_quarantine_token :: "string option"
  uw_partial :: string
  uw_new_mount :: identity
  uw_left :: "place option"
  uw_encode :: "marker \<Rightarrow> string"
  uw_decode :: "string \<Rightarrow> marker option"

definition lost :: go_error where "lost = Storage_error ''child-ownership-lost''"

definition pathWithinRoot :: "string \<Rightarrow> string \<Rightarrow> bool" where
  "pathWithinRoot root path \<longleftrightarrow> IsAbs root \<and> IsAbs path \<and>
     (case Rel (Clean root) (Clean path) of
        None \<Rightarrow> False
      | Some r \<Rightarrow> r \<noteq> ''.'' \<and> r \<noteq> ''..'' \<and> \<not> IsAbs r \<and> \<not> has_prefix r (''..'' @ [sep]))"

definition ownershipMarkerName :: string where "ownershipMarkerName = ''.testplay-storage-owner''"

definition ownershipMarkerSchemaVersion :: int where "ownershipMarkerSchemaVersion = 1"

definition maximumOwnershipMarkerBytes :: nat where "maximumOwnershipMarkerBytes = 4096"

definition quarantineNamePrefix :: string where "quarantineNamePrefix = ''.testplay-delete-''"

text \<open>How a run of \<^verbatim>\<open>cp\<close> that failed is told apart by its output.\<close>

datatype clone_error_kind = Clone_unavailable | Clone_cancelled | Clone_failed

definition classifyLinuxCloneError :: "bool \<Rightarrow> string \<Rightarrow> bool \<Rightarrow> clone_error_kind" where
  "classifyLinuxCloneError ended detail of_context =
     (let low = to_lower detail
      in if ended \<or> of_context then Clone_cancelled
         else if contains low ''invalid cross-device link'' \<or> contains low ''cross-device link'' then Clone_unavailable
         else if (contains low ''failed to clone'' \<or> contains low ''reflink'') \<and>
           (contains low ''operation not supported'' \<or> contains low ''function not implemented'') then Clone_unavailable
         else Clone_failed)"

definition cloneTreeWithRunner :: "bool \<Rightarrow> clone_run \<Rightarrow> clone_error_kind option" where
  "cloneTreeWithRunner ended r =
     (if \<not> cn_installed r then Some Clone_unavailable
      else case cn_error r of
          None \<Rightarrow> None
        | Some (text, of_context) \<Rightarrow>
            (let d = trim_space (cn_output r)
             in Some (classifyLinuxCloneError ended (if d = [] then text else d) of_context)))"

definition clone_code :: "clone_error_kind \<Rightarrow> string" where
  "clone_code k = (case k of Clone_unavailable \<Rightarrow> ''cow-unavailable'' | Clone_cancelled \<Rightarrow> ''cancelled''
     | Clone_failed \<Rightarrow> ''child-create-failed'')"

text \<open>A clone source holds no link, no unreadable directory and no marker.\<close>

definition validateCloneSource :: "place option \<Rightarrow> go_error option" where
  "validateCloneSource p = (case p of
       None \<Rightarrow> Some (Storage_error ''unsafe-source'')
     | Some (Link t) \<Rightarrow> Some (Storage_error ''unsafe-source'')
     | Some Other_file \<Rightarrow> None
     | Some (Real_dir i t) \<Rightarrow>
         (case walk_tree [] t of
            Inl e \<Rightarrow> Some (Storage_error ''unsafe-source'')
          | Inr ns \<Rightarrow>
              (if list_ex (\<lambda>(q, n). Base q = ownershipMarkerName \<or> is_link n) ns
               then Some (Storage_error ''unsafe-source'') else None)))"

section \<open>Ownership of a child\<close>

record child_ownership =
  co_store :: string
  co_child :: string
  co_lease :: string
  co_token :: string
  co_identity :: identity

definition entry_of :: "string \<Rightarrow> tree \<Rightarrow> tree option" where
  "entry_of name t = (case t of Directory m es \<Rightarrow> map_of es name | _ \<Rightarrow> None)"

definition with_entry :: "string \<Rightarrow> tree \<Rightarrow> tree \<Rightarrow> tree" where
  "with_entry name x t = (case t of Directory m es \<Rightarrow> Directory m (put name x es) | _ \<Rightarrow> t)"

definition readOwnershipMarker :: "unix_world \<Rightarrow> tree \<Rightarrow> marker option" where
  "readOwnershipMarker w t = (case entry_of ownershipMarkerName t of
       Some (Regular m (Some c)) \<Rightarrow> uw_decode w (take (Suc maximumOwnershipMarkerBytes) c)
     | _ \<Rightarrow> None)"

definition validateChildIdentity :: "child_ownership \<Rightarrow> string \<Rightarrow> disk \<Rightarrow> bool" where
  "validateChildIdentity ow path d = (case map_of d path of
       Some (Real_dir i t) \<Rightarrow> i = co_identity ow
     | _ \<Rightarrow> False)"

definition markerMatches :: "unix_world \<Rightarrow> child_ownership \<Rightarrow> tree \<Rightarrow> bool" where
  "markerMatches w ow t = (case readOwnershipMarker w t of
       None \<Rightarrow> False
     | Some mk \<Rightarrow> mk_schema mk = ownershipMarkerSchemaVersion \<and> mk_lease mk = co_lease ow \<and> mk_token mk = co_token ow)"

text \<open>\<open>True\<close> when there is no error; every error is \<open>lost\<close>.\<close>

definition validateOwnedChildAt :: "unix_world \<Rightarrow> child_ownership \<Rightarrow> string \<Rightarrow> disk \<Rightarrow> bool" where
  "validateOwnedChildAt w ow path d \<longleftrightarrow>
     pathWithinRoot (co_store ow) path \<and> \<not> uw_fails w Check_owned \<and> validateChildIdentity ow path d \<and>
     (case map_of d path of
        Some (Real_dir i t) \<Rightarrow> markerMatches w ow t \<and> is_ok (walk_tree [] t)
      | _ \<Rightarrow> False)"

text \<open>The marker is created exclusively; a write that fails leaves a part of it.\<close>

definition createOwnershipMarker :: "unix_world \<Rightarrow> marker \<Rightarrow> tree \<Rightarrow> bool \<times> tree" where
  "createOwnershipMarker w mk t = (case t of
       Directory m es \<Rightarrow>
         (if map_of es ownershipMarkerName \<noteq> None then (False, t)
          else if uw_fails w Write_marker
          then (False, with_entry ownershipMarkerName (Regular ''-rw-------'' (Some (uw_partial w))) t)
          else (True, with_entry ownershipMarkerName (Regular ''-rw-------'' (Some (uw_encode w mk @ [newline]))) t))
     | _ \<Rightarrow> (False, t))"

definition establishChildOwnership ::
    "unix_world \<Rightarrow> acquire_request \<Rightarrow> disk \<Rightarrow> (go_error + child_ownership) \<times> disk" where
  "establishChildOwnership w q d =
     (if uw_fails w Lstat_created then (Inl lost, d)
      else case map_of d (aq_child q) of
          Some (Real_dir i t) \<Rightarrow>
            (case uw_owner_token w of
               None \<Rightarrow> (Inl (Storage_error ''child-create-failed''), d)
             | Some token \<Rightarrow>
                 (case createOwnershipMarker w \<lparr>mk_schema = ownershipMarkerSchemaVersion, mk_lease = aq_lease q, mk_token = token\<rparr> t of
                    (ok, t1) \<Rightarrow>
                      (let d1 = put (aq_child q) (Real_dir i t1) d;
                           ow = \<lparr>co_store = aq_store q, co_child = aq_child q, co_lease = aq_lease q, co_token = token, co_identity = i\<rparr>
                       in if \<not> ok then (Inl (Storage_error ''child-create-failed''), d1)
                          else if \<not> validateOwnedChildAt w ow (aq_child q) d1 then (Inl lost, d1)
                          else (Inr ow, d1))))
        | _ \<Rightarrow> (Inl lost, d))"

section \<open>Removal\<close>

definition removeOwnedMount :: "unix_world \<Rightarrow> string \<Rightarrow> string \<Rightarrow> disk \<Rightarrow> go_error option \<times> disk" where
  "removeOwnedMount w mount child d =
     (case map_of d mount of
        None \<Rightarrow> (Some (Storage_error ''mount-ownership-lost''), d)
      | Some p \<Rightarrow>
          (if uw_fails w Stat_link then (Some (Storage_error ''unmount-failed''), d)
           else case p of
               Link target \<Rightarrow>
                 (if uw_fails w Read_link then (Some (Storage_error ''unmount-failed''), d)
                  else if Clean target \<noteq> Clean child then (Some (Storage_error ''mount-ownership-lost''), d)
                  else if uw_fails w Remove_link then (Some (Storage_error ''unmount-failed''), d)
                  else (None, remove_entry mount d))
             | _ \<Rightarrow> (Some (Storage_error ''mount-ownership-lost''), d)))"

definition chooseQuarantinePath :: "unix_world \<Rightarrow> child_ownership \<Rightarrow> disk \<Rightarrow> go_error + string" where
  "chooseQuarantinePath w ow d =
     (case uw_quarantine_token w of
        None \<Rightarrow> Inl (Storage_error ''cleanup-failed'')
      | Some token \<Rightarrow>
          (let path = Join [Dir (co_child ow), quarantineNamePrefix @ token]
           in if Dir (Clean path) \<noteq> Dir (Clean (co_child ow)) \<or> \<not> has_prefix (Base path) quarantineNamePrefix \<or>
                 \<not> pathWithinRoot (co_store ow) path \<or> uw_fails w Lstat_quarantine \<or> map_of d path \<noteq> None
              then Inl (Storage_error ''cleanup-failed'') else Inr path))"

text \<open>A rename that never replaces.\<close>

definition renameNoReplace :: "bool \<Rightarrow> string \<Rightarrow> string \<Rightarrow> disk \<Rightarrow> disk option" where
  "renameNoReplace fails old new d = (case map_of d old of
       None \<Rightarrow> None
     | Some p \<Rightarrow> (if fails \<or> map_of d new \<noteq> None then None else Some (put new p (remove_entry old d))))"

text \<open>After the rename: the object is checked again, and put back or left where it is when it is not the child.\<close>

definition remove_quarantined :: "unix_world \<Rightarrow> child_ownership \<Rightarrow> string \<Rightarrow> disk \<Rightarrow> go_error option \<times> disk" where
  "remove_quarantined w ow q d =
     (if \<not> validateOwnedChildAt w ow q d then
        (if validateChildIdentity ow q d then
           (case renameNoReplace (uw_fails w Restore_child) q (co_child ow) d of
              None \<Rightarrow> (Some (Joined [lost, Storage_error ''cleanup-failed'']), d)
            | Some d1 \<Rightarrow> (Some lost, d1))
         else (Some lost, d))
      else
        (let d1 = uw_meddle w Before_removal d
         in if uw_fails w Prepare_removal then (Some (Storage_error ''cleanup-failed''), d1)
            else if uw_fails w Remove_child
            then (Some (Storage_error ''cleanup-failed''),
              (case uw_left w of None \<Rightarrow> remove_entry q d1 | Some p \<Rightarrow> put q p d1))
            else (None, remove_entry q d1)))"

definition removeOwnedChild :: "unix_world \<Rightarrow> child_ownership \<Rightarrow> disk \<Rightarrow> go_error option \<times> disk" where
  "removeOwnedChild w ow d =
     (if \<not> validateOwnedChildAt w ow (co_child ow) d then (Some lost, d)
      else case chooseQuarantinePath w ow d of
          Inl e \<Rightarrow> (Some e, d)
        | Inr q \<Rightarrow>
            (let d1 = uw_meddle w Before_rename d
             in case renameNoReplace (uw_fails w Rename_child) (co_child ow) q d1 of
                  None \<Rightarrow> (Some (Storage_error ''cleanup-failed''), d1)
                | Some d2 \<Rightarrow> remove_quarantined w ow q (uw_meddle w After_rename d2)))"

section \<open>Acquisition\<close>

text \<open>The checks before anything is done; the mode of the mount directory that was there.\<close>

definition mount_mode :: "unix_world \<Rightarrow> string \<Rightarrow> disk \<Rightarrow> go_error + string option" where
  "mount_mode w mount d =
     (if uw_fails w Lstat_mount then Inl (Storage_error ''mount-failed'')
      else case map_of d mount of
          None \<Rightarrow> Inr None
        | Some (Real_dir i (Directory m [])) \<Rightarrow> (if uw_fails w Read_mount then Inl (Storage_error ''mount-failed'') else Inr (Some m))
        | _ \<Rightarrow> Inl (Storage_error ''mount-failed''))"

definition validateOwnershipInputs :: "unix_world \<Rightarrow> acquire_request \<Rightarrow> disk \<Rightarrow> go_error option" where
  "validateOwnershipInputs w q d =
     (if aq_store q = [] \<or> aq_lease q = [] \<or> uw_fails w Lstat_store then Some (Storage_error ''child-create-failed'')
      else case map_of d (aq_store q) of
          Some (Real_dir i t) \<Rightarrow> (if \<not> pathWithinRoot (aq_store q) (aq_child q) then Some lost else None)
        | _ \<Rightarrow> Some (Storage_error ''child-create-failed''))"

definition acquire_checks :: "unix_world \<Rightarrow> acquire_request \<Rightarrow> disk \<Rightarrow> go_error + string option" where
  "acquire_checks w q d =
     (if uw_ended w then Inl (Storage_error ''cancelled'')
      else case validateOwnershipInputs w q d of
          Some e \<Rightarrow> Inl e
        | None \<Rightarrow>
            (case validateCloneSource (map_of d (aq_parent q)) of
               Some e \<Rightarrow> Inl e
             | None \<Rightarrow>
                 (if uw_fails w Lstat_child then Inl (Storage_error ''child-create-failed'')
                  else if map_of d (aq_child q) \<noteq> None then Inl (Storage_error ''child-exists'')
                  else mount_mode w (aq_mount q) d)))"

text \<open>The mount directory as it was before, unless something is there.\<close>

definition restore_mount :: "unix_world \<Rightarrow> string \<Rightarrow> string option \<Rightarrow> disk \<Rightarrow> bool \<times> disk" where
  "restore_mount w mount mode d = (case mode of
       None \<Rightarrow> (True, d)
     | Some m \<Rightarrow>
         (if map_of d mount \<noteq> None then (True, d)
          else if uw_fails w Make_mount then (False, d)
          else (True, put mount (Real_dir (uw_new_mount w) (Directory m [])) d)))"

text \<open>What an acquisition that fails takes back.\<close>

record undo =
  un_mode :: "string option"
  un_linked :: bool
  un_owned :: "child_ownership option"
  un_unowned :: bool

definition undo_acquire :: "unix_world \<Rightarrow> acquire_request \<Rightarrow> undo \<Rightarrow> go_error \<Rightarrow> disk \<Rightarrow> go_error \<times> disk" where
  "undo_acquire w q u primary d =
     (case (if un_linked u then removeOwnedMount w (aq_mount q) (aq_child q) d else (None, d)) of
        (e1, d1) \<Rightarrow>
          (case restore_mount w (aq_mount q) (un_mode u) d1 of
             (made, d2) \<Rightarrow>
               (case (case un_owned u of
                        Some ow \<Rightarrow> removeOwnedChild w ow d2
                      | None \<Rightarrow> (if un_unowned u then Some lost else None, d2)) of
                  (e3, d3) \<Rightarrow>
                    (Joined (primary # (case e1 of None \<Rightarrow> [] | Some e \<Rightarrow> [e]) @ (if made then [] else [Plain_error]) @
                       (case e3 of None \<Rightarrow> [] | Some e \<Rightarrow> [e])), d3))))"

record unix_lease =
  ul_info :: backend_info
  ul_ownership :: child_ownership
  ul_mode :: "string option"
  ul_released :: bool

definition new_lease :: "acquire_request \<Rightarrow> string option \<Rightarrow> child_ownership \<Rightarrow> unix_lease" where
  "new_lease q mode ow = \<lparr>ul_info = \<lparr>bi_parent = aq_parent q, bi_child = aq_child q, bi_physical = [], bi_volume = [],
       bi_mount = aq_mount q\<rparr>, ul_ownership = ow, ul_mode = mode, ul_released = False\<rparr>"

text \<open>The checks have found the parent there.\<close>

definition the_place :: "place option \<Rightarrow> place" where
  "the_place p = (case p of None \<Rightarrow> Other_file | Some x \<Rightarrow> x)"

text \<open>The three stages: the clone, the marker, the mount. A stage fails with what is to be taken back.\<close>

type_synonym 's stage = "(undo \<times> go_error) option \<times> 's \<times> disk"

definition clone_child ::
    "unix_world \<Rightarrow> 's progress_fun \<Rightarrow> acquire_request \<Rightarrow> string option \<Rightarrow> 's \<Rightarrow> disk \<Rightarrow> 's stage" where
  "clone_child w notify q mode s d =
     (let u = \<lparr>un_mode = mode, un_linked = False, un_owned = None, un_unowned = False\<rparr>
      in case notify (reached ''creating-child'') s of
           (Some e, s1) \<Rightarrow> (Some (u, e), s1, d)
         | (None, s1) \<Rightarrow>
             (let r = uw_clone w (the_place (map_of d (aq_parent q)));
                  d1 = (if \<not> cn_installed r then d else case cn_left r of None \<Rightarrow> d | Some p \<Rightarrow> put (aq_child q) p d);
                  u1 = u\<lparr>un_unowned := map_of d1 (aq_child q) \<noteq> None\<rparr>
              in case cloneTreeWithRunner (uw_clone_ended w) r of
                   Some k \<Rightarrow> (Some (u1, Storage_error (clone_code k)), s1, d1)
                 | None \<Rightarrow>
                     (case validateCloneSource (map_of d1 (aq_child q)) of
                        Some e \<Rightarrow> (Some (u1\<lparr>un_unowned := True\<rparr>, e), s1, d1)
                      | None \<Rightarrow> (None, s1, d1))))"

definition mark_child ::
    "unix_world \<Rightarrow> acquire_request \<Rightarrow> string option \<Rightarrow> disk \<Rightarrow> (undo \<times> go_error + child_ownership) \<times> disk" where
  "mark_child w q mode d =
     (let u = \<lparr>un_mode = mode, un_linked = False, un_owned = None, un_unowned = True\<rparr>
      in case establishChildOwnership w q d of
           (Inl e, d1) \<Rightarrow> (Inl (u, e), d1)
         | (Inr ow, d1) \<Rightarrow>
             (if uw_fails w Measure_child
              then (Inl (u\<lparr>un_owned := Some ow, un_unowned := False\<rparr>, Storage_error ''child-create-failed''), d1)
              else (Inr ow, d1)))"

definition mount_child ::
    "unix_world \<Rightarrow> 's progress_fun \<Rightarrow> acquire_request \<Rightarrow> string option \<Rightarrow> child_ownership \<Rightarrow> 's \<Rightarrow> disk \<Rightarrow> 's stage" where
  "mount_child w notify q mode ow s d =
     (let u = \<lparr>un_mode = mode, un_linked = False, un_owned = Some ow, un_unowned = False\<rparr>
      in case notify (reached ''mounting'') s of
           (Some e, s1) \<Rightarrow> (Some (u, e), s1, d)
         | (None, s1) \<Rightarrow>
             (if mode \<noteq> None \<and> uw_fails w Remove_empty_mount then (Some (u, Storage_error ''mount-failed''), s1, d)
              else let d1 = (if mode \<noteq> None then remove_entry (aq_mount q) d else d)
                in if uw_fails w Link_mount \<or> map_of d1 (aq_mount q) \<noteq> None then (Some (u, Storage_error ''mount-failed''), s1, d1)
                   else let d2 = put (aq_mount q) (Link (aq_child q)) d1
                     in case notify (reached ''ready'') s1 of
                          (Some e, s2) \<Rightarrow> (Some (u\<lparr>un_linked := True\<rparr>, e), s2, d2)
                        | (None, s2) \<Rightarrow> (None, s2, d2)))"

definition Acquire_unix ::
    "unix_world \<Rightarrow> 's progress_fun \<Rightarrow> acquire_request \<Rightarrow> 's \<Rightarrow> disk \<Rightarrow> (go_error + unix_lease) \<times> 's \<times> disk" where
  "Acquire_unix w notify q s d =
     (case acquire_checks w q d of
        Inl e \<Rightarrow> (Inl e, s, d)
      | Inr mode \<Rightarrow>
          (case clone_child w notify q mode s d of
             (Some (u, e), s1, d1) \<Rightarrow> (case undo_acquire w q u e d1 of (e', d2) \<Rightarrow> (Inl e', s1, d2))
           | (None, s1, d1) \<Rightarrow>
               (case mark_child w q mode d1 of
                  (Inl (u, e), d2) \<Rightarrow> (case undo_acquire w q u e d2 of (e', d3) \<Rightarrow> (Inl e', s1, d3))
                | (Inr ow, d2) \<Rightarrow>
                    (case mount_child w notify q mode ow s1 d2 of
                       (Some (u, e), s2, d3) \<Rightarrow> (case undo_acquire w q u e d3 of (e', d4) \<Rightarrow> (Inl e', s2, d4))
                     | (None, s2, d3) \<Rightarrow> (Inr (new_lease q mode ow), s2, d3)))))"

section \<open>Release\<close>

definition release_child :: "unix_world \<Rightarrow> unix_lease \<Rightarrow> bool \<Rightarrow> disk \<Rightarrow> go_error option \<times> disk" where
  "release_child w l delete d =
     (let ow = ul_ownership l; child = bi_child (ul_info l)
      in if delete \<and> \<not> validateOwnedChildAt w ow child d then (Some lost, d)
         else if uw_fails w Measure_child \<or> map_of d child = None then (Some (Storage_error ''cleanup-failed''), d)
         else if delete then removeOwnedChild w ow d else (None, d))"

definition Release_unix ::
    "unix_world \<Rightarrow> 's progress_fun \<Rightarrow> unix_lease \<Rightarrow> bool \<Rightarrow> 's \<Rightarrow> disk \<Rightarrow> go_error option \<times> unix_lease \<times> 's \<times> disk" where
  "Release_unix w notify l delete s d =
     (if ul_released l then (None, l, s, d)
      else if uw_ended w then (Some (Storage_error ''cancelled''), l, s, d)
      else case notify (reached ''unmounting'') s of
          (Some e, s1) \<Rightarrow> (Some e, l, s1, d)
        | (None, s1) \<Rightarrow>
            (case removeOwnedMount w (bi_mount (ul_info l)) (bi_child (ul_info l)) d of
               (Some e, d1) \<Rightarrow> (Some e, l, s1, d1)
             | (None, d1) \<Rightarrow>
                 (if ul_mode l \<noteq> None \<and> uw_fails w Make_mount then (Some (Storage_error ''cleanup-failed''), l, s1, d1)
                  else case release_child w l delete (snd (restore_mount w (bi_mount (ul_info l)) (ul_mode l) d1)) of
                      (Some e, d2) \<Rightarrow> (Some e, l, s1, d2)
                    | (None, d2) \<Rightarrow>
                        (case notify (reached ''released'') s1 of
                           (Some e, s2) \<Rightarrow> (Some e, l, s2, d2)
                         | (None, s2) \<Rightarrow> (None, l\<lparr>ul_released := True\<rparr>, s2, d2)))))"

section \<open>What is left on the disk\<close>

text \<open>Only the named places differ, except that a mount directory made again has another inode.\<close>

definition same_places :: "string \<Rightarrow> disk \<Rightarrow> disk \<Rightarrow> bool" where
  "same_places mount d d' \<longleftrightarrow> (\<forall>p. p \<noteq> mount \<longrightarrow> map_of d' p = map_of d p) \<and>
     (case map_of d mount of
        Some (Real_dir i (Directory m [])) \<Rightarrow> (\<exists>j. map_of d' mount = Some (Real_dir j (Directory m [])))
      | x \<Rightarrow> map_of d' mount = x)"

definition quiet :: "unix_world \<Rightarrow> bool" where
  "quiet w \<longleftrightarrow> (\<forall>m d. uw_meddle w m d = d)"

definition own_object :: "child_ownership \<Rightarrow> place \<Rightarrow> bool" where
  "own_object ow p \<longleftrightarrow> (case p of Real_dir i t \<Rightarrow> i = co_identity ow | _ \<Rightarrow> False)"

definition places :: "disk \<Rightarrow> place set" where
  "places d = ran (map_of d)"

lemma places_iff: "p \<in> places d \<longleftrightarrow> (\<exists>k. map_of d k = Some p)"
  by (simp add: places_def ran_def)

lemma rename_places:
  assumes "renameNoReplace f old new d = Some d'" "p \<in> places d"
  shows "p \<in> places d'"
proof -
  obtain x where x: "map_of d old = Some x" "map_of d new = None" "d' = put new x (remove_entry old d)"
    using assms(1) by (auto simp: renameNoReplace_def split: option.splits if_splits)
  obtain k where k: "map_of d k = Some p" using assms(2) by (auto simp: places_iff)
  have "map_of d' (if k = old then new else k) = Some p" using x k by auto
  then show ?thesis by (auto simp: places_iff)
qed

lemma owned_at_own: "validateOwnedChildAt w ow q d \<Longrightarrow> \<exists>i t. map_of d q = Some (Real_dir i t) \<and> i = co_identity ow"
  by (fastforce simp: validateOwnedChildAt_def validateChildIdentity_def split: option.splits place.splits)

lemma places_remove: "p \<in> places d \<Longrightarrow> map_of d q \<noteq> Some p \<Longrightarrow> p \<in> places (remove_entry q d)"
  by (auto simp: places_def ran_def)

lemma places_put: "p \<in> places d \<Longrightarrow> map_of d q \<noteq> Some p \<Longrightarrow> p \<in> places (put q x d)"
  by (auto simp: places_def ran_def)

end
