(* ===== verification/StorageHelper.thy ===== *)
theory StorageHelper
  imports StoragePaths StorageBackend
begin

text \<open>
  The storage helper, \<^verbatim>\<open>internal/storagehelper\<close>: \<^verbatim>\<open>protocol.go\<close>, \<^verbatim>\<open>errors.go\<close>, \<^verbatim>\<open>journal.go\<close> and
  \<^verbatim>\<open>server.go\<close>. One process serves requests line by line, holds at most one lease, writes a journal before
  every change, and gives the lease back when its input ends. Of an error the code is kept.
\<close>

section \<open>Leases, journals, responses\<close>

record workspace_lease =
  wl_id :: string
  wl_provider :: string
  wl_request :: string
  wl_parent :: string
  wl_child :: string
  wl_physical :: string
  wl_volume :: string
  wl_mount :: string
  wl_state :: string
  wl_created :: int

record helper_journal =
  hj_schema :: int
  hj_lease :: string
  hj_request :: string
  hj_state :: string
  hj_pid :: int
  hj_parent :: string
  hj_child :: string
  hj_physical :: string
  hj_volume :: string
  hj_mount :: string
  hj_delete :: bool
  hj_created :: int
  hj_updated :: int

text \<open>
  The journals of each store that has a directory for them. A file that cannot be read or decoded is
  \<open>FileUnreadable\<close>.
\<close>

type_synonym journal_dirs = "(string \<times> (string \<times> helper_journal file_read) list) list"

text \<open>
  What the progress function of an acquisition or a release changes: the lease, its journal, the files,
  and the number of writes of this call.
\<close>

record helper_view =
  hv_lease :: workspace_lease
  hv_journal :: helper_journal
  hv_dirs :: journal_dirs
  hv_writes :: nat

text \<open>
  The answer to an acquisition points to the active lease, and shows what becomes of it: \<open>Live\<close>. After
  the release it is a copy.
\<close>

datatype lease_view = Live | Copied workspace_lease

record helper_response =
  hr_id :: string
  hr_ok :: bool
  hr_platform :: string
  hr_provider :: string
  hr_elevated :: "bool option"
  hr_requires :: "bool option"
  hr_lease :: "lease_view option"
  hr_released :: bool
  hr_completed :: bool
  hr_error :: "string option"

definition ok_reply :: "string \<Rightarrow> helper_response" where
  "ok_reply i = \<lparr>hr_id = i, hr_ok = True, hr_platform = [], hr_provider = [], hr_elevated = None, hr_requires = None,
     hr_lease = None, hr_released = False, hr_completed = False, hr_error = None\<rparr>"

definition error_reply :: "string \<Rightarrow> string \<Rightarrow> helper_response" where
  "error_reply i code = (ok_reply i)\<lparr>hr_ok := False, hr_error := Some code\<rparr>"

text \<open>\<^verbatim>\<open>errors.As\<close> finds the first storage error; a helper's own error counts only when it is not joined.\<close>

fun storage_codes :: "go_error \<Rightarrow> string list" where
  "storage_codes (Storage_error c) = [c]"
| "storage_codes (Joined es) = concat (map storage_codes es)"
| "storage_codes _ = []"

definition code_or :: "string \<Rightarrow> go_error \<Rightarrow> string" where
  "code_or fallback e = (case storage_codes e of [] \<Rightarrow> fallback | c # cs \<Rightarrow> c)"

definition responseError :: "string \<Rightarrow> go_error \<Rightarrow> helper_response" where
  "responseError i e = error_reply i (case e of Helper_error c \<Rightarrow> c | _ \<Rightarrow> code_or ''invalid-request'' e)"

definition wrapReleaseError :: "go_error \<Rightarrow> go_error" where
  "wrapReleaseError e = Helper_error (code_or ''release-failed'' e)"

section \<open>The backend and a call\<close>

record ('l, 'd) backend =
  bk_platform :: string
  bk_provider :: string
  bk_supported :: bool
  bk_requires :: bool
  bk_acquire :: "helper_view progress_fun \<Rightarrow> acquire_request \<Rightarrow> helper_view \<Rightarrow> 'd \<Rightarrow>
    (go_error + 'l \<times> backend_info) \<times> helper_view \<times> 'd"
  bk_release :: "helper_view progress_fun \<Rightarrow> 'l \<Rightarrow> bool \<Rightarrow> helper_view \<Rightarrow> 'd \<Rightarrow>
    go_error option \<times> 'l \<times> helper_view \<times> 'd"

text \<open>
  What one request meets: paths, random bytes, process and clock (one reading per call), journals that
  cannot be written, numbered, or listed, and an output that is closed. \<open>'w\<close> is the world of the backend.
\<close>

record 'w helper_call =
  hc_world :: 'w
  hc_paths :: path_world
  hc_lease_id :: "string option"
  hc_pid :: int
  hc_now :: int
  hc_write_fails :: "nat \<Rightarrow> bool"
  hc_dir_fails :: bool
  hc_list_fails :: bool
  hc_output_fails :: bool

record 'l active =
  ac_request :: helper_request
  ac_lease :: workspace_lease
  ac_journal :: helper_journal
  ac_backend :: 'l
  ac_response :: helper_response

record 'l server =
  sv_records :: "(string \<times> string \<times> helper_response) list"
  sv_released :: "(string \<times> workspace_lease) list"
  sv_active :: "'l active option"
  sv_journals :: journal_dirs
  sv_elevated :: bool
  sv_elevation_err :: bool

definition NewServer :: "bool \<Rightarrow> bool \<Rightarrow> journal_dirs \<Rightarrow> 'l server" where
  "NewServer elevated err dirs = \<lparr>sv_records = [], sv_released = [], sv_active = None, sv_journals = dirs,
     sv_elevated = elevated, sv_elevation_err = err\<rparr>"

section \<open>Journals\<close>

definition write_journal :: "'w helper_call \<Rightarrow> string \<Rightarrow> helper_view \<Rightarrow> bool \<times> helper_view" where
  "write_journal c root v =
     (let v1 = v\<lparr>hv_writes := Suc (hv_writes v)\<rparr>
      in if hc_write_fails c (hv_writes v) then (False, v1)
         else (True, v1\<lparr>hv_dirs := put root
           (put (hj_lease (hv_journal v)) (FileBytes (hv_journal v)) (case map_of (hv_dirs v) root of None \<Rightarrow> [] | Some fs \<Rightarrow> fs))
           (hv_dirs v)\<rparr>))"

fun orphans_of :: "(string \<times> helper_journal file_read) list \<Rightarrow> string + helper_journal list" where
  "orphans_of [] = Inr []"
| "orphans_of ((n, f) # fs) = (case f of
     FileBytes j \<Rightarrow> bind_result (orphans_of fs) (\<lambda>js. Inr (if hj_state j \<noteq> ''released'' then j # js else js))
   | _ \<Rightarrow> Inl ''orphan-found'')"

definition FindOrphans :: "'w helper_call \<Rightarrow> string \<Rightarrow> journal_dirs \<Rightarrow> string + helper_journal list" where
  "FindOrphans c root dirs = (case map_of dirs root of
       None \<Rightarrow> Inr []
     | Some fs \<Rightarrow>
         (if hc_dir_fails c then Inl ''journal-write-failed''
          else if hc_list_fails c then Inl ''orphan-found''
          else orphans_of fs))"

definition with_state :: "string \<Rightarrow> int \<Rightarrow> helper_view \<Rightarrow> helper_view" where
  "with_state st now v = v\<lparr>hv_lease := (hv_lease v)\<lparr>wl_state := st\<rparr>,
     hv_journal := (hv_journal v)\<lparr>hj_state := st, hj_updated := now\<rparr>\<rparr>"

definition transition :: "'w helper_call \<Rightarrow> string \<Rightarrow> helper_view progress_fun" where
  "transition c root p v =
     (let v1 = with_state (pg_state p) (hc_now c) v;
          v2 = (if pg_physical p = [] then v1 else v1\<lparr>hv_lease := (hv_lease v1)\<lparr>wl_physical := pg_physical p\<rparr>,
            hv_journal := (hv_journal v1)\<lparr>hj_physical := pg_physical p\<rparr>\<rparr>);
          v3 = (if pg_volume p = [] then v2 else v2\<lparr>hv_lease := (hv_lease v2)\<lparr>wl_volume := pg_volume p\<rparr>,
            hv_journal := (hv_journal v2)\<lparr>hj_volume := pg_volume p\<rparr>\<rparr>)
      in case write_journal c root v3 of
           (True, v4) \<Rightarrow> (None, v4)
         | (False, v4) \<Rightarrow> (Some (Helper_error ''journal-write-failed''), v4))"

section \<open>Requests\<close>

definition hello :: "('l, 'd) backend \<Rightarrow> helper_request \<Rightarrow> 'l server \<Rightarrow> helper_response" where
  "hello bk q s = (ok_reply (hq_id q))\<lparr>hr_platform := bk_platform bk, hr_provider := bk_provider bk,
     hr_elevated := Some (sv_elevated s), hr_requires := Some (bk_requires bk)\<rparr>"

definition acquire_conflict :: "helper_request \<Rightarrow> 'l active \<Rightarrow> helper_response" where
  "acquire_conflict q a =
     (if hq_id (ac_request a) = hq_id q then ac_response a
      else error_reply (hq_id q)
        (if same_clean (wl_child (ac_lease a)) (hq_child q) then ''child-path-conflict''
         else if same_clean (wl_mount (ac_lease a)) (hq_mount q) then ''mount-path-conflict''
         else ''lease-conflict''))"

definition normalised :: "validated_paths \<Rightarrow> helper_request \<Rightarrow> helper_request" where
  "normalised v q = q\<lparr>hq_store := vp_store v, hq_workspace := vp_workspace v, hq_parent := vp_parent v,
     hq_child := vp_child v, hq_mount := vp_mount v\<rparr>"

definition requested :: "'w helper_call \<Rightarrow> string \<Rightarrow> helper_request \<Rightarrow> string \<Rightarrow> journal_dirs \<Rightarrow> helper_view" where
  "requested c provider q i dirs = \<lparr>
     hv_lease = \<lparr>wl_id = i, wl_provider = provider, wl_request = hq_id q, wl_parent = hq_parent q, wl_child = hq_child q,
       wl_physical = [], wl_volume = [], wl_mount = hq_mount q, wl_state = ''requested'', wl_created = hc_now c\<rparr>,
     hv_journal = \<lparr>hj_schema = 1, hj_lease = i, hj_request = hq_id q, hj_state = ''requested'', hj_pid = hc_pid c,
       hj_parent = hq_parent q, hj_child = hq_child q, hj_physical = [], hj_volume = [], hj_mount = hq_mount q,
       hj_delete = hq_delete q, hj_created = hc_now c, hj_updated = hc_now c\<rparr>,
     hv_dirs = dirs, hv_writes = 0\<rparr>"

text \<open>The part of an acquisition after its checks: the journal first, then the backend.\<close>

definition acquire_journaled ::
    "('l, 'd) backend \<Rightarrow> 'w helper_call \<Rightarrow> helper_request \<Rightarrow> string \<Rightarrow> 'l server \<Rightarrow> 'd \<Rightarrow> helper_response \<times> 'l server \<times> 'd" where
  "acquire_journaled bk c q i s d =
     (case write_journal c (hq_store q) (requested c (bk_provider bk) q i (sv_journals s)) of
           (False, v) \<Rightarrow> (error_reply (hq_id q) ''journal-write-failed'', s, d)
         | (True, v) \<Rightarrow>
             (case bk_acquire bk (transition c (hq_store q)) \<lparr>aq_parent = hq_parent q, aq_child = hq_child q, aq_mount = hq_mount q,
                  aq_store = hq_store q, aq_lease = i\<rparr> v d of
                (Inl e, v1, d1) \<Rightarrow>
                  (responseError (hq_id q) e,
                   s\<lparr>sv_journals := hv_dirs (snd (write_journal c (hq_store q) (with_state ''quarantined'' (hc_now c) v1)))\<rparr>, d1)
              | (Inr (l, info), v1, d1) \<Rightarrow>
                  (let r = (ok_reply (hq_id q))\<lparr>hr_lease := Some Live\<rparr>;
                       lease = (hv_lease v1)\<lparr>wl_physical := bi_physical info, wl_volume := bi_volume info, wl_state := ''ready''\<rparr>
                   in (r, s\<lparr>sv_journals := hv_dirs v1, sv_active := Some \<lparr>ac_request = q, ac_lease = lease,
                         ac_journal = hv_journal v1, ac_backend = l, ac_response = r\<rparr>\<rparr>, d1))))"

definition acquire ::
    "('l, 'd) backend \<Rightarrow> 'w helper_call \<Rightarrow> helper_request \<Rightarrow> 'l server \<Rightarrow> 'd \<Rightarrow> helper_response \<times> 'l server \<times> 'd" where
  "acquire bk c q s d =
     (if \<not> bk_supported bk then (error_reply (hq_id q) ''unsupported-platform'', s, d)
      else if bk_requires bk \<and> (sv_elevation_err s \<or> \<not> sv_elevated s) then (error_reply (hq_id q) ''not-elevated'', s, d)
      else case sv_active s of
          Some a \<Rightarrow> (acquire_conflict q a, s, d)
        | None \<Rightarrow>
            (case validateAcquirePaths (hc_paths c) q (bk_platform bk) of
               Inl code \<Rightarrow> (error_reply (hq_id q) code, s, d)
             | Inr v \<Rightarrow>
                 (case FindOrphans c (vp_store v) (sv_journals s) of
                    Inl code \<Rightarrow> (error_reply (hq_id q) code, s, d)
                  | Inr (j # js) \<Rightarrow> (error_reply (hq_id q) ''orphan-found'', s, d)
                  | Inr [] \<Rightarrow>
                      (case hc_lease_id c of
                         None \<Rightarrow> (error_reply (hq_id q) ''invalid-request'', s, d)
                       | Some i \<Rightarrow> acquire_journaled bk c (normalised v q) i s d))))"

text \<open>The records of the session after a release: the answer to the acquisition gets a copy of the lease.\<close>

definition completed_record :: "workspace_lease \<Rightarrow> string \<times> helper_response \<Rightarrow> string \<times> helper_response" where
  "completed_record lease r = (case r of (op, a) \<Rightarrow>
     (if hr_lease a = None then (op, a) else (op, a\<lparr>hr_lease := Some (Copied lease), hr_completed := True\<rparr>)))"

definition complete_acquire :: "string \<Rightarrow> workspace_lease \<Rightarrow> (string \<times> string \<times> helper_response) list \<Rightarrow>
    (string \<times> string \<times> helper_response) list" where
  "complete_acquire i lease rs = (case map_of rs i of None \<Rightarrow> rs | Some r \<Rightarrow> put i (completed_record lease r) rs)"

definition view_of :: "'l active \<Rightarrow> journal_dirs \<Rightarrow> helper_view" where
  "view_of a dirs = \<lparr>hv_lease = ac_lease a, hv_journal = ac_journal a, hv_dirs = dirs, hv_writes = 0\<rparr>"

definition keep_active :: "'l active \<Rightarrow> 'l \<Rightarrow> helper_view \<Rightarrow> 'l server \<Rightarrow> 'l server" where
  "keep_active a l v s = s\<lparr>sv_journals := hv_dirs v,
     sv_active := Some (a\<lparr>ac_lease := hv_lease v, ac_journal := hv_journal v, ac_backend := l\<rparr>)\<rparr>"

definition finish_release ::
    "'w helper_call \<Rightarrow> string \<Rightarrow> 'l active \<Rightarrow> 'l \<Rightarrow> helper_view \<Rightarrow> 'l server \<Rightarrow> helper_response \<times> 'l server" where
  "finish_release c i a l v s =
     (case write_journal c (hq_store (ac_request a)) (with_state ''released'' (hc_now c) v) of
        (False, v1) \<Rightarrow> (error_reply i ''journal-write-failed'', keep_active a l v1 s)
      | (True, v1) \<Rightarrow>
          (let lease = hv_lease v1
           in ((ok_reply i)\<lparr>hr_lease := Some (Copied lease), hr_released := True\<rparr>,
               s\<lparr>sv_journals := hv_dirs v1, sv_active := None, sv_released := put (wl_id lease) lease (sv_released s),
                 sv_records := complete_acquire (hq_id (ac_request a)) lease (sv_records s)\<rparr>)))"

definition releaseActive ::
    "('l, 'd) backend \<Rightarrow> 'w helper_call \<Rightarrow> string \<Rightarrow> 'l server \<Rightarrow> 'd \<Rightarrow> helper_response \<times> 'l server \<times> 'd" where
  "releaseActive bk c i s d = (case sv_active s of
       None \<Rightarrow> ((ok_reply i)\<lparr>hr_released := True, hr_completed := True\<rparr>, s, d)
     | Some a \<Rightarrow>
         (case write_journal c (hq_store (ac_request a)) (with_state ''releasing'' (hc_now c) (view_of a (sv_journals s))) of
               (False, v) \<Rightarrow> (error_reply i ''journal-write-failed'', keep_active a (ac_backend a) v s, d)
             | (True, v) \<Rightarrow>
                 (case bk_release bk (transition c (hq_store (ac_request a))) (ac_backend a) (hq_delete (ac_request a)) v d of
                    (Some e, l, v1, d1) \<Rightarrow>
                      (case write_journal c (hq_store (ac_request a)) (with_state ''quarantined'' (hc_now c) v1) of
                         (ok, v2) \<Rightarrow>
                           (responseError i (wrapReleaseError (if ok then e else Joined [e, Helper_error ''journal-write-failed''])),
                            keep_active a l v2 s, d1))
                  | (None, l, v1, d1) \<Rightarrow> (case finish_release c i a l v1 s of (r, s1) \<Rightarrow> (r, s1, d1)))))"

definition release ::
    "('l, 'd) backend \<Rightarrow> 'w helper_call \<Rightarrow> helper_request \<Rightarrow> 'l server \<Rightarrow> 'd \<Rightarrow> helper_response \<times> 'l server \<times> 'd" where
  "release bk c q s d =
     (if hq_lease q = [] then (error_reply (hq_id q) ''invalid-request'', s, d)
      else case map_of (sv_released s) (hq_lease q) of
          Some lease \<Rightarrow> ((ok_reply (hq_id q))\<lparr>hr_lease := Some (Copied lease), hr_released := True, hr_completed := True\<rparr>, s, d)
        | None \<Rightarrow>
            (case sv_active s of
               None \<Rightarrow> (error_reply (hq_id q) ''lease-conflict'', s, d)
             | Some a \<Rightarrow>
                 (if wl_id (ac_lease a) \<noteq> hq_lease q then (error_reply (hq_id q) ''lease-conflict'', s, d)
                  else releaseActive bk c (hq_id q) s d)))"

definition alphanumeric :: "char \<Rightarrow> bool" where
  "alphanumeric ch \<longleftrightarrow> ch \<in> set upper_case \<or> ch \<in> set lower_case \<or> is_digit ch"

definition requestID_ok :: "string \<Rightarrow> bool" where
  "requestID_ok i = (case i of
       [] \<Rightarrow> False
     | ch # cs \<Rightarrow> alphanumeric ch \<and> length cs \<le> 127 \<and> list_all (\<lambda>x. alphanumeric x \<or> x \<in> set ''._-'') cs)"

definition dispatch_helper ::
    "('l, 'd) backend \<Rightarrow> 'w helper_call \<Rightarrow> helper_request \<Rightarrow> 'l server \<Rightarrow> 'd \<Rightarrow> helper_response \<times> 'l server \<times> 'd" where
  "dispatch_helper bk c q s d =
     (if hq_operation q = ''hello'' then (hello bk q s, s, d)
      else if hq_operation q = ''acquire'' then acquire bk c q s d
      else if hq_operation q = ''release'' then release bk c q s d
      else if hq_operation q = ''shutdown'' then
        (if sv_active s \<noteq> None then releaseActive bk c (hq_id q) s d
         else ((ok_reply (hq_id q))\<lparr>hr_released := True\<rparr>, s, d))
      else (error_reply (hq_id q) ''unknown-operation'', s, d))"

definition handle_request ::
    "('l, 'd) backend \<Rightarrow> 'w helper_call \<Rightarrow> helper_request \<Rightarrow> 'l server \<Rightarrow> 'd \<Rightarrow> (helper_response \<times> bool) \<times> 'l server \<times> 'd" where
  "handle_request bk c q s d =
     (if hq_schema q \<noteq> 1 then ((error_reply (hq_id q) ''unsupported-schema'', False), s, d)
      else if \<not> requestID_ok (hq_id q) then ((error_reply (hq_id q) ''invalid-request'', False), s, d)
      else case map_of (sv_records s) (hq_id q) of
          Some (op, r) \<Rightarrow>
            (if op \<noteq> hq_operation q then ((error_reply (hq_id q) ''request-conflict'', False), s, d)
             else ((r, hq_operation q = ''shutdown'' \<and> hr_ok r), s, d))
        | None \<Rightarrow>
            (case dispatch_helper bk c q s d of
               (r, s1, d1) \<Rightarrow> ((r, hq_operation q = ''shutdown'' \<and> hr_ok r),
                 s1\<lparr>sv_records := put (hq_id q) (hq_operation q, r) (sv_records s1)\<rparr>, d1)))"

section \<open>The session\<close>

text \<open>A line is blank, not a request, too long to be read, or a request.\<close>

datatype input_line = Blank_line | Bad_line | Broken_line | Request_line helper_request

datatype serve_end = Served | Output_closed | Input_failed | Cleanup_failed string

text \<open>What is written: the lease as it is at that moment.\<close>

definition shown :: "'l server \<Rightarrow> helper_response \<Rightarrow> helper_response" where
  "shown s r = (case (hr_lease r, sv_active s) of
       (Some Live, Some a) \<Rightarrow> r\<lparr>hr_lease := Some (Copied (ac_lease a))\<rparr>
     | _ \<Rightarrow> r)"

text \<open>
  The loop over the lines, with the calls they meet: \<open>None\<close> when the input has ended and the lease, if any,
  is still to be released.
\<close>

fun serve_lines ::
    "('w \<Rightarrow> ('l, 'd) backend) \<Rightarrow> ('w helper_call \<times> input_line) list \<Rightarrow> 'l server \<Rightarrow> 'd \<Rightarrow>
     helper_response list \<times> serve_end option \<times> 'l server \<times> 'd" where
  "serve_lines bk [] s d = ([], None, s, d)"
| "serve_lines bk ((c, Blank_line) # ls) s d = serve_lines bk ls s d"
| "serve_lines bk ((c, Bad_line) # ls) s d =
     (if hc_output_fails c then ([], Some Output_closed, s, d)
      else case serve_lines bk ls s d of (rs, e, x) \<Rightarrow> (error_reply [] ''invalid-request'' # rs, e, x))"
| "serve_lines bk ((c, Broken_line) # ls) s d = ([], Some Input_failed, s, d)"
| "serve_lines bk ((c, Request_line q) # ls) s d =
     (case handle_request (bk (hc_world c)) c q s d of
        ((r, stop), s1, d1) \<Rightarrow>
          (if hc_output_fails c then ([], Some Output_closed, s1, d1)
           else if stop then ([shown s1 r], Some Served, s1, d1)
           else case serve_lines bk ls s1 d1 of (rs, e, x) \<Rightarrow> (shown s1 r # rs, e, x)))"

definition at_end_of_input ::
    "('l, 'd) backend \<Rightarrow> 'w helper_call \<Rightarrow> 'l server \<Rightarrow> 'd \<Rightarrow> helper_response list \<times> serve_end \<times> 'l server \<times> 'd" where
  "at_end_of_input bk c s d = (case sv_active s of
       None \<Rightarrow> ([], Served, s, d)
     | Some a \<Rightarrow>
         (case releaseActive bk c (''eof-'' @ wl_id (ac_lease a)) s d of
            (r, s1, d1) \<Rightarrow>
              (case hr_error r of
                 None \<Rightarrow> ([], Served, s1, d1)
               | Some code \<Rightarrow> (if hc_output_fails c then [] else [r], Cleanup_failed code, s1, d1))))"

definition Serve ::
    "('w \<Rightarrow> ('l, 'd) backend) \<Rightarrow> ('w helper_call \<times> input_line) list \<Rightarrow> 'w helper_call \<Rightarrow> 'l server \<Rightarrow> 'd \<Rightarrow>
     helper_response list \<times> serve_end \<times> 'l server \<times> 'd" where
  "Serve bk ls c s d =
     (case serve_lines bk ls s d of
        (rs, Some e, s1, d1) \<Rightarrow> (rs, e, s1, d1)
      | (rs, None, s1, d1) \<Rightarrow>
          (case at_end_of_input (bk (hc_world c)) c s1 d1 of (rs', e, s2, d2) \<Rightarrow> (rs @ rs', e, s2, d2)))"

section \<open>The Unix backend\<close>

definition unix_acquire ::
    "unix_world \<Rightarrow> helper_view progress_fun \<Rightarrow> acquire_request \<Rightarrow> helper_view \<Rightarrow> disk \<Rightarrow>
     (go_error + unix_lease \<times> backend_info) \<times> helper_view \<times> disk" where
  "unix_acquire w notify q v d =
     (case Acquire_unix w notify q v d of (r, v1, d1) \<Rightarrow> (map_sum id (\<lambda>l. (l, ul_info l)) r, v1, d1))"

definition unix_backend :: "string \<Rightarrow> string \<Rightarrow> unix_world \<Rightarrow> (unix_lease, disk) backend" where
  "unix_backend platform provider w = \<lparr>bk_platform = platform, bk_provider = provider, bk_supported = True, bk_requires = False,
     bk_acquire = unix_acquire w, bk_release = Release_unix w\<rparr>"

end
