(* ===== verification/StorageBackendProps.thy ===== *)
theory StorageBackendProps
  imports StorageBackend
begin

text \<open>
  What an acquisition and a release of the Unix backend do to the disk while no other process touches
  the places they use.
\<close>

section \<open>One place at a time\<close>

lemma same_places_refl [simp]: "same_places mount d d"
  by (auto simp: same_places_def split: option.splits place.splits tree.splits list.splits)

lemma quietD: "quiet w \<Longrightarrow> uw_meddle w m d = d"
  by (simp add: quiet_def)

lemma removeOwnedMount_disk:
  "removeOwnedMount w mount child d = (r, d') \<Longrightarrow>
     (case r of
        None \<Rightarrow> (\<exists>target. map_of d mount = Some (Link target)) \<and> map_of d' = (map_of d)(mount := None)
      | Some e \<Rightarrow> d' = d)"
  by (auto simp: removeOwnedMount_def split: option.splits place.splits if_splits)

lemma removeOwnedChild_done:
  assumes "removeOwnedChild w ow d = (None, d')" "quiet w"
  shows "map_of d' = (map_of d)(co_child ow := None)"
proof -
  obtain q where q: "chooseQuarantinePath w ow d = Inr q"
    using assms(1) by (auto simp: removeOwnedChild_def split: if_splits sum.splits)
  then have free: "map_of d q = None" by (auto simp: chooseQuarantinePath_def Let_def split: option.splits if_splits)
  obtain d2 where d2: "renameNoReplace (uw_fails w Rename_child) (co_child ow) q d = Some d2"
    using assms q by (auto simp: removeOwnedChild_def quietD Let_def split: if_splits option.splits)
  have "remove_quarantined w ow q d2 = (None, d')"
    using assms q d2 by (simp add: removeOwnedChild_def quietD Let_def split: if_splits)
  then have "d' = remove_entry q d2" using assms(2)
    by (auto simp: remove_quarantined_def quietD Let_def split: if_splits option.splits)
  then show ?thesis using d2 free by (auto simp: renameNoReplace_def fun_eq_iff split: option.splits if_splits)
qed

text \<open>The mount directory: there as it was, or gone for the time of the mount.\<close>

definition mount_was :: "string \<Rightarrow> string option \<Rightarrow> disk \<Rightarrow> bool" where
  "mount_was mount mode d \<longleftrightarrow> (case mode of
       None \<Rightarrow> map_of d mount = None
     | Some m \<Rightarrow> (\<exists>i. map_of d mount = Some (Real_dir i (Directory m []))))"

lemma mount_mode_was: "mount_mode w mount d = Inr mode \<Longrightarrow> mount_was mount mode d"
  by (auto simp: mount_mode_def mount_was_def split: if_splits option.splits place.splits tree.splits list.splits)

lemma same_placesI:
  assumes "mount_was mount mode d" "mount_was mount mode d'" "\<And>p. p \<noteq> mount \<Longrightarrow> map_of d' p = map_of d p"
  shows "same_places mount d d'"
  using assms by (auto simp: same_places_def mount_was_def split: option.splits)

lemma restore_mount_disk:
  assumes "restore_mount w mount mode d = (True, d')" "map_of d mount = None \<or> mount_was mount mode d"
  shows "mount_was mount mode d' \<and> (\<forall>p. p \<noteq> mount \<longrightarrow> map_of d' p = map_of d p)"
  using assms by (auto simp: restore_mount_def mount_was_def split: option.splits if_splits)

section \<open>Objects of others\<close>

text \<open>
  C29. A release deletes nothing but the directory the acquisition made: whatever other processes put at the
  paths it uses while it runs, an object with another device and inode is still on the disk
  afterwards, as long as they destroy nothing themselves and leave the random quarantine name alone between
  the last check and the deletion.
\<close>

theorem removal_spares_foreign_objects:
  assumes "removeOwnedChild w ow d = (r, d')" "p \<in> places d" "\<not> own_object ow p"
    "\<And>m x. p \<in> places x \<Longrightarrow> p \<in> places (uw_meddle w m x)"
    "\<And>q x. chooseQuarantinePath w ow d = Inr q \<Longrightarrow> map_of (uw_meddle w Before_removal x) q = map_of x q"
  shows "p \<in> places d'"
proof (cases "validateOwnedChildAt w ow (co_child ow) d \<and> is_ok (chooseQuarantinePath w ow d)")
  case False
  then have "d' = d" using assms(1) by (auto simp: removeOwnedChild_def is_ok_def split: if_splits sum.splits)
  then show ?thesis using assms(2) by simp
next
  case True
  then obtain q where q: "chooseQuarantinePath w ow d = Inr q" by (auto simp: is_ok_iff)
  let ?d1 = "uw_meddle w Before_rename d"
  note run = assms(1) [unfolded removeOwnedChild_def, simplified True q, simplified]
  show ?thesis
  proof (cases "renameNoReplace (uw_fails w Rename_child) (co_child ow) q ?d1")
    case None
    then show ?thesis using run assms(4) [OF assms(2), of Before_rename] by (simp add: Let_def)
  next
    case (Some d2)
    let ?d3 = "uw_meddle w After_rename d2" and ?d4 = "uw_meddle w Before_removal (uw_meddle w After_rename d2)"
    have there: "p \<in> places ?d3" "p \<in> places ?d4"
      using assms(4) assms(2) rename_places [OF Some] by blast+
    have fin: "remove_quarantined w ow q ?d3 = (r, d')" using run Some by (simp add: Let_def)
    show ?thesis
    proof (cases "validateOwnedChildAt w ow q ?d3")
      case ok: True
      have "map_of ?d4 q \<noteq> Some p" using owned_at_own [OF ok] assms(5) [OF q] assms(3) by (auto simp: own_object_def)
      then show ?thesis using fin ok there places_remove [of p ?d4 q] places_put [of p ?d4 q]
        by (auto simp: remove_quarantined_def Let_def split: if_splits option.splits)
    next
      case False
      then show ?thesis using fin there rename_places
        by (auto simp: remove_quarantined_def split: if_splits option.splits)
    qed
  qed
qed

section \<open>A failed acquisition\<close>

text \<open>What a stage that fails has left to take back.\<close>

definition pending :: "acquire_request \<Rightarrow> undo \<Rightarrow> disk \<Rightarrow> disk \<Rightarrow> bool" where
  "pending q u d0 d \<longleftrightarrow>
     (\<forall>p. p \<noteq> aq_mount q \<longrightarrow> p \<noteq> aq_child q \<longrightarrow> map_of d p = map_of d0 p) \<and>
     (case un_owned u of None \<Rightarrow> un_unowned u \<or> map_of d (aq_child q) = None | Some ow \<Rightarrow> co_child ow = aq_child q) \<and>
     (if un_linked u then True else map_of d (aq_mount q) = None \<or> mount_was (aq_mount q) (un_mode u) d) \<and>
     mount_was (aq_mount q) (un_mode u) d0 \<and> map_of d0 (aq_child q) = None \<and> aq_mount q \<noteq> aq_child q"

lemma undo_acquire_restores:
  assumes "undo_acquire w q u primary d = (Joined [e], d')" "pending q u d0 d" "quiet w"
  shows "same_places (aq_mount q) d0 d'"
proof -
  let ?mount = "aq_mount q" and ?child = "aq_child q"
  obtain e1 d1 where m: "(if un_linked u then removeOwnedMount w ?mount ?child d else (None, d)) = (e1, d1)" by fastforce
  obtain made d2 where r: "restore_mount w ?mount (un_mode u) d1 = (made, d2)" by fastforce
  obtain e3 d3 where c: "(case un_owned u of Some ow \<Rightarrow> removeOwnedChild w ow d2
      | None \<Rightarrow> (if un_unowned u then Some lost else None, d2)) = (e3, d3)" by fastforce
  have ok: "e1 = None" "made" "e3 = None" "d' = d3"
    using assms(1) by (auto simp: undo_acquire_def m r c split: option.splits if_splits)
  note p = assms(2) [unfolded pending_def]
  have d1: "map_of d1 ?mount = None \<or> mount_was ?mount (un_mode u) d1" "\<forall>p. p \<noteq> ?mount \<longrightarrow> map_of d1 p = map_of d p"
    using m ok(1) removeOwnedMount_disk [of w ?mount ?child d e1 d1] p by (auto split: if_splits)
  have d2: "mount_was ?mount (un_mode u) d2" "\<forall>p. p \<noteq> ?mount \<longrightarrow> map_of d2 p = map_of d p"
    using restore_mount_disk [of w ?mount "un_mode u" d1 d2] r ok(2) d1 by auto
  have d3: "map_of d3 = (map_of d2)(?child := None)"
  proof (cases "un_owned u")
    case None
    then have "map_of d ?child = None" "d3 = d2" using p c ok(3) by (auto split: if_splits)
    then have "map_of d2 ?child = None" using d2(2) p by metis
    then show ?thesis using \<open>d3 = d2\<close> by (simp add: fun_upd_idem)
  next
    case (Some ow)
    then show ?thesis using removeOwnedChild_done [of w ow d2 d3] c ok(3) assms(3) p by simp
  qed
  have ne: "?mount \<noteq> ?child" using p by blast
  have "mount_was ?mount (un_mode u) d3" using d2(1) d3 ne by (simp add: mount_was_def split: option.splits)
  then show ?thesis using p d2(2) d3 ok(4) by (intro same_placesI [of _ "un_mode u"]) auto
qed

text \<open>What the stages leave, when they fail and when they succeed.\<close>

lemma clone_child_pending:
  assumes "clone_child w notify q mode s d = (r, s', d')" "mount_was (aq_mount q) mode d"
    "map_of d (aq_child q) = None" "aq_mount q \<noteq> aq_child q"
  shows "(case r of Some (u, e) \<Rightarrow> pending q u d d' | None \<Rightarrow> True) \<and>
     (\<forall>p. p \<noteq> aq_child q \<longrightarrow> map_of d' p = map_of d p)"
  using assms
  by (auto simp: clone_child_def Let_def pending_def mount_was_def split: option.splits if_splits prod.splits)

lemma establish_disk:
  assumes "establishChildOwnership w q d = (r, d')"
  shows "(case r of Inl e \<Rightarrow> True
       | Inr ow \<Rightarrow> co_child ow = aq_child q \<and> validateOwnedChildAt w ow (aq_child q) d') \<and>
     (\<forall>p. p \<noteq> aq_child q \<longrightarrow> map_of d' p = map_of d p)"
  using assms by (auto simp: establishChildOwnership_def Let_def split: option.splits if_splits prod.splits place.splits)

lemma mark_child_pending:
  assumes "mark_child w q mode d = (r, d')" "\<forall>p. p \<noteq> aq_child q \<longrightarrow> map_of d p = map_of d0 p"
    "mount_was (aq_mount q) mode d0" "map_of d0 (aq_child q) = None" "aq_mount q \<noteq> aq_child q"
  shows "(case r of Inl (u, e) \<Rightarrow> pending q u d0 d'
       | Inr ow \<Rightarrow> co_child ow = aq_child q \<and> validateOwnedChildAt w ow (aq_child q) d') \<and>
     (\<forall>p. p \<noteq> aq_child q \<longrightarrow> map_of d' p = map_of d0 p)"
proof -
  obtain r1 d1 where est: "establishChildOwnership w q d = (r1, d1)" by fastforce
  have was: "mount_was (aq_mount q) mode d1"
    using establish_disk [OF est] assms(2,3,5) by (simp add: mount_was_def split: option.splits)
  show ?thesis using assms(1) establish_disk [OF est] assms(2-5) was
    by (auto simp: mark_child_def est Let_def pending_def split: sum.splits if_splits)
qed

lemma mount_child_pending:
  assumes "mount_child w notify q mode ow s d = (r, s', d')" "\<forall>p. p \<noteq> aq_child q \<longrightarrow> map_of d p = map_of d0 p"
    "mount_was (aq_mount q) mode d0" "map_of d0 (aq_child q) = None" "aq_mount q \<noteq> aq_child q" "co_child ow = aq_child q"
  shows "(case r of Some (u, e) \<Rightarrow> pending q u d0 d'
       | None \<Rightarrow> map_of d' = (map_of d)(aq_mount q := Some (Link (aq_child q))))"
proof -
  have was: "mount_was (aq_mount q) mode d" using assms(2,3,5) by (simp add: mount_was_def split: option.splits)
  show ?thesis using assms was
    by (auto simp: mount_child_def Let_def pending_def fun_eq_iff split: option.splits if_splits prod.splits)
qed

text \<open>An acquisition whole: its three outcomes after the checks.\<close>

lemma Acquire_unix_outcome:
  assumes "Acquire_unix w notify q s d = (r, s', d')" "aq_mount q \<noteq> aq_child q"
  shows "(case r of
       Inl e \<Rightarrow> d' = d \<or> (\<exists>u e0 d1. pending q u d d1 \<and> undo_acquire w q u e0 d1 = (e, d'))
     | Inr l \<Rightarrow> (\<exists>mode ow. l = new_lease q mode ow \<and> co_child ow = aq_child q \<and> mount_was (aq_mount q) mode d \<and>
         map_of d (aq_child q) = None \<and> map_of d' (aq_mount q) = Some (Link (aq_child q)) \<and>
         validateOwnedChildAt w ow (aq_child q) d' \<and>
         (\<forall>p. p \<noteq> aq_mount q \<longrightarrow> p \<noteq> aq_child q \<longrightarrow> map_of d' p = map_of d p)))"
proof (cases "acquire_checks w q d")
  case (Inl e)
  then show ?thesis using assms(1) by (auto simp: Acquire_unix_def)
next
  case (Inr mode)
  then have was: "mount_was (aq_mount q) mode d" "map_of d (aq_child q) = None"
    using mount_mode_was by (auto simp: acquire_checks_def split: if_splits option.splits)
  obtain r1 s1 d1 where c: "clone_child w notify q mode s d = (r1, s1, d1)" by (metis prod_cases3)
  note c' = clone_child_pending [OF c was assms(2)]
  show ?thesis
  proof (cases r1)
    case (Some ue)
    then show ?thesis using assms(1) Inr c c' by (auto simp: Acquire_unix_def split: prod.splits)
  next
    case None
    obtain r2 d2 where m: "mark_child w q mode d1 = (r2, d2)" by fastforce
    note m' = mark_child_pending [OF m conjunct2 [OF c'] was assms(2)]
    show ?thesis
    proof (cases r2)
      case (Inl ue)
      then show ?thesis using assms(1) Inr c None m m' by (auto simp: Acquire_unix_def split: prod.splits)
    next
      case own: (Inr ow)
      have child: "co_child ow = aq_child q" using m' own by simp
      obtain r3 s3 d3 where k: "mount_child w notify q mode ow s1 d2 = (r3, s3, d3)" by (metis prod_cases3)
      note k' = mount_child_pending [OF k conjunct2 [OF m'] was assms(2) child]
      show ?thesis
      proof (cases r3)
        case (Some ue)
        then show ?thesis using assms(1) Inr c None m own k k' by (auto simp: Acquire_unix_def split: prod.splits)
      next
        case mounted: None
        have "validateOwnedChildAt w ow (aq_child q) d3"
          using m' own k' mounted assms(2) by (simp add: validateOwnedChildAt_def validateChildIdentity_def)
        moreover have "r = Inr (new_lease q mode ow)" "d' = d3"
          using assms(1) Inr c None m own k mounted by (auto simp: Acquire_unix_def)
        ultimately show ?thesis using k' mounted m' child was assms(2) by auto
      qed
    qed
  qed
qed


section \<open>Acquisition and release\<close>

lemma release_child_done:
  assumes "release_child w l True d = (None, d')" "quiet w" "co_child (ul_ownership l) = bi_child (ul_info l)"
  shows "map_of d' = (map_of d)(bi_child (ul_info l) := None)"
  using assms removeOwnedChild_done [of w "ul_ownership l" d d']
  by (auto simp: release_child_def Let_def split: if_splits)

lemma Release_unix_done:
  assumes "Release_unix w notify l True s d = (None, l', s', d')" "quiet w" "\<not> ul_released l"
    "co_child (ul_ownership l) = bi_child (ul_info l)"
  shows "\<exists>d1. mount_was (bi_mount (ul_info l)) (ul_mode l) d1 \<and>
     (\<forall>p. p \<noteq> bi_mount (ul_info l) \<longrightarrow> map_of d1 p = map_of d p) \<and>
     map_of d' = (map_of d1)(bi_child (ul_info l) := None)"
proof -
  let ?mount = "bi_mount (ul_info l)"
  obtain d1 where m: "removeOwnedMount w ?mount (bi_child (ul_info l)) d = (None, d1)"
    and mk: "\<not> (ul_mode l \<noteq> None \<and> uw_fails w Make_mount)"
    and rel: "release_child w l True (snd (restore_mount w ?mount (ul_mode l) d1)) = (None, d')"
    using assms(1,3) by (fastforce simp: Release_unix_def split: if_splits option.splits prod.splits)
  have d1: "map_of d1 ?mount = None" "\<forall>p. p \<noteq> ?mount \<longrightarrow> map_of d1 p = map_of d p"
    using removeOwnedMount_disk [OF m] by auto
  obtain d2 where r: "restore_mount w ?mount (ul_mode l) d1 = (True, d2)"
    using mk d1 by (cases "ul_mode l") (simp_all add: restore_mount_def)
  show ?thesis using restore_mount_disk [OF r] d1 release_child_done [OF _ assms(2,4), of d2 d'] rel r by auto
qed


text \<open>
  A release that got past the mount can never be completed: the link is gone, and every later attempt
  takes that for lost ownership.
\<close>

lemma partial_release_is_final:
  assumes "\<not> ul_released l" "\<forall>target. map_of d (bi_mount (ul_info l)) \<noteq> Some (Link target)"
  shows "\<exists>e. fst (Release_unix w notify l delete s d) = Some e"
  using assms removeOwnedMount_disk [of w "bi_mount (ul_info l)" "bi_child (ul_info l)" d]
  by (fastforce simp: Release_unix_def split: option.splits prod.splits)

section \<open>A run on a small disk\<close>

text \<open>A marker is three lines; the lease and the token have none.\<close>

definition demo_encode :: "marker \<Rightarrow> string" where
  "demo_encode mk = ''1'' @ [newline] @ mk_lease mk @ [newline] @ mk_token mk"

definition demo_decode :: "string \<Rightarrow> marker option" where
  "demo_decode c = (case split_on newline c of
     [v, l, t, e] \<Rightarrow> (if v = ''1'' \<and> e = [] then Some \<lparr>mk_schema = 1, mk_lease = l, mk_token = t\<rparr> else None)
   | _ \<Rightarrow> None)"

definition demo_parent :: tree where
  "demo_parent = Directory ''drwx------'' [(''data'', Regular ''-rw-r--r--'' (Some ''x''))]"

definition demo_disk :: disk where
  "demo_disk = [(''/store'', Real_dir (1, 1) (Directory ''drwx------'' [])), (''/parent'', Real_dir (1, 2) demo_parent),
     (''/work/m'', Real_dir (1, 3) (Directory ''drwxr-xr-x'' []))]"

text \<open>What fails, what others do, what \<^verbatim>\<open>cp\<close> makes of the parent.\<close>

definition among :: "'a set \<Rightarrow> 'a \<Rightarrow> bool" where "among F f \<longleftrightarrow> f \<in> F"

definition undisturbed :: "moment \<Rightarrow> disk \<Rightarrow> disk" where "undisturbed m d = d"

definition demo_clone :: "place \<Rightarrow> clone_run" where
  "demo_clone p = \<lparr>cn_installed = True, cn_error = None, cn_output = [],
     cn_left = Some (case p of Real_dir i t \<Rightarrow> Real_dir (1, 9) t | x \<Rightarrow> x)\<rparr>"

definition demo_unix :: "fault set \<Rightarrow> unix_world" where
  "demo_unix faults = \<lparr>uw_ended = False, uw_fails = among faults, uw_meddle = undisturbed, uw_clone = demo_clone,
     uw_clone_ended = False, uw_owner_token = Some ''t1'', uw_quarantine_token = Some ''t2'', uw_partial = [],
     uw_new_mount = (1, 10), uw_left = None, uw_encode = demo_encode, uw_decode = demo_decode\<rparr>"

definition demo_acquire :: acquire_request where
  "demo_acquire = \<lparr>aq_parent = ''/parent'', aq_child = ''/store/c'', aq_mount = ''/work/m'', aq_store = ''/store'',
     aq_lease = ''lease-1''\<rparr>"

definition logging :: "string list progress_fun" where
  "logging p log = (None, log @ [pg_state p])"

lemma demo_acquired:
  "case Acquire_unix (demo_unix {}) logging demo_acquire [] demo_disk of
     (Inr l, log, d) \<Rightarrow> log = [''creating-child'', ''mounting'', ''ready''] \<and> map_of d ''/work/m'' = Some (Link ''/store/c'')
   | _ \<Rightarrow> False"
  by code_simp

definition demo_ownership :: child_ownership where
  "demo_ownership = \<lparr>co_store = ''/store'', co_child = ''/store/c'', co_lease = ''lease-1'', co_token = ''t1'', co_identity = (1, 9)\<rparr>"

definition demo_foreign :: place where
  "demo_foreign = Real_dir (1, 77) (Directory ''drwx------'' [])"

definition demo_child_disk :: disk where
  "demo_child_disk = [(''/store/c'', Real_dir (1, 9) (with_entry ownershipMarkerName
       (Regular ''-rw-------'' (Some (demo_encode \<lparr>mk_schema = 1, mk_lease = ''lease-1'', mk_token = ''t1''\<rparr> @ [newline]))) demo_parent)),
     (''/other'', demo_foreign)]"

text \<open>Another process puts its directory at the child's path right before the rename.\<close>

definition demo_swap :: unix_world where
  "demo_swap = (demo_unix {})\<lparr>uw_meddle := (\<lambda>m d. if m = Before_rename then put ''/store/c'' demo_foreign d else d)\<rparr>"

theorem removal_spares_foreign_objects_witness:
  "case removeOwnedChild demo_swap demo_ownership (remove_entry ''/other'' (put ''/old'' demo_foreign demo_child_disk)) of
     (r, d') \<Rightarrow> r = Some lost \<and> demo_foreign \<in> places d'"
proof -
  let ?d = "remove_entry ''/other'' (put ''/old'' demo_foreign demo_child_disk)"
  obtain r d' where run: "removeOwnedChild demo_swap demo_ownership ?d = (r, d')" by fastforce
  have "fst (removeOwnedChild demo_swap demo_ownership ?d) = Some lost" by code_simp
  then have r: "r = Some lost" using run by simp
  have "demo_foreign \<in> places ?d" unfolding places_iff by (intro exI [of _ "''/old''"]) (simp add: map_of_put)
  moreover have "\<not> own_object demo_ownership demo_foreign" by (simp add: own_object_def demo_foreign_def demo_ownership_def)
  ultimately have "demo_foreign \<in> places d'"
    by (rule removal_spares_foreign_objects [OF run]) (auto simp: demo_swap_def places_iff split: if_splits)
  then show ?thesis using run r by simp
qed


text \<open>The run writes into the child between the two.\<close>

definition demo_edit :: "disk \<Rightarrow> disk" where
  "demo_edit d = (case map_of d ''/store/c'' of
     Some (Real_dir i t) \<Rightarrow> put ''/store/c'' (Real_dir i (with_entry ''Library'' (Directory ''drwx------'' []) t)) d | _ \<Rightarrow> d)"

definition demo_both :: "(go_error + unix_lease) \<times> string list \<times> disk" where
  "demo_both = Acquire_unix (demo_unix {}) logging demo_acquire [] demo_disk"

definition demo_release :: "unix_lease \<Rightarrow> go_error option \<times> unix_lease \<times> string list \<times> disk" where
  "demo_release l = Release_unix (demo_unix {}) logging l True [] (demo_edit (snd (snd demo_both)))"


text \<open>A release whose measurement fails once, and is tried again with nothing failing.\<close>

lemma failed_release_never_completes:
  "case demo_both of (Inl e, _) \<Rightarrow> False
   | (Inr l, _, d) \<Rightarrow>
       (case Release_unix (demo_unix {Measure_child}) logging l True [] d of
          (e1, l1, _, d1) \<Rightarrow> e1 = Some (Storage_error ''cleanup-failed'') \<and>
            fst (Release_unix (demo_unix {}) logging l1 True [] d1) = Some (Storage_error ''mount-ownership-lost''))"
  by code_simp

end
