(* ===== verification/StorageHelperProps.thy ===== *)
theory StorageHelperProps
  imports StorageHelper StorageBackendProps
begin

text \<open>
  What a session of the storage helper guarantees: one lease at a time, given back before it ends well; a journal
  that tells the next helper of a lease the last one still held.
\<close>

section \<open>What a request can do\<close>

lemma acquire_outcome:
  assumes "acquire bk c q s d = (r, s', d')"
  shows "s' = s \<and> d' = d \<and> (sv_active s = None \<longrightarrow> \<not> hr_ok r) \<or>
     (\<exists>v i. sv_active s = None \<and> validateAcquirePaths (hc_paths c) q (bk_platform bk) = Inr v \<and>
        FindOrphans c (hq_store (normalised v q)) (sv_journals s) = Inr [] \<and>
        acquire_journaled bk c (normalised v q) i s d = (r, s', d'))"
proof -
  have refused: "\<not> hr_ok (error_reply i code)" for i code by (simp add: error_reply_def)
  show ?thesis
  proof (cases "bk_supported bk \<and> \<not> (bk_requires bk \<and> (sv_elevation_err s \<or> \<not> sv_elevated s)) \<and> sv_active s = None")
    case False
    then show ?thesis using assms refused by (auto simp: acquire_def split: if_splits option.splits)
  next
    case ready: True
    show ?thesis
    proof (cases "validateAcquirePaths (hc_paths c) q (bk_platform bk)")
      case (Inl code)
      then show ?thesis using assms ready refused by (auto simp: acquire_def split: if_splits)
    next
      case (Inr v)
      have store: "hq_store (normalised v q) = vp_store v" by (simp add: normalised_def)
      show ?thesis
      proof (cases "FindOrphans c (vp_store v) (sv_journals s) = Inr [] \<and> hc_lease_id c \<noteq> None")
        case False
        then show ?thesis using assms ready Inr refused
          by (auto simp: acquire_def split: if_splits sum.splits list.splits option.splits)
      next
        case True
        then obtain i where "hc_lease_id c = Some i" by blast
        then have "acquire_journaled bk c (normalised v q) i s d = (r, s', d')"
          using assms ready Inr True by (auto simp: acquire_def split: if_splits)
        then show ?thesis using ready Inr True store by auto
      qed
    qed
  qed
qed

lemma dispatch_outcome:
  assumes "dispatch_helper bk c q s d = (r, s', d')"
  shows "s' = s \<and> d' = d \<or> acquire bk c q s d = (r, s', d') \<or> releaseActive bk c (hq_id q) s d = (r, s', d')"
  using assms by (auto simp: dispatch_helper_def release_def split: if_splits option.splits)

lemma handle_outcome:
  assumes "handle_request bk c q s d = ((r, stop), s', d')"
  shows "s' = s \<and> d' = d \<or>
     (\<exists>s1. dispatch_helper bk c q s d = (r, s1, d') \<and> s' = s1\<lparr>sv_records := put (hq_id q) (hq_operation q, r) (sv_records s1)\<rparr> \<and>
        stop = (hq_operation q = ''shutdown'' \<and> hr_ok r))"
  using assms by (auto simp: handle_request_def split: if_splits option.splits prod.splits)

section \<open>Invariants of a session\<close>

text \<open>
  What the two operations that reach the backend keep, and what does not depend on the recorded answers,
  a session keeps.
\<close>

locale helper_invariant =
  fixes bk :: "'w \<Rightarrow> ('l, 'd) backend" and I :: "'l server \<Rightarrow> 'd \<Rightarrow> bool"
  assumes records: "I (s\<lparr>sv_records := rs\<rparr>) d = I s d"
    and acquired: "I s d \<Longrightarrow> sv_active s = None \<Longrightarrow> FindOrphans (c :: 'w helper_call) (hq_store q) (sv_journals s) = Inr [] \<Longrightarrow>
      acquire_journaled (bk w) c q i s d = (r, s', d') \<Longrightarrow> I s' d'"
    and released: "I s d \<Longrightarrow> releaseActive (bk w) (c :: 'w helper_call) i s d = (r, s', d') \<Longrightarrow> I s' d'"
begin

lemma acquire_keeps: "I s d \<Longrightarrow> acquire (bk w) c q s d = (r, s', d') \<Longrightarrow> I s' d'"
  for c :: "'w helper_call"
  using acquire_outcome [of "bk w" c q s d] acquired by blast

lemma dispatch_keeps: "I s d \<Longrightarrow> dispatch_helper (bk w) c q s d = (r, s', d') \<Longrightarrow> I s' d'"
  for c :: "'w helper_call"
  using dispatch_outcome [of "bk w" c q s d] acquire_keeps released by blast

lemma handle_keeps:
  fixes c :: "'w helper_call"
  assumes "I s d" "handle_request (bk w) c q s d = ((r, stop), s', d')"
  shows "I s' d'"
  using handle_outcome [OF assms(2)] dispatch_keeps [OF assms(1)] records assms(1) by auto

lemma lines_keep: "I s d \<Longrightarrow> serve_lines bk ls s d = (rs, e, s', d') \<Longrightarrow> I s' d'"
proof (induction ls arbitrary: s d rs)
  case (Cons cl ls)
  obtain c l where cl: "cl = (c, l)" by fastforce
  show ?case
  proof (cases l)
    case (Request_line q)
    obtain r stop s1 d1 where h: "handle_request (bk (hc_world c)) c q s d = ((r, stop), s1, d1)"
      by (metis prod.collapse)
    have "I s1 d1" by (rule handle_keeps [OF Cons.prems(1) h])
    then show ?thesis using Cons.IH [of s1 d1] Cons.prems(2) h cl Request_line
      by (auto split: if_splits prod.splits)
  qed (use Cons cl in \<open>auto split: if_splits prod.splits\<close>)
qed simp

lemma Serve_keeps:
  assumes "I s d" "Serve bk ls c s d = (rs, e, s', d')"
  shows "I s' d'"
proof -
  obtain rs1 e1 s1 d1 where l: "serve_lines bk ls s d = (rs1, e1, s1, d1)" by (metis prod.collapse)
  have "I s1 d1" by (rule lines_keep [OF assms(1) l])
  then show ?thesis using assms(2) l released [where c = c]
    by (auto simp: Serve_def at_end_of_input_def split: option.splits prod.splits)
qed

end

section \<open>What the helper relies on\<close>

text \<open>
  A backend changes the lease, the journal and the files only by reporting progress: an acquisition never
  reports the release, and a release that fails has not reported it with success. A lease is held until a release succeeds.
\<close>

locale storage_backend =
  fixes bk :: "'w \<Rightarrow> ('l, 'd) backend" and held :: "'l \<Rightarrow> bool"
  assumes acquire_reports: "(\<And>p v. pg_state p \<noteq> ''released'' \<Longrightarrow> P v \<Longrightarrow> P (snd (notify p v))) \<Longrightarrow> P v \<Longrightarrow>
      bk_acquire (bk w) notify q v d = (r, v', d') \<Longrightarrow> P v'"
    and release_reports: "(\<And>p v. pg_state p \<noteq> ''released'' \<or> fst (notify p v) \<noteq> None \<Longrightarrow> P v \<Longrightarrow> P (snd (notify p v))) \<Longrightarrow>
      P v \<Longrightarrow> bk_release (bk w) notify l delete v d = (Some e, l', v', d') \<Longrightarrow> P v' \<and> (held l' \<longrightarrow> held l)"
    and release_ends: "bk_release (bk w) notify l delete v d = (None, l', v', d') \<Longrightarrow> \<not> held l'"

text \<open>The journal of a lease is there and does not say that it was released.\<close>

definition journaled :: "string \<Rightarrow> string \<Rightarrow> journal_dirs \<Rightarrow> bool" where
  "journaled root i dirs \<longleftrightarrow> (\<exists>fs j. map_of dirs root = Some fs \<and> map_of fs i = Some (FileBytes j) \<and> hj_state j \<noteq> ''released'')"

definition view_journaled :: "string \<Rightarrow> string \<Rightarrow> helper_view \<Rightarrow> bool" where
  "view_journaled root i v \<longleftrightarrow> journaled root i (hv_dirs v) \<and> hj_lease (hv_journal v) = i"

lemma write_journal_view:
  "write_journal c root v = (ok, v') \<Longrightarrow> hv_lease v' = hv_lease v \<and> hv_journal v' = hv_journal v \<and>
     (if ok then \<exists>fs. map_of (hv_dirs v') = (map_of (hv_dirs v))(root := Some fs) \<and> map_of fs (hj_lease (hv_journal v)) = Some (FileBytes (hv_journal v))
      else hv_dirs v' = hv_dirs v)"
  by (auto simp: write_journal_def Let_def split: if_splits)

lemma write_keeps_journaled:
  assumes "write_journal c root v = (ok, v')" "view_journaled root i v" "ok \<longrightarrow> hj_state (hv_journal v) \<noteq> ''released''"
  shows "view_journaled root i v'"
  using write_journal_view [OF assms(1)] assms(2,3)
  by (cases ok) (auto simp: view_journaled_def journaled_def)

lemma write_starts_journaled:
  assumes "write_journal c root v = (True, v')" "hj_state (hv_journal v) \<noteq> ''released''"
  shows "view_journaled root (hj_lease (hv_journal v)) v'"
  using write_journal_view [OF assms(1)] assms(2) by (auto simp: view_journaled_def journaled_def)

lemma with_state_view [simp]:
  "hv_dirs (with_state st now v) = hv_dirs v" "hj_lease (hv_journal (with_state st now v)) = hj_lease (hv_journal v)"
  "hj_state (hv_journal (with_state st now v)) = st" "wl_id (hv_lease (with_state st now v)) = wl_id (hv_lease v)"
  by (simp_all add: with_state_def)

lemma transition_journaled:
  assumes "pg_state p \<noteq> ''released'' \<or> fst (transition c root p v) \<noteq> None" "view_journaled root i v"
  shows "view_journaled root i (snd (transition c root p v))"
proof -
  obtain v3 where v3: "transition c root p v = (case write_journal c root v3 of
        (True, v4) \<Rightarrow> (None, v4) | (False, v4) \<Rightarrow> (Some (Helper_error ''journal-write-failed''), v4))"
      "hv_dirs v3 = hv_dirs v" "hj_lease (hv_journal v3) = hj_lease (hv_journal v)" "hj_state (hv_journal v3) = pg_state p"
    by (simp add: transition_def Let_def with_state_def split: if_splits)
  obtain ok v4 where w: "write_journal c root v3 = (ok, v4)" by fastforce
  have "view_journaled root i v3" using assms(2) v3 by (simp add: view_journaled_def)
  then have "view_journaled root i v4"
    using write_keeps_journaled [OF w] assms(1) v3 w by (cases ok) auto
  then show ?thesis using v3(1) w by (cases ok) simp_all
qed

text \<open>A held lease has its journal.\<close>

definition lease_journaled :: "('l \<Rightarrow> bool) \<Rightarrow> 'l server \<Rightarrow> bool" where
  "lease_journaled held s \<longleftrightarrow> (case sv_active s of
     None \<Rightarrow> True
   | Some a \<Rightarrow> held (ac_backend a) \<longrightarrow> journaled (hq_store (ac_request a)) (hj_lease (ac_journal a)) (sv_journals s))"

context storage_backend
begin

lemma acquire_journals:
  assumes "acquire_journaled (bk w) c q i s d = (r, s', d')" "sv_active s = None"
  shows "lease_journaled held s'"
proof -
  let ?v = "requested c (bk_provider (bk w)) q i (sv_journals s)" and ?root = "hq_store q"
  obtain ok v where wr: "write_journal c ?root ?v = (ok, v)" by fastforce
  show ?thesis
  proof (cases ok)
    case False
    then show ?thesis using assms wr by (simp add: acquire_journaled_def Let_def lease_journaled_def)
  next
    case True
    then have vj: "view_journaled ?root i v"
      using write_starts_journaled [of c ?root ?v v] wr by (simp add: requested_def)
    obtain b v1 d1 where a: "bk_acquire (bk w) (transition c ?root) \<lparr>aq_parent = hq_parent q, aq_child = hq_child q,
        aq_mount = hq_mount q, aq_store = ?root, aq_lease = i\<rparr> v d = (b, v1, d1)" by (metis prod_cases3)
    have "view_journaled ?root i v1"
      by (rule acquire_reports [where P = "view_journaled ?root i", OF _ vj a]) (blast intro: transition_journaled)
    then show ?thesis using assms wr True a
      by (auto simp: acquire_journaled_def Let_def lease_journaled_def view_journaled_def split: sum.splits)
  qed
qed

lemma release_journals:
  assumes "releaseActive (bk w) c i s d = (r, s', d')" "lease_journaled held s"
  shows "lease_journaled held s'"
proof (cases "sv_active s")
  case None
  then show ?thesis using assms by (simp add: releaseActive_def)
next
  case (Some a)
  let ?root = "hq_store (ac_request a)" and ?i = "hj_lease (ac_journal a)"
  obtain ok v where wr: "write_journal c ?root (with_state ''releasing'' (hc_now c) (view_of a (sv_journals s))) = (ok, v)"
    by fastforce
  have lease: "hj_lease (hv_journal v) = ?i" using write_journal_view [OF wr] by (simp add: view_of_def)
  have vj: "held (ac_backend a) \<Longrightarrow> view_journaled ?root ?i v"
    using write_keeps_journaled [OF wr] assms(2) Some
    by (simp add: lease_journaled_def view_journaled_def view_of_def)
  show ?thesis
  proof (cases ok)
    case False
    then show ?thesis using assms(1) Some wr vj lease
      by (auto simp: releaseActive_def Let_def keep_active_def lease_journaled_def view_journaled_def)
  next
    case True
    obtain b l v1 d1 where rel: "bk_release (bk w) (transition c ?root) (ac_backend a) (hq_delete (ac_request a)) v d = (b, l, v1, d1)"
      by (metis prod_cases4)
    show ?thesis
    proof (cases b)
      case None
      then show ?thesis using assms(1) Some wr True rel release_ends [of w _ _ _ _ _ l v1 d1]
        by (auto simp: releaseActive_def Let_def finish_release_def keep_active_def lease_journaled_def
            split: prod.splits bool.splits)
    next
      case err: (Some e)
      obtain ok2 v2 where wr2: "write_journal c ?root (with_state ''quarantined'' (hc_now c) v1) = (ok2, v2)" by fastforce
      have same: "hj_lease (hv_journal v1) = ?i \<and> (held l \<longrightarrow> held (ac_backend a))"
        by (rule release_reports [where P = "\<lambda>v. hj_lease (hv_journal v) = ?i", OF _ lease rel [unfolded err]])
          (simp add: transition_def write_journal_def with_state_def Let_def split: if_splits)
      have "view_journaled ?root ?i v2" if "held l"
      proof -
        have "held (ac_backend a)" using that same by blast
        then have "view_journaled ?root ?i v" by (rule vj)
        then have "view_journaled ?root ?i v1"
          using release_reports [where P = "view_journaled ?root ?i", OF transition_journaled _ rel [unfolded err]] by blast
        then show ?thesis using write_keeps_journaled [OF wr2] by (simp add: view_journaled_def)
      qed
      moreover have "hj_lease (hv_journal v2) = ?i" using write_journal_view [OF wr2] same by simp
      ultimately show ?thesis using assms(1) Some wr True rel err wr2
        by (auto simp: releaseActive_def Let_def keep_active_def lease_journaled_def view_journaled_def)
    qed
  qed
qed

end

sublocale storage_backend \<subseteq> journal: helper_invariant bk "\<lambda>s d. lease_journaled held s"
proof
  show "lease_journaled held (s\<lparr>sv_records := rs\<rparr>) = lease_journaled held s" for s rs
    by (simp add: lease_journaled_def split: option.split)
qed (auto intro: acquire_journals release_journals)

section \<open>The Unix backend reports as it must\<close>

lemma clone_child_view:
  assumes keeps: "\<And>p v. pg_state p \<noteq> ''released'' \<Longrightarrow> P v \<Longrightarrow> P (snd (notify p v))" and "P v"
    and run: "clone_child w notify q mode v d = (r, v', d')"
  shows "P v'"
proof -
  obtain e1 v1 where n1: "notify (reached ''creating-child'') v = (e1, v1)" by fastforce
  have "v' = v1" using run n1 by (simp add: clone_child_def Let_def split: option.splits)
  then show ?thesis using keeps [of "reached ''creating-child''" v] n1 assms(2) by (simp add: reached_def)
qed

lemma mount_child_view:
  assumes keeps: "\<And>p v. pg_state p \<noteq> ''released'' \<Longrightarrow> P v \<Longrightarrow> P (snd (notify p v))" and "P v"
    and run: "mount_child w notify q mode ow v d = (r, v', d')"
  shows "P v'"
proof -
  obtain e1 v1 where n1: "notify (reached ''mounting'') v = (e1, v1)" by fastforce
  obtain e2 v2 where n2: "notify (reached ''ready'') v1 = (e2, v2)" by fastforce
  have "P v1" using keeps [of "reached ''mounting''" v] n1 assms(2) by (simp add: reached_def)
  moreover have "P v2" using keeps [of "reached ''ready''" v1] n2 calculation by (simp add: reached_def)
  ultimately show ?thesis using run n1 n2
    by (auto simp: mount_child_def Let_def split: option.splits if_splits)
qed

lemma Acquire_unix_view:
  assumes keeps: "\<And>p v. pg_state p \<noteq> ''released'' \<Longrightarrow> P v \<Longrightarrow> P (snd (notify p v))" and "P v"
    and run: "Acquire_unix w notify q v d = (r, v', d')"
  shows "P v'"
proof (cases "acquire_checks w q d")
  case (Inl e)
  then show ?thesis using run assms(2) by (simp add: Acquire_unix_def)
next
  case (Inr mode)
  obtain r1 v1 d1 where c: "clone_child w notify q mode v d = (r1, v1, d1)" by (metis prod_cases3)
  have v1: "P v1" by (rule clone_child_view [where P = P, OF keeps assms(2) c])
  have v2: "P v2" if "mount_child w notify q mode ow v1 d2 = (r3, v2, d3)" for ow d2 r3 v2 d3
    by (rule mount_child_view [where P = P, OF keeps v1 that])
  show ?thesis using run Inr c v1 v2 by (auto simp: Acquire_unix_def split: option.splits sum.splits prod.splits)
qed

lemma Release_unix_view:
  assumes keeps: "\<And>p v. pg_state p \<noteq> ''released'' \<or> fst (notify p v) \<noteq> None \<Longrightarrow> P v \<Longrightarrow> P (snd (notify p v))"
    and "P v" and run: "Release_unix w notify l delete v d = (Some e, l', v', d')"
  shows "P v' \<and> l' = l"
proof -
  obtain e1 v1 where n1: "notify (reached ''unmounting'') v = (e1, v1)" by fastforce
  obtain e2 v2 where n2: "notify (reached ''released'') v1 = (e2, v2)" by fastforce
  have "P v1" using keeps [of "reached ''unmounting''" v] n1 assms(2) by (simp add: reached_def)
  moreover have "P v2" if "e2 = Some e'" for e'
    using keeps [of "reached ''released''" v1] n2 that calculation by simp
  ultimately show ?thesis using run n1 n2 assms(2)
    by (auto simp: Release_unix_def split: option.splits if_splits prod.splits)
qed

interpretation unix: storage_backend "unix_backend platform provider" "\<lambda>l. \<not> ul_released l" for platform provider
proof
  fix w P notify q v d r v' d'
  assume "\<And>p v. pg_state p \<noteq> ''released'' \<Longrightarrow> P v \<Longrightarrow> P (snd (notify p v))" "P v"
    "bk_acquire (unix_backend platform provider w) notify q v d = (r, v', d')"
  note keeps = this(1) and start = this(2) and run = this(3)
  obtain b where "Acquire_unix w notify q v d = (b, v', d')"
    using run by (simp add: unix_backend_def unix_acquire_def split: prod.splits)
  then show "P v'" using Acquire_unix_view [where P = P and notify = notify, OF keeps start] by blast
next
  fix w P notify l delete v d e l' v' d'
  assume "\<And>p v. pg_state p \<noteq> ''released'' \<or> fst (notify p v) \<noteq> None \<Longrightarrow> P v \<Longrightarrow> P (snd (notify p v))" "P v"
    "bk_release (unix_backend platform provider w) notify l delete v d = (Some e, l', v', d')"
  note keeps = this(1) and start = this(2) and run = this(3)
  have "Release_unix w notify l delete v d = (Some e, l', v', d')" using run by (simp add: unix_backend_def)
  then have "P v' \<and> l' = l" using Release_unix_view [where P = P and notify = notify, OF keeps start] by blast
  then show "P v' \<and> (\<not> ul_released l' \<longrightarrow> \<not> ul_released l)" by blast
next
  fix w notify l delete v d l' v' d'
  assume "bk_release (unix_backend platform provider w) notify l delete v d = (None, l', v', d')"
  then show "\<not> \<not> ul_released l'"
    by (auto simp: unix_backend_def Release_unix_def split: if_splits option.splits prod.splits)
qed

section \<open>A helper that dies\<close>

lemma orphans_found:
  "orphans_of fs = Inr js \<Longrightarrow> map_of fs i = Some (FileBytes j) \<Longrightarrow> hj_state j \<noteq> ''released'' \<Longrightarrow> js \<noteq> []"
  by (induction fs arbitrary: js) (auto simp: bind_result_Inr_iff split: file_read.splits if_splits)

lemma validated_store:
  assumes "validateAcquirePaths w q platform = Inr v"
  shows "vp_store v = Clean (hq_store q)"
proof -
  obtain store where "validateRoot w (hq_store q) ''invalid-store-root'' = Inr store" "vp_store v = store"
    using assms by (auto simp: validateAcquirePaths_def bind_result_Inr_iff)
  then show ?thesis using validateRoot_Inr by blast
qed

lemma journaled_refused:
  assumes "journaled (Clean (hq_store q)) i (sv_journals s)" "sv_active s = None" "acquire bk c q s d = (r, s', d')"
  shows "\<not> hr_ok r \<and> s' = s \<and> d' = d"
proof -
  obtain fs j where "map_of (sv_journals s) (Clean (hq_store q)) = Some fs" "map_of fs i = Some (FileBytes j)" "hj_state j \<noteq> ''released''"
    using assms(1) by (auto simp: journaled_def)
  then have "FindOrphans c (Clean (hq_store q)) (sv_journals s) \<noteq> Inr []"
    using orphans_found [of fs "[]"] by (auto simp: FindOrphans_def)
  then show ?thesis using acquire_outcome [OF assms(3)] assms(2) validated_store by (auto simp: normalised_def)
qed

text \<open>
  C27. A helper that dies holding a lease is noticed: whatever requests it served, with any failures of
  journals, paths and disk, if its lease was not given back, the next helper refuses every acquisition in
  that store and touches nothing.
\<close>

theorem dead_helper_noticed:
  assumes "serve_lines (unix_backend platform provider) ls (NewServer elevated err dirs) d = (rs, e, s, d1)"
    "sv_active s = Some a" "\<not> ul_released (ac_backend a)" "Clean (hq_store q) = hq_store (ac_request a)"
    "acquire (unix_backend platform provider w) c q (NewServer elevated' err' (sv_journals s)) d2 = (r, s', d3)"
  shows "\<not> hr_ok r \<and> sv_active s' = None \<and> d3 = d2"
proof -
  have "lease_journaled (\<lambda>l. \<not> ul_released l) (NewServer elevated err dirs)"
    by (simp add: lease_journaled_def NewServer_def)
  then have "lease_journaled (\<lambda>l. \<not> ul_released l) s" by (rule unix.journal.lines_keep [OF _ assms(1)])
  then have "journaled (Clean (hq_store q)) (hj_lease (ac_journal a)) (sv_journals (NewServer elevated' err' (sv_journals s)))"
    using assms(2-4) by (simp add: lease_journaled_def NewServer_def)
  then show ?thesis using journaled_refused [OF _ _ assms(5)] by (auto simp: NewServer_def)
qed

section \<open>A session that ends well\<close>

text \<open>The leases a backend took and gave back, in order.\<close>

datatype lease_event = Took string | Gave string

definition recorded_acquire ::
    "('l, 'd) backend \<Rightarrow> helper_view progress_fun \<Rightarrow> acquire_request \<Rightarrow> helper_view \<Rightarrow> 'd \<times> lease_event list \<Rightarrow>
     (go_error + ('l \<times> string) \<times> backend_info) \<times> helper_view \<times> 'd \<times> lease_event list" where
  "recorded_acquire bk notify q v x = (case bk_acquire bk notify q v (fst x) of
       (Inl e, v1, d1) \<Rightarrow> (Inl e, v1, (d1, snd x))
     | (Inr (l, info), v1, d1) \<Rightarrow> (Inr ((l, aq_lease q), info), v1, (d1, snd x @ [Took (aq_lease q)])))"

definition recorded_release ::
    "('l, 'd) backend \<Rightarrow> helper_view progress_fun \<Rightarrow> 'l \<times> string \<Rightarrow> bool \<Rightarrow> helper_view \<Rightarrow> 'd \<times> lease_event list \<Rightarrow>
     go_error option \<times> ('l \<times> string) \<times> helper_view \<times> 'd \<times> lease_event list" where
  "recorded_release bk notify l delete v x = (case bk_release bk notify (fst l) delete v (fst x) of
       (Some e, l1, v1, d1) \<Rightarrow> (Some e, (l1, snd l), v1, (d1, snd x))
     | (None, l1, v1, d1) \<Rightarrow> (None, (l1, snd l), v1, (d1, snd x @ [Gave (snd l)])))"

definition recorded :: "('l, 'd) backend \<Rightarrow> ('l \<times> string, 'd \<times> lease_event list) backend" where
  "recorded bk = \<lparr>bk_platform = bk_platform bk, bk_provider = bk_provider bk, bk_supported = bk_supported bk,
     bk_requires = bk_requires bk, bk_acquire = recorded_acquire bk, bk_release = recorded_release bk\<rparr>"

text \<open>
  One lease at a time: the lease that is out at the end, or an error. A lease may be given back again when
  the journal of its release could not be written.
\<close>

fun lease_out :: "string option \<Rightarrow> lease_event list \<Rightarrow> string option option" where
  "lease_out h [] = Some h"
| "lease_out h (Took i # es) = (if h = None then lease_out (Some i) es else None)"
| "lease_out h (Gave i # es) = (if h = None \<or> h = Some i then lease_out None es else None)"

lemma lease_out_append: "lease_out h (es @ fs) = (case lease_out h es of None \<Rightarrow> None | Some h' \<Rightarrow> lease_out h' fs)"
  by (induction h es rule: lease_out.induct) auto

definition log_ok :: "('l \<times> string) server \<Rightarrow> 'd \<times> lease_event list \<Rightarrow> bool" where
  "log_ok s x \<longleftrightarrow> (case lease_out None (snd x) of
       None \<Rightarrow> False
     | Some h \<Rightarrow> (case sv_active s of None \<Rightarrow> h = None | Some a \<Rightarrow> h = None \<or> h = Some (snd (ac_backend a))))"

lemma releaseActive_ok:
  assumes "releaseActive bk c i s d = (r, s', d')"
  shows "hr_ok r \<longleftrightarrow> sv_active s' = None" "hr_error r = None \<Longrightarrow> hr_ok r"
  using assms
  by (auto simp: releaseActive_def finish_release_def keep_active_def Let_def error_reply_def ok_reply_def responseError_def
      split: option.splits prod.splits bool.splits)

lemma acquire_log:
  assumes "acquire_journaled (recorded bk) c q i s x = (r, s', x')" "log_ok s x" "sv_active s = None"
  shows "log_ok s' x'"
proof -
  have free: "lease_out None (snd x) = Some None" using assms(2,3) by (simp add: log_ok_def split: option.splits)
  show ?thesis using assms(1,3) free
    by (auto simp: acquire_journaled_def recorded_def recorded_acquire_def recorded_release_def Let_def log_ok_def lease_out_append
        split: prod.splits bool.splits sum.splits)
qed

lemma release_log:
  assumes "releaseActive (recorded bk) c i s x = (r, s', x')" "log_ok s x"
  shows "log_ok s' x'"
proof (cases "sv_active s")
  case None
  then show ?thesis using assms by (simp add: releaseActive_def)
next
  case (Some a)
  obtain h where h: "lease_out None (snd x) = Some h" "h = None \<or> h = Some (snd (ac_backend a))"
    using assms(2) Some by (auto simp: log_ok_def split: option.splits)
  show ?thesis using assms(1) Some h
    by (auto simp: releaseActive_def recorded_def recorded_acquire_def recorded_release_def Let_def log_ok_def lease_out_append finish_release_def keep_active_def
        split: prod.splits bool.splits option.splits)
qed

interpretation session: helper_invariant "\<lambda>w. recorded (bk w)" log_ok for bk :: "'w \<Rightarrow> ('l, 'd) backend"
proof
  show "log_ok (s\<lparr>sv_records := rs\<rparr>) x = log_ok s x" for s :: "('l \<times> string) server" and rs and x :: "'d \<times> lease_event list"
    by (simp add: log_ok_def split: option.splits)
qed (auto intro: acquire_log release_log)

text \<open>As long as the session goes on, no shutdown has been answered well.\<close>

definition running :: "'l server \<Rightarrow> bool" where
  "running s \<longleftrightarrow> (\<forall>i op r. map_of (sv_records s) i = Some (op, r) \<longrightarrow> \<not> (op = ''shutdown'' \<and> hr_ok r))"

lemma complete_acquire_running:
  assumes "\<forall>i op r. map_of rs i = Some (op, r) \<longrightarrow> \<not> (op = ''shutdown'' \<and> hr_ok r)"
    "map_of (complete_acquire k lease rs) i = Some (op, r)"
  shows "\<not> (op = ''shutdown'' \<and> hr_ok r)"
  using assms by (fastforce simp: complete_acquire_def completed_record_def split: option.splits if_splits prod.splits)

lemma releaseActive_running:
  assumes "releaseActive bk c i s d = (r, s', d')" "running s"
  shows "running s'"
  using assms complete_acquire_running [of "sv_records s"]
  by (auto simp: releaseActive_def finish_release_def keep_active_def Let_def running_def split: option.splits prod.splits bool.splits)

lemma acquire_journaled_records: "acquire_journaled bk c q i s d = (r, s', d') \<Longrightarrow> sv_records s' = sv_records s"
  by (auto simp: acquire_journaled_def Let_def split: prod.split_asm bool.split_asm sum.split_asm)

lemma acquire_running:
  assumes "acquire bk c q s d = (r, s', d')" "running s"
  shows "running s'"
proof -
  have "sv_records s' = sv_records s" using acquire_outcome [OF assms(1)]
    by (elim disjE exE conjE) (simp_all add: acquire_journaled_records)
  then show ?thesis using assms(2) by (simp add: running_def)
qed

lemma handle_running:
  assumes "handle_request bk c q s d = ((r, stop), s', d')" "running s"
  shows "if stop then sv_active s' = None else running s'"
proof (cases "s' = s \<and> d' = d \<and> map_of (sv_records s) (hq_id q) \<noteq> None \<or> \<not> stop \<and> s' = s")
  case True
  then show ?thesis using assms by (auto simp: handle_request_def running_def split: if_splits)
next
  case False
  obtain s1 where s1: "dispatch_helper bk c q s d = (r, s1, d')"
      "s' = s1\<lparr>sv_records := put (hq_id q) (hq_operation q, r) (sv_records s1)\<rparr>"
      "stop = (hq_operation q = ''shutdown'' \<and> hr_ok r)"
    using assms(1) False by (auto simp: handle_request_def split: if_splits option.splits prod.splits)
  have "running s1" using dispatch_outcome [OF s1(1)] assms(2)
    by (elim disjE conjE) (simp_all add: acquire_running [of bk c q s d] releaseActive_running [of bk c "hq_id q" s d])
  moreover have "sv_active s1 = None" if stop
    using s1(1,3) that releaseActive_ok(1) [of bk c "hq_id q" s d r s1 d'] by (auto simp: dispatch_helper_def split: if_splits)
  ultimately show ?thesis using s1(2,3) by (auto simp: running_def)
qed

lemma serve_lines_end:
  "running s \<Longrightarrow> serve_lines bk ls s d = (rs, Some Served, s', d') \<Longrightarrow> sv_active s' = None"
proof (induction ls arbitrary: s d rs)
  case (Cons cl ls)
  obtain c l where cl: "cl = (c, l)" by fastforce
  show ?case
  proof (cases l)
    case (Request_line q)
    obtain r stop s1 d1 where h: "handle_request (bk (hc_world c)) c q s d = ((r, stop), s1, d1)"
      by (metis prod.collapse)
    show ?thesis using Cons.IH [of s1 d1] Cons.prems(2) h cl Request_line handle_running [OF h Cons.prems(1)]
      by (auto split: if_splits prod.splits)
  qed (use Cons cl in \<open>auto split: if_splits prod.splits\<close>)
qed simp

lemma Serve_end:
  assumes "Serve bk ls c (NewServer elevated err dirs) d = (rs, Served, s, d')"
  shows "sv_active s = None"
proof -
  have start: "running (NewServer elevated err dirs)" by (simp add: running_def NewServer_def)
  obtain rs1 e1 s1 d1 where l: "serve_lines bk ls (NewServer elevated err dirs) d = (rs1, e1, s1, d1)" by (metis prod.collapse)
  show ?thesis
  proof (cases e1)
    case None
    have "sv_active s = None" if "at_end_of_input (bk (hc_world c)) c s1 d1 = (rs', Served, s, d')" for rs'
    proof (cases "sv_active s1")
      case None
      then show ?thesis using that by (simp add: at_end_of_input_def)
    next
      case (Some a)
      obtain r s2 d2 where rel: "releaseActive (bk (hc_world c)) c (''eof-'' @ wl_id (ac_lease a)) s1 d1 = (r, s2, d2)"
        by (metis prod_cases3)
      show ?thesis using that rel Some releaseActive_ok [OF rel]
        by (simp add: at_end_of_input_def split: option.splits)
    qed
    then show ?thesis using assms l None by (auto simp: Serve_def split: prod.splits)
  next
    case (Some e)
    then show ?thesis using assms l serve_lines_end [OF start] by (auto simp: Serve_def)
  qed
qed

text \<open>
  C26. The helper holds one lease at a time and gives it back: over any backend and any lines, a lease is taken
  only when the one before was given back, and when the session ends without an error, by a shutdown or the
  end of its input, none is out.
\<close>

theorem session_gives_back:
  assumes "Serve (\<lambda>w. recorded (bk w)) ls c (NewServer elevated err dirs) (d, []) = (rs, e, s, (d', log))"
  shows "\<exists>h. lease_out None log = Some h \<and> (if e = Served then h = None \<and> sv_active s = None else True)"
proof -
  have "log_ok (NewServer elevated err dirs) (d, [])" by (simp add: log_ok_def NewServer_def)
  then have "log_ok s (d', log)" by (rule session.Serve_keeps [OF _ assms])
  then obtain h where h: "lease_out None log = Some h" "sv_active s = None \<longrightarrow> h = None"
    by (auto simp: log_ok_def split: option.splits)
  show ?thesis
  proof (cases "e = Served")
    case True
    have "sv_active s = None" by (rule Serve_end [OF assms [unfolded True]])
    then show ?thesis using h by simp
  qed (use h in simp)
qed

section \<open>A session on a small disk\<close>

definition demo_store_lstat :: "string \<Rightarrow> file_kind file_read" where
  "demo_store_lstat p = (if p \<in> {''/store'', ''/parent'', ''/work'', ''/work/m''} then FileBytes A_directory else FileMissing)"

definition demo_nothing_in :: "string \<Rightarrow> nat option" where "demo_nothing_in p = Some 0"

definition demo_store_paths :: path_world where
  "demo_store_paths = \<lparr>pw_lstat = demo_store_lstat, pw_resolve = Some, pw_entries = demo_nothing_in\<rparr>"

definition demo_call :: "nat set \<Rightarrow> bool \<Rightarrow> unix_world helper_call" where
  "demo_call failing closed = \<lparr>hc_world = demo_unix {}, hc_paths = demo_store_paths, hc_lease_id = Some ''lease-1'', hc_pid = 7,
     hc_now = 0, hc_write_fails = among failing, hc_dir_fails = False, hc_list_fails = False, hc_output_fails = closed\<rparr>"

definition demo_ask :: "string \<Rightarrow> string \<Rightarrow> helper_request" where
  "demo_ask op i = \<lparr>hq_schema = 1, hq_operation = op, hq_id = i, hq_store = ''/store'', hq_workspace = ''/work'',
     hq_parent = ''/parent'', hq_child = ''/store/c'', hq_mount = ''/work/m'', hq_delete = True, hq_lease = ''lease-1''\<rparr>"

abbreviation demo_backend :: "unix_world \<Rightarrow> (unix_lease, disk) backend" where
  "demo_backend \<equiv> unix_backend ''linux'' ''linux-reflink''"

text \<open>
  The first line by hand: the paths are accepted, the journal is written, the backend acquires, and the lease
  is held, also when the answer cannot be written.
\<close>

definition demo_view :: helper_view where
  "demo_view = snd (write_journal (demo_call {} False) ''/store''
     (requested (demo_call {} False) ''linux-reflink'' (demo_ask ''acquire'' ''a'') ''lease-1'' []))"

definition demo_taken :: "(go_error + unix_lease \<times> backend_info) \<times> helper_view \<times> disk" where
  "demo_taken = unix_acquire (demo_unix {}) (transition (demo_call {} False) ''/store'')
    \<lparr>aq_parent = ''/parent'', aq_child = ''/store/c'', aq_mount = ''/work/m'', aq_store = ''/store'', aq_lease = ''lease-1''\<rparr>
    demo_view demo_disk"

lemma demo_ask_accepted: "case validateAcquirePaths demo_store_paths (demo_ask ''acquire'' ''a'') ''linux'' of
    Inr v \<Rightarrow> normalised v (demo_ask ''acquire'' ''a'') = demo_ask ''acquire'' ''a'' | _ \<Rightarrow> False"
  by code_simp

lemma demo_view_written: "write_journal (demo_call {} False) ''/store''
     (requested (demo_call {} False) ''linux-reflink'' (demo_ask ''acquire'' ''a'') ''lease-1'' []) = (True, demo_view)"
  by (simp add: demo_view_def write_journal_def demo_call_def among_def)

lemma demo_taken_held: "case demo_taken of (Inr (l, i), x) \<Rightarrow> \<not> ul_released l | _ \<Rightarrow> False"
  by code_simp

lemma demo_ask_fields [simp]:
  "hq_schema (demo_ask op i) = 1" "hq_operation (demo_ask op i) = op" "hq_id (demo_ask op i) = i"
  "hq_store (demo_ask op i) = ''/store''" "hq_parent (demo_ask op i) = ''/parent''" "hq_child (demo_ask op i) = ''/store/c''"
  "hq_mount (demo_ask op i) = ''/work/m''"
  by (simp_all add: demo_ask_def)

lemma demo_call_fields [simp]:
  "hc_world (demo_call n o1) = demo_unix {}" "hc_paths (demo_call n o1) = demo_store_paths" "hc_lease_id (demo_call n o1) = Some ''lease-1''"
  "hc_output_fails (demo_call n o1) = o1"
  by (simp_all add: demo_call_def)

lemma demo_output [simp]:
  "write_journal (demo_call n True) = write_journal (demo_call n False)" "transition (demo_call n True) = transition (demo_call n False)"
  "requested (demo_call n True) = requested (demo_call n False)"
  by (simp_all add: fun_eq_iff write_journal_def transition_def requested_def demo_call_def)

lemma demo_line_acquires:
  obtains r s a d where
    "handle_request (demo_backend (demo_unix {})) (demo_call {} closed) (demo_ask ''acquire'' ''a'') (NewServer False False []) demo_disk
       = ((r, False), s, d)"
    "sv_active s = Some a" "\<not> ul_released (ac_backend a)" "hq_store (ac_request a) = ''/store''"
proof -
  let ?c = "demo_call {} closed" and ?q = "demo_ask ''acquire'' ''a''"
  obtain v where v: "validateAcquirePaths demo_store_paths ?q ''linux'' = Inr v" "normalised v ?q = ?q"
    using demo_ask_accepted by (auto split: sum.splits)
  obtain l i v1 d1 where t: "demo_taken = (Inr (l, i), v1, d1)" "\<not> ul_released l"
    using demo_taken_held by (auto split: prod.splits sum.splits)
  have store: "vp_store v = ''/store''" using arg_cong [OF v(2), of hq_store] by (simp add: normalised_def)
  have id_ok: "requestID_ok ''a''" by code_simp
  obtain a r where run: "acquire_journaled (demo_backend (demo_unix {})) ?c ?q ''lease-1'' (NewServer False False []) demo_disk
      = (r, (NewServer False False [])\<lparr>sv_journals := hv_dirs v1, sv_active := Some a\<rparr>, d1)" "ac_backend a = l" "ac_request a = ?q"
    using t(1) demo_view_written
    by (cases closed) (simp_all add: acquire_journaled_def NewServer_def unix_backend_def demo_taken_def Let_def)
  then have "handle_request (demo_backend (demo_unix {})) ?c ?q (NewServer False False []) demo_disk = ((r, False),
      (NewServer False False [])\<lparr>sv_journals := hv_dirs v1, sv_active := Some a, sv_records := [(''a'', ''acquire'', r)]\<rparr>, d1)"
    using v store id_ok by (simp add: handle_request_def dispatch_helper_def acquire_def NewServer_def FindOrphans_def unix_backend_def)
  then show thesis using that t(2) run(2,3) by simp
qed

definition demo_input :: "bool \<Rightarrow> (unix_world helper_call \<times> input_line) list" where
  "demo_input closed = [(demo_call {} closed, Request_line (demo_ask ''acquire'' ''a''))]"

lemma dead_helper_noticed_witness:
  "\<exists>s d a. snd (serve_lines demo_backend (demo_input False) (NewServer False False []) demo_disk) = (None, s, d) \<and>
     sv_active s = Some a \<and> \<not> ul_released (ac_backend a) \<and>
     (case acquire (demo_backend (demo_unix {})) (demo_call {} False) (demo_ask ''acquire'' ''b'') (NewServer False False (sv_journals s)) d of
        (r, s', d3) \<Rightarrow> \<not> hr_ok r \<and> sv_active s' = None \<and> d3 = d)"
proof -
  obtain r s a d where h: "handle_request (demo_backend (demo_unix {})) (demo_call {} False) (demo_ask ''acquire'' ''a'')
        (NewServer False False []) demo_disk = ((r, False), s, d)"
      "sv_active s = Some a" "\<not> ul_released (ac_backend a)" "hq_store (ac_request a) = ''/store''"
    by (rule demo_line_acquires)
  have run: "serve_lines demo_backend (demo_input False) (NewServer False False []) demo_disk = ([shown s r], None, s, d)"
    using h(1) by (simp add: demo_input_def)
  have "Clean ''/store'' = ''/store''" by code_simp
  then have "Clean (hq_store (demo_ask ''acquire'' ''b'')) = hq_store (ac_request a)" using h(4) by simp
  moreover obtain r' s' d3 where later: "acquire (demo_backend (demo_unix {})) (demo_call {} False) (demo_ask ''acquire'' ''b'')
      (NewServer False False (sv_journals s)) d = (r', s', d3)"
    by (metis prod_cases3)
  ultimately have "\<not> hr_ok r' \<and> sv_active s' = None \<and> d3 = d" by (rule dead_helper_noticed [OF run h(2,3)])
  then show ?thesis using run h(2,3) later by auto
qed

text \<open>When the answer cannot be written, the helper stops and keeps the lease.\<close>

lemma closed_output_keeps_the_lease:
  "\<exists>s d a. Serve demo_backend (demo_input True) (demo_call {} True) (NewServer False False []) demo_disk = ([], Output_closed, s, d) \<and>
     sv_active s = Some a \<and> \<not> ul_released (ac_backend a)"
proof -
  obtain r s a d where "handle_request (demo_backend (demo_unix {})) (demo_call {} True) (demo_ask ''acquire'' ''a'')
        (NewServer False False []) demo_disk = ((r, False), s, d)"
      "sv_active s = Some a" "\<not> ul_released (ac_backend a)"
    by (rule demo_line_acquires)
  then show ?thesis by (simp add: Serve_def demo_input_def)
qed

text \<open>A journal that cannot be written while the backend acquires is answered as an invalid request.\<close>

lemma journal_failure_misreported:
  "case unix_acquire (demo_unix {}) (transition (demo_call {1} False) ''/store'')
    \<lparr>aq_parent = ''/parent'', aq_child = ''/store/c'', aq_mount = ''/work/m'', aq_store = ''/store'', aq_lease = ''lease-1''\<rparr>
    demo_view demo_disk of
    (Inl e, x) \<Rightarrow> hr_error (responseError ''a'' e) = Some ''invalid-request'' | _ \<Rightarrow> False"
  by code_simp

text \<open>A session on a backend that keeps nothing but the number of its calls: an acquisition and the end of the input.\<close>

definition counting_backend :: "unit \<Rightarrow> (unit, nat) backend" where
  "counting_backend w = \<lparr>bk_platform = ''linux'', bk_provider = ''counting'', bk_supported = True, bk_requires = False,
     bk_acquire = (\<lambda>notify q v d. (Inr ((), \<lparr>bi_parent = aq_parent q, bi_child = aq_child q, bi_physical = aq_child q,
       bi_volume = [], bi_mount = aq_mount q\<rparr>), v, Suc d)),
     bk_release = (\<lambda>notify l delete v d. (None, l, v, Suc d))\<rparr>"

definition counting_call :: "unit helper_call" where
  "counting_call = \<lparr>hc_world = (), hc_paths = demo_store_paths, hc_lease_id = Some ''lease-1'', hc_pid = 7,
     hc_now = 0, hc_write_fails = among {}, hc_dir_fails = False, hc_list_fails = False, hc_output_fails = False\<rparr>"

definition counting_session where
  "counting_session = Serve (\<lambda>w. recorded (counting_backend w)) [(counting_call, Request_line (demo_ask ''acquire'' ''a''))]
     counting_call (NewServer False False []) (0, [])"

lemma counting_session_runs:
  "case counting_session of (rs, e, s, d, log) \<Rightarrow> e = Served \<and> log = [Took ''lease-1'', Gave ''lease-1'']"
  by code_simp

lemma session_gives_back_witness:
  "case counting_session of (rs, e, s, d, log) \<Rightarrow> e = Served \<and> log = [Took ''lease-1'', Gave ''lease-1''] \<and>
     lease_out None log = Some None \<and> sv_active s = None"
proof -
  obtain rs e s d log where run: "counting_session = (rs, e, s, d, log)" by (metis prod_cases5)
  from session_gives_back [OF run [unfolded counting_session_def]] counting_session_runs show ?thesis
    unfolding run by auto
qed

end
