(* ===== verification/Spec2Isabelle.thy ===== *)
theory Spec2Isabelle
  imports RunId GoPath Status Ipc Config Scenario NUnitParser History Artifacts ListCache UnityExec BridgeExec
    ScenarioRunner CopyPool ShadowWorkspace WorkspaceLease RunServiceProps TestList Capability ScenarioRun VhdxClaims
    ImageWorkspace VhdxClientProps StorageHelperProps
begin

text \<open>
  Verification of testplay-runner, a command line tool in Go that runs the tests of a Unity project for
  an automated caller: it starts Unity, or asks a running editor, watches the run, reads the results and
  leaves a history, artifacts and a status file that other programs poll. Exit codes, statuses and files
  are its interface, and the theorems are about them.

  \<^bold>\<open>The program and its theories.\<close>

  \<^item> A run. \<open>RunService\<close> is \<^verbatim>\<open>internal/runsvc/service.go\<close>: identifier (\<open>RunId\<close>,
    \<^verbatim>\<open>internal/runid\<close>), workspace, one of three ways to run (warm editor, cold, shadow), comparison
    with an earlier run, persistence, pruning. It calls the models of the other parts, and
    \<open>RunServiceProps\<close> proves what a whole run guarantees.
  \<^item> Unity. \<open>UnityExec\<close> is \<^verbatim>\<open>internal/unity/executor.go\<close>, \<^verbatim>\<open>runner.go\<close> and
    \<^verbatim>\<open>discover.go\<close>: one or two processes, deadlines, classification into exit codes.
    \<open>Compiler\<close> scrapes the standard error, of which \<open>TailBuffer\<close> keeps the end; \<open>NUnitParser\<close>
    (\<^verbatim>\<open>internal/parser\<close>) reads the results.
  \<^item> The warm editor. \<open>Bridge\<close> (\<^verbatim>\<open>internal/bridge\<close>) is the client of the file protocol between
    the runner and the editor, \<open>BridgeExec\<close> (\<^verbatim>\<open>internal/unity/bridge_executor.go\<close>) turns its
    outcomes into results or into a fall-back to a cold run.
  \<^item> What others read. \<open>Status\<close> (\<^verbatim>\<open>internal/status\<close>, the ready notifier of scenarios and the
    stamping writer of runs), \<open>History\<close> and \<open>Artifacts\<close> over \<open>Retention\<close>
    (\<^verbatim>\<open>internal/history\<close>, \<^verbatim>\<open>internal/artifacts\<close>), \<open>ListCache\<close>
    (\<^verbatim>\<open>internal/listcache\<close>).
  \<^item> Scenarios. \<open>Scenario\<close> (\<^verbatim>\<open>internal/scenario/spec.go\<close>) loads a file of several instances
    with dependencies, \<open>ScenarioRunner\<close> (\<^verbatim>\<open>runner.go\<close>) runs them, one goroutine each, \<open>Ipc\<close>
    over \<open>LineTail\<close> (\<^verbatim>\<open>internal/ipc\<close>) is the bus they talk on.
  \<^item> Workspaces. \<open>Shadow\<close>, \<open>ShadowWorkspace\<close> and \<open>CopyPool\<close> (\<^verbatim>\<open>internal/shadow\<close>) make a
    private copy of the project and keep a Library cache; \<open>WorkspaceLease\<close>
    (\<^verbatim>\<open>internal/runsvc/workspace_provider.go\<close>) chooses where a run works and gives it back.
  \<^item> The VHDX broker. \<open>VhdxStore\<close> and \<open>VhdxBroker\<close> (\<^verbatim>\<open>internal/vhdxworkspace\<close>: \<^verbatim>\<open>store.go\<close>,
    \<^verbatim>\<open>broker.go\<close>) are the privileged service that builds parent disk images, leases differencing
    children to runs, collects unused parents and recovers after a crash. \<open>VhdxInvariant\<close> and
    \<open>VhdxBrokerProps\<close> hold the invariant of its store, \<open>VhdxClaims\<close> its properties.
  \<^item> Library images. \<open>TreeDigest\<close> has the digests of directories and the key of an image
    (\<^verbatim>\<open>internal/libraryimage/key.go\<close>), \<open>ImageLock\<close> the lock file that serialises their creation
    (\<^verbatim>\<open>lock.go\<close>), one step per file operation, \<open>LibraryImage\<close> the store (\<^verbatim>\<open>store.go\<close>);
    \<open>ImageWorkspace\<close> is the preparation of a workspace from an image (\<^verbatim>\<open>prepareImageWorkspace\<close> in
    \<^verbatim>\<open>internal/runsvc/workspace_backend.go\<close>, with \<^verbatim>\<open>internal/librarymaterializer\<close>).
  \<^item> The client of the broker. \<open>LocalPackages\<close> has the compatibility key, the source snapshot and the
    overrides of local packages (\<^verbatim>\<open>key.go\<close>, \<^verbatim>\<open>local_packages.go\<close> of
    \<^verbatim>\<open>internal/vhdxworkspace\<close>), \<open>VhdxClient\<close> the preparation, heartbeats, monitor and release of a
    run (\<^verbatim>\<open>internal/runsvc/vhdx_workspace.go\<close>, \<^verbatim>\<open>client.go\<close>) over any function that answers
    requests; \<open>VhdxClientProps\<close> puts it beside the model of the broker, with other clients in between.
  \<^item> The storage helper. \<open>StorageBackend\<close> is the copy-on-write backend on Unix
    (\<^verbatim>\<open>internal/vhdxstorage/lifecycle_unix.go\<close>): a clone with an ownership marker, mounted by a
    symbolic link, and removed by way of a quarantine name. \<open>StoragePaths\<close> has the paths it accepts
    (\<^verbatim>\<open>internal/storagehelper/paths.go\<close>), \<open>StorageHelper\<close> the process that serves requests line by
    line, holds one lease and writes journals (\<^verbatim>\<open>server.go\<close>, \<^verbatim>\<open>journal.go\<close>); what they
    guarantee is in \<open>StorageBackendProps\<close> and \<open>StorageHelperProps\<close>.
  \<^item> The commands (\<^verbatim>\<open>cmd/testplay\<close>). \<open>Cli\<close>: \<^verbatim>\<open>run\<close>, \<^verbatim>\<open>check\<close>, \<^verbatim>\<open>init\<close> and
    \<^verbatim>\<open>result\<close>, from flags and files to what is printed and the exit code, around one call of
    \<open>RunService\<close>; \<open>TestList\<close>: \<^verbatim>\<open>list\<close>, from the cache or by a static scan; \<open>Capability\<close>: the
    commands for an owned editor, around the strict probe and the client of \<open>Bridge\<close>; \<open>ScenarioRun\<close>:
    \<^verbatim>\<open>run --scenario\<close>, which checks the file and every configuration, isolates instances that may
    share a project, and drives the runs of \<open>RunService\<close> by \<open>ScenarioRunner\<close>.
  \<^item> \<open>Config\<close> (\<^verbatim>\<open>internal/config\<close>) and \<open>GoPath\<close> (the part of \<^verbatim>\<open>path/filepath\<close> that is
    used) serve all of them; \<open>Prelude\<close> holds what the theories share about bytes, strings, decimals
    and lists, \<open>Machine\<close> what they share about event-driven machines.

  \<^bold>\<open>How the code is modelled.\<close> A struct is a record, an enumeration a datatype, an error a datatype in a
  sum or option, a directory an association list of its entries, a Go string a list of bytes, an
  \<^verbatim>\<open>int\<close> an integer, with the 64-bit wrap-around (\<open>wrap64\<close>) where a claim depends on it. A function of
  the code is a definition of the same name that threads the state it changes, every early return a
  branch. What the code cannot decide itself - the clock, random bytes, whether a file operation fails,
  what Unity or the platform answers - is an argument: a record of answers per call. JSON encoding and
  decoding, which the standard library does, are parameters; where a claim needs it, that decoding gives
  back what was encoded is a named hypothesis with a concrete instance in the witness.

  \<^bold>\<open>Goroutines.\<close> The copy pool, the orchestrator and the broker are machines: a state, an event per
  thing that can happen next, a partial step function, and runs over lists of events, so that a theorem
  about all lists is one about all interleavings. \<open>machine\<close> (\<open>Machine\<close>) is the locale of their laws and
  \<open>terminating_machine\<close> of those with a measure. The pollers of growing files are lists of appends and
  polls.

  \<^bold>\<open>Interfaces.\<close> \<open>forwarding_writer\<close> (\<open>Status\<close>): a writer that passes every status on, for the chain
  of notifier, stamper and manager. \<open>line_handler\<close> (\<open>LineTail\<close>): a consumer of a tailed file, for the
  bus and the bridge's progress. \<open>run_directory\<close> (\<open>Retention\<close>): a directory of runs that can be
  pruned, for results and artifacts. \<open>result_store\<close> (\<open>History\<close>): saving and loading.
  \<open>keeping_client\<close> (\<open>VhdxClientProps\<close>): a broker whose answers keep an invariant, for a run as its
  client. \<open>helper_invariant\<close> and \<open>storage_backend\<close> (\<open>StorageHelperProps\<close>): what a session of the
  storage helper keeps, and what it relies on of its backend. Each is interpreted on the definitions of the components that provide it.

  \<^bold>\<open>What the lemmas show.\<close> Per component: an invariant that every operation keeps (statuses of an
  execution, a validated configuration, an accepted scenario, the orchestrator's soundness, the pool's
  accounting, the broker's store); what each operation answers on every branch; round trips (history,
  bus, compile errors, relative paths); refinement of a simpler description (the ring buffer is the tail
  of what was written, a write-back replaces the whole cache or nothing); termination and progress of
  the concurrent parts; and what the failures the code tolerates lead to.

  \<^bold>\<open>Bounds.\<close> No definition needs fuel: loops of the code are recursions on lists of entries, lines or
  events. The poll loop of the bridge runs over the list of snapshots it sees, so that its length is an
  argument and not a limit; deadlines are answers of the environment at a snapshot. In the same way the
  number of times a client waits for a parent disk and of the ticks of its monitor are arguments. A
  process alone at the lock of an image is followed for nine steps, which lemma \<open>alone_ends\<close> shows to be
  enough whatever the file system answers.

  \<^bold>\<open>Not modelled.\<close> Parsing of flags, printing of JSON and the wording of messages; the storage commands
  of \<^verbatim>\<open>cmd/testplay\<close>. SHA-256, a parameter. The Windows volume code behind the
  interfaces used here: \<^verbatim>\<open>mountedcopy\<close>, the Windows half of \<^verbatim>\<open>vhdxstorage\<close>,
  \<^verbatim>\<open>vhdxprobe\<close>, \<^verbatim>\<open>refsworkspace\<close> and the benchmark programs built on them, which are
  sequences of calls of the Windows disk interfaces and experiments that measure them; the platform
  parts of \<^verbatim>\<open>vhdxworkspace\<close> (pipe, service, native disks), which are the \<open>native\<close> answers of the
  broker's model. The measurements of the storage helper and its backends. Reparse points, access control lists and allocated sizes of files. The editor's half
  of the bridge, which is written in another language. Log files of a run are opened but their content is not followed, and
  heartbeats are modelled as a status operation but not as statuses of a run.
\<close>

end
